(* ===== verification/Prelude.thy ===== *)
theory Prelude
  imports Main "HOL-Library.Word" "HOL-Library.Monad_Syntax"
begin

text \<open>
  Shared vocabulary of the development.

  \<^bold>\<open>Integers.\<close> Unsigned Rust integers are natural numbers together with their bound
  (\<open>u64_max\<close>, \<open>u32_max\<close>, \<open>u16_max\<close>); the checked operations below return \<open>None\<close> where
  the Rust expression leaves the range of its type.  Where the source itself asks for
  wrap-around arithmetic the component uses \<open>'n word\<close> instead.

  \<^bold>\<open>Panics.\<close> A Rust function that can panic returns an \<open>option\<close>: \<open>None\<close> is the panic (an
  explicit \<open>panic!\<close>, \<open>unreachable!\<close>, \<open>expect\<close>, \<open>unwrap\<close>, or an arithmetic overflow, which
  panics in a build with overflow checks).  A theorem that such a function returns
  \<open>Some\<close> therefore also says that no overflow happens, so the same value is computed in a
  build where overflow would wrap silently.  Panicking code is composed with the option
  monad's \<open>do\<close> notation.

  \<^bold>\<open>Errors.\<close> A Rust \<open>Result\<close> is a sum with the error on the left.
\<close>

unbundle bit_operations_syntax

section \<open>Panics and results\<close>

type_synonym 'a may_panic = "'a option"

abbreviation (input) panic :: "'a may_panic" where
  "panic \<equiv> None"

abbreviation (input) ret :: "'a \<Rightarrow> 'a may_panic" where
  "ret \<equiv> Some"

abbreviation (input) Err :: "'e \<Rightarrow> 'e + 'a" where
  "Err \<equiv> Inl"

abbreviation (input) Ok :: "'a \<Rightarrow> 'e + 'a" where
  "Ok \<equiv> Inr"

named_theorems panic_simps \<open>unfolding of the checked operations\<close>

declare Option.bind_eq_Some_conv [simp]

section \<open>Bounded unsigned arithmetic\<close>

definition u64_max :: nat where "u64_max = 2 ^ 64 - 1"
definition u32_max :: nat where "u32_max = 2 ^ 32 - 1"
definition u16_max :: nat where "u16_max = 2 ^ 16 - 1"
definition u8_max :: nat where "u8_max = 2 ^ 8 - 1"

lemma u64_max_val: "u64_max = 18446744073709551615" by (simp add: u64_max_def)
lemma u32_max_val: "u32_max = 4294967295" by (simp add: u32_max_def)
lemma u16_max_val: "u16_max = 65535" by (simp add: u16_max_def)
lemma u8_max_val: "u8_max = 255" by (simp add: u8_max_def)

lemmas u_max_vals = u64_max_val u32_max_val u16_max_val u8_max_val

text \<open>\<open>checked_add m a b\<close> and \<open>checked_sub a b\<close>: \<open>None\<close> when the result does not fit.\<close>

definition checked_add :: "nat \<Rightarrow> nat \<Rightarrow> nat \<Rightarrow> nat option" where
  "checked_add m a b = (if a + b \<le> m then Some (a + b) else None)"

definition checked_sub :: "nat \<Rightarrow> nat \<Rightarrow> nat option" where
  "checked_sub a b = (if b \<le> a then Some (a - b) else None)"

definition checked_mul :: "nat \<Rightarrow> nat \<Rightarrow> nat \<Rightarrow> nat option" where
  "checked_mul m a b = (if a * b \<le> m then Some (a * b) else None)"

lemmas [panic_simps] = checked_add_def checked_sub_def checked_mul_def

text \<open>The bitwise complement of a 64-bit value.\<close>

definition not64 :: "nat \<Rightarrow> nat" where
  "not64 x = mask 64 XOR x"

lemma and_pred_zero_power2:
  fixes x :: nat
  assumes "x AND (x - 1) = 0" "0 < x"
  shows "\<exists>k. x = 2 ^ k"
  using assms
proof (induction x rule: less_induct)
  case (less x)
  show ?case
  proof (cases "even x")
    case True
    then obtain y where y: "x = 2 * y" by blast
    with less.prems have "0 < y" by simp
    then have "x AND (x - 1) = 2 * (y AND (y - 1))"
      unfolding y by (subst and_rec) (simp, (cases y; simp))
    then have "y AND (y - 1) = 0" using less.prems by simp
    then obtain k where "y = 2 ^ k" using less.IH [of y] \<open>0 < y\<close> y by auto
    then have "x = 2 ^ Suc k" using y by simp
    then show ?thesis by blast
  next
    case False
    then obtain y where y: "x = 2 * y + 1" by (metis oddE)
    then have "x AND (x - 1) = 2 * y" by (subst and_rec) simp
    then have "x = 2 ^ 0" using less.prems y by simp
    then show ?thesis by blast
  qed
qed

lemma and_not64_mask:
  fixes v :: nat
  assumes v: "v \<le> u64_max"
  shows "v AND not64 (2 ^ k - 1) = v - v mod 2 ^ k"
proof -
  have lt: "v < 2 ^ 64" using v by (simp add: u64_max_def)
  have "v AND not64 (mask k) = push_bit k (drop_bit k v)"
  proof (rule bit_eqI)
    fix n
    have "bit v n \<Longrightarrow> n < 64" using lt
      by (metis bit_take_bit_iff take_bit_nat_eq_self)
    then show "bit (v AND not64 (mask k)) n = bit (push_bit k (drop_bit k v)) n"
      by (auto simp: not64_def bit_and_iff bit_xor_iff bit_mask_iff bit_push_bit_iff bit_drop_bit_eq)
  qed
  also have "\<dots> = v - v mod 2 ^ k"
    by (simp add: push_bit_eq_mult drop_bit_eq_div minus_mod_eq_div_mult)
  finally show ?thesis by (simp add: mask_eq_exp_minus_1)
qed

text \<open>Rounding up to a power of two: \<open>(v + (a - 1)) & !(a - 1)\<close>.\<close>

lemma align_up_pow2:
  fixes v :: nat
  assumes a: "a AND (a - 1) = 0" "0 < a" and b: "v + (a - 1) \<le> u64_max"
  defines "w \<equiv> (v + (a - 1)) AND not64 (a - 1)"
  shows "v \<le> w" and "w < v + a" and "a dvd w"
proof -
  obtain k where k: "a = 2 ^ k" using and_pred_zero_power2 [OF a] by blast
  have w: "w = (v + (a - 1)) - (v + (a - 1)) mod a"
    unfolding w_def using and_not64_mask [OF b, of k] k by simp
  have m: "(v + (a - 1)) mod a < a" using a(2) by simp
  show "a dvd w" unfolding w by (rule dvd_minus_mod)
  show "v \<le> w" "w < v + a" using m w a(2) by linarith+
qed

section \<open>Lists\<close>

lemma find_append: "List.find P (xs @ ys) = (case List.find P xs of None \<Rightarrow> List.find P ys | Some x \<Rightarrow> Some x)"
  by (induction xs) auto

lemma find_None_all: "(List.find P xs = None) = (\<forall>x \<in> set xs. \<not> P x)"
  by (induction xs) auto

lemma find_SomeD: "List.find P xs = Some x \<Longrightarrow> x \<in> set xs \<and> P x"
  by (induction xs) (auto split: if_splits)

end
