(* ===== verification/AllocRange.thy ===== *)
theory AllocRange
  imports Prelude
begin

text \<open>
  The data types of the allocator crate (\<open>dbs_allocator/src/lib.rs\<close> and the \<open>Range\<close> and
  \<open>NodeState\<close> types of \<open>dbs_allocator/src/interval_tree.rs\<close>): allocation constraints,
  closed ranges of \<open>u64\<close> values and the state of a range.
\<close>

section \<open>Constraints\<close>

datatype alloc_error = InvalidBoundary nat nat

datatype AllocPolicy = Default | FirstMatch

record Constraint =
  csize :: nat
  cmin :: nat
  cmax :: nat
  calign :: nat
  cpolicy :: AllocPolicy

definition Constraint_new :: "nat \<Rightarrow> Constraint" where
  "Constraint_new sz = \<lparr>csize = sz, cmin = 0, cmax = u64_max, calign = 1, cpolicy = Default\<rparr>"

definition Constraint_min :: "Constraint \<Rightarrow> nat \<Rightarrow> Constraint" where
  "Constraint_min c m = c\<lparr>cmin := m\<rparr>"

definition Constraint_max :: "Constraint \<Rightarrow> nat \<Rightarrow> Constraint" where
  "Constraint_max c m = c\<lparr>cmax := m\<rparr>"

definition Constraint_align :: "Constraint \<Rightarrow> nat \<Rightarrow> Constraint" where
  "Constraint_align c a = c\<lparr>calign := a\<rparr>"

definition Constraint_policy :: "Constraint \<Rightarrow> AllocPolicy \<Rightarrow> Constraint" where
  "Constraint_policy c p = c\<lparr>cpolicy := p\<rparr>"

definition Constraint_validate :: "Constraint \<Rightarrow> alloc_error + unit" where
  "Constraint_validate c =
     (if cmax c < cmin c then Err (InvalidBoundary (cmin c) (cmax c)) else Ok ())"

lemmas constraint_defs [simp] =
  Constraint_new_def Constraint_min_def Constraint_max_def Constraint_align_def Constraint_policy_def

section \<open>Ranges\<close>

record Range =
  rmin :: nat
  rmax :: nat

definition range_new :: "nat \<Rightarrow> nat \<Rightarrow> Range may_panic" where
  "range_new lo hi =
     (if lo > hi \<or> (lo = 0 \<and> hi = u64_max) then panic else ret \<lparr>rmin = lo, rmax = hi\<rparr>)"

definition range_with_size :: "nat \<Rightarrow> nat \<Rightarrow> Range may_panic" where
  "range_with_size base sz = do {
     umax \<leftarrow> checked_add u64_max sz base;
     if base > umax \<or> (base = 0 \<and> umax = u64_max) then panic
     else ret \<lparr>rmin = base, rmax = umax\<rparr> }"

definition range_new_point :: "nat \<Rightarrow> Range" where
  "range_new_point v = \<lparr>rmin = v, rmax = v\<rparr>"

definition range_len :: "Range \<Rightarrow> nat may_panic" where
  "range_len r = do { d \<leftarrow> checked_sub (rmax r) (rmin r); checked_add u64_max d 1 }"

definition range_is_empty :: "Range \<Rightarrow> bool" where
  "range_is_empty r = False"

definition range_intersect :: "Range \<Rightarrow> Range \<Rightarrow> bool" where
  "range_intersect a b = (max (rmin a) (rmin b) \<le> min (rmax a) (rmax b))"

definition range_contain :: "Range \<Rightarrow> Range \<Rightarrow> bool" where
  "range_contain a b = (rmin a \<le> rmin b \<and> rmax a \<ge> rmax b)"

definition range_align_to :: "Range \<Rightarrow> nat \<Rightarrow> Range option may_panic" where
  "range_align_to r align =
     (if align = 0 \<or> align = 1 then ret (Some r)
      else if align AND (align - 1) \<noteq> 0 then ret None
      else (case map_option (\<lambda>v. v AND not64 (align - 1)) (checked_add u64_max (rmin r) (align - 1)) of
              Some m \<Rightarrow> if m \<le> rmax r then map_option Some (range_new m (rmax r)) else ret None
            | None \<Rightarrow> ret None))"

datatype Ordering = Less | Equal | Greater

definition nat_cmp :: "nat \<Rightarrow> nat \<Rightarrow> Ordering" where
  "nat_cmp a b = (if a < b then Less else if a = b then Equal else Greater)"

definition range_cmp :: "Range \<Rightarrow> Range \<Rightarrow> Ordering" where
  "range_cmp a b =
     (case nat_cmp (rmin a) (rmin b) of Equal \<Rightarrow> nat_cmp (rmax a) (rmax b) | res \<Rightarrow> res)"

section \<open>Node states\<close>

datatype 'a NodeState = Free | Allocated | Valued 'a

definition ns_is_free :: "'a NodeState \<Rightarrow> bool" where
  "ns_is_free s = (case s of Free \<Rightarrow> True | _ \<Rightarrow> False)"

definition ns_to_option :: "'a NodeState \<Rightarrow> 'a option" where
  "ns_to_option s = (case s of Free \<Rightarrow> None | Allocated \<Rightarrow> None | Valued x \<Rightarrow> Some x)"

lemma ns_is_free_iff [simp]: "ns_is_free s = (s = Free)"
  by (cases s) (auto simp: ns_is_free_def)

section \<open>Facts about ranges\<close>

text \<open>
  A range the tree may hold: nonempty, within \<open>u64\<close>, and not all of \<open>u64\<close> (whose
  length does not fit in a \<open>u64\<close>).  This is exactly what \<open>Range::new\<close> accepts.
\<close>

definition range_ok :: "Range \<Rightarrow> bool" where
  "range_ok r \<longleftrightarrow> rmin r \<le> rmax r \<and> rmax r \<le> u64_max \<and> \<not> (rmin r = 0 \<and> rmax r = u64_max)"

definition range_pts :: "Range \<Rightarrow> nat set" where
  "range_pts r = {rmin r .. rmax r}"

lemma range_eq_iff: "a = b \<longleftrightarrow> rmin a = rmin b \<and> rmax a = rmax b" for a b :: Range
  by (cases a; cases b) simp

lemma range_new_Some [simp]:
  "range_new lo hi = Some r \<longleftrightarrow> lo \<le> hi \<and> \<not> (lo = 0 \<and> hi = u64_max) \<and> r = \<lparr>rmin = lo, rmax = hi\<rparr>"
  by (auto simp: range_new_def)

lemma range_new_ok: "range_new lo hi = Some r \<Longrightarrow> hi \<le> u64_max \<Longrightarrow> range_ok r"
  by (auto simp: range_ok_def)

lemma range_len_ok: "range_ok r \<Longrightarrow> range_len r = Some (rmax r - rmin r + 1)"
  by (auto simp: range_len_def range_ok_def panic_simps)

lemma range_len_card: "range_ok r \<Longrightarrow> range_len r = Some (card (range_pts r))"
  by (auto simp: range_len_ok range_pts_def range_ok_def)

lemma range_cmp_simps:
  "range_cmp a b = Equal \<longleftrightarrow> a = b"
  "range_cmp a b = Less \<longleftrightarrow> rmin a < rmin b \<or> (rmin a = rmin b \<and> rmax a < rmax b)"
  "range_cmp a b = Greater \<longleftrightarrow> rmin b < rmin a \<or> (rmin a = rmin b \<and> rmax b < rmax a)"
  by (auto simp: range_cmp_def nat_cmp_def range_eq_iff split: Ordering.splits if_splits)

lemma range_intersect_pts:
  "range_intersect a b \<longleftrightarrow> range_pts a \<inter> range_pts b \<noteq> {}"
  by (auto simp: range_intersect_def range_pts_def)

lemma range_contain_pts: "range_ok b \<Longrightarrow> range_contain a b \<longleftrightarrow> range_pts b \<subseteq> range_pts a"
  by (auto simp: range_contain_def range_pts_def range_ok_def)

text \<open>Inside an acceptable range \<open>align_to\<close> never panics, and what it returns is the part of
  the range from the first multiple of the alignment on.\<close>

lemma range_align_to_Some:
  assumes "range_ok r"
  shows "range_align_to r a \<noteq> None"
    and "range_align_to r a = Some (Some s) \<Longrightarrow>
           rmax s = rmax r \<and> rmin r \<le> rmin s \<and> rmin s \<le> rmax s \<and> (0 < a \<longrightarrow> a dvd rmin s) \<and> rmin s < rmin r + max 1 a"
proof -
  show "range_align_to r a \<noteq> None"
  proof (cases "a = 0 \<or> a = 1 \<or> a AND (a - 1) \<noteq> 0 \<or> u64_max < rmin r + (a - 1)")
    case True
    then show ?thesis by (auto simp: range_align_to_def panic_simps)
  next
    case False
    then have a: "a AND (a - 1) = 0" "0 < a" and b: "rmin r + (a - 1) \<le> u64_max" by auto
    define m where "m = (rmin r + (a - 1)) AND not64 (a - 1)"
    have "rmin r \<le> m" unfolding m_def by (rule align_up_pow2(1) [OF a b])
    moreover have "range_align_to r a =
      (if m \<le> rmax r then map_option Some (range_new m (rmax r)) else Some None)"
      using False a b by (simp add: range_align_to_def panic_simps m_def)
    ultimately show ?thesis
      using assms by (auto simp: range_new_def range_ok_def)
  qed
next
  assume eq: "range_align_to r a = Some (Some s)"
  show "rmax s = rmax r \<and> rmin r \<le> rmin s \<and> rmin s \<le> rmax s \<and> (0 < a \<longrightarrow> a dvd rmin s) \<and> rmin s < rmin r + max 1 a"
  proof (cases "a = 0 \<or> a = 1")
    case True
    with eq assms show ?thesis by (auto simp: range_align_to_def range_ok_def)
  next
    case False
    with eq have a: "a AND (a - 1) = 0" "0 < a" and b: "rmin r + (a - 1) \<le> u64_max"
      by (auto simp: range_align_to_def panic_simps split: if_splits)
    define m where "m = (rmin r + (a - 1)) AND not64 (a - 1)"
    note al = align_up_pow2 [OF a b, folded m_def]
    from eq False a b have "s = \<lparr>rmin = m, rmax = rmax r\<rparr>" and "rmin s \<le> rmax s"
      by (auto simp: range_align_to_def panic_simps m_def split: if_splits)
    with al False show ?thesis by (simp add: max_def)
  qed
qed

lemma range_align_to_ok:
  "range_ok r \<Longrightarrow> range_align_to r a = Some (Some s) \<Longrightarrow> range_ok s"
  using range_align_to_Some(2) [of r a s] by (auto simp: range_ok_def)


lemma pow2_and_pred: "(2 ^ i) AND (2 ^ i - 1) = (0 :: nat)"
  using take_bit_eq_mask [of i "2 ^ i :: nat"] by (simp add: take_bit_eq_mod mask_eq_exp_minus_1)

lemma dvd_less_add:
  fixes a w s :: nat
  assumes "a dvd w" "a dvd s" "w < s + a"
  shows "w \<le> s"
proof -
  obtain i j where ij: "w = a * i" "s = a * j" using assms(1,2) by (auto elim!: dvdE)
  with assms(3) have "a * i < a * (j + 1)" by (simp add: algebra_simps)
  then have "i < j + 1" by (metis mult_less_cancel1)
  then show ?thesis using ij by simp
qed

text \<open>Alignment finds every aligned point: the first aligned point is not after it.\<close>

lemma range_align_to_complete:
  assumes ok: "range_ok r" and a: "a = 0 \<or> a = 2 ^ i" "a \<le> u64_max"
    and s: "rmin r \<le> s" "s \<le> rmax r" "a dvd s \<or> a = 0"
  shows "\<exists>x. range_align_to r a = Some (Some x) \<and> rmin x \<le> s \<and> rmax x = rmax r"
proof (cases "a = 0 \<or> a = 1")
  case True
  then show ?thesis using s by (simp add: range_align_to_def)
next
  case False
  then have a2: "a = 2 ^ i" and dv: "a dvd s" using a(1) s(3) by auto
  have "(2::nat) ^ i < 2 ^ 64" using a(2) a2 by (simp add: u64_max_def)
  then have i: "i < 64" by (rule power_less_imp_less_exp [rotated]) simp
  have and0: "a AND (a - 1) = 0" and pos: "0 < a" unfolding a2 by (rule pow2_and_pred) simp
  have "a dvd 2 ^ 64" unfolding a2 by (rule le_imp_power_dvd) (use i in simp)
  moreover have "s < 2 ^ 64" using s(2) ok by (auto simp: range_ok_def u64_max_def)
  ultimately have "s + a \<le> 2 ^ 64" using dvd_less_add [of a "2 ^ 64" s] dv by (meson not_le)
  then have b: "rmin r + (a - 1) \<le> u64_max" using s(1) pos by (simp add: u64_max_def)
  define w where "w = (rmin r + (a - 1)) AND not64 (a - 1)"
  note al = align_up_pow2 [OF and0 pos b, folded w_def]
  have ws: "w \<le> s" using dvd_less_add [OF al(3) dv] al(2) s(1) by simp
  have "range_new w (rmax r) = Some \<lparr>rmin = w, rmax = rmax r\<rparr>"
    using ws s al(1) ok by (auto simp: range_ok_def)
  then have "range_align_to r a = Some (Some \<lparr>rmin = w, rmax = rmax r\<rparr>)"
    using False and0 b ws s(2) by (simp add: range_align_to_def checked_add_def w_def)
  then show ?thesis using ws by simp
qed

end
