(* ===== verification/IntervalTree.thy ===== *)
theory IntervalTree
  imports AllocRange
begin

text \<open>
  The AVL interval tree of \<open>dbs_allocator/src/interval_tree.rs\<close>: the definitions.  An
  \<open>Option<Node<T>>\<close> is an \<open>'a itree\<close>: \<open>Leaf\<close> is \<open>None\<close> and \<open>Node\<close> holds the six fields of
  \<open>InnerNode\<close>.  A method of \<open>Node\<close> that a caller applies under a \<open>match\<close> on the optional
  child is one function on \<open>'a itree\<close> whose \<open>Leaf\<close> equation is the caller's \<open>None\<close> arm.
\<close>

datatype 'a itree =
    Leaf
  | Node (key: Range) (data: "'a NodeState") (left: "'a itree") (right: "'a itree")
      (cached_height: nat) (cached_max: nat)

section \<open>Nodes\<close>

definition InnerNode_new :: "Range \<Rightarrow> 'a NodeState \<Rightarrow> 'a itree" where
  "InnerNode_new k d = Node k d Leaf Leaf 1 (rmax k)"

definition Node_new :: "Range \<Rightarrow> 'a option \<Rightarrow> 'a itree" where
  "Node_new k d = InnerNode_new k (case d of Some t \<Rightarrow> Valued t | None \<Rightarrow> Free)"

fun node_height :: "'a itree \<Rightarrow> nat" where
  "node_height Leaf = 0"
| "node_height (Node k d l r h m) = h"

fun node_max_key :: "'a itree \<Rightarrow> nat" where
  "node_max_key Leaf = 0"
| "node_max_key (Node k d l r h m) = m"

fun search :: "'a itree \<Rightarrow> Range \<Rightarrow> 'a itree option" where
  "search Leaf q = None"
| "search (Node k d l r h m) q =
     (case range_cmp k q of
        Equal \<Rightarrow> Some (Node k d l r h m)
      | Less \<Rightarrow> search r q
      | Greater \<Rightarrow> search l q)"

fun search_superset :: "'a itree \<Rightarrow> Range \<Rightarrow> 'a itree option" where
  "search_superset Leaf q = None"
| "search_superset (Node k d l r h m) q =
     (if range_contain k q then Some (Node k d l r h m)
      else if rmax q < rmin k \<and> l \<noteq> Leaf then search_superset l q
      else if rmin q > rmax k \<and> r \<noteq> Leaf then search_superset r q
      else None)"

text \<open>A mutable reference is modelled by the write \<open>f\<close> made through it: only the payload of a
  \<open>Valued\<close> node is reachable.\<close>

definition ns_write :: "('a \<Rightarrow> 'a) \<Rightarrow> 'a NodeState \<Rightarrow> 'a NodeState" where
  "ns_write f s = (case s of Valued x \<Rightarrow> Valued (f x) | Allocated \<Rightarrow> Allocated | Free \<Rightarrow> Free)"

fun search_superset_mut :: "'a itree \<Rightarrow> Range \<Rightarrow> ('a \<Rightarrow> 'a) \<Rightarrow> 'a itree" where
  "search_superset_mut Leaf q f = Leaf"
| "search_superset_mut (Node k d l r h m) q f =
     (if range_contain k q then Node k (ns_write f d) l r h m
      else if rmax q < rmin k \<and> l \<noteq> Leaf then Node k d (search_superset_mut l q f) r h m
      else if rmin q > rmax k \<and> r \<noteq> Leaf then Node k d l (search_superset_mut r q f) h m
      else Node k d l r h m)"

section \<open>Balancing\<close>

fun update_cached_info :: "'a itree \<Rightarrow> 'a itree" where
  "update_cached_info Leaf = Leaf"
| "update_cached_info (Node k d l r h m) =
     Node k d l r (max (node_height l) (node_height r) + 1)
       (max (node_max_key l) (max (node_max_key r) (rmax k)))"

fun rotate_left :: "'a itree \<Rightarrow> 'a itree may_panic" where
  "rotate_left (Node k d l (Node k' d' l' r' h' m') h m) =
     ret (update_cached_info (Node k' d' (update_cached_info (Node k d l l' h m)) r' h' m'))"
| "rotate_left _ = panic"

fun rotate_right :: "'a itree \<Rightarrow> 'a itree may_panic" where
  "rotate_right (Node k d (Node k' d' l' r' h' m') r h m) =
     ret (update_cached_info (Node k' d' l' (update_cached_info (Node k d r' r h m)) h' m'))"
| "rotate_right _ = panic"

fun rotate_left_successor :: "'a itree \<Rightarrow> 'a itree may_panic" where
  "rotate_left_successor (Node k d (Node k' d' l' r' h' m') r h m) =
     (if node_height l' < node_height r' then do {
        rotated \<leftarrow> rotate_left (Node k' d' l' r' h' m');
        rotate_right (update_cached_info (Node k d rotated r h m)) }
      else rotate_right (Node k d (Node k' d' l' r' h' m') r h m))"
| "rotate_left_successor _ = panic"

fun rotate_right_successor :: "'a itree \<Rightarrow> 'a itree may_panic" where
  "rotate_right_successor (Node k d l (Node k' d' l' r' h' m') h m) =
     (if node_height l' > node_height r' then do {
        rotated \<leftarrow> rotate_right (Node k' d' l' r' h' m');
        rotate_left (update_cached_info (Node k d l rotated h m)) }
      else rotate_left (Node k d l (Node k' d' l' r' h' m') h m))"
| "rotate_right_successor _ = panic"

fun rotate :: "'a itree \<Rightarrow> 'a itree may_panic" where
  "rotate Leaf = panic"
| "rotate (Node k d l r h m) =
     (let diff = int (node_height l) - int (node_height r) in
      if -1 \<le> diff \<and> diff \<le> 1 then ret (Node k d l r h m)
      else if diff = 2 then rotate_left_successor (Node k d l r h m)
      else if diff = -2 then rotate_right_successor (Node k d l r h m)
      else panic)"

definition updated_node :: "'a itree \<Rightarrow> 'a itree may_panic" where
  "updated_node t = rotate (update_cached_info t)"

section \<open>Node operations\<close>

fun node_insert :: "'a itree \<Rightarrow> Range \<Rightarrow> 'a option \<Rightarrow> 'a itree may_panic" where
  "node_insert Leaf q v = ret (Node_new q v)"
| "node_insert (Node k d l r h m) q v =
     (case range_cmp k q of
        Equal \<Rightarrow> panic
      | Less \<Rightarrow>
          if range_intersect k q then panic
          else do { r' \<leftarrow> node_insert r q v; updated_node (Node k d l r' h m) }
      | Greater \<Rightarrow>
          if range_intersect k q then panic
          else do { l' \<leftarrow> node_insert l q v; updated_node (Node k d l' r h m) })"

definition update_allowed :: "'a NodeState \<Rightarrow> 'a NodeState \<Rightarrow> bool" where
  "update_allowed old new =
     (case (old, new) of
        (Free, Free) \<Rightarrow> False
      | (Free, Valued _) \<Rightarrow> False
      | (Allocated, Free) \<Rightarrow> False
      | (Allocated, Allocated) \<Rightarrow> False
      | (Valued _, Free) \<Rightarrow> False
      | (Valued _, Allocated) \<Rightarrow> False
      | _ \<Rightarrow> True)"

fun node_update :: "'a itree \<Rightarrow> Range \<Rightarrow> 'a NodeState \<Rightarrow> ('a option \<times> 'a itree) may_panic" where
  "node_update Leaf q v = ret (None, Leaf)"
| "node_update (Node k d l r h m) q v =
     (case range_cmp k q of
        Equal \<Rightarrow>
          if update_allowed d v then ret (ns_to_option d, Node k v l r h m) else panic
      | Less \<Rightarrow> do { (old, r') \<leftarrow> node_update r q v; ret (old, Node k d l r' h m) }
      | Greater \<Rightarrow> do { (old, l') \<leftarrow> node_update l q v; ret (old, Node k d l' r h m) })"

fun get_new_root :: "'a itree \<Rightarrow> ('a itree \<times> 'a itree) may_panic" where
  "get_new_root Leaf = panic"
| "get_new_root (Node k d l r h m) =
     (if l = Leaf then ret (Node k d Leaf Leaf h m, r)
      else do {
        (min_node, l') \<leftarrow> get_new_root l;
        t' \<leftarrow> updated_node (Node k d l' r h m);
        ret (min_node, t') })"

definition combine_subtrees :: "'a itree \<Rightarrow> 'a itree \<Rightarrow> 'a itree may_panic" where
  "combine_subtrees l r = do {
     (new_root, remaining) \<leftarrow> get_new_root r;
     case new_root of
       Leaf \<Rightarrow> panic
     | Node k d _ _ h m \<Rightarrow> updated_node (Node k d l remaining h m) }"

definition delete_root :: "'a itree \<Rightarrow> 'a itree \<Rightarrow> 'a itree may_panic" where
  "delete_root l r =
     (case (l, r) of
        (Leaf, Leaf) \<Rightarrow> ret Leaf
      | (_, Leaf) \<Rightarrow> ret l
      | (Leaf, _) \<Rightarrow> ret r
      | (_, _) \<Rightarrow> combine_subtrees l r)"

fun node_delete :: "'a itree \<Rightarrow> Range \<Rightarrow> ('a option \<times> 'a itree) may_panic" where
  "node_delete Leaf q = ret (None, Leaf)"
| "node_delete (Node k d l r h m) q =
     (case range_cmp k q of
        Equal \<Rightarrow> do { t \<leftarrow> delete_root l r; ret (ns_to_option d, t) }
      | Less \<Rightarrow>
          if r = Leaf then ret (None, Node k d l r h m)
          else do {
            (old, r') \<leftarrow> node_delete r q;
            t \<leftarrow> updated_node (Node k d l r' h m);
            ret (old, t) }
      | Greater \<Rightarrow>
          if l = Leaf then ret (None, Node k d l r h m)
          else do {
            (old, l') \<leftarrow> node_delete l q;
            t \<leftarrow> updated_node (Node k d l' r h m);
            ret (old, t) })"

section \<open>Allocation candidates\<close>

definition check_constraint :: "Range \<Rightarrow> 'a NodeState \<Rightarrow> Constraint \<Rightarrow> bool may_panic" where
  "check_constraint k d c =
     (if ns_is_free d then
        let lo = max (rmin k) (cmin c); hi = min (rmax k) (cmax c) in
        if lo \<le> hi then do {
          q \<leftarrow> range_new lo hi;
          if calign c = 0 \<or> calign c = 1 then do { n \<leftarrow> range_len q; ret (n \<ge> csize c) }
          else do {
            aligned \<leftarrow> range_align_to q (calign c);
            case aligned of
              None \<Rightarrow> ret False
            | Some a \<Rightarrow> do { n \<leftarrow> range_len a; ret (n \<ge> csize c) } } }
        else ret False
      else ret False)"

fun first_match :: "'a itree \<Rightarrow> Constraint \<Rightarrow> 'a itree option may_panic" where
  "first_match Leaf c = ret None"
| "first_match (Node k d l r h m) c = do {
     candidate \<leftarrow> first_match l c;
     case candidate of
       Some n \<Rightarrow> ret (Some n)
     | None \<Rightarrow> do {
         ok \<leftarrow> check_constraint k d c;
         if ok then ret (Some (Node k d l r h m)) else first_match r c } }"

definition find_candidate :: "'a itree \<Rightarrow> Constraint \<Rightarrow> 'a itree option may_panic" where
  "find_candidate t c =
     (case cpolicy c of FirstMatch \<Rightarrow> first_match t c | Default \<Rightarrow> first_match t c)"

section \<open>The tree\<close>

definition it_new :: "'a itree" where
  "it_new = Leaf"

definition it_is_empty :: "'a itree \<Rightarrow> bool" where
  "it_is_empty t = (case t of Leaf \<Rightarrow> True | _ \<Rightarrow> False)"

definition it_get :: "'a itree \<Rightarrow> Range \<Rightarrow> 'a NodeState option" where
  "it_get t q = map_option data (search t q)"

definition it_get_superset :: "'a itree \<Rightarrow> Range \<Rightarrow> (Range \<times> 'a NodeState) option" where
  "it_get_superset t q = map_option (\<lambda>n. (key n, data n)) (search_superset t q)"

definition it_get_by_id :: "'a itree \<Rightarrow> nat \<Rightarrow> 'a option" where
  "it_get_by_id t i =
     (case search_superset t (range_new_point i) of
        Some n \<Rightarrow> ns_to_option (data n)
      | None \<Rightarrow> None)"

definition it_get_superset_mut :: "'a itree \<Rightarrow> Range \<Rightarrow> ('a \<Rightarrow> 'a) \<Rightarrow> (Range \<times> 'a NodeState) option \<times> 'a itree" where
  "it_get_superset_mut t q f = (it_get_superset t q, search_superset_mut t q f)"

definition it_get_by_id_mut :: "'a itree \<Rightarrow> nat \<Rightarrow> ('a \<Rightarrow> 'a) \<Rightarrow> 'a option \<times> 'a itree" where
  "it_get_by_id_mut t i f = (it_get_by_id t i, search_superset_mut t (range_new_point i) f)"

definition it_insert :: "'a itree \<Rightarrow> Range \<Rightarrow> 'a option \<Rightarrow> 'a itree may_panic" where
  "it_insert t q v = node_insert t q v"

definition it_update :: "'a itree \<Rightarrow> Range \<Rightarrow> 'a \<Rightarrow> ('a option \<times> 'a itree) may_panic" where
  "it_update t q v = node_update t q (Valued v)"

definition it_delete :: "'a itree \<Rightarrow> Range \<Rightarrow> ('a option \<times> 'a itree) may_panic" where
  "it_delete t q = node_delete t q"

text \<open>\<open>allocate\<close>: the sequence of mutations of the split is threaded through \<open>t1 \<dots> t4\<close>.\<close>

definition it_split :: "'a itree \<Rightarrow> Range \<Rightarrow> nat \<Rightarrow> Range \<Rightarrow> 'a itree may_panic" where
  "it_split t node_key aligned_min result = do {
     (_, t1) \<leftarrow> it_delete t node_key;
     t2 \<leftarrow> (if aligned_min > rmin node_key
            then do { q \<leftarrow> range_new (rmin node_key) (aligned_min - 1); it_insert t1 q None }
            else ret t1);
     t3 \<leftarrow> it_insert t2 result None;
     t4 \<leftarrow> (if rmax result < rmax node_key
            then do { q \<leftarrow> range_new (rmax result + 1) (rmax node_key); it_insert t3 q None }
            else ret t3);
     (_, t5) \<leftarrow> node_update t4 result Allocated;
     ret t5 }"

definition it_allocate :: "'a itree \<Rightarrow> Constraint \<Rightarrow> (Range option \<times> 'a itree) may_panic" where
  "it_allocate t c =
     (if csize c = 0 then ret (None, t)
      else do {
        candidate \<leftarrow> find_candidate t c;
        case candidate of
          None \<Rightarrow> ret (None, t)
        | Some n \<Rightarrow> do {
            range \<leftarrow> range_new (max (rmin (key n)) (cmin c)) (min (rmax (key n)) (cmax c));
            aligned \<leftarrow> range_align_to range (calign c);
            aligned_key \<leftarrow> aligned;
            e \<leftarrow> checked_add u64_max (rmin aligned_key) (csize c);
            result \<leftarrow> range_new (rmin aligned_key) (e - 1);
            n_len \<leftarrow> range_len (key n);
            if rmin (key n) = rmin aligned_key \<and> n_len = csize c then do {
              (_, t') \<leftarrow> node_update t (key n) Allocated;
              ret (Some (key n), t') }
            else do {
              t' \<leftarrow> it_split t (key n) (rmin aligned_key) result;
              ret (Some result, t') } } })"

definition merge_left :: "'a itree \<Rightarrow> Range \<Rightarrow> nat may_panic" where
  "merge_left t q =
     (if rmin q > 0 then do {
        p \<leftarrow> range_new (rmin q - 1) (rmin q - 1);
        ret (case it_get_superset t p of
               Some (r, v) \<Rightarrow> if ns_is_free v then rmin r else rmin q
             | None \<Rightarrow> rmin q) }
      else ret (rmin q))"

definition merge_right :: "'a itree \<Rightarrow> Range \<Rightarrow> nat may_panic" where
  "merge_right t q =
     (if rmax q < u64_max then do {
        p \<leftarrow> range_new (rmax q + 1) (rmax q + 1);
        ret (case it_get_superset t p of
               Some (r, v) \<Rightarrow> if ns_is_free v then rmax r else rmax q
             | None \<Rightarrow> rmax q) }
      else ret (rmax q))"

definition it_free :: "'a itree \<Rightarrow> Range \<Rightarrow> ('a option \<times> 'a itree) may_panic" where
  "it_free t q = do {
     (result, t1) \<leftarrow> it_delete t q;
     lo \<leftarrow> merge_left t1 q;
     hi \<leftarrow> merge_right t1 q;
     t2 \<leftarrow> (if lo < rmin q
            then do { r \<leftarrow> range_new lo (rmin q - 1); (_, t') \<leftarrow> it_delete t1 r; ret t' }
            else ret t1);
     t3 \<leftarrow> (if hi > rmax q
            then do { r \<leftarrow> range_new (rmax q + 1) hi; (_, t') \<leftarrow> it_delete t2 r; ret t' }
            else ret t2);
     t4 \<leftarrow> it_insert t3 \<lparr>rmin = lo, rmax = hi\<rparr> None;
     ret (result, t4) }"

text \<open>The equations that evaluate the tree on concrete input.\<close>

lemmas itree_eval = it_new_def it_insert_def it_update_def it_delete_def it_split_def it_allocate_def it_free_def
  merge_left_def merge_right_def find_candidate_def check_constraint_def delete_root_def combine_subtrees_def
  update_allowed_def updated_node_def Node_new_def InnerNode_new_def it_get_superset_def range_new_def range_len_def
  range_contain_def range_cmp_def nat_cmp_def range_intersect_def range_align_to_def checked_add_def checked_sub_def
  u_max_vals ns_to_option_def

end
