(* ===== verification/ItreeBalance.thy ===== *)
theory ItreeBalance
  imports IntervalTree
begin

text \<open>
  The representation invariant of the interval tree and that every node operation keeps it:
  cached heights and maxima are right, the tree is height balanced, and its in-order list of
  entries is a strictly separated list of acceptable ranges.  Each operation is described by
  its effect on that list, and is shown not to panic.
\<close>

section \<open>Entries and the invariant\<close>

type_synonym 'a entry = "Range \<times> 'a NodeState"

fun entries :: "'a itree \<Rightarrow> 'a entry list" where
  "entries Leaf = []"
| "entries (Node k d l r h m) = entries l @ (k, d) # entries r"

fun avl :: "'a itree \<Rightarrow> bool" where
  "avl Leaf = True"
| "avl (Node k d l r h m) \<longleftrightarrow>
     \<bar>int (node_height l) - int (node_height r)\<bar> \<le> 1 \<and>
     h = max (node_height l) (node_height r) + 1 \<and>
     m = max (node_max_key l) (max (node_max_key r) (rmax k)) \<and> avl l \<and> avl r"

definition before :: "'a entry \<Rightarrow> 'a entry \<Rightarrow> bool" where
  "before a b \<longleftrightarrow> rmax (fst a) < rmin (fst b)"

definition separated :: "'a entry list \<Rightarrow> bool" where
  "separated es \<longleftrightarrow> sorted_wrt before es \<and> (\<forall>e \<in> set es. rmin (fst e) \<le> rmax (fst e) \<and> rmax (fst e) \<le> u64_max)"

definition it_inv :: "'a itree \<Rightarrow> bool" where
  "it_inv t \<longleftrightarrow> avl t \<and> separated (entries t)"

named_theorems tree_simps \<open>rules that unfold the balancing operations\<close>

lemma separated_Nil [simp]: "separated []"
  by (simp add: separated_def)

lemma separated_append:
  "separated (xs @ (k, d) # ys) \<longleftrightarrow>
     separated xs \<and> separated ys \<and> rmin k \<le> rmax k \<and> rmax k \<le> u64_max \<and>
     (\<forall>e \<in> set xs. rmax (fst e) < rmin k) \<and> (\<forall>e \<in> set ys. rmax k < rmin (fst e))"
  by (fastforce simp: separated_def sorted_wrt_append before_def)

lemma separated_distinct: "separated es \<Longrightarrow> distinct (map fst es)"
proof (induction es)
  case (Cons e es)
  obtain k d where e: "e = (k, d)" by (cases e)
  from Cons.prems have "separated es" "\<forall>x \<in> set es. rmax k < rmin (fst x)" "rmin k \<le> rmax k"
    using separated_append [of "[]" k d es] by (auto simp: e)
  with Cons.IH show ?case by (auto simp: e)
qed simp

lemma node_height_0 [simp]: "avl t \<Longrightarrow> node_height t = 0 \<longleftrightarrow> t = Leaf"
  by (cases t) auto

section \<open>Rebalancing\<close>

lemmas rotation_simps [tree_simps] = updated_node_def Let_def

lemma updated_node_balanced:
  assumes "avl l" "avl r" "\<bar>int (node_height l) - int (node_height r)\<bar> \<le> 1"
  shows "updated_node (Node k d l r h m) =
     Some (Node k d l r (max (node_height l) (node_height r) + 1)
            (max (node_max_key l) (max (node_max_key r) (rmax k))))"
  using assms by (auto simp: tree_simps)

definition rebalanced :: "'a itree may_panic \<Rightarrow> 'a entry list \<Rightarrow> nat set \<Rightarrow> bool" where
  "rebalanced res es hs \<longleftrightarrow> (\<exists>t. res = Some t \<and> avl t \<and> entries t = es \<and> node_height t \<in> hs)"

lemma updated_node_left_high:
  assumes "avl l" "avl r" "node_height l = node_height r + 2"
  shows "rebalanced (updated_node (Node k d l r h m)) (entries l @ (k, d) # entries r)
           {node_height l, node_height l + 1}"
proof (cases l)
  case (Node kl dl ll rl hl ml)
  show ?thesis
  proof (cases "node_height ll < node_height rl")
    case True
    then obtain kr dr lr rr hr mr where rl: "rl = Node kr dr lr rr hr mr" by (cases rl) auto
    from assms True show ?thesis
      unfolding rebalanced_def Node rl by (auto simp: tree_simps max_def split: if_splits)
  next
    case False
    with assms show ?thesis
      unfolding rebalanced_def Node by (auto simp: tree_simps max_def split: if_splits)
  qed
qed (use assms in auto)

lemma updated_node_right_high:
  assumes "avl l" "avl r" "node_height r = node_height l + 2"
  shows "rebalanced (updated_node (Node k d l r h m)) (entries l @ (k, d) # entries r)
           {node_height r, node_height r + 1}"
proof (cases r)
  case (Node kr dr lr rr hr mr)
  show ?thesis
  proof (cases "node_height lr > node_height rr")
    case True
    then obtain kl dl ll rl hl ml where lr: "lr = Node kl dl ll rl hl ml" by (cases lr) auto
    from assms True show ?thesis
      unfolding rebalanced_def Node lr by (auto simp: tree_simps max_def split: if_splits)
  next
    case False
    with assms show ?thesis
      unfolding rebalanced_def Node by (auto simp: tree_simps max_def split: if_splits)
  qed
qed (use assms in auto)

lemma updated_node_ok:
  assumes "avl l" "avl r" "\<bar>int (node_height l) - int (node_height r)\<bar> \<le> 2"
  shows "\<exists>t. updated_node (Node k d l r h m) = Some t \<and> avl t \<and>
           entries t = entries l @ (k, d) # entries r \<and>
           (let hm = max (node_height l) (node_height r) in
            (\<bar>int (node_height l) - int (node_height r)\<bar> \<le> 1 \<longrightarrow> node_height t = hm + 1) \<and>
            (node_height t = hm \<or> node_height t = hm + 1))"
proof -
  consider "\<bar>int (node_height l) - int (node_height r)\<bar> \<le> 1"
    | "node_height l = node_height r + 2" | "node_height r = node_height l + 2"
    using assms(3) by linarith
  then show ?thesis
  proof cases
    case 1
    with assms show ?thesis by (auto simp: updated_node_balanced)
  next
    case 2
    from updated_node_left_high [OF assms(1,2) 2, of k d h m] 2 show ?thesis
      by (auto simp: rebalanced_def max_def Let_def)
  next
    case 3
    from updated_node_right_high [OF assms(1,2) 3, of k d h m] 3 show ?thesis
      by (auto simp: rebalanced_def max_def Let_def)
  qed
qed


text \<open>Replacing one child by a tree whose height differs by at most one and rebalancing.\<close>

lemma updated_node_grow:
  assumes node: "avl (Node k0 d0 l r h0 m0)" and avl: "avl l'" "avl r'"
    and grow: "node_height r' = node_height r \<and> (node_height l' = node_height l \<or> node_height l' = node_height l + 1) \<or>
               node_height l' = node_height l \<and> (node_height r' = node_height r \<or> node_height r' = node_height r + 1)"
  shows "\<exists>t. updated_node (Node k d l' r' h m) = Some t \<and> avl t \<and>
           entries t = entries l' @ (k, d) # entries r' \<and> (node_height t = h0 \<or> node_height t = h0 + 1)"
proof -
  have "\<bar>int (node_height l') - int (node_height r')\<bar> \<le> 2" using node grow by auto
  then obtain t where t: "updated_node (Node k d l' r' h m) = Some t" "avl t"
      "entries t = entries l' @ (k, d) # entries r'"
      "\<bar>int (node_height l') - int (node_height r')\<bar> \<le> 1 \<Longrightarrow> node_height t = max (node_height l') (node_height r') + 1"
      "node_height t = max (node_height l') (node_height r') \<or> node_height t = max (node_height l') (node_height r') + 1"
    using updated_node_ok [OF avl, of k d h m] unfolding Let_def by blast
  have h0: "h0 = max (node_height l) (node_height r) + 1" "\<bar>int (node_height l) - int (node_height r)\<bar> \<le> 1"
    using node by auto
  have "node_height t = h0 \<or> node_height t = h0 + 1"
  proof (cases "\<bar>int (node_height l') - int (node_height r')\<bar> \<le> 1")
    case True
    from t(4) [OF True] h0 grow show ?thesis by linarith
  next
    case False
    with t(5) h0 grow show ?thesis by linarith
  qed
  with t show ?thesis by blast
qed

lemma updated_node_shrink:
  assumes node: "avl (Node k0 d0 l r h0 m0)" and avl: "avl l'" "avl r'"
    and shrink: "node_height r' = node_height r \<and> (node_height l' = node_height l \<or> node_height l' + 1 = node_height l) \<or>
                 node_height l' = node_height l \<and> (node_height r' = node_height r \<or> node_height r' + 1 = node_height r)"
  shows "\<exists>t. updated_node (Node k d l' r' h m) = Some t \<and> avl t \<and>
           entries t = entries l' @ (k, d) # entries r' \<and> (node_height t = h0 \<or> node_height t + 1 = h0)"
proof -
  have "\<bar>int (node_height l') - int (node_height r')\<bar> \<le> 2" using node shrink by auto
  then obtain t where t: "updated_node (Node k d l' r' h m) = Some t" "avl t"
      "entries t = entries l' @ (k, d) # entries r'"
      "\<bar>int (node_height l') - int (node_height r')\<bar> \<le> 1 \<Longrightarrow> node_height t = max (node_height l') (node_height r') + 1"
      "node_height t = max (node_height l') (node_height r') \<or> node_height t = max (node_height l') (node_height r') + 1"
    using updated_node_ok [OF avl, of k d h m] unfolding Let_def by blast
  have h0: "h0 = max (node_height l) (node_height r) + 1" "\<bar>int (node_height l) - int (node_height r)\<bar> \<le> 1"
    using node by auto
  have "node_height t = h0 \<or> node_height t + 1 = h0"
  proof (cases "\<bar>int (node_height l') - int (node_height r')\<bar> \<le> 1")
    case True
    from t(4) [OF True] h0 shrink show ?thesis by linarith
  next
    case False
    with t(5) h0 shrink show ?thesis by linarith
  qed
  with t show ?thesis by blast
qed

section \<open>Insertion\<close>

definition overlaps :: "'a entry list \<Rightarrow> Range \<Rightarrow> bool" where
  "overlaps es q \<longleftrightarrow> (\<exists>e \<in> set es. range_intersect (fst e) q)"

definition new_state :: "'a option \<Rightarrow> 'a NodeState" where
  "new_state v = (case v of Some t \<Rightarrow> Valued t | None \<Rightarrow> Free)"

lemma not_intersect_cases:
  assumes "\<not> range_intersect a b" "rmin a \<le> rmax a" "rmin b \<le> rmax b"
  obtains (lt) "range_cmp a b = Less" "rmax a < rmin b" | (gt) "range_cmp a b = Greater" "rmax b < rmin a"
  using assms by (auto simp: range_intersect_def range_cmp_simps)

lemma node_insert_ok:
  assumes "avl t" "separated (entries t)" "rmin q \<le> rmax q" "rmax q \<le> u64_max" "\<not> overlaps (entries t) q"
  shows "\<exists>t'. node_insert t q v = Some t' \<and> avl t' \<and> separated (entries t') \<and>
           set (entries t') = insert (q, new_state v) (set (entries t)) \<and>
           (node_height t' = node_height t \<or> node_height t' = node_height t + 1)"
  using assms
proof (induction t)
  case Leaf
  then show ?case
    by (auto simp: Node_new_def InnerNode_new_def new_state_def separated_append [of "[]" _ _ "[]", simplified])
next
  case (Node k d l r h m)
  note sep = Node.prems(2) [simplified, unfolded separated_append]
  have ni: "\<not> range_intersect k q" and nl: "\<not> overlaps (entries l) q" and nr: "\<not> overlaps (entries r) q"
    using Node.prems(5) by (auto simp: overlaps_def)
  have avls: "avl l" "avl r" and wf: "rmin k \<le> rmax k" using Node.prems(1) sep by auto
  from ni wf Node.prems(3) show ?case
  proof (cases rule: not_intersect_cases)
    case lt
    obtain r' where r': "node_insert r q v = Some r'" "avl r'" "separated (entries r')"
        "set (entries r') = insert (q, new_state v) (set (entries r))"
        "node_height r' = node_height r \<or> node_height r' = node_height r + 1"
      using Node.IH(2) avls sep Node.prems(3,4) nr by blast
    then obtain t where t: "updated_node (Node k d l r' h m) = Some t" "avl t"
        "entries t = entries l @ (k, d) # entries r'" "node_height t = h \<or> node_height t = h + 1"
      using updated_node_grow [OF Node.prems(1) avls(1) r'(2)] by blast
    have "separated (entries t)"
      unfolding t(3) separated_append using sep r'(3,4) lt by auto
    with t lt ni r' show ?thesis by auto
  next
    case gt
    obtain l' where l': "node_insert l q v = Some l'" "avl l'" "separated (entries l')"
        "set (entries l') = insert (q, new_state v) (set (entries l))"
        "node_height l' = node_height l \<or> node_height l' = node_height l + 1"
      using Node.IH(1) avls sep Node.prems(3,4) nl by blast
    then obtain t where t: "updated_node (Node k d l' r h m) = Some t" "avl t"
        "entries t = entries l' @ (k, d) # entries r" "node_height t = h \<or> node_height t = h + 1"
      using updated_node_grow [OF Node.prems(1) l'(2) avls(2)] by blast
    have "separated (entries t)"
      unfolding t(3) separated_append using sep l'(3,4) gt by auto
    with t gt ni l' show ?thesis by auto
  qed
qed

lemma node_insert_overlap:
  assumes "separated (entries t)" "rmin q \<le> rmax q" "overlaps (entries t) q"
  shows "node_insert t q v = None"
  using assms
proof (induction t)
  case Leaf
  then show ?case by (simp add: overlaps_def)
next
  case (Node k d l r h m)
  note sep = Node.prems(1) [simplified, unfolded separated_append]
  then have wf: "rmin k \<le> rmax k" by simp
  show ?case
  proof (cases "range_intersect k q")
    case True
    then show ?thesis by (auto split: Ordering.splits)
  next
    case False
    from this wf Node.prems(2) show ?thesis
    proof (cases rule: not_intersect_cases)
      case lt
      then have "\<not> overlaps (entries l) q"
        using sep by (force simp: overlaps_def range_intersect_def)
      with False Node.prems(3) have "overlaps (entries r) q" by (auto simp: overlaps_def)
      with Node.IH(2) sep Node.prems(2) lt show ?thesis by simp
    next
      case gt
      then have "\<not> overlaps (entries r) q"
        using sep by (force simp: overlaps_def range_intersect_def)
      with False Node.prems(3) have "overlaps (entries l) q" by (auto simp: overlaps_def)
      with Node.IH(1) sep Node.prems(2) gt show ?thesis by simp
    qed
  qed
qed

section \<open>Deletion\<close>

lemma get_new_root_ok:
  assumes "avl t" "t \<noteq> Leaf"
  shows "\<exists>k d h m t'. get_new_root t = Some (Node k d Leaf Leaf h m, t') \<and> avl t' \<and>
           entries t = (k, d) # entries t' \<and>
           (node_height t' = node_height t \<or> node_height t' + 1 = node_height t)"
  using assms
proof (induction t)
  case (Node k d l r h m)
  show ?case
  proof (cases "l = Leaf")
    case True
    with Node.prems show ?thesis by (auto simp: max_def)
  next
    case False
    with Node obtain k' d' h' m' l' where l': "get_new_root l = Some (Node k' d' Leaf Leaf h' m', l')" "avl l'"
        "entries l = (k', d') # entries l'" "node_height l' = node_height l \<or> node_height l' + 1 = node_height l"
      by auto
    moreover have "avl r" using Node.prems by simp
    ultimately obtain t where "updated_node (Node k d l' r h m) = Some t" "avl t"
        "entries t = entries l' @ (k, d) # entries r" "node_height t = h \<or> node_height t + 1 = h"
      using updated_node_shrink [OF Node.prems(1) l'(2) \<open>avl r\<close>] by blast
    with False l' show ?thesis by auto
  qed
qed simp

lemma delete_root_ok:
  assumes "avl (Node k d l r h m)"
  shows "\<exists>t. delete_root l r = Some t \<and> avl t \<and> entries t = entries l @ entries r \<and>
           (node_height t = h \<or> node_height t + 1 = h)"
proof (cases "l = Leaf \<or> r = Leaf")
  case True
  with assms show ?thesis
    by (cases l; cases r) (auto simp: delete_root_def max_def split: if_splits)
next
  case False
  have avls: "avl l" "avl r" using assms by auto
  obtain k' d' h' m' r' where r': "get_new_root r = Some (Node k' d' Leaf Leaf h' m', r')" "avl r'"
      "entries r = (k', d') # entries r'" "node_height r' = node_height r \<or> node_height r' + 1 = node_height r"
    using get_new_root_ok [OF avls(2)] False by blast
  obtain t where "updated_node (Node k' d' l r' h' m') = Some t" "avl t"
      "entries t = entries l @ (k', d') # entries r'" "node_height t = h \<or> node_height t + 1 = h"
    using updated_node_shrink [OF assms avls(1) r'(2)] r'(4) by blast
  with False r' show ?thesis
    by (cases l; cases r) (auto simp: delete_root_def combine_subtrees_def)
qed

definition old_value :: "'a entry list \<Rightarrow> Range \<Rightarrow> 'a option" where
  "old_value es q = (case map_of es q of Some s \<Rightarrow> ns_to_option s | None \<Rightarrow> None)"

definition without :: "Range \<Rightarrow> 'a entry list \<Rightarrow> 'a entry list" where
  "without q es = filter (\<lambda>e. fst e \<noteq> q) es"

lemma map_of_notin: "(\<forall>e \<in> set es. fst e \<noteq> q) \<Longrightarrow> map_of es q = None"
  by (auto simp: map_of_eq_None_iff)

lemma without_notin: "(\<forall>e \<in> set es. fst e \<noteq> q) \<Longrightarrow> without q es = es"
  by (auto simp: without_def filter_id_conv)

text \<open>In a separated list the two sides of an entry do not hold the same key.\<close>

lemma separated_split_keys:
  assumes "separated (xs @ (k, d) # ys)"
  shows "range_cmp k q = Less \<Longrightarrow> map_of xs q = None \<and> without q xs = xs \<and> k \<noteq> q"
    and "range_cmp k q = Greater \<Longrightarrow> map_of ys q = None \<and> without q ys = ys \<and> k \<noteq> q"
    and "map_of xs k = None \<and> without k xs = xs" and "map_of ys k = None \<and> without k ys = ys"
proof -
  have xs: "\<forall>e \<in> set xs. rmin (fst e) \<le> rmax (fst e) \<and> rmax (fst e) < rmin k" and "rmin k \<le> rmax k"
    and ys: "\<forall>e \<in> set ys. rmin (fst e) \<le> rmax (fst e) \<and> rmax k < rmin (fst e)"
    using assms unfolding separated_append by (auto simp: separated_def)
  then have "\<forall>e \<in> set xs. fst e \<noteq> k" "\<forall>e \<in> set ys. fst e \<noteq> k" by force+
  then show "map_of xs k = None \<and> without k xs = xs" "map_of ys k = None \<and> without k ys = ys"
    by (auto intro!: map_of_notin without_notin)
  assume "range_cmp k q = Less"
  with xs \<open>rmin k \<le> rmax k\<close> have "\<forall>e \<in> set xs. fst e \<noteq> q" "k \<noteq> q" by (force simp: range_cmp_simps)+
  then show "map_of xs q = None \<and> without q xs = xs \<and> k \<noteq> q" by (auto intro!: map_of_notin without_notin)
next
  have ys: "\<forall>e \<in> set ys. rmin (fst e) \<le> rmax (fst e) \<and> rmax k < rmin (fst e)" and "rmin k \<le> rmax k"
    using assms unfolding separated_append by (auto simp: separated_def)
  assume "range_cmp k q = Greater"
  with ys \<open>rmin k \<le> rmax k\<close> have "\<forall>e \<in> set ys. fst e \<noteq> q" "k \<noteq> q" by (force simp: range_cmp_simps)+
  then show "map_of ys q = None \<and> without q ys = ys \<and> k \<noteq> q" by (auto intro!: map_of_notin without_notin)
qed

lemma without_append [simp]:
  "without q (xs @ (k, d) # ys) = without q xs @ (if k = q then [] else [(k, d)]) @ without q ys"
  by (simp add: without_def)

lemma node_delete_ok:
  assumes "avl t" "separated (entries t)"
  shows "\<exists>t'. node_delete t q = Some (old_value (entries t) q, t') \<and> avl t' \<and>
           entries t' = without q (entries t) \<and>
           (node_height t' = node_height t \<or> node_height t' + 1 = node_height t)"
  using assms
proof (induction t)
  case Leaf
  then show ?case by (simp add: old_value_def without_def)
next
  case (Node k d l r h m)
  have sep: "separated (entries l @ (k, d) # entries r)" using Node.prems by simp
  then have sl: "separated (entries l)" "separated (entries r)" by (auto simp: separated_append)
  note keys = separated_split_keys [OF sep]
  have avls: "avl l" "avl r" using Node.prems(1) by auto
  show ?case
  proof (cases "range_cmp k q")
    case Equal
    then have "k = q" by (simp add: range_cmp_simps)
    with keys delete_root_ok [OF Node.prems(1)] Equal show ?thesis
      by (auto simp: old_value_def map_add_def)
  next
    case Less
    note ks = keys(1) [OF Less]
    obtain r' where r': "node_delete r q = Some (old_value (entries r) q, r')" "avl r'"
        "entries r' = without q (entries r)" "node_height r' = node_height r \<or> node_height r' + 1 = node_height r"
      using Node.IH(2) [OF avls(2) sl(2)] by blast
    then obtain t where t: "updated_node (Node k d l r' h m) = Some t" "avl t"
        "entries t = entries l @ (k, d) # entries r'" "node_height t = h \<or> node_height t + 1 = h"
      using updated_node_shrink [OF Node.prems(1) avls(1) r'(2)] by blast
    have "old_value (entries (Node k d l r h m)) q = old_value (entries r) q"
      using ks by (auto simp: old_value_def map_add_def split: option.splits)
    with t r' ks Less Node.prems(1) show ?thesis
      by (cases "r = Leaf") (auto simp: old_value_def without_def)
  next
    case Greater
    note ks = keys(2) [OF Greater]
    obtain l' where l': "node_delete l q = Some (old_value (entries l) q, l')" "avl l'"
        "entries l' = without q (entries l)" "node_height l' = node_height l \<or> node_height l' + 1 = node_height l"
      using Node.IH(1) [OF avls(1) sl(1)] by blast
    then obtain t where t: "updated_node (Node k d l' r h m) = Some t" "avl t"
        "entries t = entries l' @ (k, d) # entries r" "node_height t = h \<or> node_height t + 1 = h"
      using updated_node_shrink [OF Node.prems(1) l'(2) avls(2)] by blast
    have "old_value (entries (Node k d l r h m)) q = old_value (entries l) q"
      using ks by (auto simp: old_value_def map_add_def split: option.splits)
    with t l' ks Greater Node.prems(1) show ?thesis
      by (cases "l = Leaf") (auto simp: old_value_def without_def)
  qed
qed

end
