(* ===== verification/ItreePool.thy ===== *)
theory ItreePool
  imports ItreeBalance
begin

text \<open>
  The interval tree as a pool of \<open>u64\<close> values: lookups, updates, allocation and release
  described over the tree's entries, the free points and the non-free ranges.
\<close>

section \<open>Lookups and updates\<close>

lemma search_entries:
  assumes "separated (entries t)"
  shows "it_get t q = map_of (entries t) q"
  using assms
proof (induction t)
  case (Node k d l r h m)
  have sep: "separated (entries l @ (k, d) # entries r)" using Node.prems by simp
  then have sl: "separated (entries l)" "separated (entries r)" by (auto simp: separated_append)
  note keys = separated_split_keys [OF sep]
  show ?case
  proof (cases "range_cmp k q")
    case Less
    with keys(1) [OF Less] Node.IH(2) [OF sl(2)] show ?thesis
      by (auto simp: it_get_def map_add_def split: option.splits)
  next
    case Equal
    then have "k = q" by (simp add: range_cmp_simps)
    with Equal keys(3,4) show ?thesis by (auto simp: it_get_def map_add_def)
  next
    case Greater
    with keys(2) [OF Greater] Node.IH(1) [OF sl(1)] show ?thesis
      by (auto simp: it_get_def map_add_def split: option.splits)
  qed
qed (simp add: it_get_def)

lemma search_superset_entries:
  assumes "separated (entries t)" "rmin q \<le> rmax q"
  shows "it_get_superset t q = List.find (\<lambda>e. range_contain (fst e) q) (entries t)"
  using assms
proof (induction t)
  case (Node k d l r h m)
  note sep = Node.prems(1) [simplified, unfolded separated_append]
  show ?case
  proof (cases "range_contain k q")
    case True
    then have "List.find (\<lambda>e. range_contain (fst e) q) (entries l) = None"
      using sep Node.prems(2) by (force simp: find_None_all range_contain_def)
    with True show ?thesis by (simp add: it_get_superset_def find_append)
  next
    case False
    have no_l: "List.find (\<lambda>e. range_contain (fst e) q) (entries l) = None" if "\<not> rmax q < rmin k"
      using sep that by (force simp: find_None_all range_contain_def)
    have no_r: "List.find (\<lambda>e. range_contain (fst e) q) (entries r) = None" if "\<not> rmax k < rmin q"
      using sep that by (force simp: find_None_all range_contain_def)
    from Node sep have IH:
      "it_get_superset l q = List.find (\<lambda>e. range_contain (fst e) q) (entries l)"
      "it_get_superset r q = List.find (\<lambda>e. range_contain (fst e) q) (entries r)" by auto
    show ?thesis
    proof (cases "rmax q < rmin k")
      case True
      then have "\<not> rmax k < rmin q" using Node.prems(2) sep by linarith
      with True False no_r IH(1) show ?thesis
        by (cases "l = Leaf") (auto simp: it_get_superset_def find_append split: option.splits)
    next
      case nlt: False
      with False no_l no_r IH(2) show ?thesis
        by (cases "r = Leaf") (auto simp: it_get_superset_def find_append split: option.splits)
    qed
  qed
qed (simp add: it_get_superset_def)

definition set_state :: "Range \<Rightarrow> 'a NodeState \<Rightarrow> 'a entry list \<Rightarrow> 'a entry list" where
  "set_state q v es = map (\<lambda>e. if fst e = q then (q, v) else e) es"

lemma set_state_absent: "map_of es q = None \<Longrightarrow> set_state q v es = es"
  by (force simp: set_state_def map_of_eq_None_iff intro!: map_idI)

lemma set_state_simps [simp]:
  "set_state q v [] = []"
  "set_state q v (xs @ (k, d) # ys) =
     set_state q v xs @ (k, if k = q then v else d) # set_state q v ys"
  "map fst (set_state q v es) = map fst es"
  by (auto simp: set_state_def)

lemma separated_keys:
  "separated xs \<longleftrightarrow> sorted_wrt (\<lambda>a b. rmax a < rmin b) (map fst xs) \<and>
     (\<forall>k \<in> set (map fst xs). rmin k \<le> rmax k \<and> rmax k \<le> u64_max)"
  by (simp add: separated_def sorted_wrt_map before_def [abs_def])

lemma separated_map_fst: "map fst xs = map fst ys \<Longrightarrow> separated xs \<longleftrightarrow> separated ys"
  by (simp only: separated_keys)

lemma node_update_ok:
  assumes "avl t" "separated (entries t)"
    and "map_of (entries t) q = None \<or> (\<exists>s. map_of (entries t) q = Some s \<and> update_allowed s v)"
  shows "\<exists>t'. node_update t q v = Some (old_value (entries t) q, t') \<and> avl t' \<and>
           entries t' = set_state q v (entries t) \<and>
           node_height t' = node_height t \<and> node_max_key t' = node_max_key t"
  using assms
proof (induction t)
  case (Node k d l r h m)
  have sep: "separated (entries l @ (k, d) # entries r)" using Node.prems by simp
  then have sl: "separated (entries l)" "separated (entries r)" by (auto simp: separated_append)
  note keys = separated_split_keys [OF sep]
  show ?case
  proof (cases "range_cmp k q")
    case Equal
    then have "k = q" by (simp add: range_cmp_simps)
    with Equal keys(3,4) Node.prems show ?thesis
      by (auto simp: old_value_def map_add_def set_state_absent split: option.splits)
  next
    case Less
    note ks = keys(1) [OF Less]
    then have me: "map_of (entries (Node k d l r h m)) q = map_of (entries r) q"
      by (auto simp: map_add_def split: option.splits)
    then have old: "old_value (entries (Node k d l r h m)) q = old_value (entries r) q"
      by (simp add: old_value_def)
    obtain t' where "node_update r q v = Some (old_value (entries r) q, t')" "avl t'"
        "entries t' = set_state q v (entries r)" "node_height t' = node_height r" "node_max_key t' = node_max_key r"
      using Node.IH(2) [OF _ sl(2) Node.prems(3) [unfolded me]] Node.prems(1) by auto
    with ks Less Node.prems(1) old show ?thesis by (simp add: set_state_absent)
  next
    case Greater
    note ks = keys(2) [OF Greater]
    then have me: "map_of (entries (Node k d l r h m)) q = map_of (entries l) q"
      by (auto simp: map_add_def split: option.splits)
    then have old: "old_value (entries (Node k d l r h m)) q = old_value (entries l) q"
      by (simp add: old_value_def)
    obtain t' where "node_update l q v = Some (old_value (entries l) q, t')" "avl t'"
        "entries t' = set_state q v (entries l)" "node_height t' = node_height l" "node_max_key t' = node_max_key l"
      using Node.IH(1) [OF _ sl(1) Node.prems(3) [unfolded me]] Node.prems(1) by auto
    with ks Greater Node.prems(1) old show ?thesis by (simp add: set_state_absent)
  qed
qed (simp add: old_value_def)

lemma node_update_panics:
  assumes "separated (entries t)" "map_of (entries t) q = Some s" "\<not> update_allowed s v"
  shows "node_update t q v = None"
  using assms
proof (induction t)
  case (Node k d l r h m)
  have sep: "separated (entries l @ (k, d) # entries r)" using Node.prems by simp
  then have sl: "separated (entries l)" "separated (entries r)" by (auto simp: separated_append)
  note keys = separated_split_keys [OF sep]
  show ?case
  proof (cases "range_cmp k q")
    case Equal
    then have "k = q" by (simp add: range_cmp_simps)
    with Equal keys(3,4) Node.prems show ?thesis by (auto simp: map_add_def)
  next
    case Less
    with keys(1) [OF Less] Node.IH(2) [OF sl(2)] Node.prems show ?thesis
      by (auto simp: map_add_def split: option.splits)
  next
    case Greater
    with keys(2) [OF Greater] Node.IH(1) [OF sl(1)] Node.prems show ?thesis
      by (auto simp: map_add_def split: option.splits)
  qed
qed simp

section \<open>Candidates\<close>

text \<open>What \<open>check_constraint\<close> decides: the aligned part of the range inside the
  constraint's bounds is long enough.\<close>

definition usable :: "Range \<Rightarrow> Constraint \<Rightarrow> Range option" where
  "usable k c =
     (let lo = max (rmin k) (cmin c); hi = min (rmax k) (cmax c) in
      if lo \<le> hi then Option.bind (range_align_to \<lparr>rmin = lo, rmax = hi\<rparr> (calign c)) id else None)"

definition fits :: "Constraint \<Rightarrow> 'a entry \<Rightarrow> bool" where
  "fits c e \<longleftrightarrow> snd e = Free \<and>
     (\<exists>a. usable (fst e) c = Some a \<and> csize c \<le> rmax a - rmin a + 1)"

lemma clip_ok:
  assumes "range_ok k" "max (rmin k) lo \<le> min (rmax k) hi"
  shows "range_ok \<lparr>rmin = max (rmin k) lo, rmax = min (rmax k) hi\<rparr>"
    and "range_new (max (rmin k) lo) (min (rmax k) hi) = Some \<lparr>rmin = max (rmin k) lo, rmax = min (rmax k) hi\<rparr>"
  using assms by (auto simp: range_ok_def)

lemma check_constraint_fits:
  assumes "range_ok k"
  shows "check_constraint k d c = Some (fits c (k, d))"
proof (cases "d = Free \<and> max (rmin k) (cmin c) \<le> min (rmax k) (cmax c)")
  case False
  then show ?thesis by (auto simp: check_constraint_def fits_def usable_def)
next
  case True
  let ?q = "\<lparr>rmin = max (rmin k) (cmin c), rmax = min (rmax k) (cmax c)\<rparr>"
  note ok = clip_ok [OF assms conjunct2 [OF True]]
  obtain x where x: "range_align_to ?q (calign c) = Some x"
    using range_align_to_Some(1) [OF ok(1)] by blast
  show ?thesis
  proof (cases "calign c = 0 \<or> calign c = 1")
    case al: True
    then have "range_align_to ?q (calign c) = Some (Some ?q)" by (simp add: range_align_to_def)
    with True al range_len_ok [OF ok(1)] ok(2) show ?thesis
      by (auto simp: check_constraint_def fits_def usable_def)
  next
    case al: False
    with True x ok(2) range_align_to_ok [OF ok(1)] show ?thesis
      by (cases x) (auto simp: check_constraint_def fits_def usable_def range_len_ok)
  qed
qed

definition all_ok :: "'a itree \<Rightarrow> bool" where
  "all_ok t \<longleftrightarrow> (\<forall>e \<in> set (entries t). range_ok (fst e))"

lemma first_match_entries:
  assumes "all_ok t"
  shows "\<exists>x. first_match t c = Some x \<and>
           map_option (\<lambda>n. (key n, data n)) x = List.find (fits c) (entries t)"
  using assms
proof (induction t)
  case (Node k d l r h m)
  then have ok: "range_ok k" "all_ok l" "all_ok r" by (auto simp: all_ok_def)
  obtain x where x: "first_match l c = Some x"
      "List.find (fits c) (entries l) = map_option (\<lambda>n. (key n, data n)) x"
    using Node.IH(1) [OF ok(2)] by metis
  with Node.IH(2) [OF ok(3)] show ?case
    by (cases x) (auto simp: find_append check_constraint_fits [OF ok(1)])
qed simp

lemma find_candidate_entries:
  "all_ok t \<Longrightarrow> \<exists>x. find_candidate t c = Some x \<and>
     map_option (\<lambda>n. (key n, data n)) x = List.find (fits c) (entries t)"
  using first_match_entries [of t c] by (auto simp: find_candidate_def split: AllocPolicy.splits)


section \<open>The pool view\<close>

text \<open>
  A separated tree is a set of entries with disjoint keys.  The pool it stands for has three
  aspects: the points it manages, the points that are free, and the ranges in use.
\<close>

definition content :: "'a itree \<Rightarrow> 'a entry set" where
  "content t = set (entries t)"

definition covered :: "'a itree \<Rightarrow> nat set" where
  "covered t = (\<Union>e \<in> content t. range_pts (fst e))"

definition free_pts :: "'a itree \<Rightarrow> nat set" where
  "free_pts t = (\<Union>e \<in> {e \<in> content t. snd e = Free}. range_pts (fst e))"

definition in_use :: "'a itree \<Rightarrow> 'a entry set" where
  "in_use t = {e \<in> content t. snd e \<noteq> Free}"

text \<open>Pools never manage the value \<open>u64::MAX\<close>: see the header of the root theory.\<close>

definition pool_inv :: "'a itree \<Rightarrow> bool" where
  "pool_inv t \<longleftrightarrow> it_inv t \<and> u64_max \<notin> covered t"

lemma content_wf:
  assumes "it_inv t" "e \<in> content t"
  shows "rmin (fst e) \<le> rmax (fst e)" "rmax (fst e) \<le> u64_max"
  using assms by (auto simp: it_inv_def separated_def content_def)

lemma separated_disjoint:
  assumes "separated es" "a \<in> set es" "b \<in> set es" "range_pts (fst a) \<inter> range_pts (fst b) \<noteq> {}"
  shows "a = b"
  using assms
proof (induction es)
  case (Cons e es)
  obtain k d where e: "e = (k, d)" by (cases e)
  have *: "separated es" "\<forall>x \<in> set es. rmax k < rmin (fst x)"
    using Cons.prems(1) separated_append [of "[]" k d es] by (auto simp: e)
  have no: "range_pts k \<inter> range_pts (fst x) = {}" "range_pts (fst x) \<inter> range_pts k = {}"
    if "x \<in> set es" for x
    using *(2) that by (force simp: range_pts_def)+
  show ?case using Cons.IH [OF *(1)] Cons.prems(2-4) no [of a] no [of b] e by auto
qed simp

lemma content_disjoint:
  assumes "it_inv t" "a \<in> content t" "b \<in> content t" "x \<in> range_pts (fst a)" "x \<in> range_pts (fst b)"
  shows "a = b"
  using assms separated_disjoint [of "entries t" a b] by (auto simp: it_inv_def content_def)

lemma content_key_unique:
  assumes "it_inv t" "(k, d) \<in> content t" "(k, d') \<in> content t"
  shows "d = d'"
  using content_disjoint [OF assms, of "rmin k"] content_wf [OF assms(1,2)] by (auto simp: range_pts_def)

lemma content_map_of: "it_inv t \<Longrightarrow> map_of (entries t) k = Some d \<longleftrightarrow> (k, d) \<in> content t"
  by (simp add: it_inv_def content_def map_of_eq_Some_iff separated_distinct)

lemma content_map_of_None: "map_of (entries t) k = None \<longleftrightarrow> (\<forall>d. (k, d) \<notin> content t)"
  by (force simp: content_def map_of_eq_None_iff)

text \<open>Membership of a point tells the entry.\<close>

lemma free_pts_entry:
  assumes "it_inv t" "e \<in> content t" "x \<in> range_pts (fst e)"
  shows "x \<in> free_pts t \<longleftrightarrow> snd e = Free"
proof
  assume "x \<in> free_pts t"
  then obtain f where f: "f \<in> content t" "snd f = Free" "x \<in> range_pts (fst f)"
    unfolding free_pts_def by blast
  with content_disjoint [OF assms(1,2) f(1) assms(3)] show "snd e = Free" by simp
next
  assume "snd e = Free"
  with assms show "x \<in> free_pts t" unfolding free_pts_def by blast
qed

section \<open>Operations on the content\<close>

lemma it_insert_content:
  assumes "it_inv t" "rmin q \<le> rmax q" "rmax q \<le> u64_max" "range_pts q \<inter> covered t = {}"
  shows "\<exists>t'. it_insert t q v = Some t' \<and> it_inv t' \<and> content t' = insert (q, new_state v) (content t)"
proof -
  have "\<not> overlaps (entries t) q"
    using assms(4) by (auto simp: overlaps_def range_intersect_pts covered_def content_def)
  with node_insert_ok [of t q v] assms show ?thesis
    by (auto simp: it_inv_def it_insert_def content_def)
qed

lemma it_insert_panics:
  assumes "it_inv t" "rmin q \<le> rmax q" "range_pts q \<inter> covered t \<noteq> {}"
  shows "it_insert t q v = None"
proof -
  have "overlaps (entries t) q"
    using assms(3) by (auto simp: overlaps_def range_intersect_pts covered_def content_def)
  with node_insert_overlap [of t q v] assms show ?thesis by (simp add: it_inv_def it_insert_def)
qed

lemma it_delete_content:
  assumes "it_inv t"
  shows "\<exists>t'. it_delete t q = Some (old_value (entries t) q, t') \<and> it_inv t' \<and>
           content t' = {e \<in> content t. fst e \<noteq> q}"
proof -
  have "separated (without q (entries t))"
    using assms by (auto simp: it_inv_def separated_def without_def sorted_wrt_filter)
  with node_delete_ok [of t q] assms show ?thesis
    by (auto simp: it_inv_def it_delete_def content_def without_def)
qed

lemma node_update_content:
  assumes "it_inv t" "(q, s) \<in> content t" "update_allowed s v"
  shows "\<exists>t'. node_update t q v = Some (ns_to_option s, t') \<and> it_inv t' \<and>
           content t' = insert (q, v) (content t - {(q, s)})"
proof -
  have m: "map_of (entries t) q = Some s" using content_map_of assms by blast
  then obtain t' where t': "node_update t q v = Some (old_value (entries t) q, t')" "avl t'"
      "entries t' = set_state q v (entries t)"
    using node_update_ok [of t q v] assms by (auto simp: it_inv_def)
  have "separated (entries t')"
    using assms(1) separated_map_fst [of "entries t'" "entries t"] t'(3) by (simp add: it_inv_def)
  moreover have "content t' = insert (q, v) (content t - {(q, s)})"
  proof -
    have uniq: "s' = s" if "(q, s') \<in> content t" for s'
      using content_key_unique [OF assms(1,2) that] by simp
    have "content t' = (\<lambda>e. if fst e = q then (q, v) else e) ` content t"
      by (simp add: content_def t'(3) set_state_def)
    also have "\<dots> = (\<lambda>e. (q, v)) ` {e \<in> content t. fst e = q} \<union> {e \<in> content t. fst e \<noteq> q}"
      by auto
    also have "{e \<in> content t. fst e = q} = {(q, s)}"
      using assms(2) by (auto dest: uniq)
    also have "{e \<in> content t. fst e \<noteq> q} = content t - {(q, s)}"
      by (auto dest: uniq)
    finally show ?thesis by simp
  qed
  ultimately show ?thesis using t' m by (auto simp: it_inv_def old_value_def)
qed

end
