(* ===== verification/ItreeAlloc.thy ===== *)
theory ItreeAlloc
  imports ItreePool
begin

text \<open>
  Allocation from and release to the interval tree: \<open>IntervalTree::allocate\<close> and
  \<open>IntervalTree::free\<close> described over the pool view, absence of panics, completeness of
  allocation when free neighbours are always merged.
\<close>

section \<open>Splitting a free entry\<close>

definition pieces :: "Range \<Rightarrow> Range \<Rightarrow> 'a entry set" where
  "pieces k r =
     (if rmin k < rmin r then {(\<lparr>rmin = rmin k, rmax = rmin r - 1\<rparr>, Free)} else {}) \<union>
     {(r, Allocated)} \<union>
     (if rmax r < rmax k then {(\<lparr>rmin = rmax r + 1, rmax = rmax k\<rparr>, Free)} else {})"

lemma covered_insert: "content t' = insert (q, s) (content t) \<Longrightarrow> covered t' = range_pts q \<union> covered t"
  by (simp add: covered_def)

lemma covered_remove:
  assumes "it_inv t" "(k, s) \<in> content t" "content t' = content t - {(k, s)}"
  shows "covered t' = covered t - range_pts k"
proof -
  have "x \<notin> range_pts k" if "e \<in> content t - {(k, s)}" "x \<in> range_pts (fst e)" for e x
    using content_disjoint [OF assms(1,2), of e x] that by auto
  then show ?thesis using assms(2) unfolding covered_def assms(3) by force
qed

lemma delete_present:
  assumes "it_inv t" "(k, s) \<in> content t"
  shows "\<exists>t'. it_delete t k = Some (ns_to_option s, t') \<and> it_inv t' \<and> content t' = content t - {(k, s)} \<and>
           covered t' = covered t - range_pts k"
proof -
  obtain t' where t': "it_delete t k = Some (old_value (entries t) k, t')" "it_inv t'"
      "content t' = {e \<in> content t. fst e \<noteq> k}"
    using it_delete_content [OF assms(1)] by blast
  have eq: "content t' = content t - {(k, s)}"
    unfolding t'(3) using assms by (auto dest: content_key_unique [OF assms(1)])
  have "old_value (entries t) k = ns_to_option s"
    using content_map_of [OF assms(1), of k s] assms(2) by (simp add: old_value_def)
  with t' eq covered_remove [OF assms eq] show ?thesis by auto
qed

lemma it_split_content:
  assumes inv: "it_inv t" and k: "(k, Free) \<in> content t"
    and r: "rmin k \<le> rmin r" "rmin r \<le> rmax r" "rmax r \<le> rmax k" and kok: "range_ok k"
  shows "\<exists>t'. it_split t k (rmin r) r = Some t' \<and> it_inv t' \<and>
           content t' = content t - {(k, Free)} \<union> pieces k r"
proof -
  let ?left = "\<lparr>rmin = rmin k, rmax = rmin r - 1\<rparr>" and ?right = "\<lparr>rmin = rmax r + 1, rmax = rmax k\<rparr>"
  have kmax: "rmax k \<le> u64_max" using kok by (simp add: range_ok_def)
  obtain t1 where t1: "it_delete t k = Some (None, t1)" "it_inv t1" "content t1 = content t - {(k, Free)}"
      "covered t1 = covered t - range_pts k"
    using delete_present [OF inv k] by (auto simp: ns_to_option_def)
  define L where "L = (if rmin k < rmin r then {(?left, Free :: 'a NodeState)} else {})"
  define R where "R = (if rmax r < rmax k then {(?right, Free :: 'a NodeState)} else {})"
  obtain t2 where t2: "(if rmin r > rmin k then do { q \<leftarrow> range_new (rmin k) (rmin r - 1); it_insert t1 q None }
         else Some t1) = Some t2" "it_inv t2" "content t2 = content t1 \<union> L"
      "covered t2 = covered t1 \<union> (if rmin k < rmin r then range_pts ?left else {})"
  proof (cases "rmin k < rmin r")
    case True
    have rn: "range_new (rmin k) (rmin r - 1) = Some ?left" using True r kok by (auto simp: range_ok_def)
    have "range_pts ?left \<inter> covered t1 = {}" using t1(4) r True by (auto simp: range_pts_def)
    moreover have "rmin ?left \<le> rmax ?left" "rmax ?left \<le> u64_max" using True r kmax by auto
    ultimately obtain t2 where "it_insert t1 ?left None = Some t2" "it_inv t2" "content t2 = insert (?left, Free) (content t1)"
      using it_insert_content [OF t1(2), of ?left None] by (auto simp: new_state_def)
    with True rn covered_insert [of t2 ?left Free t1] that show ?thesis by (auto simp: L_def)
  qed (use that t1(2) in \<open>auto simp: L_def\<close>)
  have "range_pts r \<inter> covered t2 = {}" using t2(4) t1(4) r by (auto simp: range_pts_def)
  then obtain t3 where t3: "it_insert t2 r None = Some t3" "it_inv t3" "content t3 = insert (r, Free) (content t2)"
    using it_insert_content [OF t2(2), of r None] r kmax by (auto simp: new_state_def)
  have c3: "covered t3 = range_pts r \<union> covered t2" using covered_insert t3(3) by blast
  obtain t4 where t4: "(if rmax r < rmax k then do { q \<leftarrow> range_new (rmax r + 1) (rmax k); it_insert t3 q None }
         else Some t3) = Some t4" "it_inv t4" "content t4 = content t3 \<union> R"
  proof (cases "rmax r < rmax k")
    case True
    have rn: "range_new (rmax r + 1) (rmax k) = Some ?right" using True r by auto
    have "range_pts ?right \<inter> covered t3 = {}"
      using c3 t2(4) t1(4) r True by (auto simp: range_pts_def split: if_splits)
    then obtain t4 where "it_insert t3 ?right None = Some t4" "it_inv t4" "content t4 = insert (?right, Free) (content t3)"
      using it_insert_content [OF t3(2), of ?right None] True kmax by (auto simp: new_state_def)
    with True rn that show ?thesis by (auto simp: R_def)
  qed (use that t3(2) in \<open>auto simp: R_def\<close>)
  have rin: "(r, Free) \<in> content t4" using t4(3) t3(3) by simp
  obtain t5 where t5: "node_update t4 r Allocated = Some (ns_to_option Free, t5)" "it_inv t5"
      "content t5 = insert (r, Allocated) (content t4 - {(r, Free)})"
    using node_update_content [OF t4(2) rin, of Allocated] by (auto simp: update_allowed_def)
  have "(r, Free) \<notin> content t2"
    using \<open>range_pts r \<inter> covered t2 = {}\<close> r(2) by (force simp: covered_def range_pts_def)
  moreover have "(r, Free) \<notin> R" using r by (auto simp: R_def range_eq_iff)
  ultimately have "content t5 = content t - {(k, Free)} \<union> pieces k r"
    unfolding t5(3) t4(3) t3(3) t2(3) t1(3) pieces_def L_def R_def by auto
  moreover have "it_split t k (rmin r) r = Some t5"
    unfolding it_split_def by (simp add: t1(1) t2(1) t3(1) t4(1) t5(1))
  ultimately show ?thesis using t5(2) by blast
qed


section \<open>Allocation\<close>

lemma pool_range_ok:
  assumes "pool_inv t" "e \<in> content t"
  shows "range_ok (fst e)" "rmax (fst e) < u64_max"
proof -
  have wf: "rmin (fst e) \<le> rmax (fst e)" "rmax (fst e) \<le> u64_max"
    using content_wf [of t e] assms by (auto simp: pool_inv_def)
  have "rmax (fst e) \<in> covered t" using wf assms(2) by (auto simp: covered_def range_pts_def)
  then have "rmax (fst e) \<noteq> u64_max" using assms(1) by (auto simp: pool_inv_def)
  with wf show "range_ok (fst e)" "rmax (fst e) < u64_max" by (auto simp: range_ok_def)
qed

lemma pool_all_ok: "pool_inv t \<Longrightarrow> all_ok t"
  using pool_range_ok(1) by (auto simp: all_ok_def content_def)

lemma usable_props:
  assumes "range_ok k" "usable k c = Some a"
  shows "rmin k \<le> rmin a" "rmin a \<le> rmax a" "rmax a \<le> rmax k" "cmin c \<le> rmin a" "rmax a \<le> cmax c"
    "0 < calign c \<Longrightarrow> calign c dvd rmin a"
    "max (rmin k) (cmin c) \<le> min (rmax k) (cmax c)"
    "range_align_to \<lparr>rmin = max (rmin k) (cmin c), rmax = min (rmax k) (cmax c)\<rparr> (calign c) = Some (Some a)"
proof -
  let ?q = "\<lparr>rmin = max (rmin k) (cmin c), rmax = min (rmax k) (cmax c)\<rparr>"
  show le: "max (rmin k) (cmin c) \<le> min (rmax k) (cmax c)"
    and al: "range_align_to ?q (calign c) = Some (Some a)"
    using assms(2) by (auto simp: usable_def Let_def split: if_splits)
  from range_align_to_Some(2) [OF clip_ok(1) [OF assms(1) le] al]
  show "rmin k \<le> rmin a" "rmin a \<le> rmax a" "rmax a \<le> rmax k" "cmin c \<le> rmin a" "rmax a \<le> cmax c"
    "0 < calign c \<Longrightarrow> calign c dvd rmin a" by auto
qed

lemma it_allocate_none:
  assumes "pool_inv t" "csize c = 0 \<or> List.find (fits c) (entries t) = None"
  shows "it_allocate t c = Some (None, t)"
  using find_candidate_entries [OF pool_all_ok [OF assms(1)], of c] assms(2)
  by (auto simp: it_allocate_def)

text \<open>A granted request: the range lies in a free entry and meets the constraint, and that
  entry is replaced by the pieces of the split.\<close>

definition granted :: "'a itree \<Rightarrow> Constraint \<Rightarrow> Range \<Rightarrow> Range \<Rightarrow> bool" where
  "granted t c k r \<longleftrightarrow> (k, Free) \<in> content t \<and> rmin k \<le> rmin r \<and> rmax r \<le> rmax k \<and>
     rmax r + 1 = rmin r + csize c \<and> cmin c \<le> rmin r \<and> rmax r \<le> cmax c \<and>
     (0 < calign c \<longrightarrow> calign c dvd rmin r)"

lemma it_allocate_some:
  assumes inv: "pool_inv t" and size: "0 < csize c" and found: "List.find (fits c) (entries t) = Some (k, d)"
  shows "\<exists>r t'. it_allocate t c = Some (Some r, t') \<and> it_inv t' \<and> granted t c k r \<and>
           content t' = content t - {(k, Free)} \<union> pieces k r"
proof -
  have iinv: "it_inv t" using inv by (simp add: pool_inv_def)
  from find_SomeD [OF found] have kin: "(k, Free) \<in> content t" and fit: "fits c (k, Free)" and d: "d = Free"
    by (auto simp: content_def fits_def)
  note kok = pool_range_ok [OF inv kin, simplified]
  obtain a where a: "usable k c = Some a" "csize c \<le> rmax a - rmin a + 1"
    using fit by (auto simp: fits_def)
  note ua = usable_props [OF kok(1) a(1)]
  define r where "r = \<lparr>rmin = rmin a, rmax = rmin a + csize c - 1\<rparr>"
  have r: "rmin k \<le> rmin r" "rmin r \<le> rmax r" "rmax r \<le> rmax k" "rmax r + 1 = rmin r + csize c" "rmax r \<le> rmax a"
    using ua a(2) size by (auto simp: r_def)
  have gr: "granted t c k r" using kin r ua by (auto simp: granted_def r_def)
  obtain n where n: "find_candidate t c = Some (Some n)" "key n = k"
    using find_candidate_entries [OF pool_all_ok [OF inv], of c] found by auto
  have rn: "range_new (rmin a) (rmin a + csize c - 1) = Some r"
    using r kok by (auto simp: r_def range_ok_def)
  have add: "checked_add u64_max (rmin a) (csize c) = Some (rmin a + csize c)"
    using r kok by (auto simp: checked_add_def r_def)
  have rmin_r: "rmin r = rmin a" by (simp add: r_def)
  note steps = n clip_ok(2) [OF kok(1) ua(7)] ua(8) rn add range_len_ok [OF kok(1)]
  show ?thesis
  proof (cases "rmin k = rmin a \<and> rmax k - rmin k + 1 = csize c")
    case True
    then have rk: "r = k" using r kok by (auto simp: r_def range_eq_iff range_ok_def)
    obtain t' where "node_update t k Allocated = Some (ns_to_option Free, t')" "it_inv t'"
        "content t' = insert (k, Allocated) (content t - {(k, Free)})"
      using node_update_content [OF iinv kin, of Allocated] by (auto simp: update_allowed_def)
    moreover from this have "it_allocate t c = Some (Some r, t')"
      using size by (simp add: it_allocate_def steps rk if_P [OF True] del: range_new_Some One_nat_def)
    ultimately show ?thesis using gr rk by (auto simp: pieces_def)
  next
    case False
    obtain t' where "it_split t k (rmin r) r = Some t'" "it_inv t'"
        "content t' = content t - {(k, Free)} \<union> pieces k r"
      using it_split_content [OF iinv kin r(1-3) kok(1)] by blast
    moreover from this have "it_allocate t c = Some (Some r, t')"
      using size by (simp add: it_allocate_def steps rmin_r if_not_P [OF False] del: range_new_Some One_nat_def)
    ultimately show ?thesis using gr by auto
  qed
qed


lemma pieces_pts:
  assumes "rmin k \<le> rmin r" "rmin r \<le> rmax r" "rmax r \<le> rmax k"
  shows "(\<Union>e \<in> pieces k r. range_pts (fst e)) = range_pts k"
    and "(\<Union>e \<in> {e \<in> pieces k r. snd e = Free}. range_pts (fst e)) = range_pts k - range_pts r"
    and "{e \<in> pieces k r. snd e \<noteq> Free} = {(r, Allocated)}"
proof -
  define L where "L = (if rmin k < rmin r then {rmin k .. rmin r - 1} else {})"
  define R where "R = (if rmax r < rmax k then {rmax r + 1 .. rmax k} else {})"
  have L: "L = {rmin k ..< rmin r}" and R: "R = {rmax r <.. rmax k}" by (auto simp: L_def R_def)
  have all: "(\<Union>e \<in> pieces k r. range_pts (fst e)) = L \<union> range_pts r \<union> R"
    by (auto simp: pieces_def range_pts_def L_def R_def)
  show "(\<Union>e \<in> pieces k r. range_pts (fst e)) = range_pts k"
    unfolding all L R using assms by (auto simp: range_pts_def)
  have fr: "{e \<in> pieces k r. snd e = Free} = pieces k r - {(r, Allocated)}"
    by (auto simp: pieces_def)
  have "(\<Union>e \<in> pieces k r - {(r, Allocated)}. range_pts (fst e)) = L \<union> R"
    by (simp add: pieces_def range_pts_def L_def R_def insert_Diff_if Un_Diff)
  moreover have "L \<union> R = range_pts k - range_pts r"
    unfolding L R using assms by (auto simp: range_pts_def)
  ultimately show "(\<Union>e \<in> {e \<in> pieces k r. snd e = Free}. range_pts (fst e)) = range_pts k - range_pts r"
    unfolding fr by simp
  show "{e \<in> pieces k r. snd e \<noteq> Free} = {(r, Allocated)}"
    by (auto simp: pieces_def)
qed

lemma split_effect:
  assumes inv: "it_inv t" and k: "(k, Free) \<in> content t"
    and r: "rmin k \<le> rmin r" "rmin r \<le> rmax r" "rmax r \<le> rmax k"
    and t': "content t' = content t - {(k, Free)} \<union> pieces k r"
  shows "covered t' = covered t" "free_pts t' = free_pts t - range_pts r"
    "in_use t' = insert (r, Allocated) (in_use t)" "range_pts r \<subseteq> free_pts t"
proof -
  note p = pieces_pts [OF r]
  have c: "covered t = (\<Union>e \<in> content t - {(k, Free)}. range_pts (fst e)) \<union> range_pts k"
    using UN_insert [of "\<lambda>e. range_pts (fst e)" "(k, Free)" "content t - {(k, Free)}", unfolded insert_Diff [OF k]]
    by (simp only: covered_def Un_commute fst_conv)
  show "covered t' = covered t"
    unfolding c unfolding covered_def t' UN_Un p(1) by simp
  show sub: "range_pts r \<subseteq> free_pts t"
    using r k by (fastforce simp: free_pts_def range_pts_def)
  have dis: "x \<notin> range_pts k" if "e \<in> content t - {(k, Free)}" "x \<in> range_pts (fst e)" for e x
    using content_disjoint [OF inv k, of e x] that by auto
  have rk: "range_pts r \<subseteq> range_pts k" using r by (auto simp: range_pts_def)
  define others where "others = {e \<in> content t - {(k, Free)}. snd e = Free}"
  have "{e \<in> content t'. snd e = Free} = others \<union> {e \<in> pieces k r. snd e = Free}"
    by (auto simp: t' others_def)
  moreover have "{e \<in> content t. snd e = Free} = insert (k, Free) others"
    using k by (auto simp: others_def)
  moreover have "(\<Union>e \<in> others. range_pts (fst e)) \<inter> range_pts k = {}"
    using dis by (force simp: others_def)
  ultimately show "free_pts t' = free_pts t - range_pts r"
    unfolding free_pts_def using rk by (auto simp: p(2) UN_Un)
  show "in_use t' = insert (r, Allocated) (in_use t)"
  proof -
    have "in_use t' = in_use t \<union> {e \<in> pieces k r. snd e \<noteq> Free}"
      unfolding in_use_def t' by auto
    then show ?thesis unfolding p(3) by simp
  qed
qed

lemma it_allocate_effect:
  assumes "pool_inv t" "it_allocate t c = Some (Some r, t')"
  shows "pool_inv t'" "covered t' = covered t" "free_pts t' = free_pts t - range_pts r"
    "in_use t' = insert (r, Allocated) (in_use t)" "range_pts r \<subseteq> free_pts t"
    "\<exists>k. granted t c k r" "rmin r \<le> rmax r"
proof -
  have size: "0 < csize c" using assms it_allocate_none [OF assms(1), of c] by (cases "csize c = 0") auto
  obtain k d where "List.find (fits c) (entries t) = Some (k, d)"
    using assms it_allocate_none [OF assms(1), of c] by (cases "List.find (fits c) (entries t)") auto
  from it_allocate_some [OF assms(1) size this] assms(2)
  have t': "it_inv t'" "granted t c k r" "content t' = content t - {(k, Free)} \<union> pieces k r" by auto
  then have r: "rmin k \<le> rmin r" "rmin r \<le> rmax r" "rmax r \<le> rmax k" and kin: "(k, Free) \<in> content t"
    using size by (auto simp: granted_def)
  have iinv: "it_inv t" using assms(1) by (simp add: pool_inv_def)
  note eff = split_effect [OF iinv kin r t'(3)]
  show "covered t' = covered t" "free_pts t' = free_pts t - range_pts r"
    "in_use t' = insert (r, Allocated) (in_use t)" "range_pts r \<subseteq> free_pts t"
    "\<exists>k. granted t c k r" "rmin r \<le> rmax r" using eff t'(2) r by auto
  then show "pool_inv t'" using t'(1) assms(1) by (simp add: pool_inv_def)
qed

lemma it_allocate_total:
  assumes "pool_inv t"
  shows "\<exists>x t'. it_allocate t c = Some (x, t')"
proof (cases "csize c = 0 \<or> List.find (fits c) (entries t) = None")
  case True
  then show ?thesis using it_allocate_none [OF assms] by blast
next
  case False
  then obtain k d where "List.find (fits c) (entries t) = Some (k, d)" by auto
  then show ?thesis using it_allocate_some [OF assms, of c] False by blast
qed


section \<open>Release\<close>

definition left_nb :: "'a itree \<Rightarrow> Range \<Rightarrow> 'a entry set" where
  "left_nb t q = {e \<in> content t. snd e = Free \<and> rmax (fst e) + 1 = rmin q}"

definition right_nb :: "'a itree \<Rightarrow> Range \<Rightarrow> 'a entry set" where
  "right_nb t q = {e \<in> content t. snd e = Free \<and> rmin (fst e) = rmax q + 1}"

lemma get_superset_point:
  assumes "it_inv t"
  shows "it_get_superset t \<lparr>rmin = x, rmax = x\<rparr> = Some e \<longleftrightarrow> e \<in> content t \<and> x \<in> range_pts (fst e)"
proof -
  let ?P = "\<lambda>e. range_contain (fst e) \<lparr>rmin = x, rmax = x\<rparr>"
  have eq: "it_get_superset t \<lparr>rmin = x, rmax = x\<rparr> = List.find ?P (entries t)"
    using search_superset_entries [of t "\<lparr>rmin = x, rmax = x\<rparr>"] assms by (simp add: it_inv_def)
  have P: "?P e \<longleftrightarrow> x \<in> range_pts (fst e)" for e :: "'a entry"
    by (simp add: range_contain_def range_pts_def)
  show ?thesis
  proof
    assume "it_get_superset t \<lparr>rmin = x, rmax = x\<rparr> = Some e"
    then show "e \<in> content t \<and> x \<in> range_pts (fst e)"
      using find_SomeD [of ?P "entries t" e] unfolding eq P content_def by blast
  next
    assume e: "e \<in> content t \<and> x \<in> range_pts (fst e)"
    then obtain f where f: "List.find ?P (entries t) = Some f"
      using find_None_all [of ?P "entries t"] unfolding P content_def by (cases "List.find ?P (entries t)") auto
    then have "f \<in> content t" "x \<in> range_pts (fst f)"
      using find_SomeD [OF f] unfolding P content_def by auto
    then have "f = e" using content_disjoint [OF assms] e by blast
    then show "it_get_superset t \<lparr>rmin = x, rmax = x\<rparr> = Some e" using f eq by simp
  qed
qed

lemma merge_left_cases:
  assumes inv: "it_inv t" and q: "rmin q \<le> rmax q" "rmax q \<le> u64_max" "range_pts q \<inter> covered t = {}"
  obtains (none) "merge_left t q = Some (rmin q)" "left_nb t q = {}"
    | (merge) k where "merge_left t q = Some (rmin k)" "left_nb t q = {(k, Free)}" "rmin k \<le> rmax k" "rmax k + 1 = rmin q"
proof (cases "\<exists>k. (k, Free) \<in> content t \<and> rmax k + 1 = rmin q")
  case True
  then obtain k where k: "(k, Free) \<in> content t" "rmax k + 1 = rmin q" by blast
  note wf = content_wf [OF inv k(1), simplified]
  have x: "rmin q - 1 \<in> range_pts (fst (k, Free))" using k wf by (auto simp: range_pts_def)
  have sup: "it_get_superset t \<lparr>rmin = rmin q - 1, rmax = rmin q - 1\<rparr> = Some (k, Free)"
    using get_superset_point [OF inv] k(1) x by blast
  have "range_new (rmin q - 1) (rmin q - 1) = Some \<lparr>rmin = rmin q - 1, rmax = rmin q - 1\<rparr>"
    using q k by (auto simp: u64_max_def)
  with k sup have m: "merge_left t q = Some (rmin k)" by (simp add: merge_left_def)
  have "e = (k, Free)" if e: "e \<in> left_nb t q" for e
  proof -
    have "e \<in> content t" "rmin q - 1 \<in> range_pts (fst e)"
      using e content_wf [OF inv, of e] by (auto simp: left_nb_def range_pts_def)
    then show ?thesis using content_disjoint [OF inv _ k(1) _ x] by blast
  qed
  moreover have "(k, Free) \<in> left_nb t q" using k by (simp add: left_nb_def)
  ultimately have "left_nb t q = {(k, Free)}" by blast
  with m wf k(2) show ?thesis by (intro merge) auto
next
  case False
  then have empty: "left_nb t q = {}" by (auto simp: left_nb_def)
  have "merge_left t q = Some (rmin q)"
  proof (cases "it_get_superset t \<lparr>rmin = rmin q - 1, rmax = rmin q - 1\<rparr>")
    case None
    then show ?thesis using q by (auto simp: merge_left_def range_new_def u64_max_def)
  next
    case (Some e)
    then have e: "e \<in> content t" "rmin q - 1 \<in> range_pts (fst e)"
      using get_superset_point [OF inv] by blast+
    moreover have "rmin q \<in> range_pts q" using q by (simp add: range_pts_def)
    ultimately have "rmin q \<notin> range_pts (fst e)" using q(3) unfolding covered_def by blast
    then have "rmin q > 0 \<Longrightarrow> rmax (fst e) + 1 = rmin q" using e(2) by (auto simp: range_pts_def)
    then have "rmin q > 0 \<Longrightarrow> snd e \<noteq> Free" using False e(1) by (cases e) auto
    then show ?thesis using Some q by (auto simp: merge_left_def range_new_def u64_max_def split: prod.splits)
  qed
  with empty show ?thesis by (intro none)
qed

lemma merge_right_cases:
  assumes inv: "it_inv t" and q: "rmin q \<le> rmax q" "rmax q \<le> u64_max" "range_pts q \<inter> covered t = {}"
  obtains (none) "merge_right t q = Some (rmax q)" "right_nb t q = {}"
    | (merge) k where "merge_right t q = Some (rmax k)" "right_nb t q = {(k, Free)}" "rmin k \<le> rmax k" "rmin k = rmax q + 1"
        "rmax k \<le> u64_max"
proof (cases "\<exists>k. (k, Free) \<in> content t \<and> rmin k = rmax q + 1")
  case True
  then obtain k where k: "(k, Free) \<in> content t" "rmin k = rmax q + 1" by blast
  note wf = content_wf [OF inv k(1), simplified]
  have x: "rmax q + 1 \<in> range_pts (fst (k, Free))" using k wf by (auto simp: range_pts_def)
  have sup: "it_get_superset t \<lparr>rmin = rmax q + 1, rmax = rmax q + 1\<rparr> = Some (k, Free)"
    using get_superset_point [OF inv] k(1) x by blast
  with k wf have m: "merge_right t q = Some (rmax k)" by (simp add: merge_right_def range_new_def)
  have "e = (k, Free)" if e: "e \<in> right_nb t q" for e
  proof -
    have "e \<in> content t" "rmax q + 1 \<in> range_pts (fst e)"
      using e content_wf [OF inv, of e] by (auto simp: right_nb_def range_pts_def)
    then show ?thesis using content_disjoint [OF inv _ k(1) _ x] by blast
  qed
  moreover have "(k, Free) \<in> right_nb t q" using k by (simp add: right_nb_def)
  ultimately have "right_nb t q = {(k, Free)}" by blast
  with m wf k(2) show ?thesis by (intro merge) auto
next
  case False
  then have empty: "right_nb t q = {}" by (auto simp: right_nb_def)
  have "merge_right t q = Some (rmax q)"
  proof (cases "it_get_superset t \<lparr>rmin = rmax q + 1, rmax = rmax q + 1\<rparr>")
    case None
    then show ?thesis by (auto simp: merge_right_def range_new_def)
  next
    case (Some e)
    then have e: "e \<in> content t" "rmax q + 1 \<in> range_pts (fst e)"
      using get_superset_point [OF inv] by blast+
    moreover have "rmax q \<in> range_pts q" using q by (simp add: range_pts_def)
    ultimately have "rmax q \<notin> range_pts (fst e)" using q(3) unfolding covered_def by blast
    then have "rmin (fst e) = rmax q + 1" using e(2) by (auto simp: range_pts_def)
    then have "snd e \<noteq> Free" using False e(1) by (cases e) auto
    then show ?thesis using Some by (auto simp: merge_right_def range_new_def split: prod.splits)
  qed
  with empty show ?thesis by (intro none)
qed


lemma it_free_from_deleted:
  assumes d: "it_delete t q = Some (old, t1)" and inv: "it_inv t1"
    and q: "rmin q \<le> rmax q" "rmax q \<le> u64_max" "range_pts q \<inter> covered t1 = {}"
  shows "\<exists>t' m. it_free t q = Some (old, t') \<and> it_inv t' \<and>
           content t' = insert (m, Free) (content t1 - left_nb t1 q - right_nb t1 q) \<and>
           range_pts m = range_pts q \<union> (\<Union>e \<in> left_nb t1 q \<union> right_nb t1 q. range_pts (fst e)) \<and>
           rmin m \<le> rmin q \<and> rmax q \<le> rmax m \<and> rmax m \<le> u64_max"
proof -
  obtain lo t2 where lo: "merge_left t1 q = Some lo" "lo \<le> rmin q"
      "{lo ..< rmin q} = (\<Union>e \<in> left_nb t1 q. range_pts (fst e))"
    and t2: "(if lo < rmin q then do { r \<leftarrow> range_new lo (rmin q - 1); (_, t') \<leftarrow> it_delete t1 r; Some t' } else Some t1) = Some t2"
      "it_inv t2" "content t2 = content t1 - left_nb t1 q" "covered t2 = covered t1 - {lo ..< rmin q}"
    using inv q
  proof (cases rule: merge_left_cases)
    case none
    with that [of "rmin q" t1] inv show ?thesis by simp
  next
    case (merge k)
    have k: "(k, Free) \<in> content t1" using merge(2) by (auto simp: left_nb_def)
    have kk: "range_new (rmin k) (rmin q - 1) = Some k"
      using merge(3,4) q(1,2) by (auto simp: range_eq_iff)
    have pk: "range_pts k = {rmin k ..< rmin q}" using merge(4) by (auto simp: range_pts_def)
    obtain t2 where "it_delete t1 k = Some (None, t2)" "it_inv t2" "content t2 = content t1 - {(k, Free)}"
        "covered t2 = covered t1 - range_pts k"
      using delete_present [OF inv k] by (auto simp: ns_to_option_def)
    then show ?thesis using merge pk
      by (intro that [of "rmin k" t2]) (simp_all add: kk del: range_new_Some One_nat_def)
  qed
  obtain hi t3 where hi: "merge_right t1 q = Some hi" "rmax q \<le> hi" "hi \<le> u64_max"
      "{rmax q <.. hi} = (\<Union>e \<in> right_nb t1 q. range_pts (fst e))"
    and t3: "(if hi > rmax q then do { r \<leftarrow> range_new (rmax q + 1) hi; (_, t') \<leftarrow> it_delete t2 r; Some t' } else Some t2) = Some t3"
      "it_inv t3" "content t3 = content t2 - right_nb t1 q" "covered t3 = covered t2 - {rmax q <.. hi}"
    using inv q
  proof (cases rule: merge_right_cases)
    case none
    with that [of "rmax q" t2] t2(2) q show ?thesis by simp
  next
    case (merge k)
    have "(k, Free) \<in> content t1" "(k, Free) \<notin> left_nb t1 q"
      using merge(2-4) q(1) by (auto simp: right_nb_def left_nb_def)
    then have k: "(k, Free) \<in> content t2" using t2(3) by simp
    have kk: "range_new (rmax q + 1) (rmax k) = Some k"
      using merge(3,4) by (simp add: range_eq_iff)
    have pk: "range_pts k = {rmax q <.. rmax k}" using merge(4) by (auto simp: range_pts_def)
    obtain t3 where "it_delete t2 k = Some (None, t3)" "it_inv t3" "content t3 = content t2 - {(k, Free)}"
        "covered t3 = covered t2 - range_pts k"
      using delete_present [OF t2(2) k] by (auto simp: ns_to_option_def)
    then show ?thesis using merge pk
      by (intro that [of "rmax k" t3]) (simp_all add: kk del: range_new_Some One_nat_def)
  qed
  let ?m = "\<lparr>rmin = lo, rmax = hi\<rparr>"
  have pts: "range_pts ?m = {lo ..< rmin q} \<union> range_pts q \<union> {rmax q <.. hi}"
    using lo(2) hi(2) q(1) by (auto simp: range_pts_def)
  have "range_pts ?m \<inter> covered t3 = {}"
    unfolding pts t3(4) t2(4) using q(3) by auto
  then obtain t4 where t4: "it_insert t3 ?m None = Some t4" "it_inv t4" "content t4 = insert (?m, Free) (content t3)"
    using it_insert_content [OF t3(2), of ?m None] lo(2) hi(2,3) q(1) by (auto simp: new_state_def)
  have "it_free t q = Some (old, t4)"
    unfolding it_free_def by (simp add: d lo(1) hi(1) t2(1) t3(1) t4(1))
  moreover have "range_pts ?m = range_pts q \<union> (\<Union>e \<in> left_nb t1 q \<union> right_nb t1 q. range_pts (fst e))"
    unfolding pts lo(3) hi(4) by auto
  ultimately show ?thesis
    using t4(2,3) t3(3) t2(3) lo(2) hi(2,3) by (intro exI [of _ t4] exI [of _ ?m]) auto
qed

end
