(* ===== verification/PoolInterface.thy ===== *)
theory PoolInterface
  imports AllocRange
begin

text \<open>
  The contract between the interval tree and its clients.  A pool hands out ranges and takes
  them back; the client relies on what is free, what is in use, and on the pool's invariant.
\<close>

locale range_pool =
  fixes alloc :: "'p \<Rightarrow> Constraint \<Rightarrow> (Range option \<times> 'p) may_panic"
    and mark :: "'p \<Rightarrow> Range \<Rightarrow> 'v \<Rightarrow> ('v option \<times> 'p) may_panic"
    and release :: "'p \<Rightarrow> Range \<Rightarrow> ('v option \<times> 'p) may_panic"
    and inv :: "'p \<Rightarrow> bool"
    and managed :: "'p \<Rightarrow> nat set"
    and avail :: "'p \<Rightarrow> nat set"
    and used :: "'p \<Rightarrow> (Range \<times> 'v NodeState) set"
  assumes alloc_total: "inv p \<Longrightarrow> \<exists>x p'. alloc p c = Some (x, p')"
    and alloc_fail: "inv p \<Longrightarrow> alloc p c = Some (None, p') \<Longrightarrow> p' = p"
    and alloc_inv: "inv p \<Longrightarrow> alloc p c = Some (Some r, p') \<Longrightarrow> inv p'"
    and alloc_avail: "inv p \<Longrightarrow> alloc p c = Some (Some r, p') \<Longrightarrow> avail p' = avail p - range_pts r"
    and alloc_used: "inv p \<Longrightarrow> alloc p c = Some (Some r, p') \<Longrightarrow> used p' = insert (r, Allocated) (used p)"
    and alloc_range: "inv p \<Longrightarrow> alloc p c = Some (Some r, p') \<Longrightarrow>
          range_pts r \<subseteq> avail p \<and> rmax r + 1 = rmin r + csize c \<and> cmin c \<le> rmin r \<and> rmax r \<le> cmax c \<and>
          0 < csize c \<and> (0 < calign c \<longrightarrow> calign c dvd rmin r)"
    and mark_used: "inv p \<Longrightarrow> (r, s) \<in> used p \<Longrightarrow>
          \<exists>p'. mark p r v = Some (ns_to_option s, p') \<and> inv p' \<and> avail p' = avail p \<and>
               used p' = insert (r, Valued v) (used p - {(r, s)})"
    and release_used: "inv p \<Longrightarrow> (r, s) \<in> used p \<Longrightarrow>
          \<exists>p'. release p r = Some (ns_to_option s, p') \<and> inv p' \<and> avail p' = avail p \<union> range_pts r \<and>
               used p' = used p - {(r, s)}"
    and release_foreign: "inv p \<Longrightarrow> rmin r \<le> rmax r \<Longrightarrow> range_pts r \<inter> managed p \<noteq> {} \<Longrightarrow>
          \<not> range_pts r \<subseteq> avail p \<Longrightarrow> (\<And>s. (r, s) \<notin> used p) \<Longrightarrow> release p r = None"
    and used_wf: "inv p \<Longrightarrow> (r, s) \<in> used p \<Longrightarrow> rmin r \<le> rmax r \<and> s \<noteq> Free"
    and used_disjoint: "inv p \<Longrightarrow> (r, s) \<in> used p \<Longrightarrow> (r', s') \<in> used p \<Longrightarrow>
          range_pts r \<inter> range_pts r' \<noteq> {} \<Longrightarrow> (r, s) = (r', s')"
    and partition: "inv p \<Longrightarrow> managed p = avail p \<union> (\<Union>(r, s) \<in> used p. range_pts r)"
    and used_not_avail: "inv p \<Longrightarrow> (r, s) \<in> used p \<Longrightarrow> range_pts r \<inter> avail p = {}"
begin

text \<open>Allocating and marking, the sequence every client but two performs.\<close>

definition take_marked :: "'p \<Rightarrow> Constraint \<Rightarrow> 'v \<Rightarrow> (Range option \<times> 'p) may_panic" where
  "take_marked p c v = do {
     (k, p1) \<leftarrow> alloc p c;
     case k of
       None \<Rightarrow> ret (None, p1)
     | Some r \<Rightarrow> do { (_, p2) \<leftarrow> mark p1 r v; ret (Some r, p2) } }"

lemma take_marked_cases:
  assumes "inv p"
  obtains (fail) "take_marked p c v = Some (None, p)" "alloc p c = Some (None, p)"
    | (grant) r p' where "take_marked p c v = Some (Some r, p')" "inv p'" "avail p' = avail p - range_pts r"
        "used p' = insert (r, Valued v) (used p)" "range_pts r \<subseteq> avail p" "(r, Valued v) \<notin> used p"
        "rmax r + 1 = rmin r + csize c" "cmin c \<le> rmin r" "rmax r \<le> cmax c" "0 < csize c"
        "0 < calign c \<longrightarrow> calign c dvd rmin r"
proof -
  obtain x p1 where a: "alloc p c = Some (x, p1)" using alloc_total [OF assms] by blast
  show ?thesis
  proof (cases x)
    case None
    then have "p1 = p" using alloc_fail [OF assms] a by simp
    with a None show ?thesis by (intro fail) (simp_all add: take_marked_def)
  next
    case (Some r)
    note al = alloc_inv [OF assms a [unfolded Some]] alloc_avail [OF assms a [unfolded Some]]
      alloc_used [OF assms a [unfolded Some]] alloc_range [OF assms a [unfolded Some]]
    obtain p2 where p2: "mark p1 r v = Some (ns_to_option (Allocated :: 'v NodeState), p2)" "inv p2" "avail p2 = avail p1"
        "used p2 = insert (r, Valued v) (used p1 - {(r, Allocated)})"
      using mark_used [OF al(1), of r Allocated v] al(3) by auto
    have fresh: "(r, s) \<notin> used p" for s
    proof
      assume "(r, s) \<in> used p"
      then have "range_pts r \<inter> avail p = {}" by (rule used_not_avail [OF assms])
      moreover have "rmin r \<in> range_pts r" "range_pts r \<subseteq> avail p" using al(4) by (auto simp: range_pts_def)
      ultimately show False by blast
    qed
    then have "used p2 = insert (r, Valued v) (used p)" unfolding p2(4) al(3) by auto
    with p2 al fresh a Some show ?thesis by (intro grant [of r p2]) (simp_all add: take_marked_def)
  qed
qed

text \<open>What is handed out never overlaps what is in use.\<close>

lemma alloc_fresh:
  assumes "inv p" "alloc p c = Some (Some r, p')" "(r', s) \<in> used p"
  shows "range_pts r \<inter> range_pts r' = {}"
  using alloc_range [OF assms(1,2)] used_not_avail [OF assms(1,3)] by blast

text \<open>Releasing what was just taken restores the pool's observable state.\<close>

lemma take_marked_release:
  assumes inv: "inv p" and t: "take_marked p c v = Some (Some r, p1)"
  shows "\<exists>p'. release p1 r = Some (Some v, p') \<and> inv p' \<and> avail p' = avail p \<and> used p' = used p"
  using inv
proof (cases rule: take_marked_cases [of p c v])
  case fail
  with t show ?thesis by simp
next
  case (grant r' p')
  then have eq: "r' = r" "p' = p1" using t by auto
  have "(r, Valued v) \<in> used p1" using grant(4) eq by simp
  from release_used [OF grant(2) [unfolded eq] this] grant eq show ?thesis
    by (auto simp: ns_to_option_def)
qed

text \<open>No operation changes what the pool manages.\<close>

lemma alloc_managed:
  assumes "inv p" "alloc p c = Some (Some r, p')"
  shows "managed p' = managed p"
  using partition [OF assms(1)] partition [OF alloc_inv [OF assms]]
    alloc_range [OF assms] alloc_avail [OF assms] alloc_used [OF assms] by auto

lemma take_marked_managed:
  assumes "inv p" "take_marked p c v = Some (Some r, p')"
  shows "managed p' = managed p"
  using assms(1)
proof (cases rule: take_marked_cases [of p c v])
  case (grant r' p'')
  then have "r' = r" "p'' = p'" using assms(2) by auto
  with grant partition [OF assms(1)] partition [OF grant(2)] show ?thesis by auto
qed (use assms(2) in simp)

lemma release_spec:
  assumes "inv p" "(r, s) \<in> used p" "release p r = Some (x, p')"
  shows "inv p'" "avail p' = avail p \<union> range_pts r" "used p' = used p - {(r, s)}" "managed p' = managed p"
proof -
  show *: "inv p'" "avail p' = avail p \<union> range_pts r" "used p' = used p - {(r, s)}"
    using release_used [OF assms(1,2)] assms(3) by auto
  show "managed p' = managed p"
    using partition [OF assms(1)] partition [OF *(1)] *(2,3) assms(2) by auto
qed

text \<open>Releasing a key that starts inside a range in use but is not that range is refused.\<close>

lemma release_wrong_key:
  assumes "inv p" "(r, s) \<in> used p" "q \<noteq> r" "rmin q \<le> rmax q" "rmin q \<in> range_pts r"
  shows "release p q = None"
proof (rule release_foreign [OF assms(1,4)])
  have q: "rmin q \<in> range_pts q" using assms(4) by (simp add: range_pts_def)
  show "range_pts q \<inter> managed p \<noteq> {}" using q assms(2,5) partition [OF assms(1)] by blast
  show "\<not> range_pts q \<subseteq> avail p" using q assms(5) used_not_avail [OF assms(1,2)] by blast
  show "(q, s') \<notin> used p" for s'
    using used_disjoint [OF assms(1,2), of q s'] q assms(3,5) by blast
qed

end

end
