(* ===== verification/ItreeFree.thy ===== *)
theory ItreeFree
  imports ItreeAlloc PoolInterface
begin

text \<open>
  The pool view of \<open>IntervalTree::free\<close>, the coalescing invariant, and completeness of
  allocation: with free neighbours merged, a request fails only if no aligned window of the
  requested size is free.
\<close>

section \<open>Releasing a range\<close>

lemma left_right_subset: "left_nb t q \<subseteq> content t" "right_nb t q \<subseteq> content t"
  by (auto simp: left_nb_def right_nb_def)

lemma free_content_effect:
  assumes inv: "it_inv t1" and q: "rmin q \<le> rmax q" "range_pts q \<inter> covered t1 = {}"
    and t': "content t' = insert (m, Free) (content t1 - left_nb t1 q - right_nb t1 q)"
    and m: "range_pts m = range_pts q \<union> (\<Union>e \<in> left_nb t1 q \<union> right_nb t1 q. range_pts (fst e))"
  shows "covered t' = covered t1 \<union> range_pts q" "free_pts t' = free_pts t1 \<union> range_pts q" "in_use t' = in_use t1"
proof -
  let ?nb = "left_nb t1 q \<union> right_nb t1 q"
  have nb: "?nb \<subseteq> {e \<in> content t1. snd e = Free}" by (auto simp: left_nb_def right_nb_def)
  have t2: "content t' = insert (m, Free) (content t1 - ?nb)" using t' by auto
  show "covered t' = covered t1 \<union> range_pts q"
  proof -
    have "covered t' = range_pts q \<union> (\<Union>e \<in> ?nb \<union> (content t1 - ?nb). range_pts (fst e))"
      unfolding covered_def t2 by (auto simp: m)
    also have "?nb \<union> (content t1 - ?nb) = content t1" using nb by blast
    finally show ?thesis by (simp add: covered_def Un_commute)
  qed
  show "free_pts t' = free_pts t1 \<union> range_pts q"
  proof -
    have "{e \<in> content t'. snd e = Free} = insert (m, Free) ({e \<in> content t1. snd e = Free} - ?nb)"
      unfolding t2 by auto
    then have "free_pts t' = range_pts q \<union> (\<Union>e \<in> ?nb \<union> ({e \<in> content t1. snd e = Free} - ?nb). range_pts (fst e))"
      unfolding free_pts_def by (auto simp: m)
    also have "?nb \<union> ({e \<in> content t1. snd e = Free} - ?nb) = {e \<in> content t1. snd e = Free}" using nb by blast
    finally show ?thesis by (simp add: free_pts_def Un_commute)
  qed
  show "in_use t' = in_use t1"
    unfolding in_use_def t2 using nb by auto
qed

text \<open>No two free entries touch.\<close>

definition coalesced :: "'a itree \<Rightarrow> bool" where
  "coalesced t \<longleftrightarrow> (\<forall>a \<in> content t. \<forall>b \<in> content t. snd a = Free \<longrightarrow> snd b = Free \<longrightarrow> rmax (fst a) + 1 \<noteq> rmin (fst b))"

lemma coalescedD: "coalesced t \<Longrightarrow> a \<in> content t \<Longrightarrow> b \<in> content t \<Longrightarrow> snd a = Free \<Longrightarrow> snd b = Free \<Longrightarrow>
    rmax (fst a) + 1 \<noteq> rmin (fst b)"
  by (auto simp: coalesced_def)

lemma free_coalesced:
  assumes inv: "it_inv t1" and q: "rmin q \<le> rmax q" and co: "coalesced t1"
    and t': "content t' = insert (m, Free) (content t1 - left_nb t1 q - right_nb t1 q)"
    and m: "range_pts m = range_pts q \<union> (\<Union>e \<in> left_nb t1 q \<union> right_nb t1 q. range_pts (fst e))"
      "rmin m \<le> rmin q" "rmax q \<le> rmax m"
  shows "coalesced t'"
proof -
  have sub: "range_pts (fst f) \<subseteq> range_pts m" if "f \<in> left_nb t1 q \<union> right_nb t1 q" for f
    using m(1) that by blast
  have L: "rmax (fst e) + 1 \<noteq> rmin m" if e: "e \<in> content t1" "snd e = Free" "e \<notin> left_nb t1 q" for e
  proof
    assume adj: "rmax (fst e) + 1 = rmin m"
    have "rmin m \<in> range_pts m" using m(2,3) q by (auto simp: range_pts_def)
    then consider "rmin m \<in> range_pts q" | f where "f \<in> left_nb t1 q \<union> right_nb t1 q" "rmin m \<in> range_pts (fst f)"
      unfolding m(1) by blast
    then show False
    proof cases
      case 1
      then have "rmin m = rmin q" using m(2) by (auto simp: range_pts_def)
      with adj e show False by (auto simp: left_nb_def)
    next
      case 2
      then have "rmin (fst f) \<in> range_pts m" using sub [OF 2(1)] by (auto simp: range_pts_def)
      then have "rmin (fst f) = rmin m" using 2(2) by (auto simp: range_pts_def)
      moreover have "f \<in> content t1" "snd f = Free" using 2(1) by (auto simp: left_nb_def right_nb_def)
      ultimately show False using coalescedD [OF co e(1) _ e(2)] adj by metis
    qed
  qed
  have R: "rmax m + 1 \<noteq> rmin (fst e)" if e: "e \<in> content t1" "snd e = Free" "e \<notin> right_nb t1 q" for e
  proof
    assume adj: "rmax m + 1 = rmin (fst e)"
    have "rmax m \<in> range_pts m" using m(2,3) q by (auto simp: range_pts_def)
    then consider "rmax m \<in> range_pts q" | f where "f \<in> left_nb t1 q \<union> right_nb t1 q" "rmax m \<in> range_pts (fst f)"
      unfolding m(1) by blast
    then show False
    proof cases
      case 1
      then have "rmax m = rmax q" using m(3) by (auto simp: range_pts_def)
      with adj e show False by (auto simp: right_nb_def)
    next
      case 2
      then have "rmax (fst f) \<in> range_pts m" using sub [OF 2(1)] by (auto simp: range_pts_def)
      then have "rmax (fst f) = rmax m" using 2(2) by (auto simp: range_pts_def)
      moreover have "f \<in> content t1" "snd f = Free" using 2(1) by (auto simp: left_nb_def right_nb_def)
      ultimately show False using coalescedD [OF co _ e(1) _ e(2)] adj by metis
    qed
  qed
  show ?thesis
    unfolding coalesced_def t'
    using L R coalescedD [OF co] m(2,3) q by auto
qed

lemma it_free_effect:
  assumes inv: "it_inv t" and q: "(q, s) \<in> content t"
  shows "\<exists>t'. it_free t q = Some (ns_to_option s, t') \<and> it_inv t' \<and> covered t' = covered t \<and>
           free_pts t' = free_pts t \<union> range_pts q \<and> in_use t' = in_use t - {(q, s)} \<and>
           (coalesced t \<longrightarrow> coalesced t')"
proof -
  note wf = content_wf [OF inv q, simplified]
  obtain t1 where t1: "it_delete t q = Some (ns_to_option s, t1)" "it_inv t1" "content t1 = content t - {(q, s)}"
      "covered t1 = covered t - range_pts q"
    using delete_present [OF inv q] by blast
  then have dis: "range_pts q \<inter> covered t1 = {}" by auto
  obtain t' m where t': "it_free t q = Some (ns_to_option s, t')" "it_inv t'"
      "content t' = insert (m, Free) (content t1 - left_nb t1 q - right_nb t1 q)"
      "range_pts m = range_pts q \<union> (\<Union>e \<in> left_nb t1 q \<union> right_nb t1 q. range_pts (fst e))"
      "rmin m \<le> rmin q" "rmax q \<le> rmax m"
    using it_free_from_deleted [OF t1(1,2) wf dis] by auto
  note eff = free_content_effect [OF t1(2) wf(1) dis t'(3,4)]
  have "covered t' = covered t"
    using eff(1) t1(4) q by (force simp: covered_def)
  moreover have "free_pts t' = free_pts t \<union> range_pts q"
  proof -
    have "{e \<in> content t. snd e = Free} \<subseteq> insert (q, s) {e \<in> content t1. snd e = Free}"
      and "{e \<in> content t1. snd e = Free} \<subseteq> {e \<in> content t. snd e = Free}"
      unfolding t1(3) by auto
    then have "free_pts t \<subseteq> range_pts q \<union> free_pts t1" "free_pts t1 \<subseteq> free_pts t"
      unfolding free_pts_def by force+
    with eff(2) show ?thesis by blast
  qed
  moreover have "in_use t' = in_use t - {(q, s)}"
    using eff(3) t1(3) by (auto simp: in_use_def)
  moreover have "coalesced t \<longrightarrow> coalesced t'"
    using free_coalesced [OF t1(2) wf(1) _ t'(3-6)] t1(3) by (auto simp: coalesced_def)
  ultimately show ?thesis using t'(1,2) by auto
qed


text \<open>Releasing something that is neither an entry nor disjoint from all entries panics.\<close>

lemma it_free_panics:
  assumes inv: "it_inv t" and q: "rmin q \<le> rmax q" and no: "\<And>s. (q, s) \<notin> content t"
    and over: "range_pts q \<inter> covered t \<noteq> {}"
  shows "it_free t q = None"
proof (rule ccontr)
  assume "it_free t q \<noteq> None"
  then obtain res t1 lo hi t2 t3 t4 where
      t1: "it_delete t q = Some (res, t1)" and lo: "merge_left t1 q = Some lo" and hi: "merge_right t1 q = Some hi"
    and t2: "(if lo < rmin q then do { r \<leftarrow> range_new lo (rmin q - 1); (_, t') \<leftarrow> it_delete t1 r; Some t' } else Some t1) = Some t2"
    and t3: "(if hi > rmax q then do { r \<leftarrow> range_new (rmax q + 1) hi; (_, t') \<leftarrow> it_delete t2 r; Some t' } else Some t2) = Some t3"
    and t4: "it_insert t3 \<lparr>rmin = lo, rmax = hi\<rparr> None = Some t4"
    unfolding it_free_def by (auto split: prod.splits simp del: range_new_Some)
  obtain e x where e: "e \<in> content t" "x \<in> range_pts (fst e)" "x \<in> range_pts q"
    using over by (auto simp: covered_def)
  have e1: "it_inv t1 \<and> e \<in> content t1"
    using it_delete_content [OF inv, of q] t1 e(1) no by (cases e) auto
  have e2: "it_inv t2 \<and> e \<in> content t2"
  proof (cases "lo < rmin q")
    case True
    then obtain old where "it_delete t1 \<lparr>rmin = lo, rmax = rmin q - 1\<rparr> = Some (old, t2)"
      using t2 by (auto split: prod.splits)
    moreover have "fst e \<noteq> \<lparr>rmin = lo, rmax = rmin q - 1\<rparr>"
      using e(2,3) True by (auto simp: range_pts_def)
    ultimately show ?thesis
      using it_delete_content [of t1 "\<lparr>rmin = lo, rmax = rmin q - 1\<rparr>"] e1 by auto
  qed (use t2 e1 in simp)
  have e3: "it_inv t3 \<and> e \<in> content t3"
  proof (cases "hi > rmax q")
    case True
    then obtain old where "it_delete t2 \<lparr>rmin = rmax q + 1, rmax = hi\<rparr> = Some (old, t3)"
      using t3 by (auto split: prod.splits)
    moreover have "fst e \<noteq> \<lparr>rmin = rmax q + 1, rmax = hi\<rparr>"
      using e(2,3) by (auto simp: range_pts_def)
    ultimately show ?thesis
      using it_delete_content [of t2 "\<lparr>rmin = rmax q + 1, rmax = hi\<rparr>"] e2 by auto
  qed (use t3 e2 in simp)
  have "lo \<le> rmin q" "rmax q \<le> hi"
    using lo hi get_superset_point e1
    by (fastforce simp: merge_left_def merge_right_def range_pts_def split: if_splits option.splits)+
  then have "x \<in> range_pts \<lparr>rmin = lo, rmax = hi\<rparr>" using e(3) by (auto simp: range_pts_def)
  then have "range_pts \<lparr>rmin = lo, rmax = hi\<rparr> \<inter> covered t3 \<noteq> {}"
    using e(2) e3 by (auto simp: covered_def)
  moreover have "rmin \<lparr>rmin = lo, rmax = hi\<rparr> \<le> rmax \<lparr>rmin = lo, rmax = hi\<rparr>"
    using \<open>lo \<le> rmin q\<close> \<open>rmax q \<le> hi\<close> q by simp
  ultimately show False using it_insert_panics [of t3 "\<lparr>rmin = lo, rmax = hi\<rparr>" None] e3 t4 by simp
qed

section \<open>Coalescing and completeness\<close>

lemma pieces_free:
  assumes "rmin k \<le> rmin r" "rmin r \<le> rmax r" "rmax r \<le> rmax k" "(p, Free) \<in> pieces k r"
  shows "rmin k \<le> rmin p \<and> rmin p \<le> rmax p \<and> rmax p \<le> rmax k \<and>
    (rmin p = rmin k \<and> rmax p + 1 = rmin r \<or> rmin p = rmax r + 1 \<and> rmax p = rmax k)"
  using assms by (auto simp: pieces_def split: if_splits)

lemma split_coalesced:
  assumes inv: "it_inv t" and co: "coalesced t" and k: "(k, Free) \<in> content t"
    and r: "rmin k \<le> rmin r" "rmin r \<le> rmax r" "rmax r \<le> rmax k"
    and t': "content t' = content t - {(k, Free)} \<union> pieces k r"
  shows "coalesced t'"
  unfolding coalesced_def
proof (intro ballI impI)
  fix a b assume a: "a \<in> content t'" and b: "b \<in> content t'" and fr: "snd a = Free" "snd b = Free"
  have out: "e \<in> content t \<Longrightarrow> e \<noteq> (k, Free) \<Longrightarrow> rmax (fst e) < rmin k \<or> rmax k < rmin (fst e)" for e
    using content_disjoint [OF inv _ k, of e "max (rmin (fst e)) (rmin k)"] content_wf [OF inv, of e] content_wf [OF inv k]
    by (cases e) (force simp: range_pts_def max_def)
  have pf: "e \<in> pieces k r \<Longrightarrow> snd e = Free \<Longrightarrow> rmin k \<le> rmin (fst e) \<and> rmin (fst e) \<le> rmax (fst e) \<and> rmax (fst e) \<le> rmax k \<and>
      (rmin (fst e) = rmin k \<and> rmax (fst e) + 1 = rmin r \<or> rmin (fst e) = rmax r + 1 \<and> rmax (fst e) = rmax k)" for e :: "'a entry"
    using pieces_free [OF r, of "fst e"] by (cases e) simp
  consider "a \<in> content t" "a \<noteq> (k, Free)" "b \<in> content t" | "a \<in> pieces k r" "b \<in> pieces k r"
    | "a \<in> content t" "a \<noteq> (k, Free)" "b \<in> pieces k r" | "a \<in> pieces k r" "b \<in> content t" "b \<noteq> (k, Free)"
    using a b unfolding t' by blast
  then show "rmax (fst a) + 1 \<noteq> rmin (fst b)"
  proof cases
    case 1
    then show ?thesis using coalescedD [OF co] fr by blast
  next
    case 2
    then show ?thesis using pf [OF 2(1) fr(1)] pf [OF 2(2) fr(2)] r by linarith
  next
    case 3
    then show ?thesis using coalescedD [OF co 3(1) k fr(1)] out [OF 3(1,2)] content_wf [OF inv 3(1)]
      pf [OF 3(3) fr(2)] r by auto
  next
    case 4
    then show ?thesis using coalescedD [OF co k 4(2) _ fr(2)] out [OF 4(2,3)] content_wf [OF inv 4(2)]
      pf [OF 4(1) fr(1)] r by auto
  qed
qed

text \<open>A free window lies in one free entry.\<close>

lemma free_window_in_entry:
  assumes inv: "it_inv t" and co: "coalesced t" and w: "a \<le> b" "{a..b} \<subseteq> free_pts t"
  shows "\<exists>k. (k, Free) \<in> content t \<and> {a..b} \<subseteq> range_pts k"
proof -
  have "a \<in> free_pts t" using w by auto
  then obtain k where k: "(k, Free) \<in> content t" "a \<in> range_pts k"
    unfolding free_pts_def by force
  have "b \<le> rmax k"
  proof (rule ccontr)
    assume "\<not> b \<le> rmax k"
    then have "rmax k + 1 \<in> free_pts t" using w k(2) by (auto simp: range_pts_def)
    then obtain f where f: "(f, Free) \<in> content t" "rmax k + 1 \<in> range_pts f"
      unfolding free_pts_def by force
    have "rmax k \<in> range_pts k" using k(2) by (auto simp: range_pts_def)
    then have "rmax k \<notin> range_pts f"
      using content_disjoint [OF inv k(1) f(1), of "rmax k"] f(2) by (auto simp: range_pts_def)
    then have "rmax k + 1 = rmin f" using f(2) by (auto simp: range_pts_def)
    with coalescedD [OF co k(1) f(1)] show False by simp
  qed
  then show ?thesis using k by (auto simp: range_pts_def)
qed

lemma it_allocate_complete:
  assumes inv: "pool_inv t" and co: "coalesced t" and size: "0 < csize c"
    and al: "calign c = 0 \<or> calign c = 2 ^ i" "calign c \<le> u64_max"
    and w: "cmin c \<le> s" "s + csize c \<le> cmax c + 1" "calign c dvd s \<or> calign c = 0"
      "{s ..< s + csize c} \<subseteq> free_pts t"
  shows "\<exists>r t'. it_allocate t c = Some (Some r, t')"
proof -
  have iinv: "it_inv t" using inv by (simp add: pool_inv_def)
  have "{s .. s + csize c - 1} = {s ..< s + csize c}" and "s \<le> s + csize c - 1" using size by auto
  then obtain k where k: "(k, Free) \<in> content t" "{s .. s + csize c - 1} \<subseteq> range_pts k"
    using free_window_in_entry [OF iinv co, of s "s + csize c - 1"] w(4) by auto
  note kok = pool_range_ok [OF inv k(1), simplified]
  let ?q = "\<lparr>rmin = max (rmin k) (cmin c), rmax = min (rmax k) (cmax c)\<rparr>"
  have s: "rmin ?q \<le> s" "s + csize c - 1 \<le> rmax ?q" using k(2) w size by (auto simp: range_pts_def)
  have s2: "s \<le> rmax ?q" using s(2) size by linarith
  have le: "max (rmin k) (cmin c) \<le> min (rmax k) (cmax c)" using s(1) s2 by simp
  obtain x where x: "range_align_to ?q (calign c) = Some (Some x)" "rmin x \<le> s" "rmax x = rmax ?q"
    using range_align_to_complete [OF clip_ok(1) [OF kok(1) le] al s(1) s2 w(3)] by auto
  have "fits c (k, Free)"
  proof -
    have "csize c \<le> rmax x - rmin x + 1" using x(2,3) s(2) size by linarith
    then show ?thesis using x(1) le by (simp add: fits_def usable_def)
  qed
  then have "List.find (fits c) (entries t) \<noteq> None"
    using k(1) by (auto simp: find_None_all content_def)
  then obtain k' d where "List.find (fits c) (entries t) = Some (k', d)" by auto
  from it_allocate_some [OF inv size this] show ?thesis by blast
qed


section \<open>The tree implements the pool contract\<close>

lemma managed_partition: "covered t = free_pts t \<union> (\<Union>(r, s) \<in> in_use t. range_pts r)"
  by (force simp: covered_def free_pts_def in_use_def)

lemma it_update_effect:
  assumes inv: "it_inv t" and r: "(r, s) \<in> in_use t"
  shows "\<exists>t'. it_update t r v = Some (ns_to_option s, t') \<and> it_inv t' \<and> covered t' = covered t \<and>
           free_pts t' = free_pts t \<and> in_use t' = insert (r, Valued v) (in_use t - {(r, s)}) \<and>
           (coalesced t \<longrightarrow> coalesced t')"
proof -
  have c: "(r, s) \<in> content t" and s: "s \<noteq> Free" using r by (auto simp: in_use_def)
  have "update_allowed s (Valued v)" using s by (cases s) (auto simp: update_allowed_def)
  then obtain t' where t': "node_update t r (Valued v) = Some (ns_to_option s, t')" "it_inv t'"
      "content t' = insert (r, Valued v) (content t - {(r, s)})"
    using node_update_content [OF inv c] by blast
  have "covered t' = covered t"
    using c UN_insert [of "\<lambda>e. range_pts (fst e)" "(r, s)" "content t - {(r, s)}", unfolded insert_Diff [OF c]]
    unfolding covered_def t'(3) by simp
  moreover have free: "{e \<in> content t'. snd e = Free} = {e \<in> content t. snd e = Free}"
    using s unfolding t'(3) by auto
  moreover have "coalesced t \<Longrightarrow> coalesced t'"
    using s unfolding coalesced_def t'(3) by auto
  moreover have "in_use t' = insert (r, Valued v) (in_use t - {(r, s)})"
    unfolding in_use_def t'(3) by auto
  ultimately show ?thesis using t'(1,2) by (auto simp: it_update_def free_pts_def)
qed

text \<open>The pools of the resource manager keep free neighbours merged, so the invariant of the
  contract includes it.\<close>

definition merged_inv :: "'a itree \<Rightarrow> bool" where
  "merged_inv t \<longleftrightarrow> pool_inv t \<and> coalesced t"

lemma it_allocate_merged:
  assumes "merged_inv t" "it_allocate t c = Some (Some r, t')"
  shows "merged_inv t'"
proof -
  have inv: "pool_inv t" "it_inv t" and co: "coalesced t" using assms(1) by (auto simp: merged_inv_def pool_inv_def)
  have size: "0 < csize c" using assms(2) it_allocate_none [OF inv(1), of c] by (cases "csize c = 0") auto
  obtain k d where "List.find (fits c) (entries t) = Some (k, d)"
    using assms(2) it_allocate_none [OF inv(1), of c] by (cases "List.find (fits c) (entries t)") auto
  from it_allocate_some [OF inv(1) size this] assms(2)
  have t': "granted t c k r" "content t' = content t - {(k, Free)} \<union> pieces k r" by auto
  then have "coalesced t'"
    using split_coalesced [OF inv(2) co, of k r t'] size by (auto simp: granted_def)
  then show ?thesis using it_allocate_effect(1) [OF inv(1) assms(2)] by (simp add: merged_inv_def)
qed

lemma free_not_in_use:
  assumes "it_inv t" "(r, s) \<in> in_use t"
  shows "range_pts r \<inter> free_pts t = {}"
  using free_pts_entry [OF assms(1), of "(r, s)"] assms(2) by (auto simp: in_use_def)

interpretation itp: range_pool it_allocate it_update it_free merged_inv covered free_pts in_use
proof (unfold_locales, goal_cases)
  case (1 p c)
  then show ?case using it_allocate_total by (auto simp: merged_inv_def)
next
  case (2 p c p')
  then show ?case using it_allocate_none [of p c] it_allocate_some [of p c]
    by (cases "csize c = 0 \<or> List.find (fits c) (entries p) = None") (fastforce simp: merged_inv_def)+
next
  case (3 p c r p')
  then show ?case by (rule it_allocate_merged)
next
  case (4 p c r p')
  then show ?case using it_allocate_effect(3) [of p c r p'] by (simp add: merged_inv_def)
next
  case (5 p c r p')
  then show ?case using it_allocate_effect(4) [of p c r p'] by (simp add: merged_inv_def)
next
  case (6 p c r p')
  then have inv: "pool_inv p" by (simp add: merged_inv_def)
  obtain k where "granted p c k r" using it_allocate_effect(6) [OF inv 6(2)] by blast
  with it_allocate_effect(5,7) [OF inv 6(2)] show ?case by (auto simp: granted_def)
next
  case (7 p r s v)
  then show ?case using it_update_effect [of p r s v] by (auto simp: merged_inv_def pool_inv_def)
next
  case (8 p r s)
  then show ?case using it_free_effect [of p r s]
    by (auto simp: merged_inv_def pool_inv_def in_use_def)
next
  case (9 p r)
  have "it_inv p" using 9(1) by (simp add: merged_inv_def pool_inv_def)
  moreover have "(r, s) \<notin> content p" for s
    using 9(4,5) by (cases "s = Free") (auto simp: in_use_def free_pts_def)
  ultimately show ?case using it_free_panics [of p r] 9(2,3) by blast
next
  case (10 p r s)
  then show ?case using content_wf [of p "(r, s)"] by (auto simp: merged_inv_def pool_inv_def in_use_def)
next
  case (11 p r s r' s')
  then have "it_inv p" "(r, s) \<in> content p" "(r', s') \<in> content p"
    by (auto simp: merged_inv_def pool_inv_def in_use_def)
  with 11(4) content_disjoint [of p "(r, s)" "(r', s')"] show ?case by auto
next
  case (12 p)
  show ?case by (rule managed_partition)
next
  case (13 p r s)
  then show ?case using free_not_in_use [of p r s] by (simp add: merged_inv_def pool_inv_def)
qed

end
