(* ===== verification/AllocatorClaims.thy ===== *)
theory AllocatorClaims
  imports ItreeFree
begin

text \<open>
  The properties of the interval tree allocator (\<open>dbs_allocator\<close>), over the abstraction of a
  tree by its entries.
\<close>

section \<open>Writes through mutable references\<close>

lemma ns_write_simps [simp]: "ns_write f Free = Free" "ns_write f Allocated = Allocated" "ns_write f (Valued x) = Valued (f x)"
  by (simp_all add: ns_write_def)

definition write_covering :: "Range \<Rightarrow> ('a \<Rightarrow> 'a) \<Rightarrow> 'a entry \<Rightarrow> 'a entry" where
  "write_covering q f e = (if range_contain (fst e) q then (fst e, ns_write f (snd e)) else e)"

lemma write_covering_pair: "write_covering q f (k, d) = (if range_contain k q then (k, ns_write f d) else (k, d))"
  by (simp add: write_covering_def)

lemma write_covering_outside:
  assumes "\<forall>e \<in> set es. \<not> range_contain (fst e) q"
  shows "map (write_covering q f) es = es"
  using assms by (intro map_idI) (auto simp: write_covering_def)

lemma search_superset_mut_entries:
  assumes "separated (entries t)" "rmin q \<le> rmax q"
  shows "entries (search_superset_mut t q f) = map (write_covering q f) (entries t) \<and>
    node_height (search_superset_mut t q f) = node_height t \<and> node_max_key (search_superset_mut t q f) = node_max_key t \<and>
    (avl t \<longrightarrow> avl (search_superset_mut t q f))"
  using assms
proof (induction t)
  case (Node k d l r h m)
  note sep = Node.prems(1) [simplified, unfolded separated_append]
  have L: "\<forall>e \<in> set (entries l). rmin (fst e) \<le> rmax (fst e) \<and> rmax (fst e) < rmin k"
    and R: "\<forall>e \<in> set (entries r). rmin (fst e) \<le> rmax (fst e) \<and> rmax k < rmin (fst e)" and k: "rmin k \<le> rmax k"
    using sep by (auto simp: before_def separated_def)
  have notl: "\<not> rmax q < rmin k \<Longrightarrow> map (write_covering q f) (entries l) = entries l"
    using L Node.prems(2) by (intro write_covering_outside) (fastforce simp: range_contain_def)
  have notr: "\<not> rmax k < rmin q \<Longrightarrow> map (write_covering q f) (entries r) = entries r"
    using R Node.prems(2) by (intro write_covering_outside) (fastforce simp: range_contain_def)
  have IH: "entries (search_superset_mut l q f) = map (write_covering q f) (entries l)"
      "entries (search_superset_mut r q f) = map (write_covering q f) (entries r)"
    and avl: "avl l \<longrightarrow> avl (search_superset_mut l q f)" "avl r \<longrightarrow> avl (search_superset_mut r q f)"
    and same: "node_height (search_superset_mut l q f) = node_height l" "node_height (search_superset_mut r q f) = node_height r"
      "node_max_key (search_superset_mut l q f) = node_max_key l" "node_max_key (search_superset_mut r q f) = node_max_key r"
    using Node.IH sep Node.prems(2) by blast+
  show ?case
  proof (cases "range_contain k q")
    case True
    then have "\<not> rmax q < rmin k" "\<not> rmax k < rmin q" using Node.prems(2) by (auto simp: range_contain_def)
    with True notl notr show ?thesis by (simp add: write_covering_pair)
  next
    case False
    consider (left) "rmax q < rmin k" | (right) "rmax k < rmin q" | (none) "\<not> rmax q < rmin k" "\<not> rmax k < rmin q" by blast
    then show ?thesis
    proof cases
      case left
      then have "\<not> rmax k < rmin q" using k Node.prems(2) by simp
      with False left IH avl same notr show ?thesis by (cases "l = Leaf") (simp_all add: write_covering_pair)
    next
      case right
      then have "\<not> rmax q < rmin k" using k Node.prems(2) by simp
      with False right IH avl same notl show ?thesis by (cases "r = Leaf") (simp_all add: write_covering_pair)
    next
      case none
      with False notl notr show ?thesis by (simp add: write_covering_pair)
    qed
  qed
qed simp

section \<open>Height\<close>

lemma square_sum_unbalanced:
  assumes "2 * y \<le> (a::nat)\<^sup>2" "y \<le> b\<^sup>2"
  shows "4 * y \<le> (a + b)\<^sup>2"
proof -
  have "b * b \<le> a * b \<or> a * a \<le> b * b" by (cases "b \<le> a") (auto intro: mult_le_mono)
  moreover have "2 * y \<le> a * a" "y \<le> b * b" using assms by (simp_all add: power2_eq_square)
  moreover have "(a + b)\<^sup>2 = a * a + 2 * (a * b) + b * b" by (simp add: power2_eq_square algebra_simps)
  ultimately show ?thesis by linarith
qed

lemma avl_size:
  assumes "avl t"
  shows "2 ^ node_height t \<le> (length (entries t) + 1)\<^sup>2"
  using assms
proof (induction t)
  case (Node k d l r h m)
  define a b where "a = length (entries l) + 1" and "b = length (entries r) + 1"
  define p q where "p = node_height l" and "q = node_height r"
  have IH: "2 ^ p \<le> a\<^sup>2" "2 ^ q \<le> b\<^sup>2" using Node by (auto simp: a_def b_def p_def q_def)
  have n: "length (entries (Node k d l r h m)) + 1 = a + b" by (simp add: a_def b_def)
  have h: "node_height (Node k d l r h m) = max p q + 1" and "\<bar>int p - int q\<bar> \<le> 1"
    using Node.prems by (auto simp: p_def q_def)
  then consider "p = q" | "p = q + 1" | "q = p + 1" by linarith
  then have "2 ^ (max p q + 1) \<le> (a + b)\<^sup>2"
  proof cases
    case 1
    then show ?thesis using IH by (simp add: power2_eq_square algebra_simps)
  next
    case 2
    then show ?thesis using IH square_sum_unbalanced [of "2 ^ q" a b] by simp
  next
    case 3
    then show ?thesis using IH square_sum_unbalanced [of "2 ^ p" b a] by (simp add: add.commute)
  qed
  then show ?case unfolding n h .
qed simp

section \<open>Properties\<close>

text \<open>A tree with two free ranges around one in use, on which the properties are exercised.\<close>

definition demo_tree :: "nat itree" where
  "demo_tree = Node \<lparr>rmin = 16, rmax = 31\<rparr> (Valued 7)
     (Node \<lparr>rmin = 0, rmax = 15\<rparr> Free Leaf Leaf 1 15) (Node \<lparr>rmin = 32, rmax = 99\<rparr> Free Leaf Leaf 1 99) 2 99"

lemma demo_tree_content:
  "content demo_tree = {(\<lparr>rmin = 0, rmax = 15\<rparr>, Free), (\<lparr>rmin = 16, rmax = 31\<rparr>, Valued 7), (\<lparr>rmin = 32, rmax = 99\<rparr>, Free)}"
  by (auto simp: content_def demo_tree_def)

lemma demo_tree_inv: "it_inv demo_tree" "merged_inv demo_tree" "pool_inv demo_tree"
proof -
  show "it_inv demo_tree" by (simp add: it_inv_def separated_def before_def demo_tree_def u_max_vals)
  then show "pool_inv demo_tree"
    by (auto simp: pool_inv_def covered_def demo_tree_content range_pts_def u_max_vals)
  then show "merged_inv demo_tree" by (auto simp: merged_inv_def coalesced_def demo_tree_content)
qed

lemma demo_tree_free: "free_pts demo_tree = {0..15} \<union> {32..99}"
proof -
  have "{e \<in> content demo_tree. snd e = Free} = {(\<lparr>rmin = 0, rmax = 15\<rparr>, Free), (\<lparr>rmin = 32, rmax = 99\<rparr>, Free)}"
    unfolding demo_tree_content by auto
  then show ?thesis by (simp add: free_pts_def range_pts_def)
qed

text \<open>C4: \<open>allocate\<close> never panics on a pool that does not manage \<open>u64::MAX\<close>.  It either leaves the tree alone or
  hands out a range of the requested size, within the requested bounds and aligned as requested, all of whose
  values were free; that range is then in use and everything else is as before.\<close>

theorem allocate_sound:
  assumes "pool_inv t"
  shows "\<exists>x t'. it_allocate t c = Some (x, t') \<and>
    (case x of
       None \<Rightarrow> t' = t
     | Some r \<Rightarrow> pool_inv t' \<and> covered t' = covered t \<and> range_pts r \<subseteq> free_pts t \<and>
         free_pts t' = free_pts t - range_pts r \<and> in_use t' = insert (r, Allocated) (in_use t) \<and>
         rmax r + 1 = rmin r + csize c \<and> cmin c \<le> rmin r \<and> rmax r \<le> cmax c \<and>
         (0 < calign c \<longrightarrow> calign c dvd rmin r))"
proof -
  obtain x t' where a: "it_allocate t c = Some (x, t')" using it_allocate_total [OF assms] by blast
  show ?thesis
  proof (cases x)
    case None
    have "t' = t"
      using a None it_allocate_none [OF assms, of c] it_allocate_some [OF assms, of c]
      by (cases "csize c = 0 \<or> List.find (fits c) (entries t) = None") fastforce+
    with a None show ?thesis by simp
  next
    case (Some r)
    note e = it_allocate_effect [OF assms a [unfolded Some]]
    with a Some show ?thesis by (auto simp: granted_def)
  qed
qed

theorem allocate_sound_witness:
  "\<exists>r t'. it_allocate demo_tree (Constraint_align (Constraint_new 20) 8) = Some (Some r, t') \<and>
     range_pts r \<subseteq> free_pts demo_tree \<and> 8 dvd rmin r"
proof -
  obtain r t' where e: "it_allocate demo_tree (Constraint_align (Constraint_new 20) 8) = Some (Some r, t')"
    by (simp add: demo_tree_def itree_eval not64_def mask_eq_exp_minus_1)
  show ?thesis using allocate_sound [OF demo_tree_inv(3), of "Constraint_align (Constraint_new 20) 8"] e by auto
qed

text \<open>C15: \<open>allocate\<close> is complete on a coalesced pool: whenever some aligned window of the requested size inside the
  requested bounds is entirely free, the request is granted.\<close>

theorem allocate_complete:
  assumes "merged_inv t" "0 < csize c" "calign c = 0 \<or> calign c = 2 ^ i" "calign c \<le> u64_max"
    and "cmin c \<le> s" "s + csize c \<le> cmax c + 1" "calign c dvd s \<or> calign c = 0" "{s ..< s + csize c} \<subseteq> free_pts t"
  shows "\<exists>r t'. it_allocate t c = Some (Some r, t')"
  using it_allocate_complete [of t c i s] assms by (simp add: merged_inv_def)

theorem allocate_complete_witness:
  "\<exists>r t'. it_allocate demo_tree (Constraint_align (Constraint_new 20) 8) = Some (Some r, t')"
proof -
  have w: "{40 ..< 40 + 20} \<subseteq> free_pts demo_tree" unfolding demo_tree_free by auto
  show ?thesis
    using allocate_complete [OF demo_tree_inv(2), of "Constraint_align (Constraint_new 20) 8" 3 40] w
    by (simp add: u_max_vals)
qed

text \<open>C16: \<open>free\<close> of a range in use returns its value, makes exactly its values free again, merges it with its free
  neighbours (the pool stays coalesced) and leaves every other range in use alone.\<close>

theorem free_sound:
  assumes "merged_inv t" "(q, s) \<in> in_use t"
  shows "\<exists>t'. it_free t q = Some (ns_to_option s, t') \<and> merged_inv t' \<and> covered t' = covered t \<and>
           free_pts t' = free_pts t \<union> range_pts q \<and> in_use t' = in_use t - {(q, s)}"
  using it_free_effect [of t q s] assms by (auto simp: merged_inv_def pool_inv_def in_use_def)

theorem free_sound_witness:
  "\<exists>t'. it_free demo_tree \<lparr>rmin = 16, rmax = 31\<rparr> = Some (Some 7, t') \<and> merged_inv t' \<and> in_use t' = {}"
proof -
  have u: "in_use demo_tree = {(\<lparr>rmin = 16, rmax = 31\<rparr>, Valued 7)}" unfolding in_use_def demo_tree_content by auto
  show ?thesis
    using free_sound [OF demo_tree_inv(2), of "\<lparr>rmin = 16, rmax = 31\<rparr>" "Valued 7"] u by (simp add: ns_to_option_def) blast
qed

text \<open>\<open>free\<close> panics on a range that overlaps the pool without being one of its entries.\<close>

theorem free_foreign_panics:
  assumes "it_inv t" "rmin q \<le> rmax q" "\<forall>s. (q, s) \<notin> content t" "range_pts q \<inter> covered t \<noteq> {}"
  shows "it_free t q = None"
  using assms(3,4) by (intro it_free_panics [OF assms(1,2)]) auto

theorem free_foreign_panics_witness:
  "it_free demo_tree \<lparr>rmin = 16, rmax = 40\<rparr> = None"
proof -
  have "20 \<in> range_pts \<lparr>rmin = 16, rmax = 40\<rparr> \<inter> covered demo_tree"
    by (auto simp: covered_def demo_tree_content range_pts_def)
  then have m: "range_pts \<lparr>rmin = 16, rmax = 40\<rparr> \<inter> covered demo_tree \<noteq> {}" by blast
  show ?thesis
    using free_foreign_panics [OF demo_tree_inv(1), of "\<lparr>rmin = 16, rmax = 40\<rparr>"] m by (simp add: demo_tree_content)
qed

text \<open>C26: \<open>insert\<close> keeps the tree balanced, ordered and its cached fields exact, adds exactly the new entry, and
  panics precisely when the new key meets an existing one.\<close>

theorem insert_correct:
  assumes "it_inv t" "rmin q \<le> rmax q" "rmax q \<le> u64_max"
  shows "(it_insert t q v = None \<longleftrightarrow> range_pts q \<inter> covered t \<noteq> {}) \<and>
    (\<forall>t'. it_insert t q v = Some t' \<longrightarrow> it_inv t' \<and> content t' = insert (q, new_state v) (content t))"
proof (cases "range_pts q \<inter> covered t = {}")
  case True
  then obtain t' where "it_insert t q v = Some t'" "it_inv t'" "content t' = insert (q, new_state v) (content t)"
    using it_insert_content [OF assms, of v] by blast
  with True show ?thesis by simp
next
  case False
  then show ?thesis using it_insert_panics [OF assms(1,2), of v] by simp
qed

theorem insert_correct_witness:
  "\<exists>t'. it_insert demo_tree \<lparr>rmin = 200, rmax = 300\<rparr> (Some 9) = Some t' \<and> it_inv t' \<and>
     content t' = insert (\<lparr>rmin = 200, rmax = 300\<rparr>, new_state (Some 9)) (content demo_tree)"
proof -
  have d: "range_pts \<lparr>rmin = 200, rmax = 300\<rparr> \<inter> covered demo_tree = {}"
    by (auto simp: covered_def demo_tree_content range_pts_def)
  show ?thesis
    using insert_correct [OF demo_tree_inv(1), of "\<lparr>rmin = 200, rmax = 300\<rparr>" "Some 9"] d
    by (cases "it_insert demo_tree \<lparr>rmin = 200, rmax = 300\<rparr> (Some 9)") (simp_all add: u_max_vals)
qed

text \<open>C27: \<open>delete\<close> never panics, keeps the tree balanced, ordered and its cached fields exact, removes exactly the
  entry with the given key and returns its value.\<close>

theorem delete_correct:
  assumes "it_inv t"
  shows "\<exists>t'. it_delete t q = Some (Option.bind (it_get t q) ns_to_option, t') \<and> it_inv t' \<and>
           content t' = {e \<in> content t. fst e \<noteq> q}"
proof -
  have "old_value (entries t) q = Option.bind (it_get t q) ns_to_option"
    using search_entries [of t q] assms by (auto simp: it_inv_def old_value_def split: option.splits)
  then show ?thesis using it_delete_content [OF assms, of q] by simp
qed

theorem delete_correct_witness:
  "\<exists>t'. it_delete demo_tree \<lparr>rmin = 16, rmax = 31\<rparr> = Some (Some 7, t') \<and> it_inv t' \<and>
     content t' = {(\<lparr>rmin = 0, rmax = 15\<rparr>, Free), (\<lparr>rmin = 32, rmax = 99\<rparr>, Free)}"
proof -
  have g: "it_get demo_tree \<lparr>rmin = 16, rmax = 31\<rparr> = Some (Valued 7)"
    by (simp add: it_get_def demo_tree_def range_cmp_def nat_cmp_def)
  have "{e \<in> content demo_tree. fst e \<noteq> \<lparr>rmin = 16, rmax = 31\<rparr>} =
      {(\<lparr>rmin = 0, rmax = 15\<rparr>, Free), (\<lparr>rmin = 32, rmax = 99\<rparr>, Free)}"
    unfolding demo_tree_content by auto
  then show ?thesis
    using delete_correct [OF demo_tree_inv(1), of "\<lparr>rmin = 16, rmax = 31\<rparr>"] g by (simp add: ns_to_option_def)
qed

lemma content_write:
  assumes "it_inv t" "rmin q \<le> rmax q"
  shows "it_inv (search_superset_mut t q f)"
    "content (search_superset_mut t q f) = (\<lambda>(k, d). (k, if range_contain k q then ns_write f d else d)) ` content t"
proof -
  have w: "write_covering q f e = (case e of (k, d) \<Rightarrow> (k, if range_contain k q then ns_write f d else d))" for e :: "'a entry"
    by (cases e) (simp add: write_covering_pair)
  note m = search_superset_mut_entries [of t q f]
  have fst: "fst (write_covering q f e) = fst e" for e :: "'a entry" by (cases e) (simp add: write_covering_pair)
  have "(\<lambda>a b. before (write_covering q f a) (write_covering q f b)) = (before :: 'a entry \<Rightarrow> 'a entry \<Rightarrow> bool)"
    by (intro ext) (simp add: before_def fst)
  then have "separated (map (write_covering q f) (entries t))"
    using assms(1) by (auto simp: it_inv_def separated_def sorted_wrt_map fst)
  then show "it_inv (search_superset_mut t q f)" using m assms by (simp add: it_inv_def)
  show "content (search_superset_mut t q f) = (\<lambda>(k, d). (k, if range_contain k q then ns_write f d else d)) ` content t"
    using m assms by (simp add: it_inv_def content_def w [abs_def])
qed

lemma get_superset_iff:
  assumes inv: "it_inv t" and q: "rmin q \<le> rmax q"
  shows "it_get_superset t q = Some e \<longleftrightarrow> e \<in> content t \<and> range_contain (fst e) q"
proof -
  have eq: "it_get_superset t q = List.find (\<lambda>e. range_contain (fst e) q) (entries t)"
    using search_superset_entries [of t q] assms by (simp add: it_inv_def)
  have uniq: "a = b" if "a \<in> content t" "b \<in> content t" "range_contain (fst a) q" "range_contain (fst b) q" for a b
    using content_disjoint [OF inv that(1,2), of "rmin q"] that(3,4) q by (auto simp: range_contain_def range_pts_def)
  show ?thesis
  proof (cases "it_get_superset t q")
    case None
    then show ?thesis unfolding eq using find_None_all by (fastforce simp: content_def)
  next
    case (Some e')
    then have "e' \<in> content t" "range_contain (fst e') q" unfolding eq by (auto dest: find_SomeD simp: content_def)
    with Some uniq [of e e'] show ?thesis by auto
  qed
qed

text \<open>The lookups are exact: \<open>get\<close> finds the entry with the key, \<open>get_superset\<close> the only entry that contains the
  key, and a write through \<open>get_superset_mut\<close> changes the value of that entry and nothing else.\<close>

theorem lookups_exact:
  assumes "it_inv t" "rmin q \<le> rmax q"
  shows "(it_get t q = Some s \<longleftrightarrow> (q, s) \<in> content t) \<and>
    (it_get_superset t q = Some e \<longleftrightarrow> e \<in> content t \<and> range_contain (fst e) q) \<and>
    (let (found, t') = it_get_superset_mut t q f in
       found = it_get_superset t q \<and> it_inv t' \<and>
       content t' = (\<lambda>(k, d). (k, if range_contain k q then ns_write f d else d)) ` content t)"
  using search_entries [of t q] content_map_of [OF assms(1)] get_superset_iff [OF assms] content_write [OF assms] assms(1)
  by (simp add: it_inv_def it_get_superset_mut_def)

theorem lookups_exact_witness:
  "it_get_superset demo_tree \<lparr>rmin = 20, rmax = 21\<rparr> = Some (\<lparr>rmin = 16, rmax = 31\<rparr>, Valued 7) \<and>
   content (snd (it_get_superset_mut demo_tree \<lparr>rmin = 20, rmax = 21\<rparr> Suc)) =
     {(\<lparr>rmin = 0, rmax = 15\<rparr>, Free), (\<lparr>rmin = 16, rmax = 31\<rparr>, Valued 8), (\<lparr>rmin = 32, rmax = 99\<rparr>, Free)}"
  using lookups_exact [OF demo_tree_inv(1), of "\<lparr>rmin = 20, rmax = 21\<rparr>" Free "(\<lparr>rmin = 16, rmax = 31\<rparr>, Valued 7)" Suc]
  by (simp add: demo_tree_content range_contain_def it_get_superset_mut_def)

text \<open>The tree stays shallow: its height is at most twice the logarithm of the number of entries plus one, so
  that 64 entries are searched in at most 12 steps and the 32-bit cached height never overflows.\<close>

theorem height_bound:
  assumes "it_inv t"
  shows "2 ^ node_height t \<le> (length (entries t) + 1)\<^sup>2"
  using avl_size [of t] assms by (simp add: it_inv_def)

theorem height_bound_witness: "2 ^ node_height demo_tree \<le> (length (entries demo_tree) + 1)\<^sup>2"
  by (rule height_bound [OF demo_tree_inv(1)])

text \<open>a pool that manages \<open>u64::MAX\<close> makes \<open>allocate\<close> overflow: granting the last value panics although the
  range is free and the request is valid.\<close>

theorem allocate_last_value_overflows:
  "it_insert it_new \<lparr>rmin = u64_max, rmax = u64_max\<rparr> None = Some (t :: 'a itree) \<Longrightarrow>
   it_inv t \<and> free_pts t = {u64_max} \<and> it_allocate t (Constraint_new 1) = None"
proof -
  assume "it_insert it_new \<lparr>rmin = u64_max, rmax = u64_max\<rparr> None = Some t"
  then have t: "t = InnerNode_new \<lparr>rmin = u64_max, rmax = u64_max\<rparr> Free"
    by (simp add: it_insert_def it_new_def Node_new_def)
  show ?thesis
    unfolding t by (auto simp: it_inv_def separated_def free_pts_def content_def range_pts_def itree_eval)
qed

theorem allocate_last_value_overflows_witness:
  "\<exists>t :: nat itree. it_insert it_new \<lparr>rmin = u64_max, rmax = u64_max\<rparr> None = Some t \<and> it_allocate t (Constraint_new 1) = None"
  using allocate_last_value_overflows [of "InnerNode_new \<lparr>rmin = u64_max, rmax = u64_max\<rparr> Free :: nat itree"]
  by (simp add: it_insert_def it_new_def Node_new_def)

end
