(* ===== verification/Resources.thy ===== *)
theory Resources
  imports Prelude
begin

text \<open>
  Device resources and resource requests (\<open>dbs_device/src/resources.rs\<close>).
\<close>

datatype ResourceConstraint =
    CPioAddress "(nat \<times> nat) option" nat nat  \<comment> \<open>range, align, size\<close>
  | CMmioAddress "(nat \<times> nat) option" nat nat
  | CMemAddress "(nat \<times> nat) option" nat nat
  | CLegacyIrq "nat option"
  | CPciMsiIrq nat
  | CPciMsixIrq nat
  | CGenericIrq nat
  | CKvmMemSlot "nat option" nat  \<comment> \<open>slot, size\<close>

definition new_pio :: "nat \<Rightarrow> ResourceConstraint" where
  "new_pio sz = CPioAddress None 1 sz"

definition pio_with_constraints :: "nat \<Rightarrow> (nat \<times> nat) option \<Rightarrow> nat \<Rightarrow> ResourceConstraint" where
  "pio_with_constraints sz rng align = CPioAddress rng align sz"

definition new_mmio :: "nat \<Rightarrow> ResourceConstraint" where
  "new_mmio sz = CMmioAddress None 0x1000 sz"

definition mmio_with_constraints :: "nat \<Rightarrow> (nat \<times> nat) option \<Rightarrow> nat \<Rightarrow> ResourceConstraint" where
  "mmio_with_constraints sz rng align = CMmioAddress rng align sz"

definition new_mem :: "nat \<Rightarrow> ResourceConstraint" where
  "new_mem sz = CMemAddress None 0x1000 sz"

definition mem_with_constraints :: "nat \<Rightarrow> (nat \<times> nat) option \<Rightarrow> nat \<Rightarrow> ResourceConstraint" where
  "mem_with_constraints sz rng align = CMemAddress rng align sz"

definition new_legacy_irq :: "nat option \<Rightarrow> ResourceConstraint" where
  "new_legacy_irq irq = CLegacyIrq irq"

definition new_pci_msi_irq :: "nat \<Rightarrow> ResourceConstraint" where
  "new_pci_msi_irq sz = CPciMsiIrq sz"

definition new_pci_msix_irq :: "nat \<Rightarrow> ResourceConstraint" where
  "new_pci_msix_irq sz = CPciMsixIrq sz"

definition new_generic_irq :: "nat \<Rightarrow> ResourceConstraint" where
  "new_generic_irq sz = CGenericIrq sz"

definition new_kvm_mem_slot :: "nat \<Rightarrow> nat option \<Rightarrow> ResourceConstraint" where
  "new_kvm_mem_slot sz slot = CKvmMemSlot slot sz"

datatype MsiIrqType = PciMsi | PciMsix | GenericMsi

datatype Resource =
    PioAddressRange nat nat  \<comment> \<open>base, size\<close>
  | MmioAddressRange nat nat
  | MemAddressRange nat nat
  | LegacyIrq nat
  | MsiIrq MsiIrqType nat nat  \<comment> \<open>type, base, size\<close>
  | MacAddress string
  | KvmMemSlot nat

type_synonym DeviceResources = "Resource list"

definition dr_new :: DeviceResources where
  "dr_new = []"

definition dr_append :: "DeviceResources \<Rightarrow> Resource \<Rightarrow> DeviceResources" where
  "dr_append rs r = rs @ [r]"

fun get_pio_address_ranges :: "DeviceResources \<Rightarrow> (nat \<times> nat) list" where
  "get_pio_address_ranges [] = []"
| "get_pio_address_ranges (r # rs) =
     (case r of PioAddressRange base sz \<Rightarrow> (base, sz) # get_pio_address_ranges rs
      | _ \<Rightarrow> get_pio_address_ranges rs)"

fun get_mmio_address_ranges :: "DeviceResources \<Rightarrow> (nat \<times> nat) list" where
  "get_mmio_address_ranges [] = []"
| "get_mmio_address_ranges (r # rs) =
     (case r of MmioAddressRange base sz \<Rightarrow> (base, sz) # get_mmio_address_ranges rs
      | _ \<Rightarrow> get_mmio_address_ranges rs)"

fun get_mem_address_ranges :: "DeviceResources \<Rightarrow> (nat \<times> nat) list" where
  "get_mem_address_ranges [] = []"
| "get_mem_address_ranges (r # rs) =
     (case r of MemAddressRange base sz \<Rightarrow> (base, sz) # get_mem_address_ranges rs
      | _ \<Rightarrow> get_mem_address_ranges rs)"

fun get_legacy_irq :: "DeviceResources \<Rightarrow> nat option" where
  "get_legacy_irq [] = None"
| "get_legacy_irq (r # rs) = (case r of LegacyIrq base \<Rightarrow> Some base | _ \<Rightarrow> get_legacy_irq rs)"

fun get_msi_irqs :: "DeviceResources \<Rightarrow> MsiIrqType \<Rightarrow> (nat \<times> nat) option" where
  "get_msi_irqs [] ty = None"
| "get_msi_irqs (r # rs) ty =
     (case r of
        MsiIrq msi_type base sz \<Rightarrow> if ty = msi_type then Some (base, sz) else get_msi_irqs rs ty
      | _ \<Rightarrow> get_msi_irqs rs ty)"

definition get_pci_msi_irqs :: "DeviceResources \<Rightarrow> (nat \<times> nat) option" where
  "get_pci_msi_irqs rs = get_msi_irqs rs PciMsi"

definition get_pci_msix_irqs :: "DeviceResources \<Rightarrow> (nat \<times> nat) option" where
  "get_pci_msix_irqs rs = get_msi_irqs rs PciMsix"

definition get_generic_msi_irqs :: "DeviceResources \<Rightarrow> (nat \<times> nat) option" where
  "get_generic_msi_irqs rs = get_msi_irqs rs GenericMsi"

fun get_kvm_mem_slots :: "DeviceResources \<Rightarrow> nat list" where
  "get_kvm_mem_slots [] = []"
| "get_kvm_mem_slots (r # rs) =
     (case r of KvmMemSlot index \<Rightarrow> index # get_kvm_mem_slots rs | _ \<Rightarrow> get_kvm_mem_slots rs)"

fun get_mac_address :: "DeviceResources \<Rightarrow> string option" where
  "get_mac_address [] = None"
| "get_mac_address (r # rs) = (case r of MacAddress a \<Rightarrow> Some a | _ \<Rightarrow> get_mac_address rs)"

definition get_all_resources :: "DeviceResources \<Rightarrow> Resource list" where
  "get_all_resources rs = rs"

section \<open>Getters and append\<close>

text \<open>The list getters distribute over concatenation; the option getters prefer the first match.\<close>

lemma list_getters_append:
  "get_pio_address_ranges (xs @ ys) = get_pio_address_ranges xs @ get_pio_address_ranges ys"
  "get_mmio_address_ranges (xs @ ys) = get_mmio_address_ranges xs @ get_mmio_address_ranges ys"
  "get_mem_address_ranges (xs @ ys) = get_mem_address_ranges xs @ get_mem_address_ranges ys"
  "get_kvm_mem_slots (xs @ ys) = get_kvm_mem_slots xs @ get_kvm_mem_slots ys"
  by (induction xs) (auto split: Resource.splits)

lemma option_getters_append:
  "get_legacy_irq (xs @ ys) = (case get_legacy_irq xs of None \<Rightarrow> get_legacy_irq ys | Some i \<Rightarrow> Some i)"
  "get_msi_irqs (xs @ ys) ty = (case get_msi_irqs xs ty of None \<Rightarrow> get_msi_irqs ys ty | Some i \<Rightarrow> Some i)"
  "get_mac_address (xs @ ys) = (case get_mac_address xs of None \<Rightarrow> get_mac_address ys | Some i \<Rightarrow> Some i)"
  by (induction xs) (auto split: Resource.splits)

end
