(* ===== verification/ResourceManager.thy ===== *)
theory ResourceManager
  imports Resources ItreeFree
begin

text \<open>
  The resource manager of a virtual machine (\<open>dragonball/src/resource_manager.rs\<close>, x86_64
  constants): six interval trees, allocation and release of each kind of resource, and the
  all-or-nothing allocation of the resources of a device.

  Each method locks one pool for the whole of its body, so it is one state transition.  The
  two statics that depend on the host's physical address width (\<open>GUEST_MEM_END\<close> and
  \<open>GUEST_PHYS_END\<close> of \<open>dbs_boot/src/x86_64/layout.rs\<close>) are parameters.
\<close>

section \<open>Constants\<close>

definition LEGACY_IRQ_BASE :: nat where "LEGACY_IRQ_BASE = 5"
definition LEGACY_IRQ_MAX :: nat where "LEGACY_IRQ_MAX = 15"
definition SHARED_IRQ :: nat where "SHARED_IRQ = LEGACY_IRQ_BASE"
definition MSI_IRQ_BASE :: nat where "MSI_IRQ_BASE = 24"
definition MSI_IRQ_MAX :: nat where "MSI_IRQ_MAX = 1023"
definition KVM_USER_MEM_SLOTS :: nat where "KVM_USER_MEM_SLOTS = 509"
definition PIO_MIN :: nat where "PIO_MIN = 0"
definition PIO_MAX :: nat where "PIO_MAX = 0xFFFF"
definition MMIO_SPACE_RESERVED :: nat where "MMIO_SPACE_RESERVED = 0x4000000"
definition MMIO_LOW_START :: nat where "MMIO_LOW_START = 3 * 2 ^ 30"
definition MMIO_LOW_END :: nat where "MMIO_LOW_END = 4 * 2 ^ 30 - 1"
definition GUEST_MEM_START :: nat where "GUEST_MEM_START = 0"

lemmas rm_consts = LEGACY_IRQ_BASE_def LEGACY_IRQ_MAX_def SHARED_IRQ_def MSI_IRQ_BASE_def MSI_IRQ_MAX_def
  KVM_USER_MEM_SLOTS_def PIO_MIN_def PIO_MAX_def MMIO_SPACE_RESERVED_def MMIO_LOW_START_def
  MMIO_LOW_END_def GUEST_MEM_START_def

text \<open>The address width read from \<open>/proc/cpuinfo\<close>; a width of 64 makes the shift overflow.\<close>

definition guest_phys_end :: "nat \<Rightarrow> nat may_panic" where
  "guest_phys_end bits =
     (if 36 \<le> bits \<and> bits \<le> 64 then (if bits < 64 then ret (2 ^ bits - 1) else panic) else panic)"

definition guest_mem_end :: "nat \<Rightarrow> nat" where
  "guest_mem_end phys_end = drop_bit 1 phys_end"

section \<open>State and errors\<close>

datatype ResourceError = UnknownResourceType | InvalidResourceRange string | NoAvailResource

type_synonym pool = "unit itree"

record ResourceManager =
  legacy_irq_pool :: pool
  msi_irq_pool :: pool
  pio_pool :: pool
  mmio_pool :: pool
  mem_pool :: pool
  kvm_mem_slot_pool :: pool

definition rm_default :: ResourceManager where
  "rm_default = \<lparr>legacy_irq_pool = it_new, msi_irq_pool = it_new, pio_pool = it_new,
     mmio_pool = it_new, mem_pool = it_new, kvm_mem_slot_pool = it_new\<rparr>"

section \<open>Construction\<close>

definition insert_new :: "pool \<Rightarrow> nat \<Rightarrow> nat \<Rightarrow> pool may_panic" where
  "insert_new p lo hi = do { r \<leftarrow> range_new lo hi; it_insert p r None }"

definition init_legacy_irq_pool :: "ResourceManager \<Rightarrow> ResourceManager may_panic" where
  "init_legacy_irq_pool rm = do {
     p \<leftarrow> insert_new (legacy_irq_pool rm) (LEGACY_IRQ_BASE + 1) LEGACY_IRQ_MAX;
     ret (rm\<lparr>legacy_irq_pool := p\<rparr>) }"

definition init_msi_irq_pool :: "ResourceManager \<Rightarrow> ResourceManager may_panic" where
  "init_msi_irq_pool rm = do {
     p \<leftarrow> insert_new (msi_irq_pool rm) MSI_IRQ_BASE MSI_IRQ_MAX;
     ret (rm\<lparr>msi_irq_pool := p\<rparr>) }"

definition init_pio_pool :: "ResourceManager \<Rightarrow> ResourceManager may_panic" where
  "init_pio_pool rm = do {
     p \<leftarrow> insert_new (pio_pool rm) PIO_MIN PIO_MAX;
     ret (rm\<lparr>pio_pool := p\<rparr>) }"

definition init_mmio_pool_helper :: "nat \<Rightarrow> nat \<Rightarrow> pool \<Rightarrow> pool may_panic" where
  "init_mmio_pool_helper mem_end phys_end mmio = do {
     m1 \<leftarrow> insert_new mmio MMIO_LOW_START MMIO_LOW_END;
     m2 \<leftarrow> (if \<not> (mem_end < MMIO_LOW_START \<or> GUEST_MEM_START > MMIO_LOW_END \<or> MMIO_LOW_START = MMIO_LOW_END)
            then do {
              (k, m) \<leftarrow> it_allocate m1
                 (Constraint_max (Constraint_min (Constraint_new MMIO_SPACE_RESERVED)
                    (MMIO_LOW_END - MMIO_SPACE_RESERVED)) 0xffffffff);
              case k of
                Some r \<Rightarrow> do { (_, m') \<leftarrow> it_update m r (); ret m' }
              | None \<Rightarrow> panic }
            else ret m1);
     if mem_end < phys_end then insert_new m2 (mem_end + 1) phys_end else ret m2 }"

definition init_mmio_pool :: "nat \<Rightarrow> nat \<Rightarrow> ResourceManager \<Rightarrow> ResourceManager may_panic" where
  "init_mmio_pool mem_end phys_end rm = do {
     p \<leftarrow> init_mmio_pool_helper mem_end phys_end (mmio_pool rm);
     ret (rm\<lparr>mmio_pool := p\<rparr>) }"

definition init_mem_pool_helper :: "nat \<Rightarrow> pool \<Rightarrow> pool may_panic" where
  "init_mem_pool_helper mem_end mem =
     (if mem_end < MMIO_LOW_START \<or> GUEST_MEM_START > MMIO_LOW_END \<or> MMIO_LOW_START = MMIO_LOW_END
      then insert_new mem GUEST_MEM_START mem_end
      else do {
        m1 \<leftarrow> (if MMIO_LOW_START > GUEST_MEM_START
               then insert_new mem GUEST_MEM_START (MMIO_LOW_START - 1) else ret mem);
        if MMIO_LOW_END < mem_end then insert_new m1 (MMIO_LOW_END + 1) mem_end else ret m1 })"

definition init_mem_pool :: "nat \<Rightarrow> ResourceManager \<Rightarrow> ResourceManager may_panic" where
  "init_mem_pool mem_end rm = do {
     p \<leftarrow> init_mem_pool_helper mem_end (mem_pool rm);
     ret (rm\<lparr>mem_pool := p\<rparr>) }"

definition init_kvm_mem_slot_pool :: "nat option \<Rightarrow> ResourceManager \<Rightarrow> ResourceManager may_panic" where
  "init_kvm_mem_slot_pool max_kvm_mem_slot rm = do {
     p \<leftarrow> insert_new (kvm_mem_slot_pool rm) 0
            (case max_kvm_mem_slot of Some n \<Rightarrow> n | None \<Rightarrow> KVM_USER_MEM_SLOTS);
     ret (rm\<lparr>kvm_mem_slot_pool := p\<rparr>) }"

definition ResourceManager_new :: "nat \<Rightarrow> nat \<Rightarrow> nat option \<Rightarrow> ResourceManager may_panic" where
  "ResourceManager_new mem_end phys_end max_kvm_mem_slot = do {
     r1 \<leftarrow> init_legacy_irq_pool rm_default;
     r2 \<leftarrow> init_msi_irq_pool r1;
     r3 \<leftarrow> init_pio_pool r2;
     r4 \<leftarrow> init_mmio_pool mem_end phys_end r3;
     r5 \<leftarrow> init_mem_pool mem_end r4;
     init_kvm_mem_slot_pool max_kvm_mem_slot r5 }"

definition is_mem_pool_empty :: "ResourceManager \<Rightarrow> bool" where
  "is_mem_pool_empty rm = it_is_empty (mem_pool rm)"

section \<open>Single resources\<close>

text \<open>\<open>allocate\<close> followed by \<open>update(k, ())\<close>, as the four marking allocators write it.\<close>

definition allocate_marked :: "pool \<Rightarrow> Constraint \<Rightarrow> (Range option \<times> pool) may_panic" where
  "allocate_marked p c = do {
     (k, p1) \<leftarrow> it_allocate p c;
     case k of
       None \<Rightarrow> ret (None, p1)
     | Some r \<Rightarrow> do { (_, p2) \<leftarrow> it_update p1 r (); ret (Some r, p2) } }"

definition as_width :: "nat \<Rightarrow> Range option \<Rightarrow> nat option" where
  "as_width w k = map_option (\<lambda>r. rmin r mod 2 ^ w) k"

definition fixed_constraint :: "nat \<Rightarrow> nat option \<Rightarrow> Constraint" where
  "fixed_constraint sz fixed =
     (case fixed of Some v \<Rightarrow> (Constraint_new sz)\<lparr>cmin := v, cmax := v\<rparr> | None \<Rightarrow> Constraint_new sz)"

definition allocate_legacy_irq ::
  "ResourceManager \<Rightarrow> bool \<Rightarrow> nat option \<Rightarrow> (nat option \<times> ResourceManager) may_panic" where
  "allocate_legacy_irq rm shared fixed =
     (if shared then ret (Some SHARED_IRQ, rm)
      else if fixed = Some SHARED_IRQ then ret (None, rm)
      else do {
        (k, p) \<leftarrow> allocate_marked (legacy_irq_pool rm) (fixed_constraint 1 fixed);
        ret (as_width 32 k, rm\<lparr>legacy_irq_pool := p\<rparr>) })"

definition free_legacy_irq ::
  "ResourceManager \<Rightarrow> nat \<Rightarrow> ((ResourceError + unit) \<times> ResourceManager) may_panic" where
  "free_legacy_irq rm irq =
     (if irq = SHARED_IRQ then ret (Ok (), rm)
      else if \<not> (LEGACY_IRQ_BASE \<le> irq \<and> irq \<le> LEGACY_IRQ_MAX)
      then ret (Err (InvalidResourceRange ''Legacy IRQ''), rm)
      else do {
        r \<leftarrow> range_new irq irq;
        (_, p) \<leftarrow> it_free (legacy_irq_pool rm) r;
        ret (Ok (), rm\<lparr>legacy_irq_pool := p\<rparr>) })"

definition allocate_msi_irq :: "ResourceManager \<Rightarrow> nat \<Rightarrow> (nat option \<times> ResourceManager) may_panic" where
  "allocate_msi_irq rm count = do {
     (k, p) \<leftarrow> allocate_marked (msi_irq_pool rm) (Constraint_new count);
     ret (as_width 32 k, rm\<lparr>msi_irq_pool := p\<rparr>) }"

definition allocate_msi_irq_aligned :: "ResourceManager \<Rightarrow> nat \<Rightarrow> (nat option \<times> ResourceManager) may_panic" where
  "allocate_msi_irq_aligned rm count = do {
     (k, p) \<leftarrow> allocate_marked (msi_irq_pool rm) (Constraint_align (Constraint_new count) count);
     ret (as_width 32 k, rm\<lparr>msi_irq_pool := p\<rparr>) }"

definition free_msi_irq ::
  "ResourceManager \<Rightarrow> nat \<Rightarrow> nat \<Rightarrow> ((ResourceError + unit) \<times> ResourceManager) may_panic" where
  "free_msi_irq rm irq count =
     (if irq < MSI_IRQ_BASE \<or> count = 0 \<or> checked_add u32_max irq count = None \<or> irq + count - 1 > MSI_IRQ_MAX
      then ret (Err (InvalidResourceRange ''MSI IRQ''), rm)
      else do {
        r \<leftarrow> range_new irq (irq + count - 1);
        (_, p) \<leftarrow> it_free (msi_irq_pool rm) r;
        ret (Ok (), rm\<lparr>msi_irq_pool := p\<rparr>) })"

definition allocate_pio_address ::
  "ResourceManager \<Rightarrow> Constraint \<Rightarrow> (nat option \<times> ResourceManager) may_panic" where
  "allocate_pio_address rm c = do {
     (k, p) \<leftarrow> allocate_marked (pio_pool rm) c;
     ret (as_width 16 k, rm\<lparr>pio_pool := p\<rparr>) }"

definition allocate_pio_address_simple :: "ResourceManager \<Rightarrow> nat \<Rightarrow> (nat option \<times> ResourceManager) may_panic" where
  "allocate_pio_address_simple rm sz = allocate_pio_address rm (Constraint_new sz)"

definition free_pio_address ::
  "ResourceManager \<Rightarrow> nat \<Rightarrow> nat \<Rightarrow> ((ResourceError + unit) \<times> ResourceManager) may_panic" where
  "free_pio_address rm base sz =
     (case checked_add u16_max base sz of
        None \<Rightarrow> ret (Err (InvalidResourceRange ''PIO Address''), rm)
      | Some e \<Rightarrow> do {
          hi \<leftarrow> checked_sub e 1;
          r \<leftarrow> range_new base hi;
          (_, p) \<leftarrow> it_free (pio_pool rm) r;
          ret (Ok (), rm\<lparr>pio_pool := p\<rparr>) })"

definition allocate_mmio_address ::
  "ResourceManager \<Rightarrow> Constraint \<Rightarrow> (nat option \<times> ResourceManager) may_panic" where
  "allocate_mmio_address rm c = do {
     (k, p) \<leftarrow> it_allocate (mmio_pool rm) c;
     ret (map_option rmin k, rm\<lparr>mmio_pool := p\<rparr>) }"

definition allocate_mmio_address_aligned ::
  "ResourceManager \<Rightarrow> nat \<Rightarrow> nat \<Rightarrow> (nat option \<times> ResourceManager) may_panic" where
  "allocate_mmio_address_aligned rm sz align =
     allocate_mmio_address rm (Constraint_align (Constraint_new sz) align)"

definition free_mmio_address ::
  "ResourceManager \<Rightarrow> nat \<Rightarrow> nat \<Rightarrow> ((ResourceError + unit) \<times> ResourceManager) may_panic" where
  "free_mmio_address rm base sz =
     (case checked_add u64_max base sz of
        None \<Rightarrow> ret (Err (InvalidResourceRange ''MMIO Address''), rm)
      | Some e \<Rightarrow> do {
          hi \<leftarrow> checked_sub e 1;
          r \<leftarrow> range_new base hi;
          (_, p) \<leftarrow> it_free (mmio_pool rm) r;
          ret (Ok (), rm\<lparr>mmio_pool := p\<rparr>) })"

definition allocate_mem_address ::
  "ResourceManager \<Rightarrow> Constraint \<Rightarrow> (nat option \<times> ResourceManager) may_panic" where
  "allocate_mem_address rm c = do {
     (k, p) \<leftarrow> it_allocate (mem_pool rm) c;
     ret (map_option rmin k, rm\<lparr>mem_pool := p\<rparr>) }"

definition free_mem_address ::
  "nat \<Rightarrow> ResourceManager \<Rightarrow> nat \<Rightarrow> nat \<Rightarrow> ((ResourceError + unit) \<times> ResourceManager) may_panic" where
  "free_mem_address mem_end rm base sz =
     (if checked_add u64_max base sz = None \<or> base < GUEST_MEM_START \<or> base + sz > mem_end
      then ret (Err (InvalidResourceRange ''MEM Address''), rm)
      else do {
        hi \<leftarrow> checked_sub (base + sz) 1;
        r \<leftarrow> range_new base hi;
        (_, p) \<leftarrow> it_free (mem_pool rm) r;
        ret (Ok (), rm\<lparr>mem_pool := p\<rparr>) })"

definition allocate_kvm_mem_slot ::
  "ResourceManager \<Rightarrow> nat \<Rightarrow> nat option \<Rightarrow> (nat option \<times> ResourceManager) may_panic" where
  "allocate_kvm_mem_slot rm sz fixed = do {
     (k, p) \<leftarrow> allocate_marked (kvm_mem_slot_pool rm) (fixed_constraint sz fixed);
     ret (as_width 32 k, rm\<lparr>kvm_mem_slot_pool := p\<rparr>) }"

definition free_kvm_mem_slot ::
  "ResourceManager \<Rightarrow> nat \<Rightarrow> ((ResourceError + unit) \<times> ResourceManager) may_panic" where
  "free_kvm_mem_slot rm slot = do {
     r \<leftarrow> range_new slot slot;
     (_, p) \<leftarrow> it_free (kvm_mem_slot_pool rm) r;
     ret (Ok (), rm\<lparr>kvm_mem_slot_pool := p\<rparr>) }"

section \<open>Device resources\<close>

definition free_resource ::
  "nat \<Rightarrow> ResourceManager \<Rightarrow> Resource \<Rightarrow> ((ResourceError + unit) \<times> ResourceManager) may_panic" where
  "free_resource mem_end rm res =
     (case res of
        PioAddressRange base sz \<Rightarrow> free_pio_address rm base sz
      | MmioAddressRange base sz \<Rightarrow> free_mmio_address rm base sz
      | MemAddressRange base sz \<Rightarrow> free_mem_address mem_end rm base sz
      | LegacyIrq base \<Rightarrow> free_legacy_irq rm base
      | MsiIrq _ base sz \<Rightarrow> free_msi_irq rm base sz
      | KvmMemSlot slot \<Rightarrow> free_kvm_mem_slot rm slot
      | MacAddress _ \<Rightarrow> ret (Ok (), rm))"

fun free_device_resources ::
  "nat \<Rightarrow> ResourceManager \<Rightarrow> DeviceResources \<Rightarrow> ((ResourceError + unit) \<times> ResourceManager) may_panic" where
  "free_device_resources mem_end rm [] = ret (Ok (), rm)"
| "free_device_resources mem_end rm (res # rs) = do {
     (result, rm') \<leftarrow> free_resource mem_end rm res;
     case result of
       Inl e \<Rightarrow> ret (Err e, rm')
     | Inr _ \<Rightarrow> free_device_resources mem_end rm' rs }"

definition bounded_constraint :: "nat \<Rightarrow> nat \<Rightarrow> (nat \<times> nat) option \<Rightarrow> Constraint" where
  "bounded_constraint sz align rng =
     (let c = Constraint_align (Constraint_new sz) align in
      case rng of Some (lo, hi) \<Rightarrow> c\<lparr>cmin := lo, cmax := hi\<rparr> | None \<Rightarrow> c)"

text \<open>One iteration of the allocation loop: the resource for a request, if it is available.\<close>

definition allocate_resource ::
  "ResourceManager \<Rightarrow> bool \<Rightarrow> ResourceConstraint \<Rightarrow> (Resource option \<times> ResourceManager) may_panic" where
  "allocate_resource rm shared_irq request =
     (case request of
        CPioAddress rng align sz \<Rightarrow> do {
          (b, rm') \<leftarrow> allocate_pio_address rm (bounded_constraint sz align rng);
          ret (map_option (\<lambda>base. PioAddressRange base sz) b, rm') }
      | CMmioAddress rng align sz \<Rightarrow> do {
          (b, rm') \<leftarrow> allocate_mmio_address rm (bounded_constraint sz align rng);
          ret (map_option (\<lambda>base. MmioAddressRange base sz) b, rm') }
      | CMemAddress rng align sz \<Rightarrow> do {
          (b, rm') \<leftarrow> allocate_mem_address rm (bounded_constraint sz align rng);
          ret (map_option (\<lambda>base. MemAddressRange base sz) b, rm') }
      | CLegacyIrq irq \<Rightarrow> do {
          (b, rm') \<leftarrow> allocate_legacy_irq rm shared_irq irq;
          ret (map_option LegacyIrq b, rm') }
      | CPciMsiIrq sz \<Rightarrow> do {
          (b, rm') \<leftarrow> allocate_msi_irq_aligned rm sz;
          ret (map_option (\<lambda>base. MsiIrq PciMsi base sz) b, rm') }
      | CPciMsixIrq sz \<Rightarrow> do {
          (b, rm') \<leftarrow> allocate_msi_irq rm sz;
          ret (map_option (\<lambda>base. MsiIrq PciMsix base sz) b, rm') }
      | CGenericIrq sz \<Rightarrow> do {
          (b, rm') \<leftarrow> allocate_msi_irq rm sz;
          ret (map_option (\<lambda>base. MsiIrq GenericMsi base sz) b, rm') }
      | CKvmMemSlot slot sz \<Rightarrow> do {
          (b, rm') \<leftarrow> allocate_kvm_mem_slot rm sz slot;
          ret (map_option KvmMemSlot b, rm') })"

fun allocate_loop ::
  "nat \<Rightarrow> ResourceManager \<Rightarrow> bool \<Rightarrow> DeviceResources \<Rightarrow> ResourceConstraint list \<Rightarrow>
     ((ResourceError + DeviceResources) \<times> ResourceManager) may_panic" where
  "allocate_loop mem_end rm shared_irq resources [] = ret (Ok resources, rm)"
| "allocate_loop mem_end rm shared_irq resources (request # requests) = do {
     (res, rm1) \<leftarrow> allocate_resource rm shared_irq request;
     case res of
       Some r \<Rightarrow> allocate_loop mem_end rm1 shared_irq (dr_append resources r) requests
     | None \<Rightarrow> do {
         (result, rm2) \<leftarrow> free_device_resources mem_end rm1 resources;
         case result of
           Inl e \<Rightarrow> ret (Err e, rm2)
         | Inr _ \<Rightarrow> ret (Err NoAvailResource, rm2) } }"

definition allocate_device_resources ::
  "nat \<Rightarrow> ResourceManager \<Rightarrow> ResourceConstraint list \<Rightarrow> bool \<Rightarrow>
     ((ResourceError + DeviceResources) \<times> ResourceManager) may_panic" where
  "allocate_device_resources mem_end rm requests shared_irq =
     allocate_loop mem_end rm shared_irq dr_new requests"

end
