(* ===== verification/ResourceRollback.thy ===== *)
theory ResourceRollback
  imports ResourceManager
begin

text \<open>
  Correctness of the resource manager: the invariant of the six pools, what every allocation
  and release does to them, and the rollback of \<open>allocate_device_resources\<close>.  All of it goes
  through the pool contract \<open>range_pool\<close>.
\<close>

section \<open>The six pools as one family\<close>

datatype kind = KLegacy | KMsi | KPio | KMmio | KMem | KKvm

fun pool_of :: "ResourceManager \<Rightarrow> kind \<Rightarrow> pool" where
  "pool_of rm KLegacy = legacy_irq_pool rm"
| "pool_of rm KMsi = msi_irq_pool rm"
| "pool_of rm KPio = pio_pool rm"
| "pool_of rm KMmio = mmio_pool rm"
| "pool_of rm KMem = mem_pool rm"
| "pool_of rm KKvm = kvm_mem_slot_pool rm"

lemma pool_of_update:
  "pool_of (rm\<lparr>legacy_irq_pool := p\<rparr>) = (pool_of rm)(KLegacy := p)"
  "pool_of (rm\<lparr>msi_irq_pool := p\<rparr>) = (pool_of rm)(KMsi := p)"
  "pool_of (rm\<lparr>pio_pool := p\<rparr>) = (pool_of rm)(KPio := p)"
  "pool_of (rm\<lparr>mmio_pool := p\<rparr>) = (pool_of rm)(KMmio := p)"
  "pool_of (rm\<lparr>mem_pool := p\<rparr>) = (pool_of rm)(KMem := p)"
  "pool_of (rm\<lparr>kvm_mem_slot_pool := p\<rparr>) = (pool_of rm)(KKvm := p)"
  by (rule ext, case_tac x, simp_all)+

fun pool_bounds :: "nat \<Rightarrow> kind \<Rightarrow> nat set" where
  "pool_bounds mem_end KLegacy = {LEGACY_IRQ_BASE + 1 .. LEGACY_IRQ_MAX}"
| "pool_bounds mem_end KMsi = {MSI_IRQ_BASE .. MSI_IRQ_MAX}"
| "pool_bounds mem_end KPio = {PIO_MIN .. PIO_MAX}"
| "pool_bounds mem_end KMmio = UNIV"
| "pool_bounds mem_end KMem = {GUEST_MEM_START .. mem_end}"
| "pool_bounds mem_end KKvm = {0 .. u32_max}"

definition rm_inv :: "nat \<Rightarrow> ResourceManager \<Rightarrow> bool" where
  "rm_inv mem_end rm \<longleftrightarrow> (\<forall>k. merged_inv (pool_of rm k) \<and> covered (pool_of rm k) \<subseteq> pool_bounds mem_end k)"

type_synonym holding = "kind \<times> Range \<times> unit NodeState"

definition rm_used :: "ResourceManager \<Rightarrow> holding set" where
  "rm_used rm = {(k, r, s). (r, s) \<in> in_use (pool_of rm k)}"

definition rm_free :: "ResourceManager \<Rightarrow> (kind \<times> nat) set" where
  "rm_free rm = {(k, x). x \<in> free_pts (pool_of rm k)}"

definition holding_pts :: "holding \<Rightarrow> (kind \<times> nat) set" where
  "holding_pts h = (case h of (k, r, s) \<Rightarrow> {k} \<times> range_pts r)"

lemma rm_inv_pool: "rm_inv mem_end rm \<Longrightarrow> merged_inv (pool_of rm k) \<and> covered (pool_of rm k) \<subseteq> pool_bounds mem_end k"
  by (simp add: rm_inv_def)

definition grants :: "nat \<Rightarrow> ResourceManager \<Rightarrow> holding \<Rightarrow> ResourceManager \<Rightarrow> bool" where
  "grants mem_end rm h rm' \<longleftrightarrow> rm_inv mem_end rm' \<and> rm_used rm' = insert h (rm_used rm) \<and> h \<notin> rm_used rm \<and>
     rm_free rm' = rm_free rm - holding_pts h \<and> holding_pts h \<subseteq> rm_free rm"

definition returns_holding :: "nat \<Rightarrow> ResourceManager \<Rightarrow> holding \<Rightarrow> ResourceManager \<Rightarrow> bool" where
  "returns_holding mem_end rm h rm' \<longleftrightarrow> rm_inv mem_end rm' \<and> rm_used rm' = rm_used rm - {h} \<and>
     rm_free rm' = rm_free rm \<union> holding_pts h"

lemma grants_pool:
  assumes inv: "rm_inv mem_end rm" and rm': "pool_of rm' = (pool_of rm)(k := p')"
    and p': "merged_inv p'" "covered p' = covered (pool_of rm k)" "free_pts p' = free_pts (pool_of rm k) - range_pts r"
      "in_use p' = insert (r, s) (in_use (pool_of rm k))"
    and r: "range_pts r \<subseteq> free_pts (pool_of rm k)" "rmin r \<le> rmax r"
  shows "grants mem_end rm (k, r, s) rm'"
proof -
  have "(r, s) \<notin> in_use (pool_of rm k)"
  proof
    assume "(r, s) \<in> in_use (pool_of rm k)"
    then have "range_pts r \<inter> free_pts (pool_of rm k) = {}"
      using rm_inv_pool [OF inv, of k] itp.used_not_avail by blast
    moreover have "rmin r \<in> range_pts r" using r(2) by (simp add: range_pts_def)
    ultimately show False using r(1) by blast
  qed
  moreover have "rm_inv mem_end rm'" using inv p'(1,2) by (auto simp: rm_inv_def rm')
  ultimately show ?thesis
    using p'(3,4) r by (auto simp: grants_def rm_used_def rm_free_def holding_pts_def rm' split: if_splits)
qed

lemma returns_pool:
  assumes inv: "rm_inv mem_end rm" and rm': "pool_of rm' = (pool_of rm)(k := p')"
    and u: "(r, s) \<in> in_use (pool_of rm k)" and f: "it_free (pool_of rm k) r = Some (x, p')"
  shows "returns_holding mem_end rm (k, r, s) rm'"
proof -
  note rel = itp.release_spec [OF conjunct1 [OF rm_inv_pool [OF inv]] u f]
  have "rm_inv mem_end rm'" using inv rel(1,4) by (auto simp: rm_inv_def rm')
  then show ?thesis
    using rel(2,3) by (auto simp: returns_holding_def rm_used_def rm_free_def holding_pts_def rm' split: if_splits)
qed

section \<open>Allocation from one pool\<close>

lemma allocate_marked_take: "allocate_marked p c = itp.take_marked p c ()"
  by (simp add: allocate_marked_def itp.take_marked_def)

definition meets :: "Range \<Rightarrow> Constraint \<Rightarrow> bool" where
  "meets r c \<longleftrightarrow> rmax r + 1 = rmin r + csize c \<and> cmin c \<le> rmin r \<and> rmax r \<le> cmax c \<and> 0 < csize c \<and>
     (0 < calign c \<longrightarrow> calign c dvd rmin r)"

lemma meets_order: "meets r c \<Longrightarrow> rmin r \<le> rmax r"
  by (simp add: meets_def)

lemma granted_in_bounds:
  assumes "rm_inv mem_end rm" "range_pts r \<subseteq> free_pts (pool_of rm k)" "rmin r \<le> rmax r"
  shows "rmin r \<in> pool_bounds mem_end k" "rmax r \<in> pool_bounds mem_end k"
proof -
  have "range_pts r \<subseteq> pool_bounds mem_end k"
    using rm_inv_pool [OF assms(1), of k] assms(2) itp.partition by blast
  then show "rmin r \<in> pool_bounds mem_end k" "rmax r \<in> pool_bounds mem_end k"
    using assms(3) by (auto simp: range_pts_def)
qed

lemma marked_pool_cases:
  assumes inv: "rm_inv mem_end rm" and upd: "\<And>p. pool_of (f p) = (pool_of rm)(k := p)"
  shows "(allocate_marked (pool_of rm k) c = Some (None, pool_of rm k)) \<or>
    (\<exists>r p'. allocate_marked (pool_of rm k) c = Some (Some r, p') \<and> meets r c \<and>
        range_pts r \<subseteq> free_pts (pool_of rm k) \<and> grants mem_end rm (k, r, Valued ()) (f p'))"
proof -
  have m: "merged_inv (pool_of rm k)" using rm_inv_pool [OF inv] by blast
  then show ?thesis
  proof (cases rule: itp.take_marked_cases [of _ c "()"])
    case fail
    then show ?thesis by (simp add: allocate_marked_take)
  next
    case (grant r p')
    have "covered p' = covered (pool_of rm k)" using itp.take_marked_managed [OF m grant(1)] .
    moreover have "meets r c" using grant(7-11) by (simp add: meets_def)
    ultimately show ?thesis
      using grants_pool [OF inv upd grant(2) _ grant(3,4,5)] grant(1,5) meets_order
      by (auto simp: allocate_marked_take)
  qed
qed

lemma plain_pool_cases:
  assumes inv: "rm_inv mem_end rm" and upd: "\<And>p. pool_of (f p) = (pool_of rm)(k := p)"
  shows "(it_allocate (pool_of rm k) c = Some (None, pool_of rm k)) \<or>
    (\<exists>r p'. it_allocate (pool_of rm k) c = Some (Some r, p') \<and> meets r c \<and>
        range_pts r \<subseteq> free_pts (pool_of rm k) \<and> grants mem_end rm (k, r, Allocated) (f p'))"
proof -
  have m: "merged_inv (pool_of rm k)" using rm_inv_pool [OF inv] by blast
  obtain x p' where a: "it_allocate (pool_of rm k) c = Some (x, p')" using itp.alloc_total [OF m] by blast
  show ?thesis
  proof (cases x)
    case None
    with a itp.alloc_fail [OF m] show ?thesis by blast
  next
    case (Some r)
    note al = a [unfolded Some]
    have "meets r c" "range_pts r \<subseteq> free_pts (pool_of rm k)"
      using itp.alloc_range [OF m al] by (simp_all add: meets_def)
    then show ?thesis
      using grants_pool [OF inv upd itp.alloc_inv [OF m al] itp.alloc_managed [OF m al] itp.alloc_avail [OF m al] itp.alloc_used [OF m al]]
        al meets_order by blast
  qed
qed

section \<open>Resources and their holdings\<close>

text \<open>The holding a resource stands for; a slot only records the first value of its range.\<close>

fun belongs :: "Resource \<Rightarrow> holding \<Rightarrow> bool" where
  "belongs (PioAddressRange base sz) (k, r, s) = (k = KPio \<and> rmin r = base \<and> rmax r + 1 = base + sz)"
| "belongs (MmioAddressRange base sz) (k, r, s) = (k = KMmio \<and> rmin r = base \<and> rmax r + 1 = base + sz)"
| "belongs (MemAddressRange base sz) (k, r, s) = (k = KMem \<and> rmin r = base \<and> rmax r + 1 = base + sz)"
| "belongs (LegacyIrq irq) (k, r, s) = (k = KLegacy \<and> rmin r = irq \<and> rmax r = irq)"
| "belongs (MsiIrq _ base sz) (k, r, s) = (k = KMsi \<and> rmin r = base \<and> rmax r + 1 = base + sz)"
| "belongs (KvmMemSlot slot) (k, r, s) = (k = KKvm \<and> rmin r = slot)"
| "belongs (MacAddress _) _ = False"

text \<open>Resources without a holding: the shared interrupt and MAC addresses.\<close>

fun inert :: "Resource \<Rightarrow> bool" where
  "inert (LegacyIrq irq) = (irq = SHARED_IRQ)"
| "inert (MacAddress _) = True"
| "inert _ = False"

inductive owns :: "DeviceResources \<Rightarrow> holding list \<Rightarrow> bool" where
  nil: "owns [] []"
| skip: "inert res \<Longrightarrow> owns rs hs \<Longrightarrow> owns (res # rs) hs"
| keep: "belongs res h \<Longrightarrow> h \<notin> set hs \<Longrightarrow> owns rs hs \<Longrightarrow> owns (res # rs) (h # hs)"

inductive_cases ownsE: "owns (res # rs) hs"

lemma owns_append_skip: "owns rs hs \<Longrightarrow> inert res \<Longrightarrow> owns (rs @ [res]) hs"
  by (induction rule: owns.induct) (auto intro: owns.intros)

lemma owns_append_keep: "owns rs hs \<Longrightarrow> belongs res h \<Longrightarrow> h \<notin> set hs \<Longrightarrow> owns (rs @ [res]) (hs @ [h])"
  by (induction rule: owns.induct) (auto intro: owns.intros)

text \<open>What a request asks for and the holding that answers it.\<close>

fun answers :: "ResourceConstraint \<Rightarrow> Resource \<Rightarrow> holding \<Rightarrow> bool" where
  "answers (CPioAddress rng al sz) res (k, r, s) =
     (k = KPio \<and> s = Valued () \<and> meets r (bounded_constraint sz al rng) \<and> res = PioAddressRange (rmin r) sz)"
| "answers (CMmioAddress rng al sz) res (k, r, s) =
     (k = KMmio \<and> s = Allocated \<and> meets r (bounded_constraint sz al rng) \<and> res = MmioAddressRange (rmin r) sz)"
| "answers (CMemAddress rng al sz) res (k, r, s) =
     (k = KMem \<and> s = Allocated \<and> meets r (bounded_constraint sz al rng) \<and> res = MemAddressRange (rmin r) sz)"
| "answers (CLegacyIrq irq) res (k, r, s) =
     (k = KLegacy \<and> s = Valued () \<and> meets r (fixed_constraint 1 irq) \<and> res = LegacyIrq (rmin r))"
| "answers (CPciMsiIrq sz) res (k, r, s) =
     (k = KMsi \<and> s = Valued () \<and> meets r (Constraint_align (Constraint_new sz) sz) \<and> res = MsiIrq PciMsi (rmin r) sz)"
| "answers (CPciMsixIrq sz) res (k, r, s) =
     (k = KMsi \<and> s = Valued () \<and> meets r (Constraint_new sz) \<and> res = MsiIrq PciMsix (rmin r) sz)"
| "answers (CGenericIrq sz) res (k, r, s) =
     (k = KMsi \<and> s = Valued () \<and> meets r (Constraint_new sz) \<and> res = MsiIrq GenericMsi (rmin r) sz)"
| "answers (CKvmMemSlot slot sz) res (k, r, s) =
     (k = KKvm \<and> s = Valued () \<and> meets r (fixed_constraint sz slot) \<and> res = KvmMemSlot (rmin r))"

inductive served :: "bool \<Rightarrow> ResourceConstraint list \<Rightarrow> DeviceResources \<Rightarrow> holding list \<Rightarrow> bool"
  for shared :: bool where
  served_nil: "served shared [] [] []"
| served_shared: "shared \<Longrightarrow> served shared reqs rs hs \<Longrightarrow>
    served shared (CLegacyIrq irq # reqs) (LegacyIrq SHARED_IRQ # rs) hs"
| served_own: "answers req res h \<Longrightarrow> h \<notin> set hs \<Longrightarrow> served shared reqs rs hs \<Longrightarrow>
    served shared (req # reqs) (res # rs) (h # hs)"

lemma served_append_shared:
  "served shared reqs rs hs \<Longrightarrow> shared \<Longrightarrow> served shared (reqs @ [CLegacyIrq irq]) (rs @ [LegacyIrq SHARED_IRQ]) hs"
  by (induction rule: served.induct) (auto intro: served.intros)

lemma served_append_own:
  "served shared reqs rs hs \<Longrightarrow> answers req res h \<Longrightarrow> h \<notin> set hs \<Longrightarrow> served shared (reqs @ [req]) (rs @ [res]) (hs @ [h])"
  by (induction rule: served.induct) (auto intro: served.intros)

definition allocation_outcome ::
  "nat \<Rightarrow> bool \<Rightarrow> ResourceConstraint \<Rightarrow> ResourceManager \<Rightarrow> (Resource option \<times> ResourceManager) may_panic \<Rightarrow> bool" where
  "allocation_outcome mem_end shared req rm x \<longleftrightarrow>
     x = Some (None, rm) \<or>
     (\<exists>irq. shared \<and> req = CLegacyIrq irq \<and> x = Some (Some (LegacyIrq SHARED_IRQ), rm)) \<or>
     (\<exists>res h rm'. x = Some (Some res, rm') \<and> answers req res h \<and> grants mem_end rm h rm')"

lemma bounded_constraint_simps [simp]:
  "csize (bounded_constraint sz al rng) = sz" "calign (bounded_constraint sz al rng) = al"
  "csize (fixed_constraint sz fx) = sz"
  by (auto simp: bounded_constraint_def fixed_constraint_def Let_def split: option.splits)

lemma pio_width [simp]: "x \<in> pool_bounds mem_end KPio \<Longrightarrow> x mod 65536 = x"
  by (simp add: rm_consts)

lemma irq_width [simp]: "x \<in> pool_bounds mem_end KLegacy \<union> pool_bounds mem_end KMsi \<union> pool_bounds mem_end KKvm \<Longrightarrow> x mod 4294967296 = x"
  by (auto simp: rm_consts u_max_vals)

lemma as_width_bounds:
  assumes "rm_inv mem_end rm" "range_pts r \<subseteq> free_pts (pool_of rm k)" "meets r c"
  shows "k = KPio \<Longrightarrow> as_width 16 (Some r) = Some (rmin r)"
    "k = KLegacy \<or> k = KMsi \<or> k = KKvm \<Longrightarrow> as_width 32 (Some r) = Some (rmin r)"
  using granted_in_bounds(1) [OF assms(1,2) meets_order [OF assms(3)]]
  by (auto simp: as_width_def rm_consts u_max_vals)

lemma single_marked:
  assumes inv: "rm_inv mem_end rm" and upd: "\<And>p. pool_of (f p) = (pool_of rm)(k := p)" and same: "f (pool_of rm k) = rm"
    and w: "k = KPio \<and> w = 16 \<or> (k = KLegacy \<or> k = KMsi \<or> k = KKvm) \<and> w = 32"
    and g: "\<And>r. meets r c \<Longrightarrow> answers req (g (rmin r)) (k, r, Valued ())"
  shows "allocation_outcome mem_end shared req rm
    (do { (b, rm') \<leftarrow> do { (x, p) \<leftarrow> allocate_marked (pool_of rm k) c; ret (as_width w x, f p) };
          ret (map_option g b, rm') })"
  using marked_pool_cases [OF inv upd, of c]
proof (elim disjE exE conjE, goal_cases)
  case 1
  then show ?case by (simp add: allocation_outcome_def as_width_def same)
next
  case (2 r p')
  have "as_width w (Some r) = Some (rmin r)" using as_width_bounds [OF inv 2(3,2)] w by auto
  then show ?case using 2 g [of r] by (auto simp: allocation_outcome_def)
qed

lemma single_plain:
  assumes inv: "rm_inv mem_end rm" and upd: "\<And>p. pool_of (f p) = (pool_of rm)(k := p)" and same: "f (pool_of rm k) = rm"
    and g: "\<And>r. meets r c \<Longrightarrow> answers req (g (rmin r)) (k, r, Allocated)"
  shows "allocation_outcome mem_end shared req rm
    (do { (b, rm') \<leftarrow> do { (x, p) \<leftarrow> it_allocate (pool_of rm k) c; ret (map_option rmin x, f p) };
          ret (map_option g b, rm') })"
  using plain_pool_cases [OF inv upd, of c] g
  by (auto simp: allocation_outcome_def same)

lemmas rm_alloc_defs = allocate_legacy_irq_def allocate_msi_irq_def allocate_msi_irq_aligned_def
  allocate_pio_address_def allocate_mmio_address_def allocate_mem_address_def allocate_kvm_mem_slot_def

lemma allocate_resource_outcome:
  assumes inv: "rm_inv mem_end rm"
  shows "allocation_outcome mem_end shared request rm (allocate_resource rm shared request)"
proof (cases request)
  case (CPioAddress rng al sz)
  show ?thesis
    using single_marked [where req = request and shared = shared, OF inv, of "\<lambda>p. rm\<lparr>pio_pool := p\<rparr>" KPio 16 "bounded_constraint sz al rng" "\<lambda>base. PioAddressRange base sz"]
    by (simp add: CPioAddress allocate_resource_def rm_alloc_defs pool_of_update meets_def)
next
  case (CMmioAddress rng al sz)
  show ?thesis
    using single_plain [where req = request and shared = shared, OF inv, of "\<lambda>p. rm\<lparr>mmio_pool := p\<rparr>" KMmio "bounded_constraint sz al rng" "\<lambda>base. MmioAddressRange base sz"]
    by (simp add: CMmioAddress allocate_resource_def rm_alloc_defs pool_of_update meets_def)
next
  case (CMemAddress rng al sz)
  show ?thesis
    using single_plain [where req = request and shared = shared, OF inv, of "\<lambda>p. rm\<lparr>mem_pool := p\<rparr>" KMem "bounded_constraint sz al rng" "\<lambda>base. MemAddressRange base sz"]
    by (simp add: CMemAddress allocate_resource_def rm_alloc_defs pool_of_update meets_def)
next
  case (CLegacyIrq irq)
  show ?thesis
  proof (cases "shared \<or> irq = Some SHARED_IRQ")
    case True
    then show ?thesis by (auto simp: CLegacyIrq allocate_resource_def rm_alloc_defs allocation_outcome_def)
  next
    case False
    then show ?thesis
      using single_marked [where req = request and shared = shared, OF inv, of "\<lambda>p. rm\<lparr>legacy_irq_pool := p\<rparr>" KLegacy 32 "fixed_constraint 1 irq" LegacyIrq]
      by (simp add: CLegacyIrq allocate_resource_def rm_alloc_defs pool_of_update meets_def del: constraint_defs)
  qed
next
  case (CPciMsiIrq sz)
  show ?thesis
    using single_marked [where req = request and shared = shared, OF inv, of "\<lambda>p. rm\<lparr>msi_irq_pool := p\<rparr>" KMsi 32 "Constraint_align (Constraint_new sz) sz" "\<lambda>base. MsiIrq PciMsi base sz"]
    by (simp add: CPciMsiIrq allocate_resource_def rm_alloc_defs pool_of_update meets_def)
next
  case (CPciMsixIrq sz)
  show ?thesis
    using single_marked [where req = request and shared = shared, OF inv, of "\<lambda>p. rm\<lparr>msi_irq_pool := p\<rparr>" KMsi 32 "Constraint_new sz" "\<lambda>base. MsiIrq PciMsix base sz"]
    by (simp add: CPciMsixIrq allocate_resource_def rm_alloc_defs pool_of_update meets_def)
next
  case (CGenericIrq sz)
  show ?thesis
    using single_marked [where req = request and shared = shared, OF inv, of "\<lambda>p. rm\<lparr>msi_irq_pool := p\<rparr>" KMsi 32 "Constraint_new sz" "\<lambda>base. MsiIrq GenericMsi base sz"]
    by (simp add: CGenericIrq allocate_resource_def rm_alloc_defs pool_of_update meets_def)
next
  case (CKvmMemSlot slot sz)
  show ?thesis
    using single_marked [where req = request and shared = shared, OF inv, of "\<lambda>p. rm\<lparr>kvm_mem_slot_pool := p\<rparr>" KKvm 32 "fixed_constraint sz slot" KvmMemSlot]
    by (simp add: CKvmMemSlot allocate_resource_def rm_alloc_defs pool_of_update del: constraint_defs)
qed

lemma answers_belongs: "answers req res h \<Longrightarrow> belongs res h"
proof (cases h)
  case (fields k r s)
  show "answers req res h \<Longrightarrow> belongs res h"
    unfolding fields by (cases req) (auto simp: meets_def)
qed

lemma served_owns: "served shared reqs rs hs \<Longrightarrow> owns rs hs"
  by (induction rule: served.induct) (auto intro: owns.intros answers_belongs)

section \<open>Release\<close>

lemmas rm_free_defs = free_legacy_irq_def free_msi_irq_def free_pio_address_def free_mmio_address_def
  free_mem_address_def free_kvm_mem_slot_def

lemma free_device_Cons:
  "free_device_resources mem_end rm (res # rs) = Some (out, rm') \<longleftrightarrow>
     (\<exists>rm1. free_resource mem_end rm res = Some (Ok (), rm1) \<and> free_device_resources mem_end rm1 rs = Some (out, rm')) \<or>
     (\<exists>e. free_resource mem_end rm res = Some (Err e, rm') \<and> out = Err e)"
proof (cases "free_resource mem_end rm res")
  case (Some x)
  then show ?thesis by (cases x; cases "fst x") auto
qed simp

lemma free_resource_inert: "inert res \<Longrightarrow> free_resource mem_end rm res = Some (Ok (), rm)"
  by (cases res) (auto simp: free_resource_def free_legacy_irq_def)

text \<open>Every release that reports success has released one key of one pool.\<close>

definition release_key :: "kind \<Rightarrow> Range \<Rightarrow> Range" where
  "release_key k r = (if k = KKvm then r\<lparr>rmax := rmin r\<rparr> else r)"

lemma free_resource_key:
  assumes "free_resource mem_end rm res = Some (Ok (), rm')" "belongs res (k, r, s)" "\<not> inert res"
  shows "\<exists>x p'. it_free (pool_of rm k) (release_key k r) = Some (x, p') \<and> pool_of rm' = (pool_of rm)(k := p')"
proof (cases r)
  case (fields lo hi)
  have sym_Suc: "Suc hi = lo + sz \<Longrightarrow> lo + sz = Suc hi" for sz by (rule sym)
  show ?thesis using assms
    by (cases res)
      (auto simp: fields free_resource_def rm_free_defs pool_of_update checked_sub_def checked_add_def release_key_def
        dest!: sym_Suc split: if_splits option.splits)
qed

lemma holding_range:
  assumes "rm_inv mem_end rm" "(k, r, s) \<in> rm_used rm"
  shows "rmin r \<le> rmax r" "rmin r \<in> pool_bounds mem_end k" "rmax r \<in> pool_bounds mem_end k" "rmax r < u64_max"
proof -
  have m: "merged_inv (pool_of rm k)" and u: "(r, s) \<in> in_use (pool_of rm k)"
    using assms by (auto simp: rm_inv_def rm_used_def)
  show le: "rmin r \<le> rmax r" using itp.used_wf [OF m u] by simp
  have "range_pts r \<subseteq> covered (pool_of rm k)" using itp.partition [OF m] u by blast
  then have pts: "rmin r \<in> covered (pool_of rm k)" "rmax r \<in> covered (pool_of rm k)"
    using le by (auto simp: range_pts_def)
  then show "rmin r \<in> pool_bounds mem_end k" "rmax r \<in> pool_bounds mem_end k"
    using rm_inv_pool [OF assms(1), of k] by blast+
  have "rmax r \<le> u64_max" "rmax r \<noteq> u64_max"
    using content_wf(2) [of "pool_of rm k" "(r, s)"] m u pts(2)
    by (auto simp: merged_inv_def pool_inv_def in_use_def)
  then show "rmax r < u64_max" by simp
qed

lemma used_holdings_disjoint:
  assumes inv: "rm_inv mem_end rm" and u: "h \<in> rm_used rm" "h' \<in> rm_used rm" "h \<noteq> h'"
  shows "holding_pts h \<inter> holding_pts h' = {}"
proof -
  obtain k r s k' r' s' where eq: "h = (k, r, s)" "h' = (k', r', s')" by (cases h; cases h') auto
  show ?thesis
  proof (cases "k = k'")
    case True
    then have "range_pts r \<inter> range_pts r' = {}"
      using itp.used_disjoint [OF conjunct1 [OF rm_inv_pool [OF inv, of k]], of r s r' s'] u by (auto simp: eq rm_used_def)
    then show ?thesis by (auto simp: eq holding_pts_def)
  qed (auto simp: eq holding_pts_def)
qed

lemma belongs_not_inert:
  assumes "rm_inv mem_end rm" "h \<in> rm_used rm" "belongs res h"
  shows "\<not> inert res"
proof -
  obtain k r s where h: "h = (k, r, s)" by (cases h) auto
  show ?thesis using holding_range(2) [OF assms(1), of k r s] assms(2,3) unfolding h
    by (cases res) (auto simp: rm_consts)
qed

lemma free_resource_effect:
  assumes inv: "rm_inv mem_end rm" and b: "belongs res h" and h: "h \<in> rm_used rm"
    and f: "free_resource mem_end rm res = Some (Ok (), rm')"
  shows "returns_holding mem_end rm h rm'"
proof -
  obtain k r s where eq: "h = (k, r, s)" by (cases h) auto
  have u: "(r, s) \<in> in_use (pool_of rm k)" using h by (simp add: eq rm_used_def)
  have le: "rmin r \<le> rmax r" by (rule holding_range(1) [OF inv h [unfolded eq]])
  obtain x p' where q: "it_free (pool_of rm k) (release_key k r) = Some (x, p')" "pool_of rm' = (pool_of rm)(k := p')"
    using free_resource_key [OF f b [unfolded eq] belongs_not_inert [OF inv h b]] by blast
  have "release_key k r = r"
  proof (rule ccontr)
    assume "release_key k r \<noteq> r"
    then have "it_free (pool_of rm k) (release_key k r) = None"
      using le by (intro itp.release_wrong_key [OF conjunct1 [OF rm_inv_pool [OF inv]] u])
        (auto simp: release_key_def range_pts_def)
    with q(1) show False by simp
  qed
  then show ?thesis using returns_pool [OF inv q(2) u] q(1) by (simp add: eq)
qed

definition holdings_pts :: "holding list \<Rightarrow> (kind \<times> nat) set" where
  "holdings_pts hs = (\<Union>h \<in> set hs. holding_pts h)"

lemma free_device_resources_effect:
  assumes "owns rs hs" "rm_inv mem_end rm" "set hs \<subseteq> rm_used rm"
    and "free_device_resources mem_end rm rs = Some (Ok (), rm')"
  shows "rm_inv mem_end rm' \<and> rm_used rm' = rm_used rm - set hs \<and> rm_free rm' = rm_free rm \<union> holdings_pts hs"
  using assms
proof (induction arbitrary: rm rule: owns.induct)
  case nil
  then show ?case by (simp add: holdings_pts_def)
next
  case (skip res rs hs)
  then show ?case by (simp add: free_resource_inert)
next
  case (keep res h hs rs)
  obtain rm1 where r1: "free_resource mem_end rm res = Some (Ok (), rm1)" "free_device_resources mem_end rm1 rs = Some (Ok (), rm')"
    using keep.prems(3) by (auto simp: free_device_Cons simp del: free_device_resources.simps)
  have ret: "returns_holding mem_end rm h rm1"
    using free_resource_effect [OF keep.prems(1) keep.hyps(1) _ r1(1)] keep.prems(2) by simp
  then have "rm_inv mem_end rm1" "set hs \<subseteq> rm_used rm1"
    using keep.prems(2) keep.hyps(2) by (auto simp: returns_holding_def)
  from keep.IH [OF this r1(2)] ret show ?case by (auto simp: returns_holding_def holdings_pts_def)
qed

section \<open>The allocation loop\<close>

text \<open>What a device has obtained so far, relative to the state before the request.\<close>

definition tracked :: "nat \<Rightarrow> ResourceManager \<Rightarrow> holding list \<Rightarrow> ResourceManager \<Rightarrow> bool" where
  "tracked mem_end rm0 hs rm \<longleftrightarrow> rm_inv mem_end rm \<and> rm_used rm = rm_used rm0 \<union> set hs \<and> set hs \<inter> rm_used rm0 = {} \<and>
     rm_free rm = rm_free rm0 - holdings_pts hs \<and> holdings_pts hs \<subseteq> rm_free rm0"

lemma tracked_nil: "rm_inv mem_end rm \<Longrightarrow> tracked mem_end rm [] rm"
  by (simp add: tracked_def holdings_pts_def)

lemma tracked_grant:
  assumes "tracked mem_end rm0 hs rm" "grants mem_end rm h rm'"
  shows "tracked mem_end rm0 (hs @ [h]) rm'" "h \<notin> set hs"
  using assms by (auto simp: tracked_def grants_def holdings_pts_def)

definition same_view :: "ResourceManager \<Rightarrow> ResourceManager \<Rightarrow> bool" where
  "same_view rm rm' \<longleftrightarrow> rm_used rm' = rm_used rm \<and> rm_free rm' = rm_free rm"

lemma tracked_free:
  assumes "tracked mem_end rm0 hs rm" "owns rs hs" "free_device_resources mem_end rm rs = Some (Ok (), rm')"
  shows "rm_inv mem_end rm' \<and> same_view rm0 rm'"
  using free_device_resources_effect [OF assms(2) _ _ assms(3)] assms(1)
  by (auto simp: tracked_def same_view_def)

definition loop_post ::
  "nat \<Rightarrow> bool \<Rightarrow> ResourceConstraint list \<Rightarrow> ResourceManager \<Rightarrow> (ResourceError + DeviceResources) \<Rightarrow> ResourceManager \<Rightarrow> bool" where
  "loop_post mem_end shared reqs rm0 out rm' \<longleftrightarrow>
     (case out of
        Inr rs \<Rightarrow> \<exists>hs. served shared reqs rs hs \<and> tracked mem_end rm0 hs rm'
      | Inl e \<Rightarrow> e = NoAvailResource \<longrightarrow> rm_inv mem_end rm' \<and> same_view rm0 rm')"

lemma free_never_NoAvail:
  "free_device_resources mem_end rm rs = Some (Inl e, rm') \<Longrightarrow> e \<noteq> NoAvailResource"
proof (induction rs arbitrary: rm)
  case (Cons res rs)
  have "free_resource mem_end rm res = Some (Inl e', rm1) \<Longrightarrow> e' \<noteq> NoAvailResource" for e' rm1
    by (cases res) (auto simp: free_resource_def rm_free_defs split: if_splits option.splits)
  with Cons.prems Cons.IH show ?case by (auto simp: free_device_Cons simp del: free_device_resources.simps)
qed simp

lemma allocate_loop_post:
  assumes "tracked mem_end rm0 hs rm" "served shared prev rs hs"
    "allocate_loop mem_end rm shared rs reqs = Some (out, rm')"
  shows "loop_post mem_end shared (prev @ reqs) rm0 out rm'"
  using assms
proof (induction reqs arbitrary: prev rs hs rm)
  case Nil
  then show ?case by (auto simp: loop_post_def)
next
  case (Cons req reqs)
  have inv: "rm_inv mem_end rm" using Cons.prems(1) by (simp add: tracked_def)
  from allocate_resource_outcome [OF inv, of shared req] show ?case
    unfolding allocation_outcome_def
  proof (elim disjE exE conjE)
    assume a: "allocate_resource rm shared req = Some (None, rm)"
    obtain res where fr: "free_device_resources mem_end rm rs = Some (res, rm')"
        and out: "out = (case res of Inl e \<Rightarrow> Inl e | Inr _ \<Rightarrow> Inl NoAvailResource)"
      using Cons.prems(3) a by (fastforce split: sum.splits)
    show ?thesis
      using fr out tracked_free [OF Cons.prems(1) served_owns [OF Cons.prems(2)]] free_never_NoAvail
      by (cases res) (auto simp: loop_post_def)
  next
    fix irq assume a: "shared" "req = CLegacyIrq irq" "allocate_resource rm shared req = Some (Some (LegacyIrq SHARED_IRQ), rm)"
    show ?thesis
      using Cons.IH [OF Cons.prems(1) served_append_shared [OF Cons.prems(2) a(1), of irq]] Cons.prems(3) a(2,3)
      by (simp add: dr_append_def)
  next
    fix res h rm1
    assume a: "allocate_resource rm shared req = Some (Some res, rm1)" and b: "answers req res h" "grants mem_end rm h rm1"
    note t = tracked_grant [OF Cons.prems(1) b(2)]
    show ?thesis
      using Cons.IH [OF t(1) served_append_own [OF Cons.prems(2) b(1) t(2)]] Cons.prems(3) a by (simp add: dr_append_def)
  qed
qed

section \<open>When the rollback succeeds\<close>

definition releasable :: "nat \<Rightarrow> holding \<Rightarrow> bool" where
  "releasable mem_end h = (case h of (k, r, s) \<Rightarrow>
     (k = KPio \<longrightarrow> rmax r < PIO_MAX) \<and> (k = KMem \<longrightarrow> rmax r < mem_end) \<and> (k = KKvm \<longrightarrow> rmax r = rmin r))"

lemma release_total:
  assumes "rm_inv mem_end rm" "(k, r, s) \<in> rm_used rm"
  shows "\<exists>x p'. it_free (pool_of rm k) r = Some (x, p')"
  using itp.release_used [OF conjunct1 [OF rm_inv_pool [OF assms(1)]], of r s k] assms(2)
  by (auto simp: rm_used_def)

lemma free_resource_total:
  assumes inv: "rm_inv mem_end rm" and b: "belongs res h" and h: "h \<in> rm_used rm" and rel: "releasable mem_end h"
  shows "\<exists>rm'. free_resource mem_end rm res = Some (Ok (), rm')"
proof -
  obtain k lo hi s where eq: "h = (k, \<lparr>rmin = lo, rmax = hi\<rparr>, s)" by (cases h) (metis Range.cases)
  have *: "lo \<le> hi" "lo \<in> pool_bounds mem_end k" "hi \<in> pool_bounds mem_end k" "hi < u64_max"
    using holding_range [OF inv h [unfolded eq]] by simp_all
  obtain x p' where f: "it_free (pool_of rm k) \<lparr>rmin = lo, rmax = hi\<rparr> = Some (x, p')"
    using release_total [OF inv h [unfolded eq]] by blast
  have new: "range_new lo hi = Some \<lparr>rmin = lo, rmax = hi\<rparr>" using *(1,4) by simp
  have sym_Suc: "Suc hi = lo + sz \<Longrightarrow> lo + sz = Suc hi" for sz by (rule sym)
  show ?thesis
    using b rel * f new unfolding eq
    by (cases res)
      (auto simp: free_resource_def rm_free_defs checked_add_def checked_sub_def releasable_def rm_consts u_max_vals
        simp del: range_new_Some dest!: sym_Suc)
qed

lemma free_device_resources_total:
  assumes "owns rs hs" "rm_inv mem_end rm" "set hs \<subseteq> rm_used rm" "\<forall>h \<in> set hs. releasable mem_end h"
  shows "\<exists>rm'. free_device_resources mem_end rm rs = Some (Ok (), rm')"
  using assms
proof (induction arbitrary: rm rule: owns.induct)
  case nil
  then show ?case by simp
next
  case (skip res rs hs)
  then show ?case by (simp add: free_resource_inert)
next
  case (keep res h hs rs)
  obtain rm1 where r1: "free_resource mem_end rm res = Some (Ok (), rm1)"
    using free_resource_total [OF keep.prems(1) keep.hyps(1)] keep.prems(2,3) by auto
  have ret: "returns_holding mem_end rm h rm1"
    using free_resource_effect [OF keep.prems(1) keep.hyps(1) _ r1] keep.prems(2) by simp
  then have "rm_inv mem_end rm1" "set hs \<subseteq> rm_used rm1"
    using keep.prems(2) keep.hyps(2) by (auto simp: returns_holding_def)
  from keep.IH [OF this] keep.prems(3) r1 show ?case by auto
qed

fun slot_request_ok :: "ResourceConstraint \<Rightarrow> bool" where
  "slot_request_ok (CKvmMemSlot slot sz) = (sz = 1)"
| "slot_request_ok _ = True"

definition tops_taken :: "nat \<Rightarrow> ResourceManager \<Rightarrow> bool" where
  "tops_taken mem_end rm \<longleftrightarrow> (KPio, PIO_MAX) \<notin> rm_free rm \<and> (KMem, mem_end) \<notin> rm_free rm"

lemma grant_releasable:
  assumes inv: "rm_inv mem_end rm" and req: "answers req res h" "slot_request_ok req"
    and g: "grants mem_end rm h rm'" and top: "tops_taken mem_end rm"
  shows "releasable mem_end h" "tops_taken mem_end rm'"
proof -
  obtain k r s where eq: "h = (k, r, s)" by (cases h) auto
  have inv': "rm_inv mem_end rm'" and pts: "holding_pts h \<subseteq> rm_free rm" and used: "(k, r, s) \<in> rm_used rm'"
    using g by (auto simp: grants_def eq)
  note b = holding_range [OF inv' used]
  have "(k, rmax r) \<in> rm_free rm" using pts b(1) by (auto simp: eq holding_pts_def range_pts_def)
  then have "k = KPio \<longrightarrow> rmax r \<noteq> PIO_MAX" "k = KMem \<longrightarrow> rmax r \<noteq> mem_end"
    using top by (auto simp: tops_taken_def)
  moreover have "k = KKvm \<longrightarrow> rmax r = rmin r" using req by (cases req) (auto simp: eq meets_def)
  ultimately show "releasable mem_end h" using b(3) by (auto simp: eq releasable_def)
  show "tops_taken mem_end rm'" using top g by (auto simp: tops_taken_def grants_def)
qed

lemma allocate_loop_total:
  assumes "tracked mem_end rm0 hs rm" "served shared prev rs hs" "list_all slot_request_ok reqs"
    "tops_taken mem_end rm" "\<forall>h \<in> set hs. releasable mem_end h"
  shows "\<exists>out rm'. allocate_loop mem_end rm shared rs reqs = Some (out, rm') \<and>
           (out = Err NoAvailResource \<or> (\<exists>rs'. out = Ok rs'))"
  using assms
proof (induction reqs arbitrary: prev rs hs rm)
  case Nil
  then show ?case by simp
next
  case (Cons req reqs)
  have inv: "rm_inv mem_end rm" and sub: "set hs \<subseteq> rm_used rm" using Cons.prems(1) by (auto simp: tracked_def)
  from allocate_resource_outcome [OF inv, of shared req] show ?case
    unfolding allocation_outcome_def
  proof (elim disjE exE conjE)
    assume "allocate_resource rm shared req = Some (None, rm)"
    then show ?thesis
      using free_device_resources_total [OF served_owns [OF Cons.prems(2)] inv sub Cons.prems(5)] by auto
  next
    fix irq assume a: "shared" "req = CLegacyIrq irq" "allocate_resource rm shared req = Some (Some (LegacyIrq SHARED_IRQ), rm)"
    show ?thesis
      using Cons.IH [OF Cons.prems(1) served_append_shared [OF Cons.prems(2) a(1), of irq]] Cons.prems(3-5) a(3)
      by (simp add: dr_append_def)
  next
    fix res h rm1
    assume a: "allocate_resource rm shared req = Some (Some res, rm1)" and b: "answers req res h" "grants mem_end rm h rm1"
    note t = tracked_grant [OF Cons.prems(1) b(2)]
    have ok: "slot_request_ok req" "list_all slot_request_ok reqs" using Cons.prems(3) by simp_all
    note gr = grant_releasable [OF inv b(1) ok(1) b(2) Cons.prems(4)]
    show ?thesis
      using Cons.IH [OF t(1) served_append_own [OF Cons.prems(2) b(1) t(2)] ok(2) gr(2)] gr(1) Cons.prems(5) a
      by (simp add: dr_append_def)
  qed
qed

end
