(* ===== verification/ResourceClaims.thy ===== *)
theory ResourceClaims
  imports ResourceRollback
begin

text \<open>
  The initial state of the resource manager and the properties of its construction, of the
  allocation of device resources, of its rollback and of the release.
\<close>

section \<open>Construction\<close>

lemma leaf_merged: "merged_inv it_new" "covered it_new = {}" "content it_new = {}"
  by (auto simp: merged_inv_def pool_inv_def coalesced_def covered_def content_def it_new_def it_inv_def separated_def)

lemma pool_inv_content: "merged_inv p \<Longrightarrow> it_inv p \<and> u64_max \<notin> covered p \<and> coalesced p"
  by (simp add: merged_inv_def pool_inv_def)

lemma insert_new_merged:
  assumes p: "merged_inv p" and b: "lo \<le> hi" "hi < u64_max" "{lo..hi} \<inter> covered p = {}"
    and n: "\<forall>(r, s) \<in> content p. s = Free \<longrightarrow> rmax r + 1 \<noteq> lo \<and> hi + 1 \<noteq> rmin r"
  shows "\<exists>p'. insert_new p lo hi = Some p' \<and> merged_inv p' \<and> covered p' = {lo..hi} \<union> covered p \<and>
           content p' = insert (\<lparr>rmin = lo, rmax = hi\<rparr>, Free) (content p)"
proof -
  let ?q = "\<lparr>rmin = lo, rmax = hi\<rparr>"
  note p = pool_inv_content [OF p]
  have "rmin ?q \<le> rmax ?q" "rmax ?q \<le> u64_max" "range_pts ?q \<inter> covered p = {}"
    using b by (simp_all add: range_pts_def)
  then obtain p' where p': "it_insert p ?q None = Some p'" "it_inv p'" "content p' = insert (?q, Free) (content p)"
    using it_insert_content [of p ?q None] p by (auto simp: new_state_def)
  have cov: "covered p' = {lo..hi} \<union> covered p" using covered_insert [OF p'(3)] by (simp add: range_pts_def)
  have "coalesced p'" using p n b(1) unfolding coalesced_def p'(3) by fastforce
  then have "merged_inv p'" using p p'(2) cov b(2) by (auto simp: merged_inv_def pool_inv_def)
  moreover have "insert_new p lo hi = Some p'" using p'(1) b by (simp add: insert_new_def)
  ultimately show ?thesis using cov p'(3) by blast
qed

text \<open>The low MMIO window after reserving the space of the system devices.\<close>

definition mmio_low_pool :: pool where
  "mmio_low_pool =
     Node \<lparr>rmin = 0xFBFFFFFF, rmax = 0xFFFFFFFE\<rparr> (Valued ())
       (Node \<lparr>rmin = 0xC0000000, rmax = 0xFBFFFFFE\<rparr> Free Leaf Leaf 1 0xFBFFFFFE)
       (Node \<lparr>rmin = 0xFFFFFFFF, rmax = 0xFFFFFFFF\<rparr> Free Leaf Leaf 1 0xFFFFFFFF) 2 0xFFFFFFFF"

lemma init_mmio_low:
  assumes "MMIO_LOW_START \<le> mem_end"
  shows "init_mmio_pool_helper mem_end phys_end it_new =
    (if mem_end < phys_end then insert_new mmio_low_pool (mem_end + 1) phys_end else Some mmio_low_pool)"
  using assms
  by (simp add: init_mmio_pool_helper_def insert_new_def itree_eval rm_consts mmio_low_pool_def)

lemma mmio_low_pool_props:
  "content mmio_low_pool = {(\<lparr>rmin = 0xC0000000, rmax = 0xFBFFFFFE\<rparr>, Free),
     (\<lparr>rmin = 0xFBFFFFFF, rmax = 0xFFFFFFFE\<rparr>, Valued ()), (\<lparr>rmin = 0xFFFFFFFF, rmax = 0xFFFFFFFF\<rparr>, Free)}"
  "merged_inv mmio_low_pool" "covered mmio_low_pool = {0xC0000000..0xFFFFFFFF}"
proof -
  show c: "content mmio_low_pool = {(\<lparr>rmin = 0xC0000000, rmax = 0xFBFFFFFE\<rparr>, Free),
     (\<lparr>rmin = 0xFBFFFFFF, rmax = 0xFFFFFFFE\<rparr>, Valued ()), (\<lparr>rmin = 0xFFFFFFFF, rmax = 0xFFFFFFFF\<rparr>, Free)}"
    by (auto simp: content_def mmio_low_pool_def)
  show cov: "covered mmio_low_pool = {0xC0000000..0xFFFFFFFF}"
    unfolding covered_def c by (auto simp: range_pts_def)
  have "it_inv mmio_low_pool"
    by (simp add: it_inv_def separated_def before_def mmio_low_pool_def u_max_vals)
  moreover have "coalesced mmio_low_pool" by (simp add: coalesced_def c)
  ultimately show "merged_inv mmio_low_pool" using cov by (simp add: merged_inv_def pool_inv_def u_max_vals)
qed

definition initial_free :: "nat \<Rightarrow> nat \<Rightarrow> nat \<Rightarrow> kind \<Rightarrow> nat set" where
  "initial_free mem_end phys_end slots k =
     (case k of
        KLegacy \<Rightarrow> {6..15}
      | KMsi \<Rightarrow> {24..1023}
      | KPio \<Rightarrow> {0..0xFFFF}
      | KMmio \<Rightarrow> {0xC0000000..0xFBFFFFFE} \<union> {0xFFFFFFFF} \<union> {mem_end + 1..phys_end}
      | KMem \<Rightarrow> {0..0xBFFFFFFF} \<union> {0x100000000..mem_end}
      | KKvm \<Rightarrow> {0..slots})"

lemma insert_new_first:
  assumes "lo \<le> hi" "hi < u64_max"
  shows "\<exists>p. insert_new it_new lo hi = Some p \<and> merged_inv p \<and> covered p = {lo..hi} \<and> content p = {(\<lparr>rmin = lo, rmax = hi\<rparr>, Free)}"
  using insert_new_merged [OF leaf_merged(1) assms] by (auto simp: leaf_merged)

lemma content_view:
  "free_pts p = (\<Union>e \<in> {e \<in> content p. snd e = Free}. range_pts (fst e))" "in_use p = {e \<in> content p. snd e \<noteq> Free}"
  by (simp_all add: free_pts_def in_use_def)

lemma init_mmio_ok:
  assumes "0xFFFFFFFF < mem_end" "mem_end < phys_end" "phys_end < u64_max"
  shows "\<exists>p. init_mmio_pool_helper mem_end phys_end it_new = Some p \<and> merged_inv p \<and>
    free_pts p = {0xC0000000..0xFBFFFFFE} \<union> {0xFFFFFFFF} \<union> {mem_end + 1..phys_end} \<and>
    in_use p = {(\<lparr>rmin = 0xFBFFFFFF, rmax = 0xFFFFFFFE\<rparr>, Valued ())}"
proof -
  have "\<exists>p'. insert_new mmio_low_pool (mem_end + 1) phys_end = Some p' \<and> merged_inv p' \<and>
      covered p' = {mem_end + 1..phys_end} \<union> covered mmio_low_pool \<and>
      content p' = insert (\<lparr>rmin = mem_end + 1, rmax = phys_end\<rparr>, Free) (content mmio_low_pool)"
    using assms by (intro insert_new_merged) (auto simp: mmio_low_pool_props)
  then obtain p' where p': "insert_new mmio_low_pool (mem_end + 1) phys_end = Some p'" "merged_inv p'"
      "content p' = insert (\<lparr>rmin = mem_end + 1, rmax = phys_end\<rparr>, Free) (content mmio_low_pool)" by blast
  have "init_mmio_pool_helper mem_end phys_end it_new = Some p'"
    using init_mmio_low [of mem_end phys_end] p'(1) assms by (simp add: rm_consts)
  moreover have "in_use p' = {(\<lparr>rmin = 0xFBFFFFFF, rmax = 0xFFFFFFFE\<rparr>, Valued ())}"
    unfolding content_view p'(3) mmio_low_pool_props by auto
  moreover have "{e \<in> content p'. snd e = Free} = {(\<lparr>rmin = 0xC0000000, rmax = 0xFBFFFFFE\<rparr>, Free),
      (\<lparr>rmin = 0xFFFFFFFF, rmax = 0xFFFFFFFF\<rparr>, Free), (\<lparr>rmin = mem_end + 1, rmax = phys_end\<rparr>, Free)}"
    unfolding p'(3) mmio_low_pool_props by auto
  then have "free_pts p' = {0xC0000000..0xFBFFFFFE} \<union> {0xFFFFFFFF} \<union> {mem_end + 1..phys_end}"
    unfolding content_view by (simp add: range_pts_def Un_assoc)
  ultimately show ?thesis using p'(2) by blast
qed

lemma init_mem_ok:
  assumes "0xFFFFFFFF < mem_end" "mem_end < u64_max"
  shows "\<exists>p. init_mem_pool_helper mem_end it_new = Some p \<and> merged_inv p \<and>
    free_pts p = {0..0xBFFFFFFF} \<union> {0x100000000..mem_end} \<and> in_use p = {}"
proof -
  obtain p1 where p1: "insert_new it_new 0 0xBFFFFFFF = Some p1" "merged_inv p1" "covered p1 = {0..0xBFFFFFFF}"
      "content p1 = {(\<lparr>rmin = 0, rmax = 0xBFFFFFFF\<rparr>, Free)}"
    using insert_new_first [of 0 "0xBFFFFFFF"] by (auto simp: u_max_vals)
  have "\<exists>p'. insert_new p1 0x100000000 mem_end = Some p' \<and> merged_inv p' \<and>
      covered p' = {0x100000000..mem_end} \<union> covered p1 \<and>
      content p' = insert (\<lparr>rmin = 0x100000000, rmax = mem_end\<rparr>, Free) (content p1)"
    using assms p1 by (intro insert_new_merged) auto
  then obtain p' where p': "insert_new p1 0x100000000 mem_end = Some p'" "merged_inv p'"
      "content p' = {(\<lparr>rmin = 0x100000000, rmax = mem_end\<rparr>, Free), (\<lparr>rmin = 0, rmax = 0xBFFFFFFF\<rparr>, Free)}"
    using p1(4) by auto
  have "init_mem_pool_helper mem_end it_new = Some p'"
    using p1(1) p'(1) assms(1) by (simp add: init_mem_pool_helper_def rm_consts)
  moreover have "in_use p' = {}" unfolding content_view p'(3) by auto
  moreover have "{e \<in> content p'. snd e = Free} = {(\<lparr>rmin = 0x100000000, rmax = mem_end\<rparr>, Free), (\<lparr>rmin = 0, rmax = 0xBFFFFFFF\<rparr>, Free)}"
    unfolding p'(3) by auto
  then have "free_pts p' = {0..0xBFFFFFFF} \<union> {0x100000000..mem_end}"
    unfolding content_view by (simp add: range_pts_def Un_commute)
  ultimately show ?thesis using p'(2) by blast
qed

lemma insert_new_view:
  assumes "lo \<le> hi" "hi < u64_max"
  shows "\<exists>p. insert_new it_new lo hi = Some p \<and> merged_inv p \<and> free_pts p = {lo..hi} \<and> in_use p = {}"
proof -
  obtain p where p: "insert_new it_new lo hi = Some p" "merged_inv p" "content p = {(\<lparr>rmin = lo, rmax = hi\<rparr>, Free)}"
    using insert_new_first [OF assms] by blast
  have "free_pts p = {lo..hi}" "in_use p = {}" unfolding free_pts_def in_use_def p(3) by (auto simp: range_pts_def)
  with p show ?thesis by blast
qed

section \<open>Properties\<close>

lemma phys_end_bounds:
  assumes "guest_phys_end bits = Some pe"
  shows "0xFFFFFFFF < guest_mem_end pe" "guest_mem_end pe < pe" "pe < u64_max"
proof -
  have b: "36 \<le> bits" "bits < 64" and pe: "pe = 2 ^ bits - 1" using assms by (auto simp: guest_phys_end_def split: if_splits)
  have "(2::nat) ^ 36 \<le> 2 ^ bits" "(2::nat) ^ bits \<le> 2 ^ 63" 
    using power_increasing [of 36 bits "2::nat"] power_increasing [of bits 63 "2::nat"] b by simp_all
  then have "2 ^ 36 - 1 \<le> pe" "pe \<le> 2 ^ 63 - 1" unfolding pe by (auto intro: diff_le_mono)
  then show "0xFFFFFFFF < guest_mem_end pe" "guest_mem_end pe < pe" "pe < u64_max"
    by (auto simp: guest_mem_end_def drop_bit_eq_div u_max_vals)
qed

lemma rm_inv_view:
  assumes "\<And>k. merged_inv (pool_of rm k)" "\<And>k. free_pts (pool_of rm k) \<subseteq> pool_bounds mem_end k"
    "\<And>k r s. (r, s) \<in> in_use (pool_of rm k) \<Longrightarrow> range_pts r \<subseteq> pool_bounds mem_end k"
  shows "rm_inv mem_end rm"
  unfolding rm_inv_def itp.partition [OF assms(1)] using assms by blast

lemma new_pools:
  assumes b: "0xFFFFFFFF < mem_end" "mem_end < phys_end" "phys_end < u64_max"
    and slots: "(case max_slot of Some n \<Rightarrow> n | None \<Rightarrow> KVM_USER_MEM_SLOTS) = slots" "slots < u64_max"
  shows "\<exists>rm. ResourceManager_new mem_end phys_end max_slot = Some rm \<and> (\<forall>k. merged_inv (pool_of rm k) \<and>
           free_pts (pool_of rm k) = initial_free mem_end phys_end slots k \<and>
           in_use (pool_of rm k) = (if k = KMmio then {(\<lparr>rmin = 0xFBFFFFFF, rmax = 0xFFFFFFFE\<rparr>, Valued ())} else {}))"
proof -
  obtain p1 where p1: "insert_new it_new 6 15 = Some p1" "merged_inv p1" "free_pts p1 = {6..15}" "in_use p1 = {}"
    using insert_new_view [of 6 15] by (auto simp: u_max_vals)
  obtain p2 where p2: "insert_new it_new 24 1023 = Some p2" "merged_inv p2" "free_pts p2 = {24..1023}" "in_use p2 = {}"
    using insert_new_view [of 24 1023] by (auto simp: u_max_vals)
  obtain p3 where p3: "insert_new it_new 0 0xFFFF = Some p3" "merged_inv p3" "free_pts p3 = {0..0xFFFF}" "in_use p3 = {}"
    using insert_new_view [of 0 "0xFFFF"] by (auto simp: u_max_vals)
  obtain p4 where p4: "init_mmio_pool_helper mem_end phys_end it_new = Some p4" "merged_inv p4"
      "free_pts p4 = {0xC0000000..0xFBFFFFFE} \<union> {0xFFFFFFFF} \<union> {mem_end + 1..phys_end}"
      "in_use p4 = {(\<lparr>rmin = 0xFBFFFFFF, rmax = 0xFFFFFFFE\<rparr>, Valued ())}"
    using init_mmio_ok [OF b] by blast
  obtain p5 where p5: "init_mem_pool_helper mem_end it_new = Some p5" "merged_inv p5"
      "free_pts p5 = {0..0xBFFFFFFF} \<union> {0x100000000..mem_end}" "in_use p5 = {}"
    using init_mem_ok [OF b(1)] b by auto
  obtain p6 where p6: "insert_new it_new 0 slots = Some p6" "merged_inv p6" "free_pts p6 = {0..slots}" "in_use p6 = {}"
    using insert_new_view [of 0 slots] slots(2) by auto
  let ?rm = "\<lparr>legacy_irq_pool = p1, msi_irq_pool = p2, pio_pool = p3, mmio_pool = p4, mem_pool = p5, kvm_mem_slot_pool = p6\<rparr>"
  have "ResourceManager_new mem_end phys_end max_slot = Some ?rm"
    using p1(1) p2(1) p3(1) p4(1) p5(1) p6(1) slots(1)
    by (simp add: ResourceManager_new_def rm_default_def init_legacy_irq_pool_def init_msi_irq_pool_def init_pio_pool_def
        init_mmio_pool_def init_mem_pool_def init_kvm_mem_slot_pool_def LEGACY_IRQ_BASE_def LEGACY_IRQ_MAX_def
        MSI_IRQ_BASE_def MSI_IRQ_MAX_def PIO_MIN_def PIO_MAX_def)
  moreover have "merged_inv (pool_of ?rm k) \<and> free_pts (pool_of ?rm k) = initial_free mem_end phys_end slots k \<and>
      in_use (pool_of ?rm k) = (if k = KMmio then {(\<lparr>rmin = 0xFBFFFFFF, rmax = 0xFFFFFFFE\<rparr>, Valued ())} else {})" for k
    using p1(2-4) p2(2-4) p3(2-4) p4(2-4) p5(2-4) p6(2-4) by (cases k) (simp_all add: initial_free_def)
  ultimately show ?thesis by blast
qed

text \<open>A small manager on which the properties are exercised.\<close>

definition demo_rm :: ResourceManager where
  "demo_rm = rm_default\<lparr>legacy_irq_pool := InnerNode_new \<lparr>rmin = 6, rmax = 15\<rparr> Free,
     pio_pool := InnerNode_new \<lparr>rmin = 0, rmax = 255\<rparr> Free,
     kvm_mem_slot_pool := InnerNode_new \<lparr>rmin = 0, rmax = 3\<rparr> Free\<rparr>"

lemma demo_rm_inv: "rm_inv 1000 demo_rm"
proof -
  have "merged_inv (pool_of demo_rm k) \<and> covered (pool_of demo_rm k) \<subseteq> pool_bounds 1000 k" for k
    by (cases k)
      (auto simp: demo_rm_def rm_default_def InnerNode_new_def it_new_def merged_inv_def pool_inv_def coalesced_def
        covered_def content_def it_inv_def separated_def range_pts_def rm_consts u_max_vals)
  then show ?thesis by (simp add: rm_inv_def)
qed

lemma demo_tops: "tops_taken 1000 demo_rm"
  by (simp add: tops_taken_def rm_free_def free_pts_def content_def demo_rm_def rm_default_def InnerNode_new_def
      it_new_def range_pts_def PIO_MAX_def)

lemmas rm_eval = allocate_device_resources_def allocate_resource_def rm_alloc_defs rm_free_defs free_resource_def
  allocate_marked_def as_width_def dr_new_def dr_append_def bounded_constraint_def fixed_constraint_def rm_consts
  demo_rm_def rm_default_def



text \<open>C17: when \<open>allocate_device_resources\<close> succeeds, every request is answered in order: the resource is of
  the requested kind, size, alignment and bounds (or is the shared interrupt), it was free before, it is now in
  use, distinct requests got disjoint ranges, and nothing else in the six pools changed.\<close>

theorem allocate_device_resources_ok:
  assumes "rm_inv mem_end rm" "allocate_device_resources mem_end rm reqs shared = Some (Ok rs, rm')"
  shows "\<exists>hs. served shared reqs rs hs \<and> rm_inv mem_end rm' \<and>
           rm_used rm' = rm_used rm \<union> set hs \<and> set hs \<inter> rm_used rm = {} \<and>
           rm_free rm' = rm_free rm - holdings_pts hs \<and> holdings_pts hs \<subseteq> rm_free rm \<and>
           (\<forall>h \<in> set hs. \<forall>h' \<in> set hs. h \<noteq> h' \<longrightarrow> holding_pts h \<inter> holding_pts h' = {})"
proof -
  have "loop_post mem_end shared ([] @ reqs) rm (Ok rs) rm'"
    using assms allocate_loop_post [OF tracked_nil served_nil]
    by (simp add: allocate_device_resources_def dr_new_def)
  then obtain hs where hs: "served shared reqs rs hs" "tracked mem_end rm hs rm'" by (auto simp: loop_post_def)
  have "holding_pts h \<inter> holding_pts h' = {}" if "h \<in> rm_used rm'" "h' \<in> rm_used rm'" "h \<noteq> h'" for h h'
    using used_holdings_disjoint [OF _ that] hs(2) by (auto simp: tracked_def)
  with hs show ?thesis by (intro exI [of _ hs]) (simp add: tracked_def)
qed

theorem allocate_device_resources_ok_witness:
  "\<exists>rs rm' hs. allocate_device_resources 1000 demo_rm [CPioAddress None 16 32, CLegacyIrq None] False = Some (Ok rs, rm') \<and>
     served False [CPioAddress None 16 32, CLegacyIrq None] rs hs \<and> rm_used rm' = rm_used demo_rm \<union> set hs"
proof -
  obtain rs rm' where e: "allocate_device_resources 1000 demo_rm [CPioAddress None 16 32, CLegacyIrq None] False = Some (Ok rs, rm')"
    by (simp add: rm_eval itree_eval not64_def mask_eq_exp_minus_1)
  show ?thesis using allocate_device_resources_ok [OF demo_rm_inv e] e by blast
qed

text \<open>C5: all or nothing.  When \<open>allocate_device_resources\<close> reports \<open>NoAvailResource\<close>, the six pools are
  exactly as before the call: the same values are free and the same ranges are in use.\<close>

theorem allocate_device_resources_rollback:
  assumes "rm_inv mem_end rm" "allocate_device_resources mem_end rm reqs shared = Some (Err NoAvailResource, rm')"
  shows "rm_inv mem_end rm' \<and> rm_used rm' = rm_used rm \<and> rm_free rm' = rm_free rm"
proof -
  have "loop_post mem_end shared ([] @ reqs) rm (Err NoAvailResource) rm'"
    using assms allocate_loop_post [OF tracked_nil served_nil]
    by (simp add: allocate_device_resources_def dr_new_def)
  then show ?thesis by (simp add: loop_post_def same_view_def)
qed

theorem allocate_device_resources_rollback_witness:
  "\<exists>rm'. allocate_device_resources 1000 demo_rm [CPioAddress None 1 32, CKvmMemSlot None 1, CLegacyIrq (Some 5)] False =
     Some (Err NoAvailResource, rm') \<and> rm_used rm' = rm_used demo_rm \<and> rm_free rm' = rm_free demo_rm"
proof -
  obtain rm' where e: "allocate_device_resources 1000 demo_rm [CPioAddress None 1 32, CKvmMemSlot None 1, CLegacyIrq (Some 5)] False =
      Some (Err NoAvailResource, rm')"
    by (simp add: rm_eval itree_eval)
  show ?thesis using allocate_device_resources_rollback [OF demo_rm_inv e] e by blast
qed

text \<open>C18: no panic and no other error.  If every memory slot request is for one slot and the last I/O port and
  the last memory address are not free, \<open>allocate_device_resources\<close> returns, with the resources or with
  \<open>NoAvailResource\<close>.\<close>

theorem allocate_device_resources_total:
  assumes "rm_inv mem_end rm" "list_all slot_request_ok reqs" "tops_taken mem_end rm"
  shows "\<exists>out rm'. allocate_device_resources mem_end rm reqs shared = Some (out, rm') \<and>
           (out = Err NoAvailResource \<or> (\<exists>rs. out = Ok rs))"
  using allocate_loop_total [OF tracked_nil [OF assms(1)] served_nil assms(2,3)]
  by (simp add: allocate_device_resources_def dr_new_def)

theorem allocate_device_resources_total_witness:
  "\<exists>out rm'. allocate_device_resources 1000 demo_rm [CPioAddress None 1 300, CKvmMemSlot None 1] False = Some (out, rm') \<and>
     (out = Err NoAvailResource \<or> (\<exists>rs. out = Ok rs))"
  using allocate_device_resources_total [OF demo_rm_inv _ demo_tops, of "[CPioAddress None 1 300, CKvmMemSlot None 1]" False]
  by simp

text \<open>C19: round trip.  Releasing the resources a device was given restores the six pools.\<close>

theorem allocate_free_round_trip:
  assumes "rm_inv mem_end rm" "allocate_device_resources mem_end rm reqs shared = Some (Ok rs, rm1)"
    and "free_device_resources mem_end rm1 rs = Some (Ok (), rm2)"
  shows "rm_inv mem_end rm2 \<and> rm_used rm2 = rm_used rm \<and> rm_free rm2 = rm_free rm"
proof -
  have "loop_post mem_end shared ([] @ reqs) rm (Ok rs) rm1"
    using assms(1,2) allocate_loop_post [OF tracked_nil served_nil]
    by (simp add: allocate_device_resources_def dr_new_def)
  then show ?thesis using tracked_free [OF _ served_owns assms(3)] by (auto simp: loop_post_def same_view_def)
qed

theorem allocate_free_round_trip_witness:
  "\<exists>rs rm1 rm2. allocate_device_resources 1000 demo_rm [CPioAddress None 1 32, CKvmMemSlot (Some 2) 1] False = Some (Ok rs, rm1) \<and>
     free_device_resources 1000 rm1 rs = Some (Ok (), rm2) \<and> rm_used rm2 = rm_used demo_rm \<and> rm_free rm2 = rm_free demo_rm"
proof -
  obtain rs rm1 rm2 where e: "allocate_device_resources 1000 demo_rm [CPioAddress None 1 32, CKvmMemSlot (Some 2) 1] False = Some (Ok rs, rm1)"
      "free_device_resources 1000 rm1 rs = Some (Ok (), rm2)"
    by (simp add: rm_eval itree_eval)
  show ?thesis using allocate_free_round_trip [OF demo_rm_inv e] e by blast
qed



text \<open>a device that asks for several consecutive memory slots gets a resource that records only the first,
  and releasing it panics.\<close>

theorem multi_slot_free_panics:
  assumes "rm_inv mem_end rm" "2 \<le> sz" "allocate_kvm_mem_slot rm sz fixed = Some (Some slot, rm')"
  shows "free_kvm_mem_slot rm' slot = None"
proof -
  have a: "allocate_resource rm False (CKvmMemSlot fixed sz) = Some (Some (KvmMemSlot slot), rm')"
    using assms(3) by (simp add: allocate_resource_def)
  obtain h where h: "answers (CKvmMemSlot fixed sz) (KvmMemSlot slot) h" "grants mem_end rm h rm'"
    using allocate_resource_outcome [OF assms(1), of False "CKvmMemSlot fixed sz"] a by (auto simp: allocation_outcome_def)
  obtain r where eq: "h = (KKvm, r, Valued ())" "rmin r = slot" "rmax r + 1 = slot + sz"
    using h(1) by (cases h) (auto simp: meets_def)
  have inv: "rm_inv mem_end rm'" and u: "h \<in> rm_used rm'" using h(2) by (auto simp: grants_def)
  have "it_free (pool_of rm' KKvm) \<lparr>rmin = slot, rmax = slot\<rparr> = None"
    using u eq assms(2) rm_inv_pool [OF inv, of KKvm]
    by (intro itp.release_wrong_key [of _ r "Valued ()"]) (auto simp: rm_used_def range_pts_def range_eq_iff)
  moreover have "range_new slot slot = Some \<lparr>rmin = slot, rmax = slot\<rparr>" by (auto simp: u_max_vals)
  ultimately show ?thesis by (simp add: free_kvm_mem_slot_def del: range_new_Some)
qed

theorem multi_slot_free_panics_witness:
  "\<exists>rm'. allocate_kvm_mem_slot demo_rm 2 None = Some (Some 0, rm') \<and> free_kvm_mem_slot rm' 0 = None"
proof -
  obtain rm' where e: "allocate_kvm_mem_slot demo_rm 2 None = Some (Some 0, rm')" by (simp add: rm_eval itree_eval)
  show ?thesis using multi_slot_free_panics [OF demo_rm_inv _ e] e by auto
qed

end
