(* ===== verification/OrderedMap.thy ===== *)
theory OrderedMap
  imports Prelude
begin

text \<open>
  The part of the standard library's \<open>BTreeMap\<close> the sources use, as an association list sorted
  by an order key \<open>f\<close> of the key type (the code's \<open>Ord\<close> instances compare one field only).
  As in Rust, inserting at an existing key replaces the value and keeps the old key.
\<close>

type_synonym ('k, 'v) btree_map = "('k \<times> 'v) list"

fun bt_insert :: "('k \<Rightarrow> 'o::linorder) \<Rightarrow> 'k \<Rightarrow> 'v \<Rightarrow> ('k, 'v) btree_map \<Rightarrow> 'v option \<times> ('k, 'v) btree_map" where
  "bt_insert f k v [] = (None, [(k, v)])"
| "bt_insert f k v ((k', v') # m) =
     (if f k < f k' then (None, (k, v) # (k', v') # m)
      else if f k = f k' then (Some v', (k', v) # m)
      else (let (old, m') = bt_insert f k v m in (old, (k', v') # m')))"

fun bt_remove :: "('k \<Rightarrow> 'o::linorder) \<Rightarrow> 'k \<Rightarrow> ('k, 'v) btree_map \<Rightarrow> 'v option \<times> ('k, 'v) btree_map" where
  "bt_remove f k [] = (None, [])"
| "bt_remove f k ((k', v') # m) =
     (if f k = f k' then (Some v', m) else (let (old, m') = bt_remove f k m in (old, (k', v') # m')))"

fun bt_find :: "('k \<Rightarrow> 'o::linorder) \<Rightarrow> ('k, 'v) btree_map \<Rightarrow> 'o \<Rightarrow> ('k \<times> 'v) option" where
  "bt_find f [] x = None"
| "bt_find f ((k, v) # m) x = (if f k = x then Some (k, v) else bt_find f m x)"

text \<open>\<open>range(..=key).nth_back(0)\<close>: the last entry at or below the key.\<close>

fun bt_floor :: "('k \<Rightarrow> 'o::linorder) \<Rightarrow> ('k, 'v) btree_map \<Rightarrow> 'o \<Rightarrow> ('k \<times> 'v) option" where
  "bt_floor f [] x = None"
| "bt_floor f ((k, v) # m) x =
     (if f k \<le> x then (case bt_floor f m x of None \<Rightarrow> Some (k, v) | Some e \<Rightarrow> Some e) else None)"

definition bt_sorted :: "('k \<Rightarrow> 'o::linorder) \<Rightarrow> ('k, 'v) btree_map \<Rightarrow> bool" where
  "bt_sorted f m \<longleftrightarrow> sorted_wrt (\<lambda>a b. f (fst a) < f (fst b)) m"

lemma bt_sorted_Nil [simp]: "bt_sorted f []"
  by (simp add: bt_sorted_def)

lemma bt_sorted_Cons [simp]: "bt_sorted f (e # m) \<longleftrightarrow> (\<forall>e' \<in> set m. f (fst e) < f (fst e')) \<and> bt_sorted f m"
  by (simp add: bt_sorted_def)

lemma bt_find_None: "bt_find f m x = None \<longleftrightarrow> (\<forall>e \<in> set m. f (fst e) \<noteq> x)"
  by (induction f m x rule: bt_find.induct) auto

lemma bt_find_below: "\<forall>e \<in> set m. x < f (fst e) \<Longrightarrow> bt_find f m x = None"
  by (auto simp: bt_find_None)

lemma bt_find_set: "bt_sorted f m \<Longrightarrow> bt_find f m x = Some e \<longleftrightarrow> e \<in> set m \<and> f (fst e) = x"
proof (induction f m x rule: bt_find.induct)
  case (2 f k v m x)
  have "e \<in> set m \<Longrightarrow> f k < f (fst e)" using 2(2) by auto
  then show ?case using 2 by (cases "f k = x") auto
qed simp

lemma bt_insert_keys: "(\<lambda>e. f (fst e)) ` set (snd (bt_insert f k v m)) = insert (f k) ((\<lambda>e. f (fst e)) ` set m)"
  by (induction f k v m rule: bt_insert.induct) (auto simp: case_prod_beta Let_def)

lemma bt_insert_sorted: "bt_sorted f m \<Longrightarrow> bt_sorted f (snd (bt_insert f k v m))"
proof (induction f k v m rule: bt_insert.induct)
  case (2 f k v k' v' m)
  have "f k' < f (fst e)" if "f k' < f k" "e \<in> set (snd (bt_insert f k v m))" for e
  proof -
    have "f (fst e) \<in> insert (f k) ((\<lambda>e. f (fst e)) ` set m)" using that(2) bt_insert_keys [of f k v m] by blast
    then show ?thesis using 2(2) that(1) by auto
  qed
  then show ?case using 2 by (fastforce simp: case_prod_beta Let_def)
qed simp

definition bt_after_insert :: "('k \<times> 'v) option \<Rightarrow> 'k \<Rightarrow> 'v \<Rightarrow> 'k \<times> 'v" where
  "bt_after_insert old k v = (case old of None \<Rightarrow> (k, v) | Some (k', _) \<Rightarrow> (k', v))"

lemma bt_insert_old: "bt_sorted f m \<Longrightarrow> fst (bt_insert f k v m) = map_option snd (bt_find f m (f k))"
proof (induction f k v m rule: bt_insert.induct)
  case (2 f k v k' v' m)
  have none: "f k < f k' \<Longrightarrow> bt_find f m (f k) = None"
    using 2(2) by (intro bt_find_below) auto
  then show ?case using 2 by (auto simp: case_prod_beta Let_def)
qed simp

lemma bt_insert_find:
  "bt_sorted f m \<Longrightarrow> bt_find f (snd (bt_insert f k v m)) x =
     (if x = f k then Some (bt_after_insert (bt_find f m (f k)) k v) else bt_find f m x)"
proof (induction f k v m rule: bt_insert.induct)
  case (2 f k v k' v' m)
  have none: "f k < f k' \<Longrightarrow> bt_find f m (f k) = None"
    using 2(2) by (intro bt_find_below) auto
  then show ?case using 2 by (auto simp: case_prod_beta Let_def bt_after_insert_def)
qed (auto simp: bt_after_insert_def)

lemma bt_remove_sub: "set (snd (bt_remove f k m)) \<subseteq> set m"
  by (induction f k m rule: bt_remove.induct) (auto simp: case_prod_beta Let_def)

lemma bt_remove_sorted: "bt_sorted f m \<Longrightarrow> bt_sorted f (snd (bt_remove f k m))"
proof (induction f k m rule: bt_remove.induct)
  case (2 f k k' v' m)
  then show ?case using bt_remove_sub [of f k m] by (auto simp: case_prod_beta Let_def)
qed simp

lemma bt_remove_find: "bt_sorted f m \<Longrightarrow> bt_find f (snd (bt_remove f k m)) x = (if x = f k then None else bt_find f m x)"
proof (induction f k m rule: bt_remove.induct)
  case (2 f k k' v' m)
  have "bt_find f m (f k') = None" using 2(2) by (intro bt_find_below) auto
  then show ?case using 2 by (auto simp: case_prod_beta Let_def)
qed auto

text \<open>The sorted list is determined by its finite map.\<close>

lemma bt_extensional:
  assumes "bt_sorted f m" "bt_sorted f m'" "bt_find f m = bt_find f m'"
  shows "m = m'"
  using assms
proof (induction m arbitrary: m')
  case Nil
  then show ?case by (cases m') (auto simp: fun_eq_iff split: if_splits)
next
  case (Cons e m)
  obtain e' m'' where m': "m' = e' # m''"
    using fun_cong [OF Cons.prems(3), of "f (fst e)"] by (cases e; cases m') (auto split: if_splits)
  have in1: "e \<in> set (e' # m'')" and in2: "e' \<in> set (e # m)"
    using fun_cong [OF Cons.prems(3), of "f (fst e)"] fun_cong [OF Cons.prems(3), of "f (fst e')"]
      bt_find_set [OF Cons.prems(1)] bt_find_set [OF Cons.prems(2)]
    by (metis list.set_intros(1) m')+
  have eq: "e = e'" using in1 in2 Cons.prems(1,2) m' by force
  have "bt_find f m x = bt_find f m'' x" for x
  proof (cases "x = f (fst e)")
    case True
    then show ?thesis using Cons.prems(1,2) m' eq by (simp add: bt_find_below)
  next
    case False
    then show ?thesis using fun_cong [OF Cons.prems(3), of x] m' eq by (cases e') auto
  qed
  then have "m = m''" using Cons.IH [of m''] Cons.prems m' by auto
  then show ?case using eq m' by simp
qed

lemma bt_floor_None: "bt_sorted f m \<Longrightarrow> bt_floor f m x = None \<longleftrightarrow> (\<forall>e \<in> set m. x < f (fst e))"
proof (induction f m x rule: bt_floor.induct)
  case (2 f k v m x)
  have "\<not> f k \<le> x \<Longrightarrow> \<forall>e \<in> set m. x < f (fst e)" using 2(2) by fastforce
  then show ?case by (auto split: option.splits)
qed simp

lemma bt_floor_Some:
  assumes "bt_sorted f m" "bt_floor f m x = Some e"
  shows "e \<in> set m" "f (fst e) \<le> x" "\<forall>e' \<in> set m. f (fst e') \<le> x \<longrightarrow> f (fst e') \<le> f (fst e)"
proof -
  have "e \<in> set m \<and> f (fst e) \<le> x \<and> (\<forall>e' \<in> set m. f (fst e') \<le> x \<longrightarrow> f (fst e') \<le> f (fst e))"
    using assms
  proof (induction f m x rule: bt_floor.induct)
    case (2 f k v m x)
    show ?case
    proof (cases "bt_floor f m x")
      case None
      then show ?thesis using 2(2,3) bt_floor_None [of f m x] by (auto split: if_splits)
    next
      case (Some e0)
      then have "f k \<le> x" "e0 = e" using 2(3) by (auto split: if_splits)
      with 2 Some show ?thesis by fastforce
    qed
  qed simp
  then show "e \<in> set m" "f (fst e) \<le> x" "\<forall>e' \<in> set m. f (fst e') \<le> x \<longrightarrow> f (fst e') \<le> f (fst e)" by blast+
qed

end
