(* ===== verification/Bytes.thy ===== *)
theory Bytes
  imports Prelude
begin

text \<open>
  Byte strings: little-endian encoding of machine words, copies into a byte array, decimal numerals.
\<close>

type_synonym byte = "8 word"

definition le_bytes :: "nat \<Rightarrow> 'a::len word \<Rightarrow> byte list" where
  "le_bytes n x = map (\<lambda>i. ucast (drop_bit (8 * i) x)) [0 ..< n]"

fun of_le :: "byte list \<Rightarrow> 'a::len word" where
  "of_le [] = 0"
| "of_le (b # bs) = ucast b OR push_bit 8 (of_le bs)"

lemma length_le_bytes [simp]: "length (le_bytes n x) = n"
  by (simp add: le_bytes_def)

lemma bit_of_le:
  "bit (of_le bs :: 'a::len word) k \<longleftrightarrow> k < LENGTH('a) \<and> k div 8 < length bs \<and> bit (bs ! (k div 8)) (k mod 8)"
proof (induction bs arbitrary: k)
  case (Cons b bs)
  show ?case
  proof (cases "k < 8")
    case True
    then show ?thesis by (auto simp: bit_or_iff bit_push_bit_iff bit_ucast_iff)
  next
    case False
    then have "\<not> bit b k" using bit_imp_le_length [of b k] by auto
    moreover have "k div 8 = Suc ((k - 8) div 8)" "k mod 8 = (k - 8) mod 8"
      using False by (simp_all add: le_div_geq le_mod_geq)
    ultimately show ?thesis using False Cons.IH [of "k - 8"]
      by (auto simp: bit_or_iff bit_push_bit_iff bit_ucast_iff)
  qed
qed simp

lemma of_le_le_bytes [simp]:
  fixes x :: "'a::len word"
  assumes "LENGTH('a) = 8 * n"
  shows "of_le (le_bytes n x) = x"
proof (rule bit_word_eqI)
  fix k assume k: "k < LENGTH('a)"
  then have "k div 8 < n" using assms by auto
  then show "bit (of_le (le_bytes n x) :: 'a word) k = bit x k"
    using k by (simp add: bit_of_le le_bytes_def bit_ucast_iff bit_drop_bit_eq)
qed

lemma le_bytes_of_le:
  assumes "length bs = n" "LENGTH('a::len) = 8 * n"
  shows "le_bytes n (of_le bs :: 'a word) = bs"
proof (rule nth_equalityI)
  fix i assume i: "i < length (le_bytes n (of_le bs :: 'a word))"
  show "le_bytes n (of_le bs :: 'a word) ! i = bs ! i"
  proof (rule bit_word_eqI)
    fix k assume k: "k < LENGTH(8)"
    have "(8 * i + k) div 8 = i" "(8 * i + k) mod 8 = k" using k by auto
    then show "bit (le_bytes n (of_le bs :: 'a word) ! i) k = bit (bs ! i) k"
      using i k assms by (simp add: le_bytes_def bit_ucast_iff bit_drop_bit_eq bit_of_le)
  qed
qed (simp add: assms)

section \<open>Copying into an array\<close>

text \<open>\<open>dst[ofs..ofs + src.len()].copy_from_slice(src)\<close>; a slice outside the array panics.\<close>

definition copy_into :: "'a list \<Rightarrow> nat \<Rightarrow> 'a list \<Rightarrow> 'a list may_panic" where
  "copy_into dst ofs src =
     (if ofs + length src \<le> length dst then ret (take ofs dst @ src @ drop (ofs + length src) dst) else panic)"

lemma copy_into_nth:
  assumes "copy_into dst ofs src = Some d"
  shows "length d = length dst"
    and "j < length dst \<Longrightarrow> d ! j = (if ofs \<le> j \<and> j < ofs + length src then src ! (j - ofs) else dst ! j)"
  using assms by (auto simp: copy_into_def nth_append split: if_splits)

section \<open>Decimal numerals\<close>

fun dec_string :: "nat \<Rightarrow> string" where
  "dec_string n = (if n < 10 then [char_of (48 + n)] else dec_string (n div 10) @ [char_of (48 + n mod 10)])"

declare dec_string.simps [simp del]

definition ascii :: "string \<Rightarrow> byte list" where
  "ascii s = map (\<lambda>c. of_nat (of_char c)) s"

end
