(* ===== verification/IoManager.thy ===== *)
theory IoManager
  imports Resources OrderedMap Bytes
begin

text \<open>
  Dispatch of trapped port and memory accesses (\<open>dbs_device/src/device_manager.rs\<close>) and the
  address types of \<open>dbs_device/src/lib.rs\<close>.  Devices are values of a type \<open>'d\<close> (the
  identity of the \<open>Arc\<close>); the methods of the \<open>DeviceIo\<close> trait are the fields of a record of
  handlers over a world state \<open>'w\<close>, which every dispatch function takes as an argument.
\<close>

section \<open>Addresses\<close>

text \<open>The newtypes \<open>IoAddress\<close>, \<open>IoSize\<close>, \<open>PioAddress\<close> and \<open>PioSize\<close> are their raw values.\<close>

definition PioSize_try_from :: "nat \<Rightarrow> nat + nat" where
  "PioSize_try_from sz = (if sz \<le> u16_max then Ok (sz mod 2 ^ 16) else Err sz)"

definition PioAddress_try_from :: "nat \<Rightarrow> nat + nat" where
  "PioAddress_try_from addr = (if addr \<le> u16_max then Ok (addr mod 2 ^ 16) else Err addr)"

record IoRange =
  iobase :: nat
  iosize :: nat

definition new_pio_range :: "nat \<Rightarrow> nat \<Rightarrow> IoRange" where
  "new_pio_range base sz = \<lparr>iobase = base, iosize = sz\<rparr>"

definition new_mmio_range :: "nat \<Rightarrow> nat \<Rightarrow> IoRange" where
  "new_mmio_range base sz = \<lparr>iobase = base, iosize = sz\<rparr>"

text \<open>\<open>Eq\<close> and \<open>Ord\<close> of \<open>IoRange\<close> compare the base only, so \<open>iobase\<close> is the order key of the buses.\<close>

definition IoRange_eq :: "IoRange \<Rightarrow> IoRange \<Rightarrow> bool" where
  "IoRange_eq a b = (iobase a = iobase b)"

section \<open>Devices and the manager\<close>

record ('d, 'w) DeviceIo =
  dev_read :: "'d \<Rightarrow> nat \<Rightarrow> nat \<Rightarrow> byte list \<Rightarrow> 'w \<Rightarrow> byte list \<times> 'w"
  dev_write :: "'d \<Rightarrow> nat \<Rightarrow> nat \<Rightarrow> byte list \<Rightarrow> 'w \<Rightarrow> 'w"
  dev_pio_read :: "'d \<Rightarrow> nat \<Rightarrow> nat \<Rightarrow> byte list \<Rightarrow> 'w \<Rightarrow> byte list \<times> 'w"
  dev_pio_write :: "'d \<Rightarrow> nat \<Rightarrow> nat \<Rightarrow> byte list \<Rightarrow> 'w \<Rightarrow> 'w"
  get_trapped_io_resources :: "'d \<Rightarrow> DeviceResources"

datatype io_error = DeviceOverlap | NoDevice

record 'd IoManager =
  pio_bus :: "(IoRange, 'd) btree_map"
  mmio_bus :: "(IoRange, 'd) btree_map"

definition IoManager_new :: "'d IoManager" where
  "IoManager_new = \<lparr>pio_bus = [], mmio_bus = []\<rparr>"

section \<open>Registration\<close>

definition bus_insert :: "'d IoManager \<Rightarrow> Resource \<Rightarrow> 'd \<Rightarrow> 'd option \<times> 'd IoManager" where
  "bus_insert mgr res device =
     (case res of
        PioAddressRange base sz \<Rightarrow>
          (let (old, bus) = bt_insert iobase (new_pio_range base sz) device (pio_bus mgr) in (old, mgr\<lparr>pio_bus := bus\<rparr>))
      | MmioAddressRange base sz \<Rightarrow>
          (let (old, bus) = bt_insert iobase (new_mmio_range base sz) device (mmio_bus mgr) in (old, mgr\<lparr>mmio_bus := bus\<rparr>))
      | _ \<Rightarrow> (None, mgr))"

definition bus_remove :: "'d IoManager \<Rightarrow> Resource \<Rightarrow> 'd IoManager" where
  "bus_remove mgr res =
     (case res of
        PioAddressRange base sz \<Rightarrow> mgr\<lparr>pio_bus := snd (bt_remove iobase (new_pio_range base sz) (pio_bus mgr))\<rparr>
      | MmioAddressRange base sz \<Rightarrow> mgr\<lparr>mmio_bus := snd (bt_remove iobase (new_mmio_range base sz) (mmio_bus mgr))\<rparr>
      | _ \<Rightarrow> mgr)"

fun unregister_device_io :: "'d IoManager \<Rightarrow> Resource list \<Rightarrow> (io_error + unit) \<times> 'd IoManager" where
  "unregister_device_io mgr [] = (Ok (), mgr)"
| "unregister_device_io mgr (res # rs) = unregister_device_io (bus_remove mgr res) rs"

text \<open>\<open>prev\<close> is \<open>resources[0..idx]\<close>.  A failing \<open>expect\<close> on the rollback is a panic.\<close>

fun register_loop ::
  "'d IoManager \<Rightarrow> 'd \<Rightarrow> Resource list \<Rightarrow> Resource list \<Rightarrow> ((io_error + unit) \<times> 'd IoManager) may_panic" where
  "register_loop mgr device prev [] = ret (Ok (), mgr)"
| "register_loop mgr device prev (res # rs) =
     (case bus_insert mgr res device of
        (Some _, mgr1) \<Rightarrow>
          (case unregister_device_io mgr1 prev of
             (Inr _, mgr2) \<Rightarrow> ret (Err DeviceOverlap, mgr2)
           | (Inl _, _) \<Rightarrow> panic)
      | (None, mgr1) \<Rightarrow> register_loop mgr1 device (prev @ [res]) rs)"

definition register_device_io ::
  "'d IoManager \<Rightarrow> 'd \<Rightarrow> Resource list \<Rightarrow> ((io_error + unit) \<times> 'd IoManager) may_panic" where
  "register_device_io mgr device resources = register_loop mgr device [] resources"

section \<open>Dispatch\<close>

definition get_mmio_device :: "'d IoManager \<Rightarrow> nat \<Rightarrow> ('d \<times> nat) option may_panic" where
  "get_mmio_device mgr addr =
     (case bt_floor iobase (mmio_bus mgr) (iobase (new_mmio_range addr 0)) of
        Some (range', dev) \<Rightarrow> do {
          off \<leftarrow> checked_sub addr (iobase range');
          if off < iosize range' then ret (Some (dev, iobase range')) else ret None }
      | None \<Rightarrow> ret None)"

definition get_pio_device :: "'d IoManager \<Rightarrow> nat \<Rightarrow> ('d \<times> nat) option may_panic" where
  "get_pio_device mgr addr =
     (case bt_floor iobase (pio_bus mgr) (iobase (new_pio_range addr 0)) of
        Some (range', dev) \<Rightarrow> do {
          off \<leftarrow> checked_sub addr (iobase range');
          if off < iosize range' then ret (Some (dev, iobase range' mod 2 ^ 16)) else ret None }
      | None \<Rightarrow> ret None)"

definition mmio_read ::
  "('d, 'w) DeviceIo \<Rightarrow> 'd IoManager \<Rightarrow> nat \<Rightarrow> byte list \<Rightarrow> 'w \<Rightarrow> ((io_error + unit) \<times> byte list \<times> 'w) may_panic" where
  "mmio_read ops mgr addr data w = do {
     found \<leftarrow> get_mmio_device mgr addr;
     case found of
       Some (device, base) \<Rightarrow> do {
         off \<leftarrow> checked_sub addr base;
         let (data', w') = dev_read ops device base off data w in ret (Ok (), data', w') }
     | None \<Rightarrow> ret (Err NoDevice, data, w) }"

definition mmio_write ::
  "('d, 'w) DeviceIo \<Rightarrow> 'd IoManager \<Rightarrow> nat \<Rightarrow> byte list \<Rightarrow> 'w \<Rightarrow> ((io_error + unit) \<times> 'w) may_panic" where
  "mmio_write ops mgr addr data w = do {
     found \<leftarrow> get_mmio_device mgr addr;
     case found of
       Some (device, base) \<Rightarrow> do {
         off \<leftarrow> checked_sub addr base;
         ret (Ok (), dev_write ops device base off data w) }
     | None \<Rightarrow> ret (Err NoDevice, w) }"

definition pio_read ::
  "('d, 'w) DeviceIo \<Rightarrow> 'd IoManager \<Rightarrow> nat \<Rightarrow> byte list \<Rightarrow> 'w \<Rightarrow> ((io_error + unit) \<times> byte list \<times> 'w) may_panic" where
  "pio_read ops mgr addr data w = do {
     found \<leftarrow> get_pio_device mgr addr;
     case found of
       Some (device, base) \<Rightarrow> do {
         off \<leftarrow> checked_sub addr base;
         let (data', w') = dev_pio_read ops device base off data w in ret (Ok (), data', w') }
     | None \<Rightarrow> ret (Err NoDevice, data, w) }"

definition pio_write ::
  "('d, 'w) DeviceIo \<Rightarrow> 'd IoManager \<Rightarrow> nat \<Rightarrow> byte list \<Rightarrow> 'w \<Rightarrow> ((io_error + unit) \<times> 'w) may_panic" where
  "pio_write ops mgr addr data w = do {
     found \<leftarrow> get_pio_device mgr addr;
     case found of
       Some (device, base) \<Rightarrow> do {
         off \<leftarrow> checked_sub addr base;
         ret (Ok (), dev_pio_write ops device base off data w) }
     | None \<Rightarrow> ret (Err NoDevice, w) }"

section \<open>Equality of managers\<close>

definition bus_agrees ::
  "('d, 'w) DeviceIo \<Rightarrow> (IoRange, 'd) btree_map \<Rightarrow> (IoRange, 'd) btree_map \<Rightarrow> bool" where
  "bus_agrees ops self other =
     list_all (\<lambda>(r, d). case bt_find iobase other (iobase r) of
        None \<Rightarrow> False
      | Some (_, d') \<Rightarrow> get_trapped_io_resources ops d = get_trapped_io_resources ops d') self"

definition IoManager_eq :: "('d, 'w) DeviceIo \<Rightarrow> 'd IoManager \<Rightarrow> 'd IoManager \<Rightarrow> bool" where
  "IoManager_eq ops self other =
     (if length (pio_bus self) \<noteq> length (pio_bus other) then False
      else if length (mmio_bus self) \<noteq> length (mmio_bus other) then False
      else bus_agrees ops (pio_bus self) (pio_bus other) \<and> bus_agrees ops (mmio_bus self) (mmio_bus other))"

section \<open>The manager as a finite map\<close>

text \<open>A slot is a bus (port bus or memory bus) and a base address.\<close>

datatype bus = Pio | Mmio

fun bus_of :: "'d IoManager \<Rightarrow> bus \<Rightarrow> (IoRange, 'd) btree_map" where
  "bus_of mgr Pio = pio_bus mgr"
| "bus_of mgr Mmio = mmio_bus mgr"

definition io_inv :: "'d IoManager \<Rightarrow> bool" where
  "io_inv mgr \<longleftrightarrow> (\<forall>b. bt_sorted iobase (bus_of mgr b))"

definition io_find :: "'d IoManager \<Rightarrow> bus \<times> nat \<Rightarrow> (IoRange \<times> 'd) option" where
  "io_find mgr s = (case s of (b, base) \<Rightarrow> bt_find iobase (bus_of mgr b) base)"

fun res_range :: "Resource \<Rightarrow> (bus \<times> IoRange) option" where
  "res_range (PioAddressRange base sz) = Some (Pio, \<lparr>iobase = base, iosize = sz\<rparr>)"
| "res_range (MmioAddressRange base sz) = Some (Mmio, \<lparr>iobase = base, iosize = sz\<rparr>)"
| "res_range _ = None"

definition res_slot :: "Resource \<Rightarrow> (bus \<times> nat) option" where
  "res_slot res = map_option (\<lambda>(b, r). (b, iobase r)) (res_range res)"

lemma all_bus: "(\<forall>b. P b) \<longleftrightarrow> P Pio \<and> P Mmio"
  by (metis bus.exhaust)

lemma io_inv_iff: "io_inv mgr \<longleftrightarrow> bt_sorted iobase (pio_bus mgr) \<and> bt_sorted iobase (mmio_bus mgr)"
  by (simp add: io_inv_def all_bus)

lemma io_find_simps [simp]:
  "io_find mgr (Pio, x) = bt_find iobase (pio_bus mgr) x" "io_find mgr (Mmio, x) = bt_find iobase (mmio_bus mgr) x"
  by (simp_all add: io_find_def)

lemma slot_ext:
  fixes g h :: "bus \<times> nat \<Rightarrow> 'x"
  assumes "\<And>x. g (Pio, x) = h (Pio, x)" "\<And>x. g (Mmio, x) = h (Mmio, x)"
  shows "g = h"
proof
  fix s :: "bus \<times> nat"
  obtain b x where "s = (b, x)" by (cases s)
  then show "g s = h s" using assms by (cases b) simp_all
qed

lemma io_extensional:
  assumes "io_inv m" "io_inv m'" "io_find m = io_find m'"
  shows "m = m'"
proof -
  have "bt_find iobase (pio_bus m) = bt_find iobase (pio_bus m')"
    using fun_cong [OF assms(3), of "(Pio, _)"] by (intro ext) simp
  moreover have "bt_find iobase (mmio_bus m) = bt_find iobase (mmio_bus m')"
    using fun_cong [OF assms(3), of "(Mmio, _)"] by (intro ext) simp
  ultimately have "pio_bus m = pio_bus m'" "mmio_bus m = mmio_bus m'"
    using assms(1,2) bt_extensional [of iobase] unfolding io_inv_iff by blast+
  then show ?thesis by (cases m; cases m') simp
qed

lemma bus_insert_other: "res_range res = None \<Longrightarrow> bus_insert mgr res d = (None, mgr)"
  by (cases res) (auto simp: bus_insert_def)

lemma res_range_cases:
  assumes "res_range res = Some (b, r)"
  obtains (pio) "res = PioAddressRange (iobase r) (iosize r)" "b = Pio"
    | (mmio) "res = MmioAddressRange (iobase r) (iosize r)" "b = Mmio"
  using assms by (cases res) auto

lemma bus_insert_spec:
  assumes inv: "io_inv mgr" and r: "res_range res = Some (b, r)"
  shows "io_inv (snd (bus_insert mgr res d)) \<and>
    fst (bus_insert mgr res d) = map_option snd (io_find mgr (b, iobase r)) \<and>
    io_find (snd (bus_insert mgr res d)) =
      (io_find mgr)((b, iobase r) \<mapsto> bt_after_insert (io_find mgr (b, iobase r)) r d)"
  using r
proof (cases rule: res_range_cases)
  case pio
  have key: "new_pio_range (iobase r) (iosize r) = r" by (simp add: new_pio_range_def)
  show ?thesis using inv unfolding pio io_inv_iff
    by (auto simp: bus_insert_def case_prod_beta Let_def key bt_insert_sorted bt_insert_old bt_insert_find intro!: slot_ext)
next
  case mmio
  have key: "new_mmio_range (iobase r) (iosize r) = r" by (simp add: new_mmio_range_def)
  show ?thesis using inv unfolding mmio io_inv_iff
    by (auto simp: bus_insert_def case_prod_beta Let_def key bt_insert_sorted bt_insert_old bt_insert_find intro!: slot_ext)
qed

definition unslot :: "(bus \<times> nat \<Rightarrow> 'x option) \<Rightarrow> Resource \<Rightarrow> bus \<times> nat \<Rightarrow> 'x option" where
  "unslot g res = (case res_slot res of None \<Rightarrow> g | Some s \<Rightarrow> g(s := None))"

lemma bus_remove_spec:
  assumes inv: "io_inv mgr"
  shows "io_inv (bus_remove mgr res) \<and> io_find (bus_remove mgr res) = unslot (io_find mgr) res"
proof (cases res)
  case (PioAddressRange base sz)
  show ?thesis using inv unfolding PioAddressRange io_inv_iff
    by (auto simp: bus_remove_def unslot_def res_slot_def new_pio_range_def bt_remove_sorted bt_remove_find intro!: slot_ext)
next
  case (MmioAddressRange base sz)
  show ?thesis using inv unfolding MmioAddressRange io_inv_iff
    by (auto simp: bus_remove_def unslot_def res_slot_def new_mmio_range_def bt_remove_sorted bt_remove_find intro!: slot_ext)
qed (use inv in \<open>auto simp: bus_remove_def unslot_def res_slot_def\<close>)

end
