(* ===== verification/BusInterface.thy ===== *)
theory BusInterface
  imports Prelude
begin

text \<open>
  The contract between the I/O manager and its clients.  A bus routes slots to devices; a client
  attaches a device with a list of resources and detaches these resources later.
\<close>

locale device_bus =
  fixes route :: "'b \<Rightarrow> 's \<Rightarrow> ('r \<times> 'd) option"
    and attach_to :: "'b \<Rightarrow> 'd \<Rightarrow> 'k list \<Rightarrow> (('e + unit) \<times> 'b) may_panic"
    and detach :: "'b \<Rightarrow> 'k list \<Rightarrow> ('e + unit) \<times> 'b"
    and inv :: "'b \<Rightarrow> bool"
    and keys :: "'k list \<Rightarrow> 's set"
    and vacant :: "'b \<Rightarrow> 'k list \<Rightarrow> bool"
  assumes attach_vacant: "inv b \<Longrightarrow> vacant b ks \<Longrightarrow>
          \<exists>b'. attach_to b d ks = Some (Inr (), b') \<and> inv b' \<and> (\<forall>s \<in> keys ks. \<exists>r. route b' s = Some (r, d)) \<and>
               (\<forall>s. s \<notin> keys ks \<longrightarrow> route b' s = route b s)"
    and attach_taken: "inv b \<Longrightarrow> \<not> vacant b ks \<Longrightarrow> \<exists>e b'. attach_to b d ks = Some (Inl e, b')"
    and vacant_route: "vacant b ks \<Longrightarrow> s \<in> keys ks \<Longrightarrow> route b s = None"
    and detach_exact: "inv b \<Longrightarrow>
          \<exists>b'. detach b ks = (Inr (), b') \<and> inv b' \<and> (\<forall>s. route b' s = (if s \<in> keys ks then None else route b s))"
    and extensional: "inv b \<Longrightarrow> inv b' \<Longrightarrow> route b = route b' \<Longrightarrow> b = b'"
begin

lemma attach_cases:
  assumes "inv b"
  obtains (taken) e b' where "attach_to b d ks = Some (Inl e, b')" "\<not> vacant b ks"
    | (attached) b' where "attach_to b d ks = Some (Inr (), b')" "inv b'" "vacant b ks"
        "\<And>s. s \<in> keys ks \<Longrightarrow> \<exists>r. route b' s = Some (r, d)" "\<And>s. s \<notin> keys ks \<Longrightarrow> route b' s = route b s"
proof (cases "vacant b ks")
  case True
  from attach_vacant [OF assms True, of d] attached True show ?thesis by blast
next
  case False
  from attach_taken [OF assms False, of d] taken False show ?thesis by blast
qed

lemma detach_restores:
  assumes "inv b" "inv b'" "\<And>s. s \<in> keys ks \<Longrightarrow> route b s = None" "\<And>s. s \<notin> keys ks \<Longrightarrow> route b' s = route b s"
  shows "detach b' ks = (Inr (), b)"
proof -
  obtain b'' where b'': "detach b' ks = (Inr (), b'')" "inv b''" "\<forall>s. route b'' s = (if s \<in> keys ks then None else route b' s)"
    using detach_exact [OF assms(2)] by blast
  have "route b'' s = route b s" for s using b''(3) assms(3,4) by simp
  then have "b'' = b" by (intro extensional [OF b''(2) assms(1)] ext)
  with b''(1) show ?thesis by simp
qed

lemma attach_detach:
  assumes "inv b" "attach_to b d ks = Some (Inr (), b')"
  shows "detach b' ks = (Inr (), b)"
proof (rule attach_cases [OF assms(1), of d ks])
  fix b1 assume "attach_to b d ks = Some (Inr (), b1)" "inv b1" "vacant b ks" "\<And>s. s \<notin> keys ks \<Longrightarrow> route b1 s = route b s"
  then show ?thesis using assms by (intro detach_restores) (auto dest: vacant_route)
qed (use assms(2) in simp)

text \<open>Devices leave the bus in any order: detaching one device leaves the routes of another alone.\<close>

lemma detach_other:
  assumes "inv b" "keys ks \<inter> keys ks' = {}" "s \<in> keys ks'" "detach b ks = (Inr (), b')"
  shows "route b' s = route b s"
  using detach_exact [OF assms(1), of ks] assms(2-4) by auto

end

end
