(* ===== verification/IoClaims.thy ===== *)
theory IoClaims
  imports IoManager BusInterface
begin

text \<open>
  Correctness of the registration of devices with the I/O manager and of the dispatch of
  trapped accesses.
\<close>

declare split_paired_All [simp del] split_paired_Ex [simp del]

section \<open>Registration\<close>

definition slots :: "Resource list \<Rightarrow> (bus \<times> nat) set" where
  "slots rs = {s. \<exists>res \<in> set rs. res_slot res = Some s}"

lemma slots_simps [simp]:
  "slots [] = {}" "slots (res # rs) = set_option (res_slot res) \<union> slots rs" "slots (rs @ rs') = slots rs \<union> slots rs'"
  by (auto simp: slots_def)

lemma unregister_spec:
  assumes "io_inv mgr"
  shows "\<exists>mgr'. unregister_device_io mgr rs = (Ok (), mgr') \<and> io_inv mgr' \<and>
           (\<forall>s. io_find mgr' s = (if s \<in> slots rs then None else io_find mgr s))"
  using assms
proof (induction rs arbitrary: mgr)
  case (Cons res rs)
  note r = bus_remove_spec [OF Cons.prems, of res]
  obtain mgr' where m: "unregister_device_io (bus_remove mgr res) rs = (Ok (), mgr')" "io_inv mgr'"
      "\<forall>s. io_find mgr' s = (if s \<in> slots rs then None else io_find (bus_remove mgr res) s)"
    using Cons.IH r by blast
  have "io_find mgr' s = (if s \<in> slots (res # rs) then None else io_find mgr s)" for s
    using m(3) r by (cases "res_slot res") (auto simp: unslot_def)
  with m(1,2) show ?case by simp
qed simp

text \<open>The state in the middle of a registration, relative to the manager \<open>mgr0\<close> before it.\<close>

definition reg_state :: "'d IoManager \<Rightarrow> 'd \<Rightarrow> Resource list \<Rightarrow> 'd IoManager \<Rightarrow> bool" where
  "reg_state mgr0 device rs mgr \<longleftrightarrow> io_inv mgr \<and>
     (\<forall>s \<in> slots rs. io_find mgr0 s = None) \<and> (\<forall>s. s \<notin> slots rs \<longrightarrow> io_find mgr s = io_find mgr0 s) \<and>
     (\<forall>res \<in> set rs. \<forall>b r. res_range res = Some (b, r) \<longrightarrow> io_find mgr (b, iobase r) = Some (r, device))"

lemma reg_state_Nil: "io_inv mgr \<Longrightarrow> reg_state mgr device [] mgr"
  by (simp add: reg_state_def)

lemma slot_of_range: "res_range res = Some (b, r) \<Longrightarrow> res_slot res = Some (b, iobase r)"
  by (simp add: res_slot_def)

lemma slot_none: "res_range res = None \<Longrightarrow> res_slot res = None"
  by (simp add: res_slot_def)

lemma slots_range: "s \<in> slots rs \<longleftrightarrow> (\<exists>res \<in> set rs. \<exists>b r. res_range res = Some (b, r) \<and> s = (b, iobase r))"
  by (auto simp: slots_def res_slot_def)

lemma reg_state_occupied: "reg_state mgr0 device rs mgr \<Longrightarrow> s \<in> slots rs \<Longrightarrow> \<exists>r. io_find mgr s = Some (r, device)"
  by (force simp: reg_state_def slots_range)

lemma reg_state_fresh:
  assumes st: "reg_state mgr0 device prev mgr" and r: "res_range res = Some (b, r)" and fresh: "io_find mgr (b, iobase r) = None"
  shows "reg_state mgr0 device (prev @ [res]) (snd (bus_insert mgr res device))"
proof -
  have inv: "io_inv mgr" using st by (simp add: reg_state_def)
  note ins = bus_insert_spec [OF inv r, of device]
  have out: "(b, iobase r) \<notin> slots prev" using reg_state_occupied [OF st] fresh by fastforce
  have other: "(b', iobase r') \<noteq> (b, iobase r)" if "res' \<in> set prev" "res_range res' = Some (b', r')" for res' b' r'
    using out that slots_range by metis
  show ?thesis
    unfolding reg_state_def
  proof (intro conjI ballI allI impI)
    show "io_inv (snd (bus_insert mgr res device))" using ins by blast
  next
    fix s assume "s \<in> slots (prev @ [res])"
    then show "io_find mgr0 s = None"
      using st out fresh by (auto simp: reg_state_def slot_of_range [OF r])
  next
    fix s assume "s \<notin> slots (prev @ [res])"
    then show "io_find (snd (bus_insert mgr res device)) s = io_find mgr0 s"
      using st ins by (auto simp: reg_state_def slot_of_range [OF r])
  next
    fix res' b' r' assume res': "res' \<in> set (prev @ [res])" "res_range res' = Some (b', r')"
    show "io_find (snd (bus_insert mgr res device)) (b', iobase r') = Some (r', device)"
    proof (cases "res' = res")
      case True
      then show ?thesis using res'(2) r ins fresh by (simp add: bt_after_insert_def)
    next
      case False
      then have "res' \<in> set prev" using res'(1) by simp
      then show ?thesis using other [OF _ res'(2)] ins st res'(2) by (auto simp: reg_state_def)
    qed
  qed
qed

text \<open>What a refused registration leaves behind: nothing, or one range now routed to the refused device.\<close>

definition hijacked :: "'d IoManager \<Rightarrow> 'd \<Rightarrow> 'd IoManager \<Rightarrow> bool" where
  "hijacked mgr0 device mgr' \<longleftrightarrow> (\<exists>s r d. io_find mgr0 s = Some (r, d) \<and> io_find mgr' = (io_find mgr0)(s \<mapsto> (r, device)))"

lemma reg_state_conflict:
  assumes inv0: "io_inv mgr0" and st: "reg_state mgr0 device prev mgr" and r: "res_range res = Some (b, r)"
    and taken: "io_find mgr (b, iobase r) = Some (r', d)"
  shows "\<exists>mgr'. unregister_device_io (snd (bus_insert mgr res device)) prev = (Ok (), mgr') \<and> io_inv mgr' \<and>
           (mgr' = mgr0 \<or> hijacked mgr0 device mgr')"
proof -
  have inv: "io_inv mgr" using st by (simp add: reg_state_def)
  note ins = bus_insert_spec [OF inv r, of device]
  obtain mgr' where m: "unregister_device_io (snd (bus_insert mgr res device)) prev = (Ok (), mgr')" "io_inv mgr'"
      "\<And>s. io_find mgr' s = (if s \<in> slots prev then None else io_find (snd (bus_insert mgr res device)) s)"
    using unregister_spec [of "snd (bus_insert mgr res device)" prev] ins by blast
  have old: "io_find mgr0 s = None" if "s \<in> slots prev" for s using st that by (simp add: reg_state_def)
  have same: "io_find mgr s = io_find mgr0 s" if "s \<notin> slots prev" for s using st that by (simp add: reg_state_def)
  show ?thesis
  proof (cases "(b, iobase r) \<in> slots prev")
    case True
    then have "io_find mgr' s = io_find mgr0 s" for s using m(3) ins old same by auto
    then have "mgr' = mgr0" by (intro io_extensional [OF m(2) inv0] ext)
    with m show ?thesis by blast
  next
    case False
    have "io_find mgr' = (io_find mgr0)((b, iobase r) \<mapsto> (r', device))"
      using m(3) ins old same False taken by (intro ext) (auto simp: bt_after_insert_def)
    moreover have "io_find mgr0 (b, iobase r) = Some (r', d)" using same [OF False] taken by simp
    ultimately have "hijacked mgr0 device mgr'" unfolding hijacked_def by blast
    with m show ?thesis by blast
  qed
qed

text \<open>A registration succeeds when its slots are distinct and not in use.\<close>

fun no_conflict :: "'d IoManager \<Rightarrow> Resource list \<Rightarrow> bool" where
  "no_conflict mgr [] = True"
| "no_conflict mgr (res # rs) \<longleftrightarrow>
     (\<forall>s. res_slot res = Some s \<longrightarrow> io_find mgr s = None \<and> s \<notin> slots rs) \<and> no_conflict mgr rs"

lemma no_conflict_cong:
  "(\<And>s. s \<in> slots rs \<Longrightarrow> io_find mgr s = io_find mgr' s) \<Longrightarrow> no_conflict mgr rs = no_conflict mgr' rs"
  by (induction rs) auto

lemma no_conflict_fresh: "no_conflict mgr rs \<Longrightarrow> s \<in> slots rs \<Longrightarrow> io_find mgr s = None"
  by (induction rs) auto

lemma no_conflict_put:
  assumes "io_find mgr' = (io_find mgr)(x \<mapsto> e)"
  shows "no_conflict mgr' rs \<longleftrightarrow> no_conflict mgr rs \<and> x \<notin> slots rs"
proof (cases "x \<in> slots rs")
  case True
  then have "\<not> no_conflict mgr' rs" using no_conflict_fresh [of mgr' rs x] assms by auto
  with True show ?thesis by simp
next
  case False
  then have "no_conflict mgr' rs = no_conflict mgr rs" using assms by (intro no_conflict_cong) auto
  with False show ?thesis by simp
qed

definition reg_outcome :: "'d IoManager \<Rightarrow> 'd \<Rightarrow> Resource list \<Rightarrow> bool \<Rightarrow> io_error + unit \<Rightarrow> 'd IoManager \<Rightarrow> bool" where
  "reg_outcome mgr0 device rs ok out mgr' \<longleftrightarrow> io_inv mgr' \<and>
     (if ok then out = Ok () \<and> reg_state mgr0 device rs mgr'
      else out = Err DeviceOverlap \<and> (mgr' = mgr0 \<or> hijacked mgr0 device mgr'))"

lemma register_loop_outcome:
  assumes inv0: "io_inv mgr0" and "reg_state mgr0 device prev mgr"
  shows "\<exists>out mgr'. register_loop mgr device prev rs = Some (out, mgr') \<and>
           reg_outcome mgr0 device (prev @ rs) (no_conflict mgr rs) out mgr'"
  using assms(2)
proof (induction rs arbitrary: prev mgr)
  case Nil
  then show ?case by (simp add: reg_outcome_def reg_state_def)
next
  case (Cons res rs)
  have inv: "io_inv mgr" using Cons.prems by (simp add: reg_state_def)
  show ?case
  proof (cases "res_range res")
    case None
    have "reg_state mgr0 device (prev @ [res]) mgr"
      using Cons.prems None by (auto simp: reg_state_def slot_none)
    from Cons.IH [OF this] show ?thesis
      by (simp add: bus_insert_other [OF None] slot_none [OF None])
  next
    case (Some br)
    obtain b r where r: "res_range res = Some (b, r)" using Some by (cases br) auto
    note ins = bus_insert_spec [OF inv r, of device]
    obtain old mgr1 where b: "bus_insert mgr res device = (old, mgr1)" by fastforce
    show ?thesis
    proof (cases "io_find mgr (b, iobase r)")
      case None
      then have old: "old = None" using ins b by simp
      have "no_conflict mgr (res # rs) = no_conflict mgr1 rs"
        using no_conflict_put [of mgr1 mgr "(b, iobase r)"] ins None b by (auto simp: slot_of_range [OF r])
      with Cons.IH [OF reg_state_fresh [OF Cons.prems r None]] b old show ?thesis by simp
    next
      case (Some e)
      obtain r' d where e: "io_find mgr (b, iobase r) = Some (r', d)" using Some by (cases e) auto
      have old: "old = Some d" using ins b e by simp
      have "\<not> no_conflict mgr (res # rs)" using e by (simp add: slot_of_range [OF r])
      then show ?thesis
        using reg_state_conflict [OF inv0 Cons.prems r e] b old by (auto simp: reg_outcome_def)
    qed
  qed
qed

section \<open>Dispatch\<close>

definition io_pts :: "IoRange \<Rightarrow> nat set" where
  "io_pts r = {iobase r ..< iobase r + iosize r}"

text \<open>A bus without empty or overlapping ranges.\<close>

definition bus_wf :: "(IoRange, 'd) btree_map \<Rightarrow> bool" where
  "bus_wf m \<longleftrightarrow> bt_sorted iobase m \<and> (\<forall>e \<in> set m. 0 < iosize (fst e)) \<and>
     (\<forall>e \<in> set m. \<forall>e' \<in> set m. e \<noteq> e' \<longrightarrow> io_pts (fst e) \<inter> io_pts (fst e') = {})"

definition owner :: "(IoRange, 'd) btree_map \<Rightarrow> nat \<Rightarrow> IoRange \<times> 'd \<Rightarrow> bool" where
  "owner m addr e \<longleftrightarrow> e \<in> set m \<and> addr \<in> io_pts (fst e)"

lemma owner_floor:
  assumes wf: "bus_wf m" and o: "owner m addr e"
  shows "bt_floor iobase m addr = Some e"
proof -
  have s: "bt_sorted iobase m" and e: "e \<in> set m" "iobase (fst e) \<le> addr" "addr < iobase (fst e) + iosize (fst e)"
    using wf o by (auto simp: bus_wf_def owner_def io_pts_def)
  obtain e' where e': "bt_floor iobase m addr = Some e'"
    using bt_floor_None [OF s, of addr] e(1,2) by (cases "bt_floor iobase m addr") fastforce+
  note fl = bt_floor_Some [OF s e']
  have "e' = e"
  proof (rule ccontr)
    assume "e' \<noteq> e"
    moreover have "iobase (fst e') \<in> io_pts (fst e)" using fl e by (auto simp: io_pts_def)
    moreover have "iobase (fst e') \<in> io_pts (fst e')" using wf fl(1) by (auto simp: bus_wf_def io_pts_def)
    ultimately show False using wf fl(1) e(1) unfolding bus_wf_def by blast
  qed
  with e' show ?thesis by simp
qed

lemma floor_checked_sub: "bt_sorted iobase m \<Longrightarrow> bt_floor iobase m addr = Some (r, d) \<Longrightarrow> checked_sub addr (iobase r) = Some (addr - iobase r)"
  using bt_floor_Some(2) [of iobase m addr "(r, d)"] by (simp add: checked_sub_def)

lemma floor_owner:
  assumes "bt_sorted iobase m" "bt_floor iobase m addr = Some (r, d)" "addr - iobase r < iosize r"
  shows "owner m addr (r, d)"
  using bt_floor_Some(1,2) [OF assms(1,2)] assms(3) by (auto simp: owner_def io_pts_def)

lemma owner_iff:
  assumes "bus_wf m"
  shows "owner m addr (r, d) \<longleftrightarrow> bt_floor iobase m addr = Some (r, d) \<and> addr - iobase r < iosize r"
proof
  assume o: "owner m addr (r, d)"
  then have "addr - iobase r < iosize r" by (auto simp: owner_def io_pts_def)
  with owner_floor [OF assms o] show "bt_floor iobase m addr = Some (r, d) \<and> addr - iobase r < iosize r" by simp
qed (use floor_owner assms in \<open>auto simp: bus_wf_def\<close>)

lemma get_mmio_device_eq:
  assumes "bus_wf (mmio_bus mgr)"
  shows "get_mmio_device mgr addr = Some (case bt_floor iobase (mmio_bus mgr) addr of
      None \<Rightarrow> None | Some (r, d) \<Rightarrow> if addr - iobase r < iosize r then Some (d, iobase r) else None)"
proof -
  have s: "bt_sorted iobase (mmio_bus mgr)" using assms by (simp add: bus_wf_def)
  show ?thesis using floor_checked_sub [OF s] by (auto simp: get_mmio_device_def new_mmio_range_def split: option.splits)
qed

lemma get_pio_device_eq:
  assumes "bus_wf (pio_bus mgr)" "\<forall>e \<in> set (pio_bus mgr). iobase (fst e) \<le> u16_max"
  shows "get_pio_device mgr addr = Some (case bt_floor iobase (pio_bus mgr) addr of
      None \<Rightarrow> None | Some (r, d) \<Rightarrow> if addr - iobase r < iosize r then Some (d, iobase r) else None)"
proof -
  have s: "bt_sorted iobase (pio_bus mgr)" using assms(1) by (simp add: bus_wf_def)
  have "iobase r mod 65536 = iobase r" if "bt_floor iobase (pio_bus mgr) addr = Some (r, d)" for r d
    using bt_floor_Some(1) [OF s that] assms(2) by (fastforce simp: u_max_vals)
  then show ?thesis using floor_checked_sub [OF s]
    by (auto simp: get_pio_device_def new_pio_range_def split: option.splits)
qed

lemma register_outcome:
  assumes "io_inv mgr"
  shows "\<exists>out mgr'. register_device_io mgr device rs = Some (out, mgr') \<and> reg_outcome mgr device rs (no_conflict mgr rs) out mgr'"
  using register_loop_outcome [OF assms reg_state_Nil [OF assms], of device rs] by (simp add: register_device_io_def)

lemma no_conflict_free: "no_conflict mgr rs \<Longrightarrow> s \<in> slots rs \<Longrightarrow> io_find mgr s = None"
  by (induction rs) (auto simp del: io_find_simps)

interpretation io_bus: device_bus io_find register_device_io unregister_device_io io_inv slots no_conflict
proof unfold_locales
  fix mgr :: "'a IoManager" and rs device
  assume inv: "io_inv mgr"
  obtain out mgr' where out: "register_device_io mgr device rs = Some (out, mgr')" "reg_outcome mgr device rs (no_conflict mgr rs) out mgr'"
    using register_outcome [OF inv] by blast
  show "\<exists>mgr'. register_device_io mgr device rs = Some (Inr (), mgr') \<and> io_inv mgr' \<and> (\<forall>s \<in> slots rs. \<exists>r. io_find mgr' s = Some (r, device)) \<and>
      (\<forall>s. s \<notin> slots rs \<longrightarrow> io_find mgr' s = io_find mgr s)" if "no_conflict mgr rs"
  proof -
    have st: "out = Ok ()" "io_inv mgr'" "reg_state mgr device rs mgr'" using out(2) that by (simp_all add: reg_outcome_def)
    show ?thesis
    proof (intro exI conjI)
      show "register_device_io mgr device rs = Some (Inr (), mgr')" "io_inv mgr'" using out(1) st(1,2) by simp_all
      show "\<forall>s \<in> slots rs. \<exists>r. io_find mgr' s = Some (r, device)" using reg_state_occupied [OF st(3)] by (rule ballI)
      show "\<forall>s. s \<notin> slots rs \<longrightarrow> io_find mgr' s = io_find mgr s" using st(3) unfolding reg_state_def by blast
    qed
  qed
  show "\<exists>e mgr'. register_device_io mgr device rs = Some (Inl e, mgr')" if "\<not> no_conflict mgr rs"
    using out that by (simp add: reg_outcome_def)
next
  fix mgr :: "'a IoManager" and rs s
  show "io_find mgr s = None" if "no_conflict mgr rs" "s \<in> slots rs" using that by (rule no_conflict_free)
next
  fix mgr :: "'a IoManager" and rs
  show "\<exists>mgr'. unregister_device_io mgr rs = (Inr (), mgr') \<and> io_inv mgr' \<and>
      (\<forall>s. io_find mgr' s = (if s \<in> slots rs then None else io_find mgr s))" if "io_inv mgr"
    using that by (rule unregister_spec)
next
  fix mgr mgr' :: "'a IoManager"
  show "mgr = mgr'" if "io_inv mgr" "io_inv mgr'" "io_find mgr = io_find mgr'"
    using that by (intro io_extensional)
qed

section \<open>Properties\<close>

definition demo_io :: "nat IoManager" where
  "demo_io = \<lparr>pio_bus = [(\<lparr>iobase = 0x3f8, iosize = 8\<rparr>, 1)], mmio_bus = [(\<lparr>iobase = 0x1000, iosize = 0x1000\<rparr>, 2)]\<rparr>"

lemma demo_io_inv: "io_inv demo_io"
  by (simp add: io_inv_iff demo_io_def)

lemma demo_io_slot: "io_find demo_io (Pio, 0x3f8) = Some (\<lparr>iobase = 0x3f8, iosize = 8\<rparr>, 1)"
  by (simp add: demo_io_def)



text \<open>C30: a device that was registered can be unregistered again: the manager is then exactly the one before.\<close>

theorem register_unregister:
  assumes "io_inv mgr" "register_device_io mgr device rs = Some (Ok (), mgr')"
  shows "unregister_device_io mgr' rs = (Ok (), mgr)"
  by (rule io_bus.attach_detach [OF assms])

theorem register_unregister_witness:
  "\<exists>mgr'. register_device_io demo_io 3 [PioAddressRange 0x60 2] = Some (Ok (), mgr') \<and>
     unregister_device_io mgr' [PioAddressRange 0x60 2] = (Ok (), demo_io)"
proof -
  obtain mgr' where e: "register_device_io demo_io 3 [PioAddressRange 0x60 2] = Some (Ok (), mgr')"
    by (simp add: register_device_io_def bus_insert_def demo_io_def new_pio_range_def)
  show ?thesis using register_unregister [OF demo_io_inv e] e by blast
qed

text \<open>C38: a refused registration is not always rolled back.  When the conflict is with a device registered before,
  the range of that device stays on the bus with its old extent but is now routed to the refused device.\<close>

theorem refused_registration_hijacks:
  assumes "io_inv mgr" "res_range res = Some (b, r)" "io_find mgr (b, iobase r) = Some (r', old)"
  shows "\<exists>mgr'. register_device_io mgr device [res] = Some (Err DeviceOverlap, mgr') \<and>
           io_find mgr' = (io_find mgr)((b, iobase r) \<mapsto> (r', device))"
proof -
  note ins = bus_insert_spec [OF assms(1,2), of device]
  obtain mgr1 where b: "bus_insert mgr res device = (Some old, mgr1)"
    using ins assms(3) by (cases "bus_insert mgr res device") simp
  then show ?thesis using ins assms(3) by (simp add: register_device_io_def bt_after_insert_def)
qed

theorem refused_registration_hijacks_witness:
  "\<exists>mgr'. register_device_io demo_io 9 [PioAddressRange 0x3f8 1] = Some (Err DeviceOverlap, mgr') \<and>
     io_find mgr' (Pio, 0x3f8) = Some (\<lparr>iobase = 0x3f8, iosize = 8\<rparr>, 9)"
  using refused_registration_hijacks [OF demo_io_inv, of "PioAddressRange 0x3f8 1" Pio "\<lparr>iobase = 0x3f8, iosize = 1\<rparr>"
      "\<lparr>iobase = 0x3f8, iosize = 8\<rparr>" 1 9] demo_io_slot
  by (auto simp del: io_find_simps)

text \<open>C28: dispatch.  On buses without overlaps a trapped access reaches a device exactly when the address lies in one
  of its ranges, with the offset into that range; otherwise it is reported as \<open>NoDevice\<close> and nothing changes.\<close>

theorem dispatch_exact:
  assumes "bus_wf (mmio_bus mgr)" "bus_wf (pio_bus mgr)" "\<forall>e \<in> set (pio_bus mgr). iobase (fst e) \<le> u16_max"
  shows "(\<forall>r d. owner (mmio_bus mgr) addr (r, d) \<longrightarrow>
            mmio_write ops mgr addr data w = Some (Ok (), dev_write ops d (iobase r) (addr - iobase r) data w) \<and>
            mmio_read ops mgr addr data w =
              (let (data', w') = dev_read ops d (iobase r) (addr - iobase r) data w in Some (Ok (), data', w'))) \<and>
    ((\<nexists>e. owner (mmio_bus mgr) addr e) \<longrightarrow> mmio_write ops mgr addr data w = Some (Err NoDevice, w) \<and>
       mmio_read ops mgr addr data w = Some (Err NoDevice, data, w)) \<and>
    (\<forall>r d. owner (pio_bus mgr) addr (r, d) \<longrightarrow>
            pio_write ops mgr addr data w = Some (Ok (), dev_pio_write ops d (iobase r) (addr - iobase r) data w) \<and>
            pio_read ops mgr addr data w =
              (let (data', w') = dev_pio_read ops d (iobase r) (addr - iobase r) data w in Some (Ok (), data', w'))) \<and>
    ((\<nexists>e. owner (pio_bus mgr) addr e) \<longrightarrow> pio_write ops mgr addr data w = Some (Err NoDevice, w) \<and>
       pio_read ops mgr addr data w = Some (Err NoDevice, data, w))"
proof -
  have sub: "checked_sub addr (iobase r) = Some (addr - iobase r)" if "owner m addr (r, d)" for m :: "(IoRange, 'a) btree_map" and r d
    using that by (auto simp: owner_def io_pts_def checked_sub_def)
  have mm: "get_mmio_device mgr addr = Some (Some (d, iobase r))" if "owner (mmio_bus mgr) addr (r, d)" for r d
    using that by (simp add: get_mmio_device_eq [OF assms(1)] owner_iff [OF assms(1)])
  have pp: "get_pio_device mgr addr = Some (Some (d, iobase r))" if "owner (pio_bus mgr) addr (r, d)" for r d
    using that by (simp add: get_pio_device_eq [OF assms(2,3)] owner_iff [OF assms(2)])
  have mn: "get_mmio_device mgr addr = Some None" if "\<nexists>e. owner (mmio_bus mgr) addr e"
    using that owner_iff [OF assms(1), of addr] by (fastforce simp: get_mmio_device_eq [OF assms(1)] split: option.splits)
  have pn: "get_pio_device mgr addr = Some None" if "\<nexists>e. owner (pio_bus mgr) addr e"
    using that owner_iff [OF assms(2), of addr] by (fastforce simp: get_pio_device_eq [OF assms(2,3)] split: option.splits)
  show ?thesis
    using mm pp mn pn sub by (auto simp: mmio_write_def mmio_read_def pio_write_def pio_read_def)
qed

definition demo_ops :: "(nat, nat list) DeviceIo" where
  "demo_ops = \<lparr>dev_read = \<lambda>d b off data w. (data, w), dev_write = \<lambda>d b off data w. d # b # off # w,
     dev_pio_read = \<lambda>d b off data w. (data, w), dev_pio_write = \<lambda>d b off data w. d # b # off # w,
     get_trapped_io_resources = \<lambda>_. []\<rparr>"

theorem dispatch_exact_witness:
  "mmio_write demo_ops demo_io 0x1010 [7] [] = Some (Ok (), [2, 0x1000, 0x10])"
proof -
  have wf: "bus_wf (mmio_bus demo_io)" "bus_wf (pio_bus demo_io)" "\<forall>e \<in> set (pio_bus demo_io). iobase (fst e) \<le> u16_max"
    and o: "owner (mmio_bus demo_io) 0x1010 (\<lparr>iobase = 0x1000, iosize = 0x1000\<rparr>, 2)"
    by (simp_all add: bus_wf_def demo_io_def u_max_vals owner_def io_pts_def)
  from dispatch_exact [OF wf, of "0x1010" demo_ops "[7]" "[]"] o show ?thesis by (auto simp: demo_ops_def)
qed

end
