(* ===== verification/Effects.thy ===== *)
theory Effects
  imports Prelude
begin

text \<open>
  Stateful code that can fail: a computation takes the state and either panics or returns a
  result (a value or an error) with the new state.  Errors keep the state reached so far, as
  the \<open>?\<close> operator does.
\<close>

type_synonym ('s, 'e, 'a) eff = "'s \<Rightarrow> (('e + 'a) \<times> 's) may_panic"

definition eff_ret :: "'a \<Rightarrow> ('s, 'e, 'a) eff" where
  "eff_ret x = (\<lambda>s. ret (Ok x, s))"

definition eff_fail :: "'e \<Rightarrow> ('s, 'e, 'a) eff" where
  "eff_fail e = (\<lambda>s. ret (Err e, s))"

definition eff_bind :: "('s, 'e, 'a) eff \<Rightarrow> ('a \<Rightarrow> ('s, 'e, 'b) eff) \<Rightarrow> ('s, 'e, 'b) eff" where
  "eff_bind m f = (\<lambda>s. case m s of
     None \<Rightarrow> panic
   | Some (r, s') \<Rightarrow> (case r of Inl e \<Rightarrow> ret (Err e, s') | Inr x \<Rightarrow> f x s'))"

definition eff_map_err :: "('e \<Rightarrow> 'e2) \<Rightarrow> ('s, 'e, 'a) eff \<Rightarrow> ('s, 'e2, 'a) eff" where
  "eff_map_err g m = (\<lambda>s. case m s of
     None \<Rightarrow> panic
   | Some (r, s') \<Rightarrow> ret (case r of Inl e \<Rightarrow> Err (g e) | Inr x \<Rightarrow> Ok x, s'))"

definition eff_opt :: "'e \<Rightarrow> 'a option \<Rightarrow> ('s, 'e, 'a) eff" where
  "eff_opt e x = (case x of None \<Rightarrow> eff_fail e | Some v \<Rightarrow> eff_ret v)"

definition eff_total :: "'a may_panic \<Rightarrow> ('s, 'e, 'a) eff" where
  "eff_total x = (\<lambda>s. map_option (\<lambda>v. (Ok v, s)) x)"

definition eff_get :: "('s, 'e, 's) eff" where
  "eff_get = (\<lambda>s. ret (Ok s, s))"

definition eff_modify :: "('s \<Rightarrow> 's) \<Rightarrow> ('s, 'e, unit) eff" where
  "eff_modify f = (\<lambda>s. ret (Ok (), f s))"

text \<open>Running a computation on a component of a larger state.\<close>

definition eff_zoom :: "('s \<Rightarrow> 't) \<Rightarrow> ('t \<Rightarrow> 's \<Rightarrow> 's) \<Rightarrow> ('t, 'e, 'a) eff \<Rightarrow> ('s, 'e, 'a) eff" where
  "eff_zoom get_part put_part m = (\<lambda>s. case m (get_part s) of
     None \<Rightarrow> panic
   | Some (r, t) \<Rightarrow> ret (r, put_part t s))"

text \<open>A computation whose error is ignored.\<close>

definition eff_ignore :: "('s, 'e, 'a) eff \<Rightarrow> ('s, 'e2, unit) eff" where
  "eff_ignore m = (\<lambda>s. case m s of None \<Rightarrow> panic | Some (_, s') \<Rightarrow> ret (Ok (), s'))"

lemma eff_zoom_Ok [simp]:
  "eff_zoom g p m s = Some (r, s') \<longleftrightarrow> (\<exists>t. m (g s) = Some (r, t) \<and> s' = p t s)"
  by (auto simp: eff_zoom_def split: option.splits prod.splits)

lemma eff_ignore_Some [simp]: "eff_ignore m s = Some (r, s') \<longleftrightarrow> (\<exists>r'. m s = Some (r', s') \<and> r = Inr ())"
  by (auto simp: eff_ignore_def split: option.splits prod.splits)

lemma eff_bind_Ok [simp]:
  "eff_bind m f s = Some (Inr y, s'') \<longleftrightarrow> (\<exists>x s'. m s = Some (Inr x, s') \<and> f x s' = Some (Inr y, s''))"
  by (auto simp: eff_bind_def split: option.splits prod.splits sum.splits)

lemma eff_simps [simp]:
  "eff_ret x s = Some (Inr x, s)" "eff_fail e s = Some (Inl e, s)" "eff_get s = Some (Inr s, s)"
  "eff_modify f s = Some (Inr (), f s)" "eff_opt e (Some v) = eff_ret v" "eff_opt e None = eff_fail e"
  "eff_total (Some v) s = Some (Inr v, s)" "eff_total None s = None"
  by (simp_all add: eff_ret_def eff_fail_def eff_get_def eff_modify_def eff_opt_def eff_total_def)

lemma eff_bind_step:
  "m s = Some (Inr x, s') \<Longrightarrow> eff_bind m f s = f x s'" "m s = Some (Inl e, s') \<Longrightarrow> eff_bind m f s = Some (Inl e, s')"
  "m s = None \<Longrightarrow> eff_bind m f s = None"
  by (simp_all add: eff_bind_def)

lemma eff_map_err_Ok [simp]: "eff_map_err g m s = Some (Inr y, s') \<longleftrightarrow> m s = Some (Inr y, s')"
  by (auto simp: eff_map_err_def split: option.splits prod.splits sum.splits)

end
