(* ===== verification/AddressRegion.thy ===== *)
theory AddressRegion
  imports Effects
begin

text \<open>
  Regions of the guest physical address space, their layout constraints and their creation
  (\<open>dbs_address_space/src/region.rs\<close>, \<open>layout.rs\<close>, \<open>numa.rs\<close> and the memory source types
  of \<open>memory/mod.rs\<close>).

  The file system and \<open>memfd\<close> calls are the fields of a record over a world state \<open>'w\<close>; a
  file is its descriptor.  The \<open>libc\<close> flag words are sets of named flags.
\<close>

section \<open>Memory sources\<close>

datatype MemorySourceType =
  FileOnHugeTlbFs | MmapAnonymous | MmapAnonymousHugeTlbFs | MemFdShared | MemFdOnHugeTlbFs

definition mst_is_hugepage :: "MemorySourceType \<Rightarrow> bool" where
  "mst_is_hugepage t = (t = FileOnHugeTlbFs \<or> t = MmapAnonymousHugeTlbFs \<or> t = MemFdOnHugeTlbFs)"

definition mst_is_mmap_anonymous :: "MemorySourceType \<Rightarrow> bool" where
  "mst_is_mmap_anonymous t = (t = MmapAnonymous \<or> t = MmapAnonymousHugeTlbFs)"

definition mst_from_str :: "string \<Rightarrow> string + MemorySourceType" where
  "mst_from_str s =
     (if s = ''hugetlbfs'' then Ok FileOnHugeTlbFs
      else if s = ''memfd'' then Ok MemFdShared
      else if s = ''shmem'' then Ok MemFdShared
      else if s = ''hugememfd'' then Ok MemFdOnHugeTlbFs
      else if s = ''hugeshmem'' then Ok MemFdOnHugeTlbFs
      else if s = ''anon'' then Ok MmapAnonymous
      else if s = ''mmap'' then Ok MmapAnonymous
      else if s = ''hugeanon'' then Ok MmapAnonymousHugeTlbFs
      else if s = ''hugemmap'' then Ok MmapAnonymousHugeTlbFs
      else Err (''unknown memory source type '' @ s))"

section \<open>Regions\<close>

datatype AddressSpaceError =
    InvalidRegionType
  | InvalidAddressRange nat nat
  | InvalidMemorySourceType string
  | CreateMemFd nat
  | OpenFile nat
  | CreateDir nat
  | SetFileSize nat
  | UnlinkFile nat

datatype AddressSpaceRegionType = DefaultMemory | DeviceMemory | DAXMemory

datatype mmap_flag = MAP_SHARED | MAP_PRIVATE | MAP_ANONYMOUS | MAP_POPULATE

datatype prot_flag = PROT_READ | PROT_WRITE

record FileOffset =
  fo_file :: nat
  fo_start :: nat

record AddressSpaceRegion =
  ty :: AddressSpaceRegionType
  base :: nat
  rsize :: nat
  host_numa_node_id :: "nat option"
  file_offset :: "FileOffset option"
  perm_flags :: "mmap_flag set"
  prot_flags :: "prot_flag set"
  is_hugepage :: bool
  is_hotplug :: bool
  is_anon :: bool

definition region_new :: "AddressSpaceRegionType \<Rightarrow> nat \<Rightarrow> nat \<Rightarrow> AddressSpaceRegion" where
  "region_new t b sz = \<lparr>ty = t, base = b, rsize = sz, host_numa_node_id = None, file_offset = None,
     perm_flags = {MAP_SHARED}, prot_flags = {PROT_READ, PROT_WRITE}, is_hugepage = False, is_hotplug = False,
     is_anon = False\<rparr>"

definition set_host_numa_node_id :: "nat option \<Rightarrow> AddressSpaceRegion \<Rightarrow> AddressSpaceRegion" where
  [simp]: "set_host_numa_node_id n r = r\<lparr>host_numa_node_id := n\<rparr>"

definition set_file_offset :: "FileOffset option \<Rightarrow> AddressSpaceRegion \<Rightarrow> AddressSpaceRegion" where
  [simp]: "set_file_offset fo r = r\<lparr>file_offset := fo\<rparr>"

definition set_perm_flags :: "mmap_flag set \<Rightarrow> AddressSpaceRegion \<Rightarrow> AddressSpaceRegion" where
  [simp]: "set_perm_flags perm r = r\<lparr>perm_flags := perm\<rparr>"

definition set_prot_flags :: "prot_flag set \<Rightarrow> AddressSpaceRegion \<Rightarrow> AddressSpaceRegion" where
  [simp]: "set_prot_flags prot r = r\<lparr>prot_flags := prot\<rparr>"

definition set_hotplug :: "AddressSpaceRegion \<Rightarrow> AddressSpaceRegion" where
  [simp]: "set_hotplug r = r\<lparr>is_hotplug := True\<rparr>"

definition set_hugepage :: "AddressSpaceRegion \<Rightarrow> AddressSpaceRegion" where
  [simp]: "set_hugepage r = r\<lparr>is_hugepage := True\<rparr>"

definition set_anonpage :: "AddressSpaceRegion \<Rightarrow> AddressSpaceRegion" where
  [simp]: "set_anonpage r = r\<lparr>is_anon := True\<rparr>"

definition region_build ::
  "AddressSpaceRegionType \<Rightarrow> nat \<Rightarrow> nat \<Rightarrow> nat option \<Rightarrow> FileOffset option \<Rightarrow> mmap_flag set \<Rightarrow> prot_flag set \<Rightarrow> bool \<Rightarrow>
     AddressSpaceRegion" where
  "region_build t b sz numa fo perm prot hotplug =
     (let region = set_prot_flags prot (set_perm_flags perm (set_file_offset fo (set_host_numa_node_id numa (region_new t b sz)))) in
      if hotplug then set_hotplug region else region)"

record 'w mem_os =
  memfd_create :: "string \<Rightarrow> ('w, nat, nat) eff"
  set_len :: "nat \<Rightarrow> nat \<Rightarrow> ('w, nat, unit) eff"
  create_dir_all :: "string \<Rightarrow> ('w, nat, unit) eff"
  open_file :: "string \<Rightarrow> ('w, nat, nat) eff"
  unlink :: "string \<Rightarrow> ('w, nat, unit) eff"
  path_parent :: "string \<Rightarrow> string option"

definition memfd_region ::
  "'w mem_os \<Rightarrow> string \<Rightarrow> nat \<Rightarrow> nat \<Rightarrow> nat option \<Rightarrow> mmap_flag set \<Rightarrow> prot_flag set \<Rightarrow> bool \<Rightarrow>
     ('w, AddressSpaceError, AddressSpaceRegion) eff" where
  "memfd_region os name b sz numa perm prot hotplug =
     eff_bind (eff_map_err CreateMemFd (memfd_create os name)) (\<lambda>fd.
     eff_bind (eff_map_err SetFileSize (set_len os fd sz)) (\<lambda>_.
     eff_ret (region_build DefaultMemory b sz numa (Some \<lparr>fo_file = fd, fo_start = 0\<rparr>) perm prot hotplug)))"

definition hugetlbfs_region ::
  "'w mem_os \<Rightarrow> string \<Rightarrow> nat \<Rightarrow> nat \<Rightarrow> nat option \<Rightarrow> mmap_flag set \<Rightarrow> prot_flag set \<Rightarrow> bool \<Rightarrow>
     ('w, AddressSpaceError, AddressSpaceRegion) eff" where
  "hugetlbfs_region os path b sz numa perm prot hotplug =
     eff_bind (case path_parent os path of
                 Some dir \<Rightarrow> eff_map_err CreateDir (create_dir_all os dir)
               | None \<Rightarrow> eff_ret ()) (\<lambda>_.
     eff_bind (eff_map_err OpenFile (open_file os path)) (\<lambda>fd.
     eff_bind (eff_map_err UnlinkFile (unlink os path)) (\<lambda>_.
     eff_bind (eff_map_err SetFileSize (set_len os fd sz)) (\<lambda>_.
     eff_ret (region_build DefaultMemory b sz numa (Some \<lparr>fo_file = fd, fo_start = 0\<rparr>) perm prot hotplug)))))"

definition create_memory_region ::
  "'w mem_os \<Rightarrow> nat \<Rightarrow> nat \<Rightarrow> nat option \<Rightarrow> string \<Rightarrow> string \<Rightarrow> bool \<Rightarrow> prot_flag set \<Rightarrow> bool \<Rightarrow>
     ('w, AddressSpaceError, AddressSpaceRegion) eff" where
  "create_memory_region os b sz numa mem_type mem_file_path prealloc prot hotplug =
     (let perm = (if prealloc then {MAP_SHARED, MAP_POPULATE} else {MAP_SHARED}) in
      case mst_from_str mem_type of
        Inl _ \<Rightarrow> eff_fail (InvalidMemorySourceType mem_type)
      | Inr source_type \<Rightarrow>
          eff_bind
            (case source_type of
               MemFdShared \<Rightarrow> memfd_region os ''shmem'' b sz numa perm prot hotplug
             | MemFdOnHugeTlbFs \<Rightarrow> memfd_region os ''hugeshmem'' b sz numa perm prot hotplug
             | MmapAnonymous \<Rightarrow>
                 eff_ret (region_build DefaultMemory b sz numa None
                   ({MAP_PRIVATE, MAP_ANONYMOUS} \<union> (if prealloc then {MAP_POPULATE} else {})) prot hotplug)
             | MmapAnonymousHugeTlbFs \<Rightarrow>
                 eff_ret (region_build DefaultMemory b sz numa None
                   ({MAP_PRIVATE, MAP_ANONYMOUS} \<union> (if prealloc then {MAP_POPULATE} else {})) prot hotplug)
             | FileOnHugeTlbFs \<Rightarrow> hugetlbfs_region os mem_file_path b sz numa perm prot hotplug)
            (\<lambda>reg.
               let reg1 = (if mst_is_hugepage source_type then set_hugepage reg else reg);
                   reg2 = (if mst_is_mmap_anonymous source_type then set_anonpage reg1 else reg1)
               in eff_ret reg2))"

definition create_default_memory_region ::
  "'w mem_os \<Rightarrow> nat \<Rightarrow> nat \<Rightarrow> nat option \<Rightarrow> string \<Rightarrow> string \<Rightarrow> bool \<Rightarrow> bool \<Rightarrow>
     ('w, AddressSpaceError, AddressSpaceRegion) eff" where
  "create_default_memory_region os b sz numa mem_type mem_file_path prealloc hotplug =
     create_memory_region os b sz numa mem_type mem_file_path prealloc {PROT_READ, PROT_WRITE} hotplug"

definition create_device_region :: "nat \<Rightarrow> nat \<Rightarrow> AddressSpaceError + AddressSpaceRegion" where
  "create_device_region b sz = Ok (region_build DeviceMemory b sz None None {} {} False)"

definition region_last_addr :: "AddressSpaceRegion \<Rightarrow> nat may_panic" where
  "region_last_addr r =
     (if rsize r > 0 \<and> checked_add u64_max (base r) (rsize r) \<noteq> None then ret (base r + rsize r - 1) else panic)"

definition has_file :: "AddressSpaceRegion \<Rightarrow> bool" where
  "has_file r = (file_offset r \<noteq> None)"

definition region_is_valid :: "AddressSpaceRegion \<Rightarrow> bool" where
  "region_is_valid r = (rsize r > 0 \<and> checked_add u64_max (base r) (rsize r) \<noteq> None)"

definition intersect_with :: "AddressSpaceRegion \<Rightarrow> AddressSpaceRegion \<Rightarrow> bool" where
  "intersect_with a b =
     (case checked_add u64_max (base a) (rsize a) of
        None \<Rightarrow> True
      | Some end1 \<Rightarrow>
          (case checked_add u64_max (base b) (rsize b) of
             None \<Rightarrow> True
           | Some end2 \<Rightarrow> \<not> (end1 \<le> base b \<or> base a \<ge> end2)))"

section \<open>Layout\<close>

record AddressSpaceLayout =
  phys_end :: nat
  mem_start :: nat
  mem_end :: nat
  usable_end :: nat

definition layout_new :: "nat \<Rightarrow> nat \<Rightarrow> nat \<Rightarrow> nat \<Rightarrow> AddressSpaceLayout" where
  "layout_new usable pe ms me = \<lparr>phys_end = pe, mem_start = ms, mem_end = me, usable_end = usable\<rparr>"

definition is_region_valid :: "AddressSpaceLayout \<Rightarrow> AddressSpaceRegion \<Rightarrow> bool" where
  "is_region_valid layout region =
     (case checked_add u64_max (base region) (rsize region) of
        None \<Rightarrow> False
      | Some region_end \<Rightarrow>
          (case ty region of
             DefaultMemory \<Rightarrow> \<not> (base region < mem_start layout \<or> region_end > mem_end layout)
           | DeviceMemory \<Rightarrow> \<not> (base region < mem_end layout \<or> region_end > phys_end layout)
           | DAXMemory \<Rightarrow> \<not> (base region < mem_end layout \<or> region_end > phys_end layout)))"

section \<open>NUMA nodes\<close>

record NumaNodeInfo =
  ni_base :: nat
  ni_size :: nat

record NumaNode =
  region_infos :: "NumaNodeInfo list"
  vcpu_ids :: "nat list"

definition NumaNode_new :: NumaNode where
  "NumaNode_new = \<lparr>region_infos = [], vcpu_ids = []\<rparr>"

definition add_info :: "NumaNode \<Rightarrow> NumaNodeInfo \<Rightarrow> NumaNode" where
  "add_info node info = node\<lparr>region_infos := region_infos node @ [info]\<rparr>"

definition add_vcpu_ids :: "NumaNode \<Rightarrow> nat list \<Rightarrow> NumaNode" where
  "add_vcpu_ids node ids = node\<lparr>vcpu_ids := vcpu_ids node @ ids\<rparr>"

section \<open>Facts\<close>

definition region_pts :: "AddressSpaceRegion \<Rightarrow> nat set" where
  "region_pts r = {base r ..< base r + rsize r}"

lemma intersect_with_pts:
  assumes "region_is_valid a" "region_is_valid b"
  shows "intersect_with a b \<longleftrightarrow> region_pts a \<inter> region_pts b \<noteq> {}"
proof -
  have "region_pts a \<inter> region_pts b = {max (base a) (base b) ..< min (base a + rsize a) (base b + rsize b)}"
    by (auto simp: region_pts_def)
  then show ?thesis
    using assms by (auto simp: intersect_with_def region_is_valid_def checked_add_def split: if_splits)
qed

lemma intersect_with_commute: "intersect_with a b = intersect_with b a"
  by (auto simp: intersect_with_def split: option.splits)

text \<open>A created region has the requested type, place and size whatever its source.\<close>

lemma region_build_simps [simp]:
  "base (region_build t b sz numa fo perm prot hotplug) = b" "rsize (region_build t b sz numa fo perm prot hotplug) = sz"
  "ty (region_build t b sz numa fo perm prot hotplug) = t"
  "host_numa_node_id (region_build t b sz numa fo perm prot hotplug) = numa"
  "file_offset (region_build t b sz numa fo perm prot hotplug) = fo"
  "perm_flags (region_build t b sz numa fo perm prot hotplug) = perm"
  "prot_flags (region_build t b sz numa fo perm prot hotplug) = prot"
  "is_hotplug (region_build t b sz numa fo perm prot hotplug) = hotplug"
  by (simp_all add: region_build_def region_new_def Let_def)

lemma file_region_Ok:
  "memfd_region os name b sz numa perm prot hotplug w = Some (Ok reg, w') \<Longrightarrow>
     \<exists>fo. reg = region_build DefaultMemory b sz numa (Some fo) perm prot hotplug"
  "hugetlbfs_region os path b sz numa perm prot hotplug w = Some (Ok reg, w') \<Longrightarrow>
     \<exists>fo. reg = region_build DefaultMemory b sz numa (Some fo) perm prot hotplug"
  by (auto simp: memfd_region_def hugetlbfs_region_def)

text \<open>The region a source type yields, up to the file that backs it.\<close>

definition source_region :: "MemorySourceType \<Rightarrow> nat \<Rightarrow> nat \<Rightarrow> nat option \<Rightarrow> FileOffset \<Rightarrow> bool \<Rightarrow> prot_flag set \<Rightarrow> bool \<Rightarrow> AddressSpaceRegion" where
  "source_region st b sz numa fo prealloc prot hotplug =
     (region_build DefaultMemory b sz numa (if mst_is_mmap_anonymous st then None else Some fo)
        ((if mst_is_mmap_anonymous st then {MAP_PRIVATE, MAP_ANONYMOUS} else {MAP_SHARED}) \<union> (if prealloc then {MAP_POPULATE} else {}))
        prot hotplug)\<lparr>is_hugepage := mst_is_hugepage st, is_anon := mst_is_mmap_anonymous st\<rparr>"

lemma region_defaults: "(region_build t b sz numa fo perm prot hotplug)\<lparr>is_hugepage := False\<rparr> = region_build t b sz numa fo perm prot hotplug"
  "(region_build t b sz numa fo perm prot hotplug)\<lparr>is_anon := False\<rparr> = region_build t b sz numa fo perm prot hotplug"
  "(region_build t b sz numa fo perm prot hotplug)\<lparr>is_hugepage := x, is_anon := False\<rparr> =
     (region_build t b sz numa fo perm prot hotplug)\<lparr>is_hugepage := x\<rparr>"
  by (simp_all add: region_build_def region_new_def Let_def)

lemma populate_flags: "(if p then {MAP_SHARED, MAP_POPULATE} else {MAP_SHARED}) = {MAP_SHARED} \<union> (if p then {MAP_POPULATE} else {})"
  by simp

lemma create_memory_region_Ok:
  assumes "create_memory_region os b sz numa mt path prealloc prot hotplug w = Some (Ok reg, w')"
  shows "\<exists>st fo. mst_from_str mt = Inr st \<and> reg = source_region st b sz numa fo prealloc prot hotplug"
proof (cases "mst_from_str mt")
  case (Inl e)
  then show ?thesis using assms by (simp add: create_memory_region_def)
next
  case (Inr st)
  note eq = assms [unfolded create_memory_region_def populate_flags Let_def Inr sum.case]
  have "\<exists>fo. reg = source_region st b sz numa fo prealloc prot hotplug"
  proof (cases st)
    case FileOnHugeTlbFs
    then show ?thesis using eq
      by (auto simp: source_region_def mst_is_hugepage_def mst_is_mmap_anonymous_def region_defaults dest!: file_region_Ok)
  next
    case MmapAnonymous
    then show ?thesis using eq
      by (auto simp: source_region_def mst_is_hugepage_def mst_is_mmap_anonymous_def region_defaults)
  next
    case MmapAnonymousHugeTlbFs
    then show ?thesis using eq
      by (auto simp: source_region_def mst_is_hugepage_def mst_is_mmap_anonymous_def region_defaults)
  next
    case MemFdShared
    then show ?thesis using eq
      by (auto simp: source_region_def mst_is_hugepage_def mst_is_mmap_anonymous_def region_defaults dest!: file_region_Ok)
  next
    case MemFdOnHugeTlbFs
    then show ?thesis using eq
      by (auto simp: source_region_def mst_is_hugepage_def mst_is_mmap_anonymous_def region_defaults dest!: file_region_Ok)
  qed
  with Inr show ?thesis by blast
qed

lemma source_region_simps [simp]:
  "base (source_region st b sz numa fo prealloc prot hotplug) = b" "rsize (source_region st b sz numa fo prealloc prot hotplug) = sz"
  "ty (source_region st b sz numa fo prealloc prot hotplug) = DefaultMemory"
  by (simp_all add: source_region_def region_build_def region_new_def Let_def)

end
