(* ===== verification/AddressSpace.thy ===== *)
theory AddressSpace
  imports AddressRegion "HOL-Library.Multiset"
begin

text \<open>
  The guest physical address space (\<open>dbs_address_space/src/address_space.rs\<close>): a validated
  list of regions, insertion by copy and swap, and the queries on it.  The \<open>ArcSwap\<close> that holds
  the current list is the state that \<open>insert_region\<close> replaces.
\<close>

record AddressSpaceBase =
  regions :: "AddressSpaceRegion list"
  layout :: AddressSpaceLayout

fun adjacent_disjoint :: "AddressSpaceRegion list \<Rightarrow> bool" where
  "adjacent_disjoint (a # b # rs) = (\<not> intersect_with b a \<and> adjacent_disjoint (b # rs))"
| "adjacent_disjoint _ = True"

definition from_regions :: "AddressSpaceRegion list \<Rightarrow> AddressSpaceLayout \<Rightarrow> AddressSpaceBase may_panic" where
  "from_regions rs lay =
     (let sorted_rs = sort_key base rs in
      if \<not> list_all (is_region_valid lay) sorted_rs then panic
      else if \<not> adjacent_disjoint sorted_rs then panic
      else ret \<lparr>regions = sorted_rs, layout = lay\<rparr>)"

definition base_insert_region ::
  "AddressSpaceBase \<Rightarrow> AddressSpaceRegion \<Rightarrow> (AddressSpaceError + unit) \<times> AddressSpaceBase" where
  "base_insert_region b region =
     (if \<not> is_region_valid (layout b) region then (Err (InvalidAddressRange (base region) (rsize region)), b)
      else if list_ex (\<lambda>r. intersect_with r region) (regions b)
      then (Err (InvalidAddressRange (base region) (rsize region)), b)
      else (Ok (), b\<lparr>regions := regions b @ [region]\<rparr>))"

fun walk_loop :: "(AddressSpaceRegion \<Rightarrow> ('s, 'e, unit) eff) \<Rightarrow> AddressSpaceRegion list \<Rightarrow> ('s, 'e, unit) eff" where
  "walk_loop cb [] = eff_ret ()"
| "walk_loop cb (r # rs) = eff_bind (cb r) (\<lambda>_. walk_loop cb rs)"

definition walk_regions :: "AddressSpaceBase \<Rightarrow> (AddressSpaceRegion \<Rightarrow> ('s, 'e, unit) eff) \<Rightarrow> ('s, 'e, unit) eff" where
  "walk_regions b cb = walk_loop cb (regions b)"

fun last_addr_loop :: "AddressSpaceRegion list \<Rightarrow> nat \<Rightarrow> nat may_panic" where
  "last_addr_loop [] acc = ret acc"
| "last_addr_loop (r # rs) acc =
     (if ty r \<noteq> DAXMemory
      then do {
        l \<leftarrow> region_last_addr r;
        last_addr_loop rs (if l > acc then l else acc) }
      else last_addr_loop rs acc)"

definition as_last_addr :: "AddressSpaceBase \<Rightarrow> nat may_panic" where
  "as_last_addr b = last_addr_loop (regions b) (mem_start (layout b))"

text \<open>\<open>start <= addr && start + len > addr\<close>, with the short-circuit that keeps the sum in range.\<close>

definition covers :: "AddressSpaceRegion \<Rightarrow> nat \<Rightarrow> bool may_panic" where
  "covers r addr =
     (if base r \<le> addr then do { e \<leftarrow> checked_add u64_max (base r) (rsize r); ret (e > addr) } else ret False)"

fun dax_loop :: "AddressSpaceRegion list \<Rightarrow> nat \<Rightarrow> bool may_panic" where
  "dax_loop [] addr = ret False"
| "dax_loop (r # rs) addr =
     (if ty r = DAXMemory
      then do { c \<leftarrow> covers r addr; if c then ret True else dax_loop rs addr }
      else dax_loop rs addr)"

definition is_dax_region :: "AddressSpaceBase \<Rightarrow> nat \<Rightarrow> bool may_panic" where
  "is_dax_region b addr = dax_loop (regions b) addr"

fun prot_loop :: "AddressSpaceRegion list \<Rightarrow> nat \<Rightarrow> (AddressSpaceError + prot_flag set) may_panic" where
  "prot_loop [] addr = ret (Err InvalidRegionType)"
| "prot_loop (r # rs) addr = do { c \<leftarrow> covers r addr; if c then ret (Ok (prot_flags r)) else prot_loop rs addr }"

definition as_prot_flags :: "AddressSpaceBase \<Rightarrow> nat \<Rightarrow> (AddressSpaceError + prot_flag set) may_panic" where
  "as_prot_flags b addr = prot_loop (regions b) addr"

fun numa_loop :: "AddressSpaceRegion list \<Rightarrow> nat \<Rightarrow> nat option may_panic" where
  "numa_loop [] addr = ret None"
| "numa_loop (r # rs) addr = do { c \<leftarrow> covers r addr; if c then ret (host_numa_node_id r) else numa_loop rs addr }"

definition as_numa_node_id :: "AddressSpaceBase \<Rightarrow> nat \<Rightarrow> nat option may_panic" where
  "as_numa_node_id b addr = numa_loop (regions b) addr"

text \<open>\<open>AddressSpace::insert_region\<close>: rebuild from the current regions, insert, swap.\<close>

definition insert_region ::
  "AddressSpaceBase \<Rightarrow> AddressSpaceRegion \<Rightarrow> ((AddressSpaceError + unit) \<times> AddressSpaceBase) may_panic" where
  "insert_region state region = do {
     b \<leftarrow> from_regions (regions state) (layout state);
     case base_insert_region b region of
       (Inl e, _) \<Rightarrow> ret (Err e, state)
     | (Inr _, b') \<Rightarrow> ret (Ok (), b') }"

section \<open>Invariant\<close>

definition disjoint_regions :: "AddressSpaceRegion list \<Rightarrow> bool" where
  "disjoint_regions rs = sorted_wrt (\<lambda>a b. region_pts a \<inter> region_pts b = {}) rs"

definition as_inv :: "AddressSpaceBase \<Rightarrow> bool" where
  "as_inv b \<longleftrightarrow> (\<forall>r \<in> set (regions b). 0 < rsize r \<and> is_region_valid (layout b) r) \<and> disjoint_regions (regions b)"

lemma valid_region: "is_region_valid lay r \<Longrightarrow> 0 < rsize r \<Longrightarrow> region_is_valid r"
  by (auto simp: is_region_valid_def region_is_valid_def split: option.splits)

lemma disjoint_regions_iff:
  "disjoint_regions rs \<longleftrightarrow> (\<forall>i < length rs. \<forall>j < length rs. i \<noteq> j \<longrightarrow> region_pts (rs ! i) \<inter> region_pts (rs ! j) = {})"
  (is "_ \<longleftrightarrow> ?R")
proof
  assume "disjoint_regions rs"
  then have *: "i < j \<Longrightarrow> j < length rs \<Longrightarrow> region_pts (rs ! i) \<inter> region_pts (rs ! j) = {}" for i j
    by (simp add: disjoint_regions_def sorted_wrt_iff_nth_less)
  then show ?R by (metis Int_commute linorder_neqE_nat)
next
  assume ?R
  then show "disjoint_regions rs" by (simp add: disjoint_regions_def sorted_wrt_iff_nth_less)
qed

lemma disjoint_regions_Cons:
  "disjoint_regions (r # rs) \<longleftrightarrow> (\<forall>r' \<in> set rs. region_pts r \<inter> region_pts r' = {}) \<and> disjoint_regions rs"
  by (simp add: disjoint_regions_def)

lemma disjoint_regions_append1:
  "disjoint_regions (rs @ [r]) \<longleftrightarrow> disjoint_regions rs \<and> (\<forall>r' \<in> set rs. region_pts r' \<inter> region_pts r = {})"
  by (auto simp: disjoint_regions_def sorted_wrt_append)

lemma disjoint_regions_unique:
  "disjoint_regions rs \<Longrightarrow> a \<in> set rs \<Longrightarrow> b \<in> set rs \<Longrightarrow> x \<in> region_pts a \<Longrightarrow> x \<in> region_pts b \<Longrightarrow> a = b"
  by (induction rs) (auto simp: disjoint_regions_Cons)

text \<open>Disjointness does not depend on the order.\<close>

lemma disjoint_regions_mset:
  assumes "mset rs = mset rs'" "disjoint_regions rs"
  shows "disjoint_regions rs'"
  using assms
proof (induction rs arbitrary: rs')
  case Nil
  then show ?case by simp
next
  case (Cons r rs)
  obtain xs ys where rs': "rs' = xs @ r # ys"
    using Cons.prems(1) by (metis in_multiset_in_set list.set_intros(1) split_list)
  then have "mset rs = mset (xs @ ys)" using Cons.prems(1) by simp
  moreover have "disjoint_regions rs" and r: "\<forall>r' \<in> set rs. region_pts r \<inter> region_pts r' = {}"
    using Cons.prems(2) by (auto simp: disjoint_regions_Cons)
  ultimately have "disjoint_regions (xs @ ys)" "set rs = set (xs @ ys)"
    using Cons.IH by (blast, metis mset_eq_setD)
  then show ?case using r unfolding rs' disjoint_regions_def by (auto simp: sorted_wrt_append)
qed

lemma sorted_adjacent:
  assumes "sorted (map base rs)" "\<forall>r \<in> set rs. region_is_valid r"
  shows "adjacent_disjoint rs \<longleftrightarrow> disjoint_regions rs"
  using assms
proof (induction rs rule: adjacent_disjoint.induct)
  case (1 a b rs)
  have ab: "intersect_with b a \<longleftrightarrow> \<not> base a + rsize a \<le> base b" and "0 < rsize b" "0 < rsize a"
    using 1(2,3) by (auto simp: intersect_with_def region_is_valid_def checked_add_def split: if_splits)
  have le: "base b \<le> base r" if "r \<in> set rs" for r using 1(2) that by auto
  have IH: "adjacent_disjoint (b # rs) = disjoint_regions (b # rs)" using 1 by simp
  show ?case
  proof (cases "base a + rsize a \<le> base b")
    case True
    then have "region_pts a \<inter> region_pts r = {}" if "r \<in> set (b # rs)" for r
      using that le by (fastforce simp: region_pts_def)
    then show ?thesis using True IH ab by (simp add: disjoint_regions_Cons [of a])
  next
    case False
    then have "base b \<in> region_pts a \<inter> region_pts b"
      using 1(2) \<open>0 < rsize b\<close> by (auto simp: region_pts_def)
    then show ?thesis using False ab by (auto simp: disjoint_regions_Cons [of a])
  qed
qed (auto simp: disjoint_regions_def)

lemma covers_valid: "region_is_valid r \<Longrightarrow> covers r addr = Some (addr \<in> region_pts r)"
  by (auto simp: covers_def region_is_valid_def region_pts_def checked_add_def split: if_splits)

text \<open>The region that holds an address, as the loops find it.\<close>

definition region_at :: "AddressSpaceBase \<Rightarrow> nat \<Rightarrow> AddressSpaceRegion option" where
  "region_at b addr = List.find (\<lambda>r. addr \<in> region_pts r) (regions b)"

lemma region_at_iff:
  assumes "as_inv b"
  shows "region_at b addr = Some r \<longleftrightarrow> r \<in> set (regions b) \<and> addr \<in> region_pts r"
proof
  assume "region_at b addr = Some r"
  then show "r \<in> set (regions b) \<and> addr \<in> region_pts r" unfolding region_at_def by (rule find_SomeD)
next
  assume r: "r \<in> set (regions b) \<and> addr \<in> region_pts r"
  then obtain r' where r': "region_at b addr = Some r'"
    unfolding region_at_def using find_None_all by (metis not_Some_eq)
  then have "r' \<in> set (regions b)" "addr \<in> region_pts r'" unfolding region_at_def by (auto dest: find_SomeD)
  then have "r' = r"
    using r assms disjoint_regions_unique [of "regions b"] unfolding as_inv_def by blast
  with r' show "region_at b addr = Some r" by simp
qed

lemma loops_find:
  assumes "\<forall>r \<in> set rs. region_is_valid r"
  shows "prot_loop rs addr = Some (case List.find (\<lambda>r. addr \<in> region_pts r) rs of
       None \<Rightarrow> Err InvalidRegionType | Some r \<Rightarrow> Ok (prot_flags r))"
    and "numa_loop rs addr = Some (Option.bind (List.find (\<lambda>r. addr \<in> region_pts r) rs) host_numa_node_id)"
    and "dax_loop rs addr = Some (\<exists>r \<in> set rs. ty r = DAXMemory \<and> addr \<in> region_pts r)"
  using assms by (induction rs) (auto simp: covers_valid)

lemma Max_pick: "finite A \<Longrightarrow> Max (insert (if (y::nat) > x then y else x) A) = Max (insert x (insert y A))"
  by (cases "A = {}") (auto simp: Max_insert max_def)

lemma last_addr_loop_eq:
  assumes "\<forall>r \<in> set rs. region_is_valid r"
  shows "last_addr_loop rs acc = Some (Max (insert acc ((\<lambda>r. base r + rsize r - 1) ` {r \<in> set rs. ty r \<noteq> DAXMemory})))"
  using assms
proof (induction rs arbitrary: acc)
  case (Cons r rs)
  let ?f = "\<lambda>r. base r + rsize r - 1" and ?S = "{r \<in> set rs. ty r \<noteq> DAXMemory}"
  have v: "region_last_addr r = Some (?f r)" using Cons.prems by (simp add: region_last_addr_def region_is_valid_def)
  have fin: "finite (insert acc (?f ` ?S))" by simp
  have "{x \<in> set (r # rs). ty x \<noteq> DAXMemory} = (if ty r \<noteq> DAXMemory then insert r ?S else ?S)" by auto
  moreover have "Max (insert (if ?f r > acc then ?f r else acc) (?f ` ?S)) = Max (insert acc (insert (?f r) (?f ` ?S)))"
    by (rule Max_pick) simp
  ultimately show ?case using Cons v by auto
qed simp

end
