(* ===== verification/AddressSpaceMgr.thy ===== *)
theory AddressSpaceMgr
  imports AddressSpace ResourceRollback Bytes
begin

text \<open>
  The address space manager (\<open>dragonball/src/address_space_manager.rs\<close>): it lays out guest
  memory around the MMIO hole, creates and maps the regions, takes their addresses and memory
  slots from the resource manager and builds the address space.

  Calls into the kernel and into \<open>vm-memory\<close> are fields of the record \<open>vm_os\<close>.  Log statements
  are left out.
\<close>

section \<open>State\<close>

definition MAX_NODE :: nat where "MAX_NODE = 64"
definition MINIMAL_SPLIT_SPACE :: nat where "MINIMAL_SPLIT_SPACE = 128 * 2 ^ 20"
definition MAX_PRE_ALLOC_THREAD :: nat where "MAX_PRE_ALLOC_THREAD = 16"
definition PRE_ALLOC_GRANULARITY :: nat where "PRE_ALLOC_GRANULARITY = 32"

datatype AddressManagerError =
    AmInvalidOperation
  | AmInvalidAddressRange nat nat
  | NoAvailableMemAddress
  | NoAvailableKvmSlot
  | AmCreateMemFd nat
  | AmOpenFile nat
  | FileInvalid string
  | TypeInvalid string
  | AmSetFileSize nat
  | AmUnlinkFile nat
  | DupFd nat
  | AccessGuestMemory nat nat
  | CreateGuestMemory nat
  | GuestMemoryNotInitialized
  | MmapGuestMemory nat
  | KvmSetMemorySlot nat
  | Madvise nat
  | JoinFail
  | CreateAddressSpaceRegion AddressSpaceError

record NumaRegionInfo =
  nr_size :: nat
  nr_host_numa :: "nat option"
  nr_guest_numa :: "nat option"
  nr_vcpu_ids :: "nat list"

record AddressSpaceMgrBuilder =
  mem_type :: string
  mem_file :: string
  mem_index :: nat
  mem_suffix :: bool
  mem_prealloc :: bool
  dirty_page_logging :: bool
  vmfd :: "nat option"

definition builder_new :: "string \<Rightarrow> string \<Rightarrow> AddressManagerError + AddressSpaceMgrBuilder" where
  "builder_new mt mf =
     (if mt = '''' then Err (TypeInvalid mt)
      else Ok \<lparr>mem_type = mt, mem_file = mf, mem_index = 0, mem_suffix = True, mem_prealloc = False,
               dirty_page_logging = False, vmfd = None\<rparr>)"

definition toggle_file_suffix :: "bool \<Rightarrow> AddressSpaceMgrBuilder \<Rightarrow> AddressSpaceMgrBuilder" where
  "toggle_file_suffix enabled b = b\<lparr>mem_suffix := enabled\<rparr>"

definition toggle_prealloc :: "bool \<Rightarrow> AddressSpaceMgrBuilder \<Rightarrow> AddressSpaceMgrBuilder" where
  "toggle_prealloc prealloc b = b\<lparr>mem_prealloc := prealloc\<rparr>"

definition toggle_dirty_page_logging :: "bool \<Rightarrow> AddressSpaceMgrBuilder \<Rightarrow> AddressSpaceMgrBuilder" where
  "toggle_dirty_page_logging logging b = b\<lparr>dirty_page_logging := logging\<rparr>"

definition set_kvm_vm_fd :: "nat \<Rightarrow> AddressSpaceMgrBuilder \<Rightarrow> nat option \<times> AddressSpaceMgrBuilder" where
  "set_kvm_vm_fd fd b = (vmfd b, b\<lparr>vmfd := Some fd\<rparr>)"

definition get_next_mem_file :: "AddressSpaceMgrBuilder \<Rightarrow> (string \<times> AddressSpaceMgrBuilder) may_panic" where
  "get_next_mem_file b =
     (if mem_suffix b
      then do {
        i \<leftarrow> checked_add u32_max (mem_index b) 1;
        ret (mem_file b @ dec_string (mem_index b), b\<lparr>mem_index := i\<rparr>) }
      else ret (mem_file b, b))"

record GuestRegion =
  gr_host :: nat
  gr_len :: nat
  gr_base :: nat

record AddressSpaceMgr =
  address_space :: "AddressSpaceBase option"
  vm_as :: "GuestRegion list option"
  base_to_slot :: "nat \<rightharpoonup> nat"
  prealloc_handlers :: "nat list"
  prealloc_exit :: bool
  numa_nodes :: "nat \<rightharpoonup> NumaNode"

definition mgr_default :: AddressSpaceMgr where
  "mgr_default = \<lparr>address_space = None, vm_as = None, base_to_slot = Map.empty, prealloc_handlers = [],
     prealloc_exit = False, numa_nodes = Map.empty\<rparr>"

datatype madvice = MADV_DONTFORK | MADV_HUGEPAGE

record 'w vm_os = "'w mem_os" +
  dup_fd :: "nat \<Rightarrow> ('w, nat, nat) eff"
  mmap_build :: "FileOffset option \<Rightarrow> nat \<Rightarrow> mmap_flag set \<Rightarrow> ('w, nat, nat) eff"
  madvise :: "nat \<Rightarrow> nat \<Rightarrow> madvice \<Rightarrow> ('w, nat, unit) eff"
  mbind :: "nat \<Rightarrow> nat \<Rightarrow> nat \<Rightarrow> ('w, nat, unit) eff"
  spawn_touch :: "nat \<Rightarrow> nat \<Rightarrow> nat \<Rightarrow> ('w, nat, nat) eff"
  join_touch :: "nat \<Rightarrow> ('w, nat, unit) eff"
  guest_region_new :: "nat \<Rightarrow> nat \<Rightarrow> nat \<Rightarrow> ('w, nat, GuestRegion) eff"
  guest_insert :: "GuestRegion list \<Rightarrow> GuestRegion \<Rightarrow> nat + GuestRegion list"
  set_user_memory_region :: "nat \<Rightarrow> nat \<Rightarrow> nat \<Rightarrow> nat \<Rightarrow> nat \<Rightarrow> ('w, nat, unit) eff"

record 'w as_state =
  as_world :: 'w
  as_rm :: ResourceManager
  as_mgr :: AddressSpaceMgr
  as_param :: AddressSpaceMgrBuilder

type_synonym ('w, 'a) as_eff = "('w as_state, AddressManagerError, 'a) eff"

definition on_world :: "('w, 'e, 'a) eff \<Rightarrow> ('w as_state, 'e, 'a) eff" where
  "on_world = eff_zoom as_world (\<lambda>w s. s\<lparr>as_world := w\<rparr>)"

definition on_mgr :: "(AddressSpaceMgr \<Rightarrow> AddressSpaceMgr) \<Rightarrow> ('w, unit) as_eff" where
  "on_mgr f = eff_modify (\<lambda>s. s\<lparr>as_mgr := f (as_mgr s)\<rparr>)"

text \<open>A call of a resource manager allocator that is expected to return something.\<close>

definition on_rm ::
  "AddressManagerError \<Rightarrow> (ResourceManager \<Rightarrow> (nat option \<times> ResourceManager) may_panic) \<Rightarrow> ('w, nat) as_eff" where
  "on_rm e alloc = (\<lambda>s. case alloc (as_rm s) of
     None \<Rightarrow> panic
   | Some (None, rm') \<Rightarrow> ret (Err e, s\<lparr>as_rm := rm'\<rparr>)
   | Some (Some v, rm') \<Rightarrow> ret (Ok v, s\<lparr>as_rm := rm'\<rparr>))"

section \<open>Creating regions\<close>

definition insert_into_numa_nodes :: "AddressSpaceRegion \<Rightarrow> nat \<Rightarrow> nat list \<Rightarrow> AddressSpaceMgr \<Rightarrow> AddressSpaceMgr" where
  "insert_into_numa_nodes region node_id ids mgr =
     (let node = (case numa_nodes mgr node_id of Some n \<Rightarrow> n | None \<Rightarrow> NumaNode_new);
          node1 = add_info node \<lparr>ni_base = base region, ni_size = rsize region\<rparr>
      in mgr\<lparr>numa_nodes := (numa_nodes mgr)(node_id \<mapsto> add_vcpu_ids node1 ids)\<rparr>)"

definition next_mem_file :: "('w, string) as_eff" where
  "next_mem_file = (\<lambda>s. case get_next_mem_file (as_param s) of
     None \<Rightarrow> panic
   | Some (path, p) \<Rightarrow> ret (Ok path, s\<lparr>as_param := p\<rparr>))"

definition create_region :: "'w vm_os \<Rightarrow> nat \<Rightarrow> nat \<Rightarrow> NumaRegionInfo \<Rightarrow> ('w, AddressSpaceRegion) as_eff" where
  "create_region os start_addr size_bytes info =
     eff_bind next_mem_file (\<lambda>path.
     eff_bind eff_get (\<lambda>s.
     eff_bind (eff_map_err CreateAddressSpaceRegion (on_world
        (create_default_memory_region (mem_os.truncate os) start_addr size_bytes (nr_host_numa info)
           (mem_type (as_param s)) path (mem_prealloc (as_param s)) False))) (\<lambda>region.
     eff_bind (on_mgr (insert_into_numa_nodes region (case nr_guest_numa info of Some n \<Rightarrow> n | None \<Rightarrow> 0) (nr_vcpu_ids info)))
       (\<lambda>_. eff_ret region))))"

section \<open>Mapping regions\<close>

text \<open>The pages each pre-allocation thread touches.\<close>

definition prealloc_plan :: "nat \<Rightarrow> (nat \<times> nat) list" where
  "prealloc_plan size_bytes =
     (let npage = drop_bit 12 size_bytes;
          touch_thread = min (drop_bit PRE_ALLOC_GRANULARITY size_bytes + 1) MAX_PRE_ALLOC_THREAD;
          per_npage = npage div touch_thread
      in map (\<lambda>n. (per_npage * n, if n = touch_thread - 1 then npage else per_npage * (n + 1))) [0 ..< touch_thread])"

fun spawn_all :: "'w vm_os \<Rightarrow> nat \<Rightarrow> (nat \<times> nat) list \<Rightarrow> ('w, unit) as_eff" where
  "spawn_all os addr [] = eff_ret ()"
| "spawn_all os addr ((start_npage, end_npage) # plan) = (\<lambda>s.
     case on_world (spawn_touch os (addr + start_npage * 4096) start_npage end_npage) s of
       None \<Rightarrow> panic
     | Some (Inl _, s') \<Rightarrow> spawn_all os addr plan s'
     | Some (Inr hdl, s') \<Rightarrow>
         spawn_all os addr plan (s'\<lparr>as_mgr := (as_mgr s')\<lparr>prealloc_handlers := prealloc_handlers (as_mgr s') @ [hdl]\<rparr>\<rparr>))"

definition configure_anon_mem :: "'w vm_os \<Rightarrow> nat \<Rightarrow> nat \<Rightarrow> ('w, unit) as_eff" where
  "configure_anon_mem os host len = eff_map_err Madvise (on_world (madvise os host len MADV_DONTFORK))"

definition configure_numa :: "'w vm_os \<Rightarrow> nat \<Rightarrow> nat \<Rightarrow> nat \<Rightarrow> ('w, unit) as_eff" where
  "configure_numa os host len node_id =
     (if node_id < 64 then eff_ignore (on_world (mbind os host len (2 ^ node_id))) else eff_fail AmInvalidOperation)"

definition configure_thp_and_prealloc :: "'w vm_os \<Rightarrow> AddressSpaceRegion \<Rightarrow> nat \<Rightarrow> nat \<Rightarrow> ('w, unit) as_eff" where
  "configure_thp_and_prealloc os region host len =
     eff_bind (eff_map_err Madvise (on_world (madvise os host len MADV_HUGEPAGE))) (\<lambda>_.
       if MAP_POPULATE \<in> perm_flags region then spawn_all os host (prealloc_plan len) else eff_ret ())"

definition dup_file_offset :: "'w vm_os \<Rightarrow> FileOffset option \<Rightarrow> ('w, FileOffset option) as_eff" where
  "dup_file_offset os fo =
     (case fo of
        Some f \<Rightarrow> eff_bind (eff_map_err DupFd (on_world (dup_fd os (fo_file f)))) (\<lambda>fd. eff_ret (Some (f\<lparr>fo_file := fd\<rparr>)))
      | None \<Rightarrow> eff_ret None)"

definition create_mmap_region :: "'w vm_os \<Rightarrow> AddressSpaceRegion \<Rightarrow> ('w, GuestRegion) as_eff" where
  "create_mmap_region os region =
     (if rsize region > u64_max then eff_fail (AmInvalidAddressRange (base region) (rsize region))
      else if ty region = DeviceMemory then eff_fail AmInvalidOperation
      else
        eff_bind (dup_file_offset os (file_offset region)) (\<lambda>fo.
        let perm = (if MAP_POPULATE \<in> perm_flags region \<and> is_hugepage region
                    then perm_flags region - {MAP_POPULATE} else perm_flags region) in
        eff_bind (eff_map_err MmapGuestMemory (on_world (mmap_build os fo (rsize region) perm))) (\<lambda>host.
        eff_bind (if is_anon region then configure_anon_mem os host (rsize region) else eff_ret ()) (\<lambda>_.
        eff_bind (case host_numa_node_id region of
                    Some node_id \<Rightarrow> configure_numa os host (rsize region) node_id
                  | None \<Rightarrow> eff_ret ()) (\<lambda>_.
        eff_bind (if is_hugepage region then configure_thp_and_prealloc os region host (rsize region) else eff_ret ()) (\<lambda>_.
        eff_map_err CreateGuestMemory (on_world (guest_region_new os host (rsize region) (base region)))))))))"

definition map_to_kvm :: "'w vm_os \<Rightarrow> AddressSpaceRegion \<Rightarrow> GuestRegion \<Rightarrow> ('w, unit) as_eff" where
  "map_to_kvm os reg mmap_reg =
     eff_bind (on_rm NoAvailableKvmSlot (\<lambda>rm. allocate_kvm_mem_slot rm 1 None)) (\<lambda>slot.
     eff_bind eff_get (\<lambda>s.
     eff_bind (case vmfd (as_param s) of
                 Some fd \<Rightarrow> eff_map_err KvmSetMemorySlot
                   (on_world (set_user_memory_region os fd slot (base reg) (rsize reg) (gr_host mmap_reg)))
               | None \<Rightarrow> eff_ret ()) (\<lambda>_.
     on_mgr (\<lambda>m. m\<lparr>base_to_slot := (base_to_slot m)(base reg \<mapsto> slot)\<rparr>))))"

section \<open>Creating the address space\<close>

text \<open>\<open>u64::checked_shl(20)\<close> only checks the shift distance: high bits are lost.\<close>

definition mib_to_bytes :: "nat \<Rightarrow> nat" where
  "mib_to_bytes n = (n * 2 ^ 20) mod 2 ^ 64"

fun create_regions ::
  "'w vm_os \<Rightarrow> NumaRegionInfo list \<Rightarrow> nat \<Rightarrow> AddressSpaceRegion list \<Rightarrow> ('w, AddressSpaceRegion list) as_eff" where
  "create_regions os [] start_addr rs = eff_ret rs"
| "create_regions os (info # infos) start_addr rs =
     (let sz = mib_to_bytes (nr_size info) in
      eff_bind (eff_total (if start_addr > MMIO_LOW_END then ret True
                           else map_option (\<lambda>e. e \<le> MMIO_LOW_START) (checked_add u64_max start_addr sz))) (\<lambda>outside.
      if outside then
        eff_bind (create_region os start_addr sz info) (\<lambda>region.
        eff_bind (eff_opt AmInvalidOperation (checked_add u64_max start_addr sz)) (\<lambda>next.
        create_regions os infos next (rs @ [region])))
      else
        eff_bind (eff_opt AmInvalidOperation (checked_sub MMIO_LOW_START start_addr)) (\<lambda>below.
        eff_bind (if below < MINIMAL_SPLIT_SPACE then eff_ret (0, rs)
                  else eff_bind (create_region os start_addr below info) (\<lambda>region. eff_ret (below, rs @ [region]))) (\<lambda>(below_size, rs1).
        eff_bind (eff_opt AmInvalidOperation (checked_sub sz below_size)) (\<lambda>above_size.
        eff_bind (create_region os (MMIO_LOW_END + 1) above_size info) (\<lambda>region.
        eff_bind (eff_opt AmInvalidOperation (checked_add u64_max (MMIO_LOW_END + 1) above_size)) (\<lambda>next.
        create_regions os infos next (rs1 @ [region]))))))))"

definition take_mem_address :: "AddressSpaceRegion \<Rightarrow> ('w, nat) as_eff" where
  "take_mem_address reg =
     eff_bind (eff_total (region_last_addr reg)) (\<lambda>last_addr.
     on_rm NoAvailableMemAddress (\<lambda>rm. allocate_mem_address rm
       (Constraint_max (Constraint_min (Constraint_new (rsize reg)) (base reg)) last_addr)))"

fun map_regions :: "'w vm_os \<Rightarrow> AddressSpaceRegion list \<Rightarrow> GuestRegion list \<Rightarrow> ('w, GuestRegion list) as_eff" where
  "map_regions os [] vm_memory = eff_ret vm_memory"
| "map_regions os (reg # rs) vm_memory =
     eff_bind (take_mem_address reg) (\<lambda>_.
     eff_bind (create_mmap_region os reg) (\<lambda>mmap_reg.
     eff_bind (case guest_insert os vm_memory mmap_reg of
                 Inl e \<Rightarrow> eff_fail (CreateGuestMemory e) | Inr vm \<Rightarrow> eff_ret vm) (\<lambda>vm_memory'.
     eff_bind (map_to_kvm os reg mmap_reg) (\<lambda>_.
     map_regions os rs vm_memory'))))"

definition create_address_space ::
  "'w vm_os \<Rightarrow> nat \<Rightarrow> nat \<Rightarrow> nat \<Rightarrow> NumaRegionInfo list \<Rightarrow> ('w, unit) as_eff" where
  "create_address_space os pe me ue infos =
     eff_bind (create_regions os infos GUEST_MEM_START []) (\<lambda>rs.
     eff_bind (map_regions os rs []) (\<lambda>vm_memory.
     eff_bind (on_mgr (\<lambda>m. m\<lparr>vm_as := Some vm_memory\<rparr>)) (\<lambda>_.
     eff_bind (eff_total (from_regions rs (layout_new ue pe GUEST_MEM_START me))) (\<lambda>b.
     on_mgr (\<lambda>m. m\<lparr>address_space := Some b\<rparr>)))))"

definition builder_build ::
  "'w vm_os \<Rightarrow> nat \<Rightarrow> nat \<Rightarrow> nat \<Rightarrow> NumaRegionInfo list \<Rightarrow> 'w \<Rightarrow> ResourceManager \<Rightarrow> AddressSpaceMgrBuilder \<Rightarrow>
     ((AddressManagerError + AddressSpaceMgr) \<times> ResourceManager \<times> 'w) may_panic" where
  "builder_build os pe me ue infos w rm b =
     (case create_address_space os pe me ue infos
             \<lparr>as_world = w, as_rm = rm, as_mgr = mgr_default, as_param = b\<rparr> of
        None \<Rightarrow> panic
      | Some (Inl e, s) \<Rightarrow> ret (Err e, as_rm s, as_world s)
      | Some (Inr _, s) \<Rightarrow> ret (Ok (as_mgr s), as_rm s, as_world s))"

definition get_layout :: "AddressSpaceMgr \<Rightarrow> AddressManagerError + AddressSpaceLayout" where
  "get_layout m = (case address_space m of Some b \<Rightarrow> Ok (layout b) | None \<Rightarrow> Err GuestMemoryNotInitialized)"

definition is_initialized :: "AddressSpaceMgr \<Rightarrow> bool" where
  "is_initialized m = (address_space m \<noteq> None)"

text \<open>\<open>pop\<close> takes the handlers from the end; the list given here is reversed.\<close>

fun wait_loop :: "'w vm_os \<Rightarrow> nat list \<Rightarrow> ('w, unit) as_eff" where
  "wait_loop os [] = eff_ret ()"
| "wait_loop os (h # hs) =
     eff_bind (on_mgr (\<lambda>m. m\<lparr>prealloc_handlers := rev hs\<rparr>)) (\<lambda>_.
     eff_bind (eff_map_err (\<lambda>_. JoinFail) (on_world (join_touch os h))) (\<lambda>_.
     wait_loop os hs))"

definition wait_prealloc :: "'w vm_os \<Rightarrow> bool \<Rightarrow> ('w, unit) as_eff" where
  "wait_prealloc os stop =
     eff_bind (if stop then on_mgr (\<lambda>m. m\<lparr>prealloc_exit := True\<rparr>) else eff_ret ()) (\<lambda>_.
     eff_bind eff_get (\<lambda>s. wait_loop os (rev (prealloc_handlers (as_mgr s)))))"

end
