(* ===== verification/AddressClaims.thy ===== *)
theory AddressClaims
  imports AddressSpaceMgr ResourceClaims
begin

text \<open>
  Properties of the guest address space: what \<open>from_regions\<close> accepts, what insertion keeps,
  the queries, the layout of guest memory around the MMIO hole and the memory slots.
\<close>

section \<open>What creating and mapping regions leaves alone\<close>

definition keeps :: "'w as_state \<Rightarrow> 'w as_state \<Rightarrow> bool" where
  "keeps s s' \<longleftrightarrow> as_rm s' = as_rm s \<and> base_to_slot (as_mgr s') = base_to_slot (as_mgr s)"

definition eff_keeps :: "('w as_state, 'e, 'a) eff \<Rightarrow> bool" where
  "eff_keeps m \<longleftrightarrow> (\<forall>s r s'. m s = Some (r, s') \<longrightarrow> keeps s s')"

lemma eff_keepsD: "eff_keeps m \<Longrightarrow> m s = Some (r, s') \<Longrightarrow> keeps s s'"
  by (simp add: eff_keeps_def)

lemma keeps_refl [simp]: "keeps s s"
  by (simp add: keeps_def)

lemma keeps_trans: "keeps s s' \<Longrightarrow> keeps s' s'' \<Longrightarrow> keeps s s''"
  by (simp add: keeps_def)

named_theorems keeps_intros \<open>computations that keep the resource manager and the slots\<close>

lemma keeps_basic [keeps_intros]:
  "eff_keeps (eff_ret x)" "eff_keeps (eff_fail e)" "eff_keeps eff_get" "eff_keeps (on_world m)"
  by (auto simp: eff_keeps_def keeps_def on_world_def)

lemma keeps_bind [keeps_intros]:
  assumes "eff_keeps m" "\<And>x. eff_keeps (f x)"
  shows "eff_keeps (eff_bind m f)"
  unfolding eff_keeps_def
proof (intro allI impI)
  fix s r s'' assume b: "eff_bind m f s = Some (r, s'')"
  then obtain r1 s1 where m: "m s = Some (r1, s1)" by (cases "m s") (auto simp: eff_bind_def)
  have "keeps s s1" using eff_keepsD [OF assms(1) m] .
  moreover have "keeps s1 s''"
    using b m eff_keepsD [OF assms(2)] by (cases r1) (auto simp: eff_bind_def)
  ultimately show "keeps s s''" by (rule keeps_trans)
qed

lemma keeps_map_err [keeps_intros]: "eff_keeps m \<Longrightarrow> eff_keeps (eff_map_err g m)"
  by (fastforce simp: eff_keeps_def eff_map_err_def split: option.splits prod.splits)

lemma keeps_ignore [keeps_intros]: "eff_keeps m \<Longrightarrow> eff_keeps (eff_ignore m)"
  by (fastforce simp: eff_keeps_def eff_ignore_def split: option.splits prod.splits)

lemma keeps_on_mgr [keeps_intros]: "(\<And>m. base_to_slot (f m) = base_to_slot m) \<Longrightarrow> eff_keeps (on_mgr f)"
  by (auto simp: eff_keeps_def on_mgr_def keeps_def)

lemma keeps_spawn [keeps_intros]: "eff_keeps (spawn_all os addr plan)"
  unfolding eff_keeps_def
proof (intro allI impI)
  fix s r s' assume "spawn_all os addr plan s = Some (r, s')"
  then show "keeps s s'"
  proof (induction plan arbitrary: s)
    case (Cons p plan)
    obtain a b where p: "p = (a, b)" by (cases p)
    obtain r1 s1 where w: "on_world (spawn_touch os (addr + a * 4096) a b) s = Some (r1, s1)"
      using Cons.prems by (cases "on_world (spawn_touch os (addr + a * 4096) a b) s") (auto simp: p)
    have k: "keeps s s1" using eff_keepsD [OF keeps_basic(4) w] .
    show ?case
    proof (cases r1)
      case (Inl e)
      then show ?thesis using Cons w k keeps_trans by (fastforce simp: p)
    next
      case (Inr h)
      let ?s2 = "s1\<lparr>as_mgr := (as_mgr s1)\<lparr>prealloc_handlers := prealloc_handlers (as_mgr s1) @ [h]\<rparr>\<rparr>"
      have "keeps s1 ?s2" by (simp add: keeps_def)
      moreover have "keeps ?s2 s'" using Cons.IH [of ?s2] Cons.prems w Inr by (simp add: p)
      ultimately show ?thesis using k keeps_trans by blast
    qed
  qed simp
qed

lemma create_mmap_region_keeps: "eff_keeps (create_mmap_region os region)"
  unfolding create_mmap_region_def dup_file_offset_def configure_anon_mem_def configure_numa_def
    configure_thp_and_prealloc_def Let_def
  by (auto intro!: keeps_intros split: option.splits)

lemma next_mem_file_keeps [keeps_intros]: "eff_keeps next_mem_file"
  by (auto simp: eff_keeps_def next_mem_file_def keeps_def split: option.splits prod.splits)

lemma insert_into_numa_slots: "base_to_slot (insert_into_numa_nodes r n ids m) = base_to_slot m"
  by (simp add: insert_into_numa_nodes_def Let_def)

lemma create_region_keeps: "eff_keeps (create_region os st sz info)"
  unfolding create_region_def by (auto intro!: keeps_intros simp: insert_into_numa_slots)

lemma create_region_Ok:
  assumes "create_region os st sz info s = Some (Ok reg, s')"
  shows "ty reg = DefaultMemory" "base reg = st" "rsize reg = sz"
proof -
  have "\<exists>mt path pre w w'. create_memory_region (mem_os.truncate os) st sz (nr_host_numa info) mt path pre
      {PROT_READ, PROT_WRITE} False w = Some (Ok reg, w')"
    using assms by (auto simp: create_region_def create_default_memory_region_def on_world_def) blast
  then obtain mt path pre w w' where "create_memory_region (mem_os.truncate os) st sz (nr_host_numa info) mt path pre
      {PROT_READ, PROT_WRITE} False w = Some (Ok reg, w')" by blast
  from create_memory_region_Ok [OF this] show "ty reg = DefaultMemory" "base reg = st" "rsize reg = sz" by auto
qed

section \<open>The layout of guest memory\<close>

definition place :: "AddressSpaceRegion \<Rightarrow> nat \<times> nat" where
  "place r = (base r, rsize r)"

text \<open>The reference: the regions for a list of sizes, with the hole skipped or split around.\<close>

fun memory_plan :: "nat list \<Rightarrow> nat \<Rightarrow> (nat \<times> nat) list" where
  "memory_plan [] start = []"
| "memory_plan (sz # szs) start =
     (if start > MMIO_LOW_END \<or> start + sz \<le> MMIO_LOW_START then (start, sz) # memory_plan szs (start + sz)
      else if MMIO_LOW_START - start < MINIMAL_SPLIT_SPACE
      then (MMIO_LOW_END + 1, sz) # memory_plan szs (MMIO_LOW_END + 1 + sz)
      else (start, MMIO_LOW_START - start) # (MMIO_LOW_END + 1, sz - (MMIO_LOW_START - start)) #
           memory_plan szs (MMIO_LOW_END + 1 + (sz - (MMIO_LOW_START - start))))"

definition outside_hole :: "nat \<Rightarrow> bool" where
  "outside_hole a \<longleftrightarrow> a \<le> MMIO_LOW_START \<or> MMIO_LOW_END < a"

lemma hole_order: "MMIO_LOW_START \<le> MMIO_LOW_END"
  by (simp add: rm_consts)

lemma memory_plan_good:
  assumes "outside_hole start"
  shows "sorted_wrt (\<lambda>(b, n) (b', n'). b + n \<le> b') (memory_plan szs start)"
    and "\<forall>(b, n) \<in> set (memory_plan szs start). start \<le> b \<and> (b + n \<le> MMIO_LOW_START \<or> MMIO_LOW_END < b)"
    and "sum_list (map snd (memory_plan szs start)) = sum_list szs"
proof -
  have "sorted_wrt (\<lambda>(b, n) (b', n'). b + n \<le> b') (memory_plan szs start) \<and>
    (\<forall>(b, n) \<in> set (memory_plan szs start). start \<le> b \<and> (b + n \<le> MMIO_LOW_START \<or> MMIO_LOW_END < b)) \<and>
    sum_list (map snd (memory_plan szs start)) = sum_list szs"
    using assms
  proof (induction szs start rule: memory_plan.induct)
    case (2 sz szs start)
    consider (in_place) "start > MMIO_LOW_END \<or> start + sz \<le> MMIO_LOW_START"
      | (skip) "\<not> (start > MMIO_LOW_END \<or> start + sz \<le> MMIO_LOW_START)" "MMIO_LOW_START - start < MINIMAL_SPLIT_SPACE"
      | (split) "\<not> (start > MMIO_LOW_END \<or> start + sz \<le> MMIO_LOW_START)" "\<not> MMIO_LOW_START - start < MINIMAL_SPLIT_SPACE"
      by blast
    then show ?case
    proof cases
      case in_place
      then have "outside_hole (start + sz)" using 2(4) by (auto simp: outside_hole_def)
      from 2(1) [OF in_place this] in_place show ?thesis by fastforce
    next
      case skip
      have "outside_hole (MMIO_LOW_END + 1 + sz)" by (simp add: outside_hole_def)
      from 2(2) [OF skip this] skip hole_order show ?thesis by fastforce
    next
      case split
      let ?b = "MMIO_LOW_START - start"
      have "outside_hole (MMIO_LOW_END + 1 + (sz - ?b))" by (simp add: outside_hole_def)
      from 2(3) [OF split this] split 2(4) hole_order show ?thesis
        by (fastforce simp: outside_hole_def)
    qed
  qed simp
  then show "sorted_wrt (\<lambda>(b, n) (b', n'). b + n \<le> b') (memory_plan szs start)"
    and "\<forall>(b, n) \<in> set (memory_plan szs start). start \<le> b \<and> (b + n \<le> MMIO_LOW_START \<or> MMIO_LOW_END < b)"
    and "sum_list (map snd (memory_plan szs start)) = sum_list szs" by blast+
qed

lemma create_regions_plan:
  assumes "create_regions os infos start rs s = Some (Ok rs', s')"
  shows "map place rs' = map place rs @ memory_plan (map (\<lambda>i. mib_to_bytes (nr_size i)) infos) start"
    and "(\<forall>r \<in> set rs. ty r = DefaultMemory) \<longrightarrow> (\<forall>r \<in> set rs'. ty r = DefaultMemory)"
    and "keeps s s'"
proof -
  have "map place rs' = map place rs @ memory_plan (map (\<lambda>i. mib_to_bytes (nr_size i)) infos) start \<and>
    ((\<forall>r \<in> set rs. ty r = DefaultMemory) \<longrightarrow> (\<forall>r \<in> set rs'. ty r = DefaultMemory)) \<and> keeps s s'"
    using assms
  proof (induction infos arbitrary: start rs s)
    case (Cons info infos)
    let ?sz = "mib_to_bytes (nr_size info)"
    show ?case
    proof (cases "start > MMIO_LOW_END \<or> start + ?sz \<le> MMIO_LOW_START")
      case True
      then obtain reg s1 where c: "create_region os start ?sz info s = Some (Ok reg, s1)"
        and r: "create_regions os infos (start + ?sz) (rs @ [reg]) s1 = Some (Ok rs', s')"
        using Cons.prems by (auto simp: checked_add_def Let_def split: if_splits)
      show ?thesis
        using Cons.IH [OF r] create_region_Ok [OF c] eff_keepsD [OF create_region_keeps c] True keeps_trans [of s s1]
        by (auto simp: place_def)
    next
      case False
      let ?b = "MMIO_LOW_START - start"
      show ?thesis
      proof (cases "?b < MINIMAL_SPLIT_SPACE")
        case small: True
        obtain reg s1 where c: "create_region os (MMIO_LOW_END + 1) ?sz info s = Some (Ok reg, s1)"
          and r: "create_regions os infos (MMIO_LOW_END + 1 + ?sz) (rs @ [reg]) s1 = Some (Ok rs', s')"
          using Cons.prems False small by (auto simp: checked_add_def checked_sub_def Let_def split: if_splits)
        show ?thesis
          using Cons.IH [OF r] create_region_Ok [OF c] eff_keepsD [OF create_region_keeps c] False small keeps_trans [of s s1]
          by (auto simp: place_def)
      next
        case big: False
        obtain reg0 s0 reg s1 where c0: "create_region os start ?b info s = Some (Ok reg0, s0)"
          and c: "create_region os (MMIO_LOW_END + 1) (?sz - ?b) info s0 = Some (Ok reg, s1)"
          and r: "create_regions os infos (MMIO_LOW_END + 1 + (?sz - ?b)) (rs @ [reg0, reg]) s1 = Some (Ok rs', s')"
          using Cons.prems False big by (auto simp: checked_add_def checked_sub_def Let_def split: if_splits)
        have "keeps s s1"
          using eff_keepsD [OF create_region_keeps c0] eff_keepsD [OF create_region_keeps c] keeps_trans by blast
        then show ?thesis
          using Cons.IH [OF r] create_region_Ok [OF c0] create_region_Ok [OF c] False big keeps_trans [of s s1]
          by (auto simp: place_def)
      qed
    qed
  qed simp
  then show "map place rs' = map place rs @ memory_plan (map (\<lambda>i. mib_to_bytes (nr_size i)) infos) start"
    and "(\<forall>r \<in> set rs. ty r = DefaultMemory) \<longrightarrow> (\<forall>r \<in> set rs'. ty r = DefaultMemory)"
    and "keeps s s'" by blast+
qed

section \<open>Addresses and memory slots\<close>

definition mem_holding :: "AddressSpaceRegion \<Rightarrow> holding" where
  "mem_holding r = (KMem, \<lparr>rmin = base r, rmax = base r + rsize r - 1\<rparr>, Allocated)"

definition slot_holding :: "nat \<Rightarrow> holding" where
  "slot_holding slot = (KKvm, \<lparr>rmin = slot, rmax = slot\<rparr>, Valued ())"

lemma take_mem_address_Ok:
  assumes "rm_inv me (as_rm s)" "take_mem_address reg s = Some (Ok v, s')"
  shows "grants me (as_rm s) (mem_holding reg) (as_rm s')" "as_mgr s' = as_mgr s" "0 < rsize reg"
proof -
  let ?c = "Constraint_max (Constraint_min (Constraint_new (rsize reg)) (base reg)) (base reg + rsize reg - 1)"
  let ?f = "\<lambda>p. as_rm s\<lparr>mem_pool := p\<rparr>"
  have sz: "0 < rsize reg" "region_last_addr reg = Some (base reg + rsize reg - 1)"
    using assms(2) by (auto simp: take_mem_address_def region_last_addr_def eff_total_def split: if_splits)
  then obtain rm' where a: "allocate_mem_address (as_rm s) ?c = Some (Some v, rm')" and s': "s' = s\<lparr>as_rm := rm'\<rparr>"
    using assms(2) by (auto simp: take_mem_address_def on_rm_def split: option.splits prod.splits)
  obtain r p' where r: "it_allocate (pool_of (as_rm s) KMem) ?c = Some (Some r, p')" "meets r ?c"
      "grants me (as_rm s) (KMem, r, Allocated) (?f p')"
    using plain_pool_cases [OF assms(1), of ?f KMem ?c] a
    by (auto simp: pool_of_update allocate_mem_address_def)
  have "r = \<lparr>rmin = base reg, rmax = base reg + rsize reg - 1\<rparr>"
    using r(2) sz(1) by (cases r) (auto simp: meets_def Constraint_max_def Constraint_min_def Constraint_new_def)
  moreover have "rm' = ?f p'" using a r(1) by (simp add: allocate_mem_address_def)
  ultimately show "grants me (as_rm s) (mem_holding reg) (as_rm s')" using r(3) s' by (simp add: mem_holding_def)
  show "as_mgr s' = as_mgr s" "0 < rsize reg" using s' sz by simp_all
qed

lemma map_to_kvm_Ok:
  assumes "rm_inv me (as_rm s)" "map_to_kvm os reg mm s = Some (Ok v, s')"
  shows "\<exists>slot. grants me (as_rm s) (slot_holding slot) (as_rm s') \<and>
    base_to_slot (as_mgr s') = (base_to_slot (as_mgr s))(base reg \<mapsto> slot)"
proof -
  let ?f = "\<lambda>p. as_rm s\<lparr>kvm_mem_slot_pool := p\<rparr>"
  obtain slot rm' where a: "allocate_kvm_mem_slot (as_rm s) 1 None = Some (Some slot, rm')"
    and s': "as_rm s' = rm'" "base_to_slot (as_mgr s') = (base_to_slot (as_mgr s))(base reg \<mapsto> slot)"
    using assms(2) by (auto simp: map_to_kvm_def on_rm_def on_world_def on_mgr_def split: option.splits prod.splits)
  obtain r p' where r: "allocate_marked (pool_of (as_rm s) KKvm) (fixed_constraint 1 None) = Some (Some r, p')"
      "meets r (fixed_constraint 1 None)" "range_pts r \<subseteq> free_pts (pool_of (as_rm s) KKvm)"
      "grants me (as_rm s) (KKvm, r, Valued ()) (?f p')"
    using marked_pool_cases [OF assms(1), of ?f KKvm "fixed_constraint 1 None"] a
    by (auto simp: pool_of_update allocate_kvm_mem_slot_def as_width_def)
  have "slot = rmin r" "rm' = ?f p'"
    using a r(1) as_width_bounds(2) [OF assms(1) r(3,2)] by (auto simp: allocate_kvm_mem_slot_def)
  moreover have "\<lparr>rmin = rmin r, rmax = rmin r\<rparr> = r" using r(2) by (cases r) (auto simp: meets_def)
  ultimately have "grants me (as_rm s) (slot_holding slot) (as_rm s')" using r(4) s' by (simp add: slot_holding_def)
  then show ?thesis using s' by blast
qed

text \<open>What mapping a list of regions takes from the resource manager.\<close>

definition mapped ::
  "nat \<Rightarrow> 'w as_state \<Rightarrow> AddressSpaceRegion list \<Rightarrow> nat list \<Rightarrow> 'w as_state \<Rightarrow> bool" where
  "mapped me s rs slots s' \<longleftrightarrow> length slots = length rs \<and> distinct slots \<and> rm_inv me (as_rm s') \<and>
     rm_used (as_rm s') = rm_used (as_rm s) \<union> mem_holding ` set rs \<union> slot_holding ` set slots \<and>
     (mem_holding ` set rs \<union> slot_holding ` set slots) \<inter> rm_used (as_rm s) = {} \<and>
     base_to_slot (as_mgr s') = (base_to_slot (as_mgr s))(map base rs [\<mapsto>] slots)"

lemma slot_holding_inj [simp]: "slot_holding a = slot_holding b \<longleftrightarrow> a = b" "mem_holding r \<noteq> slot_holding a"
  by (auto simp: slot_holding_def mem_holding_def)

lemma mapped_Cons:
  assumes g: "grants me (as_rm s) (mem_holding r) (as_rm s1)" "as_mgr s1 = as_mgr s"
    and k: "keeps s1 s2"
    and sl: "grants me (as_rm s2) (slot_holding slot) (as_rm s3)"
      "base_to_slot (as_mgr s3) = (base_to_slot (as_mgr s2))(base r \<mapsto> slot)"
    and m: "mapped me s3 rs slots s'"
  shows "mapped me s (r # rs) (slot # slots) s'"
proof -
  have u: "rm_used (as_rm s3) = insert (slot_holding slot) (insert (mem_holding r) (rm_used (as_rm s)))"
    using g(1) k sl(1) by (simp add: grants_def keeps_def)
  have fresh: "mem_holding r \<notin> rm_used (as_rm s)" "slot_holding slot \<notin> rm_used (as_rm s)"
    using g(1) k sl(1) by (auto simp: grants_def keeps_def)
  have d: "(mem_holding ` set rs \<union> slot_holding ` set slots) \<inter> rm_used (as_rm s3) = {}"
    using m unfolding mapped_def by blast
  then have "slot \<notin> set slots" "(mem_holding ` set rs \<union> slot_holding ` set slots) \<inter> rm_used (as_rm s) = {}"
    unfolding u by auto
  moreover have "base_to_slot (as_mgr s3) = (base_to_slot (as_mgr s))(base r \<mapsto> slot)"
    using g(2) k sl(2) by (simp add: keeps_def)
  ultimately show ?thesis using m fresh u unfolding mapped_def by auto
qed

lemma map_regions_Ok:
  assumes "rm_inv me (as_rm s)" "map_regions os rs vm s = Some (Ok vm', s')"
  shows "(\<exists>slots. mapped me s rs slots s') \<and> (\<forall>r \<in> set rs. 0 < rsize r)"
  using assms
proof (induction rs arbitrary: vm s)
  case Nil
  then show ?case by (auto simp: mapped_def)
next
  case (Cons r rs)
  obtain v s1 mm s2 v3 vm3 s3 where t: "take_mem_address r s = Some (Ok v, s1)"
    and c: "create_mmap_region os r s1 = Some (Ok mm, s2)"
    and k: "map_to_kvm os r mm s2 = Some (Ok v3, s3)"
    and rest: "map_regions os rs vm3 s3 = Some (Ok vm', s')"
    using Cons.prems(2)
  proof -
    from Cons.prems(2) obtain v s1 mm s2 vm3 s4 v3 s3 where "take_mem_address r s = Some (Ok v, s1)"
        "create_mmap_region os r s1 = Some (Ok mm, s2)"
        "(case guest_insert os vm mm of Inl e \<Rightarrow> eff_fail (CreateGuestMemory e) | Inr vm \<Rightarrow> eff_ret vm) s2 = Some (Ok vm3, s4)"
        "map_to_kvm os r mm s4 = Some (Ok v3, s3)" "map_regions os rs vm3 s3 = Some (Ok vm', s')"
      unfolding map_regions.simps eff_bind_Ok by blast
    moreover have "s4 = s2" using calculation(3) by (cases "guest_insert os vm mm") auto
    ultimately show thesis using that by blast
  qed
  note g = take_mem_address_Ok [OF Cons.prems(1) t]
  have kp: "keeps s1 s2" using eff_keepsD [OF create_mmap_region_keeps c] .
  then have "rm_inv me (as_rm s2)" using g(1) by (simp add: keeps_def grants_def)
  then obtain slot where sl: "grants me (as_rm s2) (slot_holding slot) (as_rm s3)"
      "base_to_slot (as_mgr s3) = (base_to_slot (as_mgr s2))(base r \<mapsto> slot)"
    using map_to_kvm_Ok [OF _ k] by blast
  then have "rm_inv me (as_rm s3)" by (simp add: grants_def)
  from Cons.IH [OF this rest] show ?case using mapped_Cons [OF g(1,2) kp sl] g(3) by auto
qed

section \<open>Building the list of regions\<close>

lemma from_regions_inv:
  assumes "\<forall>r \<in> set rs. 0 < rsize r" "from_regions rs lay = Some b"
  shows "as_inv b" "regions b = sort_key base rs" "layout b = lay"
proof -
  have b: "b = \<lparr>regions = sort_key base rs, layout = lay\<rparr>" "\<forall>r \<in> set rs. is_region_valid lay r" "adjacent_disjoint (sort_key base rs)"
    using assms(2) by (auto simp: from_regions_def Let_def list_all_iff split: if_splits)
  have "disjoint_regions (sort_key base rs)"
    using sorted_adjacent [of "sort_key base rs"] b(2,3) assms(1) valid_region by auto
  then show "as_inv b" "regions b = sort_key base rs" "layout b = lay" using b(1,2) assms(1) by (auto simp: as_inv_def)
qed

lemma disjoint_sort: "disjoint_regions (sort_key base rs) \<longleftrightarrow> disjoint_regions rs"
  using disjoint_regions_mset [of rs "sort_key base rs"] disjoint_regions_mset [of "sort_key base rs" rs] by auto

lemma from_regions_eq:
  assumes "\<forall>r \<in> set rs. 0 < rsize r"
  shows "from_regions rs lay =
    (if (\<forall>r \<in> set rs. is_region_valid lay r) \<and> disjoint_regions rs
     then Some \<lparr>regions = sort_key base rs, layout = lay\<rparr> else None)"
proof (cases "\<forall>r \<in> set rs. is_region_valid lay r")
  case True
  then have "adjacent_disjoint (sort_key base rs) = disjoint_regions rs"
    using sorted_adjacent [of "sort_key base rs"] assms valid_region disjoint_sort by auto
  then show ?thesis using True by (simp add: from_regions_def list_all_iff)
next
  case False
  then show ?thesis by (auto simp: from_regions_def list_all_iff)
qed

lemma plan_regions_sorted:
  assumes "map place rs = memory_plan szs start" "outside_hole start"
  shows "sort_key base rs = rs"
proof -
  have "sorted_wrt (\<lambda>a b. base a + rsize a \<le> base b) rs"
    using memory_plan_good(1) [OF assms(2), of szs] by (simp add: assms(1) [symmetric] sorted_wrt_map place_def)
  then have "sorted_wrt (\<lambda>a b. base a \<le> base b) rs" by (rule sorted_wrt_mono_rel [rotated]) auto
  then show ?thesis by (simp add: sort_key_id_if_sorted sorted_wrt_map)
qed

section \<open>Properties\<close>

definition demo_layout :: AddressSpaceLayout where
  "demo_layout = layout_new 0 1000 0 500"

definition demo_region :: "nat \<Rightarrow> nat \<Rightarrow> AddressSpaceRegion" where
  "demo_region b n = region_new DefaultMemory b n"

definition demo_as :: AddressSpaceBase where
  "demo_as = \<lparr>regions = [demo_region 0 100, demo_region 200 50], layout = demo_layout\<rparr>"

lemma demo_as_inv: "as_inv demo_as"
  by (auto simp: as_inv_def demo_as_def demo_region_def region_new_def disjoint_regions_def region_pts_def
      is_region_valid_def demo_layout_def layout_new_def checked_add_def u_max_vals)

text \<open>Building an address space from non-empty regions returns exactly when every region fits
  the layout and no two regions share an address; the result holds the same regions, sorted by
  base, and satisfies the invariant.
\<close>

theorem from_regions_exact:
  assumes "\<forall>r \<in> set rs. 0 < rsize r"
  shows "(from_regions rs lay \<noteq> None \<longleftrightarrow> (\<forall>r \<in> set rs. is_region_valid lay r) \<and> disjoint_regions rs) \<and>
    (\<forall>b. from_regions rs lay = Some b \<longrightarrow>
       as_inv b \<and> mset (regions b) = mset rs \<and> sorted (map base (regions b)) \<and> layout b = lay)"
  using from_regions_inv [OF assms] by (auto simp: from_regions_eq [OF assms] split: if_splits)

theorem from_regions_exact_witness:
  "from_regions [demo_region 200 50, demo_region 0 100] demo_layout \<noteq> None"
proof -
  have "(\<forall>r \<in> set [demo_region 200 50, demo_region 0 100]. is_region_valid demo_layout r) \<and>
      disjoint_regions [demo_region 200 50, demo_region 0 100]"
    using demo_as_inv by (auto simp: as_inv_def demo_as_def disjoint_regions_def)
  then show ?thesis
    using from_regions_exact [of "[demo_region 200 50, demo_region 0 100]" demo_layout]
    by (simp add: demo_region_def region_new_def)
qed

text \<open>C31: inserting a non-empty region into a well-formed address space never panics.  It succeeds
  exactly when the region fits the layout and shares no address with a region already there;
  then the region is added, otherwise the address space is unchanged.  The invariant holds
  afterwards in both cases.
\<close>

theorem insert_region_exact:
  assumes "as_inv b" "0 < rsize r"
  shows "insert_region b r =
      Some (if is_region_valid (layout b) r \<and> (\<forall>r' \<in> set (regions b). region_pts r' \<inter> region_pts r = {})
            then (Ok (), b\<lparr>regions := sort_key base (regions b) @ [r]\<rparr>)
            else (Err (InvalidAddressRange (base r) (rsize r)), b)) \<and>
    (\<forall>res b'. insert_region b r = Some (res, b') \<longrightarrow> as_inv b')"
proof -
  let ?b = "b\<lparr>regions := sort_key base (regions b)\<rparr>"
  have pos: "\<forall>r' \<in> set (regions b). 0 < rsize r' \<and> is_region_valid (layout b) r'" and d: "disjoint_regions (regions b)"
    using assms(1) by (auto simp: as_inv_def)
  have f: "from_regions (regions b) (layout b) = Some ?b"
    using from_regions_eq [of "regions b" "layout b"] pos d by simp
  have x: "list_ex (\<lambda>r'. intersect_with r' r) (regions ?b) \<longleftrightarrow> \<not> (\<forall>r' \<in> set (regions b). region_pts r' \<inter> region_pts r = {})"
    if v: "is_region_valid (layout b) r"
  proof -
    have "intersect_with r' r \<longleftrightarrow> region_pts r' \<inter> region_pts r \<noteq> {}" if "r' \<in> set (regions b)" for r'
      using intersect_with_pts [of r' r] valid_region pos that v assms(2) by blast
    then show ?thesis by (auto simp: list_ex_iff)
  qed
  have "as_inv (b\<lparr>regions := sort_key base (regions b) @ [r]\<rparr>)"
    if "is_region_valid (layout b) r \<and> (\<forall>r' \<in> set (regions b). region_pts r' \<inter> region_pts r = {})"
    using that pos d assms(2) by (auto simp: as_inv_def disjoint_regions_append1 disjoint_sort)
  moreover have "insert_region b r =
      Some (if is_region_valid (layout b) r \<and> (\<forall>r' \<in> set (regions b). region_pts r' \<inter> region_pts r = {})
            then (Ok (), b\<lparr>regions := sort_key base (regions b) @ [r]\<rparr>)
            else (Err (InvalidAddressRange (base r) (rsize r)), b))"
    using x by (simp add: insert_region_def f base_insert_region_def)
  ultimately show ?thesis using assms(1) by (auto split: if_splits)
qed

theorem insert_region_exact_witness:
  "insert_region demo_as (demo_region 90 20) = Some (Err (InvalidAddressRange 90 20), demo_as) \<and>
   (\<exists>b'. insert_region demo_as (demo_region 100 20) = Some (Ok (), b') \<and> as_inv b')"
  using insert_region_exact [OF demo_as_inv, of "demo_region 90 20"] insert_region_exact [OF demo_as_inv, of "demo_region 100 20"]
  by (auto simp: demo_as_def demo_region_def region_new_def region_pts_def is_region_valid_def demo_layout_def
      layout_new_def checked_add_def u_max_vals)

text \<open>On a well-formed address space the queries never panic and answer for the one region that
  holds the address: its protection flags and its NUMA node, or the error and none when no region
  holds it; an address is DAX memory when a DAX region holds it; the last address is the
  largest last address of a region that is not DAX, and at least the start of memory.
\<close>

theorem queries_exact:
  assumes "as_inv b"
  shows "(\<forall>r \<in> set (regions b). addr \<in> region_pts r \<longrightarrow>
      as_prot_flags b addr = Some (Ok (prot_flags r)) \<and> as_numa_node_id b addr = Some (host_numa_node_id r) \<and>
      is_dax_region b addr = Some (ty r = DAXMemory)) \<and>
    (addr \<notin> (\<Union>r \<in> set (regions b). region_pts r) \<longrightarrow>
      as_prot_flags b addr = Some (Err InvalidRegionType) \<and> as_numa_node_id b addr = Some None \<and>
      is_dax_region b addr = Some False) \<and>
    as_last_addr b = Some (Max (insert (mem_start (layout b))
      ((\<lambda>r. base r + rsize r - 1) ` {r \<in> set (regions b). ty r \<noteq> DAXMemory})))"
proof -
  have v: "\<forall>r \<in> set (regions b). region_is_valid r" using assms valid_region by (auto simp: as_inv_def)
  note l = loops_find [OF v, of addr, folded region_at_def]
  have dax: "(\<exists>r' \<in> set (regions b). ty r' = DAXMemory \<and> addr \<in> region_pts r') \<longleftrightarrow> ty r = DAXMemory"
    if "r \<in> set (regions b)" "addr \<in> region_pts r" for r
    using that assms disjoint_regions_unique [of "regions b"] by (auto simp: as_inv_def)
  have some: "region_at b addr = Some r" if "r \<in> set (regions b)" "addr \<in> region_pts r" for r
    using that region_at_iff [OF assms] by blast
  have none: "region_at b addr = None" if "addr \<notin> (\<Union>r \<in> set (regions b). region_pts r)"
    using that region_at_iff [OF assms, of addr] by (cases "region_at b addr") auto
  show ?thesis
    using l last_addr_loop_eq [OF v] dax none some
    by (auto simp: as_prot_flags_def as_numa_node_id_def is_dax_region_def as_last_addr_def)
qed

theorem queries_exact_witness:
  "as_numa_node_id demo_as 220 = Some None \<and> as_prot_flags demo_as 220 = Some (Ok {PROT_READ, PROT_WRITE}) \<and>
   as_prot_flags demo_as 100 = Some (Err InvalidRegionType) \<and> as_last_addr demo_as = Some 249"
proof -
  have "{r \<in> set (regions demo_as). ty r \<noteq> DAXMemory} = {demo_region 0 100, demo_region 200 50}"
    by (auto simp: demo_as_def demo_region_def region_new_def)
  then show ?thesis
    using queries_exact [OF demo_as_inv, of 220] queries_exact [OF demo_as_inv, of 100]
    by (simp add: demo_as_def demo_region_def region_new_def region_pts_def demo_layout_def layout_new_def)
qed

text \<open>C13: when the address space of a virtual machine is created, its regions are exactly the reference
  plan for the requested sizes: memory from the start address upwards, in order, around the MMIO
  hole below 4 GiB, with no byte lost.  The regions are well formed, every one is main memory and
  holds its own guest address range and its own memory slot in the resource manager, and the table
  from base address to slot names exactly these slots.
\<close>

theorem create_address_space_ok:
  assumes inv: "rm_inv me (as_rm s)" and c: "create_address_space os pe me ue infos s = Some (Ok (), s')"
  shows "\<exists>b slots. address_space (as_mgr s') = Some b \<and> as_inv b \<and>
    map place (regions b) = memory_plan (map (\<lambda>i. mib_to_bytes (nr_size i)) infos) GUEST_MEM_START \<and>
    (\<forall>r \<in> set (regions b). ty r = DefaultMemory \<and> region_pts r \<inter> {MMIO_LOW_START .. MMIO_LOW_END} = {}) \<and>
    sum_list (map rsize (regions b)) = sum_list (map (\<lambda>i. mib_to_bytes (nr_size i)) infos) \<and>
    mapped me s (regions b) slots s'"
proof -
  let ?szs = "map (\<lambda>i. mib_to_bytes (nr_size i)) infos"
  obtain rs s1 vm s2 b where cr: "create_regions os infos GUEST_MEM_START [] s = Some (Ok rs, s1)"
    and m: "map_regions os rs [] s1 = Some (Ok vm, s2)"
    and f: "from_regions rs (layout_new ue pe GUEST_MEM_START me) = Some b"
    and s': "as_rm s' = as_rm s2" "base_to_slot (as_mgr s') = base_to_slot (as_mgr s2)" "address_space (as_mgr s') = Some b"
    using c by (auto simp: create_address_space_def on_mgr_def eff_total_def)
  have start: "outside_hole GUEST_MEM_START" by (simp add: outside_hole_def rm_consts)
  note p = create_regions_plan [OF cr, simplified]
  have "rm_inv me (as_rm s1)" using inv p(3) by (simp add: keeps_def)
  from map_regions_Ok [OF this m] obtain slots where sl: "mapped me s1 rs slots s2" "\<forall>r \<in> set rs. 0 < rsize r" by blast
  have "mapped me s rs slots s'" using sl(1) p(3) s' by (simp add: mapped_def keeps_def)
  moreover have b: "as_inv b" "regions b = rs"
    using from_regions_inv [OF sl(2) f] plan_regions_sorted [OF p(1) start] by simp_all
  moreover have "region_pts r \<inter> {MMIO_LOW_START .. MMIO_LOW_END} = {}" if "r \<in> set rs" for r
  proof -
    have "place r \<in> set (memory_plan ?szs GUEST_MEM_START)" using that p(1) by (metis image_eqI set_map)
    then show ?thesis using memory_plan_good(2) [OF start, of ?szs] by (auto simp: place_def region_pts_def)
  qed
  moreover have "map rsize rs = map snd (memory_plan ?szs GUEST_MEM_START)"
    using p(1) by (simp add: place_def flip: p(1))
  ultimately show ?thesis using p(1,2) s'(3) memory_plan_good(3) [OF start, of ?szs] by auto
qed

definition demo_os :: "unit vm_os" where
  "demo_os = \<lparr>memfd_create = (\<lambda>_. eff_ret 3), set_len = (\<lambda>_ _. eff_ret ()), create_dir_all = (\<lambda>_. eff_ret ()),
     open_file = (\<lambda>_. eff_ret 3), unlink = (\<lambda>_. eff_ret ()), path_parent = (\<lambda>_. None),
     dup_fd = (\<lambda>fd. eff_ret (fd + 1)), mmap_build = (\<lambda>_ _ _. eff_ret 4096), madvise = (\<lambda>_ _ _. eff_ret ()),
     mbind = (\<lambda>_ _ _. eff_ret ()), spawn_touch = (\<lambda>_ _ _. eff_ret 1), join_touch = (\<lambda>_. eff_ret ()),
     guest_region_new = (\<lambda>h n b. eff_ret \<lparr>gr_host = h, gr_len = n, gr_base = b\<rparr>),
     guest_insert = (\<lambda>rs r. Inr (rs @ [r])), set_user_memory_region = (\<lambda>_ _ _ _ _. eff_ret ())\<rparr>"

definition demo_state :: "unit as_state" where
  "demo_state = \<lparr>as_world = (),
     as_rm = rm_default\<lparr>mem_pool := InnerNode_new \<lparr>rmin = 0, rmax = 0x3FFFFF\<rparr> Free,
                        kvm_mem_slot_pool := InnerNode_new \<lparr>rmin = 0, rmax = 3\<rparr> Free\<rparr>,
     as_mgr = mgr_default,
     as_param = \<lparr>mem_type = ''shmem'', mem_file = '''', mem_index = 0, mem_suffix = False, mem_prealloc = False,
                 dirty_page_logging = False, vmfd = Some 7\<rparr>\<rparr>"

definition demo_info :: NumaRegionInfo where
  "demo_info = \<lparr>nr_size = 1, nr_host_numa = None, nr_guest_numa = Some 0, nr_vcpu_ids = [0]\<rparr>"

theorem create_address_space_ok_witness:
  "\<exists>s' b. create_address_space demo_os 0xFFFFFFFFF 0x3FFFFF 0x3FFFFF [demo_info] demo_state = Some (Ok (), s') \<and>
     address_space (as_mgr s') = Some b \<and> map place (regions b) = [(0, 0x100000)] \<and>
     rm_used (as_rm demo_state) \<subseteq> rm_used (as_rm s')"
proof -
  have inv: "rm_inv 0x3FFFFF (as_rm demo_state)"
  proof -
    have "merged_inv (pool_of (as_rm demo_state) k) \<and> covered (pool_of (as_rm demo_state) k) \<subseteq> pool_bounds 0x3FFFFF k" for k
      by (cases k)
        (auto simp: demo_state_def rm_default_def InnerNode_new_def it_new_def merged_inv_def pool_inv_def coalesced_def
          covered_def content_def it_inv_def separated_def range_pts_def rm_consts u_max_vals)
    then show ?thesis by (simp add: rm_inv_def)
  qed
  obtain s' where e: "create_address_space demo_os 0xFFFFFFFFF 0x3FFFFF 0x3FFFFF [demo_info] demo_state = Some (Ok (), s')"
    by (simp add: create_address_space_def demo_state_def demo_os_def demo_info_def eff_bind_def eff_map_err_def
        eff_zoom_def on_world_def on_mgr_def on_rm_def create_region_def next_mem_file_def get_next_mem_file_def
        create_default_memory_region_def create_memory_region_def memfd_region_def region_build_def region_new_def
        mst_from_str_def mib_to_bytes_def checked_add_def u_max_vals take_mem_address_def region_last_addr_def
        create_mmap_region_def dup_file_offset_def map_to_kvm_def from_regions_def is_region_valid_def layout_new_def
        mem_os.defs rm_eval itree_eval Let_def mst_is_hugepage_def mst_is_mmap_anonymous_def insert_into_numa_nodes_def
        mgr_default_def NumaNode_new_def add_info_def add_vcpu_ids_def Constraint_max_def Constraint_min_def)
  show ?thesis using create_address_space_ok [OF inv e] e by (auto simp: demo_info_def mib_to_bytes_def rm_consts mapped_def)
qed

text \<open>The pre-allocation threads of a region touch every page of it exactly once, in at least one
  and at most \<open>MAX_PRE_ALLOC_THREAD\<close> consecutive blocks.
\<close>

theorem prealloc_plan_partition:
  "concat (map (\<lambda>(a, b). [a ..< b]) (prealloc_plan n)) = [0 ..< n div 4096] \<and>
   1 \<le> length (prealloc_plan n) \<and> length (prealloc_plan n) \<le> MAX_PRE_ALLOC_THREAD"
proof -
  have join: "[0 ..< a] @ [a ..< b] = [0 ..< b]" if "a \<le> b" for a b :: nat
    using upt_add_eq_append [of 0 a "b - a"] that by simp
  have blocks: "concat (map (\<lambda>n. [p * n ..< p * (n + 1)]) [0 ..< k]) = [0 ..< p * k]" for p k :: nat
    by (induction k) (simp_all add: join)
  define t where "t = min (drop_bit PRE_ALLOC_GRANULARITY n + 1) MAX_PRE_ALLOC_THREAD"
  define p where "p = n div 4096 div t"
  have t: "0 < t" "t \<le> MAX_PRE_ALLOC_THREAD" by (auto simp: t_def MAX_PRE_ALLOC_THREAD_def)
  then obtain t' where t': "t = Suc t'" by (cases t) auto
  have pl: "prealloc_plan n = map (\<lambda>n'. (p * n', if n' = t - 1 then n div 4096 else p * (n' + 1))) [0 ..< t]"
    by (simp add: prealloc_plan_def Let_def t_def p_def drop_bit_eq_div)
  also have "\<dots> = map (\<lambda>n'. (p * n', p * (n' + 1))) [0 ..< t'] @ [(p * t', n div 4096)]"
    by (auto simp: t')
  finally have "concat (map (\<lambda>(a, b). [a ..< b]) (prealloc_plan n)) = [0 ..< p * t'] @ [p * t' ..< n div 4096]"
    using blocks [of p t'] by (simp add: comp_def)
  moreover have "p * t' \<le> n div 4096" unfolding p_def t' by (meson div_times_less_eq_dividend le_trans mult_le_mono2 le_SucI order_refl)
  ultimately show ?thesis using t pl by (simp add: join)
qed

text \<open>an empty region hides an overlap.  The check in \<open>from_regions\<close> compares neighbours only, and an
  empty region at the base of the first of two overlapping regions intersects neither of them, so the
  overlap is accepted.
\<close>

theorem empty_region_hides_overlap:
  "\<exists>b. from_regions [demo_region 0 100, demo_region 0 0, demo_region 20 60] demo_layout = Some b \<and>
     \<not> disjoint_regions (regions b)"
  by (auto simp: from_regions_def demo_region_def region_new_def demo_layout_def layout_new_def is_region_valid_def
      checked_add_def u_max_vals intersect_with_def disjoint_regions_def region_pts_def)

end
