(* ===== verification/RateLimiter.thy ===== *)
theory RateLimiter
  imports Complex_Main "HOL-Library.Log_Nat" Prelude
begin

text \<open>
  The token bucket rate limiter (\<open>dbs_utils/src/rate_limiter.rs\<close>).

  Instants are nanoseconds of the monotonic clock; an operation that reads the clock takes its
  readings as arguments (\<open>auto_replenish\<close> reads it twice).  The timer is the state it was last
  set to, and \<open>event_handler\<close> takes the number of expirations that \<open>read\<close> returns.  The ratio of
  an over-consumption is computed in \<open>f64\<close>, modelled as rationals rounded to 53 bits after every
  operation; all values here lie far inside the normal range.
\<close>

section \<open>Double precision\<close>

definition round_half_even :: "rat \<Rightarrow> int" where
  "round_half_even x = (let f = \<lfloor>x\<rfloor>; r = x - of_int f in
     if r < 1 / 2 then f else if r > 1 / 2 then f + 1 else if even f then f else f + 1)"

definition f64_exp :: "rat \<Rightarrow> int" where
  "f64_exp q = (case quotient_of q of (n, d) \<Rightarrow>
     let k = bitlen n - bitlen d in if power_int 2 k \<le> q then k else k - 1)"

definition f64 :: "rat \<Rightarrow> rat" where
  "f64 q = (if q = 0 then 0 else let u = power_int 2 (f64_exp q - 52) in of_int (round_half_even (q / u)) * u)"

definition f64_to_u64 :: "rat \<Rightarrow> nat" where
  "f64_to_u64 q = min u64_max (nat \<lfloor>q\<rfloor>)"

section \<open>Token bucket\<close>

definition REFILL_TIMER_INTERVAL_MS :: nat where "REFILL_TIMER_INTERVAL_MS = 10"
definition NANOSEC_IN_ONE_MILLISEC :: nat where "NANOSEC_IN_ONE_MILLISEC = 1000000"

text \<open>Euclid's loop; the measure is its second variable.\<close>

function gcd_loop :: "nat \<Rightarrow> nat \<Rightarrow> nat" where
  "gcd_loop x y = (if y \<noteq> 0 then gcd_loop y (x mod y) else x)"
  by auto
termination by (relation "measure snd") auto

declare gcd_loop.simps [simp del]

datatype BucketReduction = Failure | Success | OverConsumption rat

record TokenBucket =
  tsize :: nat
  tb_initial_one_time_burst :: nat
  refill_time :: nat
  tb_one_time_burst :: nat
  tbudget :: nat
  last_update :: nat
  processed_capacity :: nat
  processed_refill_time :: nat

definition TokenBucket_new :: "nat \<Rightarrow> nat \<Rightarrow> nat \<Rightarrow> nat \<Rightarrow> TokenBucket may_panic" where
  "TokenBucket_new sz burst refill_ms now =
     (if sz = 0 \<or> refill_ms = 0 then panic
      else do {
        refill_ns \<leftarrow> checked_mul u64_max refill_ms NANOSEC_IN_ONE_MILLISEC;
        let common_factor = gcd_loop sz refill_ns;
        ret \<lparr>tsize = sz, tb_initial_one_time_burst = burst, refill_time = refill_ms, tb_one_time_burst = burst,
             tbudget = sz, last_update = now, processed_capacity = sz div common_factor,
             processed_refill_time = refill_ns div common_factor\<rparr> })"

text \<open>\<open>elapsed().as_nanos() as u64\<close>: time does not go backwards and the count is truncated.\<close>

definition elapsed_u64 :: "TokenBucket \<Rightarrow> nat \<Rightarrow> nat" where
  "elapsed_u64 b now = (now - last_update b) mod 2 ^ 64"

definition auto_replenish :: "TokenBucket \<Rightarrow> nat \<Rightarrow> nat \<Rightarrow> TokenBucket may_panic" where
  "auto_replenish b now1 now2 = do {
     p \<leftarrow> checked_mul u64_max (elapsed_u64 b now1) (processed_capacity b);
     let tokens = p div processed_refill_time b;
     s \<leftarrow> checked_add u64_max (tbudget b) tokens;
     ret (b\<lparr>last_update := now2, tbudget := min s (tsize b)\<rparr>) }"

definition bucket_reduce :: "TokenBucket \<Rightarrow> nat \<Rightarrow> nat \<Rightarrow> nat \<Rightarrow> (BucketReduction \<times> TokenBucket) may_panic" where
  "bucket_reduce b now1 now2 tokens =
     (if 0 < tb_one_time_burst b \<and> tokens \<le> tb_one_time_burst b
      then ret (Success, b\<lparr>tb_one_time_burst := tb_one_time_burst b - tokens, last_update := now1\<rparr>)
      else
        let tokens1 = tokens - tb_one_time_burst b; b1 = b\<lparr>tb_one_time_burst := 0\<rparr> in
        if tokens1 > tbudget b1
        then do {
          b2 \<leftarrow> auto_replenish b1 now1 now2;
          if tokens1 > tsize b2
          then do {
            left \<leftarrow> checked_sub tokens1 (tbudget b2);
            ret (OverConsumption (f64 (f64 (of_nat left) / f64 (of_nat (tsize b2)))), b2\<lparr>tbudget := 0\<rparr>) }
          else if tokens1 > tbudget b2 then ret (Failure, b2)
          else ret (Success, b2\<lparr>tbudget := tbudget b2 - tokens1\<rparr>) }
        else ret (Success, b1\<lparr>tbudget := tbudget b1 - tokens1\<rparr>))"

definition force_replenish :: "TokenBucket \<Rightarrow> nat \<Rightarrow> TokenBucket may_panic" where
  "force_replenish b tokens =
     (if 0 < tb_one_time_burst b
      then do { x \<leftarrow> checked_add u64_max (tb_one_time_burst b) tokens; ret (b\<lparr>tb_one_time_burst := x\<rparr>) }
      else do { x \<leftarrow> checked_add u64_max (tbudget b) tokens; ret (b\<lparr>tbudget := min x (tsize b)\<rparr>) })"

section \<open>Rate limiter\<close>

datatype TokenType = Bytes | Ops

datatype BucketUpdate = BUNone | BUDisabled | BUUpdate TokenBucket

datatype TimerState = Disarmed | Oneshot nat

datatype rl_error = SpuriousRateLimiterEvent string

record RateLimiter =
  bandwidth :: "TokenBucket option"
  ops :: "TokenBucket option"
  timer_fd :: TimerState
  timer_active :: bool

definition make_bucket :: "nat \<Rightarrow> nat \<Rightarrow> nat \<Rightarrow> nat \<Rightarrow> TokenBucket option may_panic" where
  "make_bucket capacity burst refill_ms now =
     (if capacity \<noteq> 0 \<and> refill_ms \<noteq> 0 then map_option Some (TokenBucket_new capacity burst refill_ms now) else ret None)"

text \<open>\<open>timer\<close> is the result of creating the timer.\<close>

definition RateLimiter_new ::
  "nat \<times> nat \<times> nat \<Rightarrow> nat \<times> nat \<times> nat \<Rightarrow> nat \<Rightarrow> nat \<Rightarrow> 'e + unit \<Rightarrow> ('e + RateLimiter) may_panic" where
  "RateLimiter_new bytes opsc now1 now2 timer = (case (bytes, opsc) of ((bc, bb, bt), (oc, ob, ot)) \<Rightarrow> do {
     bytes_bucket \<leftarrow> make_bucket bc bb bt now1;
     ops_bucket \<leftarrow> make_bucket oc ob ot now2;
     ret (case timer of
            Inl e \<Rightarrow> Err e
          | Inr _ \<Rightarrow> Ok \<lparr>bandwidth = bytes_bucket, ops = ops_bucket, timer_fd = Disarmed, timer_active = False\<rparr>) })"

definition activate_timer :: "TimerState \<Rightarrow> RateLimiter \<Rightarrow> RateLimiter" where
  "activate_timer st rl = rl\<lparr>timer_fd := st, timer_active := True\<rparr>"

definition get_bucket :: "TokenType \<Rightarrow> RateLimiter \<Rightarrow> TokenBucket option" where
  "get_bucket ty rl = (case ty of Bytes \<Rightarrow> bandwidth rl | Ops \<Rightarrow> ops rl)"

definition put_bucket :: "TokenType \<Rightarrow> TokenBucket \<Rightarrow> RateLimiter \<Rightarrow> RateLimiter" where
  "put_bucket ty b rl = (case ty of Bytes \<Rightarrow> rl\<lparr>bandwidth := Some b\<rparr> | Ops \<Rightarrow> rl\<lparr>ops := Some b\<rparr>)"

definition over_ms :: "rat \<Rightarrow> nat \<Rightarrow> nat" where
  "over_ms ratio refill_ms = f64_to_u64 (f64 (ratio * f64 (of_nat refill_ms)))"

definition consume :: "RateLimiter \<Rightarrow> nat \<Rightarrow> nat \<Rightarrow> nat \<Rightarrow> TokenType \<Rightarrow> (bool \<times> RateLimiter) may_panic" where
  "consume rl now1 now2 tokens ty =
     (if timer_active rl then ret (False, rl)
      else case get_bucket ty rl of
        None \<Rightarrow> ret (True, rl)
      | Some bucket \<Rightarrow> do {
          (out, bucket') \<leftarrow> bucket_reduce bucket now1 now2 tokens;
          let rl' = put_bucket ty bucket' rl;
          ret (case out of
                 Failure \<Rightarrow> (False, if \<not> timer_active rl' then activate_timer (Oneshot REFILL_TIMER_INTERVAL_MS) rl' else rl')
               | Success \<Rightarrow> (True, rl')
               | OverConsumption ratio \<Rightarrow> (True, activate_timer (Oneshot (over_ms ratio (refill_time bucket))) rl')) })"

definition manual_replenish :: "RateLimiter \<Rightarrow> nat \<Rightarrow> TokenType \<Rightarrow> RateLimiter may_panic" where
  "manual_replenish rl tokens ty =
     (case get_bucket ty rl of
        None \<Rightarrow> ret rl
      | Some bucket \<Rightarrow> map_option (\<lambda>b. put_bucket ty b rl) (force_replenish bucket tokens))"

definition is_blocked :: "RateLimiter \<Rightarrow> bool" where
  "is_blocked rl = timer_active rl"

definition event_handler :: "RateLimiter \<Rightarrow> nat \<Rightarrow> (rl_error + unit) \<times> RateLimiter" where
  "event_handler rl expirations =
     (if expirations = 0
      then (Err (SpuriousRateLimiterEvent ''Rate limiter event handler called without a present timer''), rl)
      else (Ok (), rl\<lparr>timer_active := False\<rparr>))"

fun bucket_update :: "BucketUpdate \<Rightarrow> TokenBucket option \<Rightarrow> TokenBucket option" where
  "bucket_update BUNone b = b"
| "bucket_update BUDisabled b = None"
| "bucket_update (BUUpdate tb) b = Some tb"

definition update_buckets :: "BucketUpdate \<Rightarrow> BucketUpdate \<Rightarrow> RateLimiter \<Rightarrow> RateLimiter" where
  "update_buckets bytes os rl =
     rl\<lparr>bandwidth := bucket_update bytes (bandwidth rl), ops := bucket_update os (ops rl)\<rparr>"

section \<open>The rounding error of \<open>f64\<close>\<close>

lemma round_half_even_err: "\<bar>of_int (round_half_even x) - x\<bar> \<le> 1 / 2"
proof -
  have "of_int \<lfloor>x\<rfloor> \<le> x" "x < of_int \<lfloor>x\<rfloor> + 1" by linarith+
  then show ?thesis unfolding round_half_even_def Let_def by (auto simp: abs_le_iff)
qed

lemma f64_exp_le:
  assumes "0 < q"
  shows "power_int 2 (f64_exp q) \<le> q"
proof -
  obtain n d where nd: "quotient_of q = (n, d)" by fastforce
  then have q: "q = of_int n / of_int d" and d: "0 < d" by (simp_all add: quotient_of_div quotient_of_denom_pos)
  then have n: "0 < n" using assms by (simp add: zero_less_divide_iff)
  let ?k = "bitlen n - bitlen d"
  have bn: "1 \<le> bitlen n" "0 \<le> bitlen d" using n bitlen_nonneg [of n] bitlen_nonneg [of d] bitlen_eq_zero_iff [of n] by linarith+
  have "(2 :: rat) ^ nat (bitlen n - 1) \<le> of_int n" "of_int d < (2 :: rat) ^ nat (bitlen d)"
    using bitlen_bounds [OF n] bitlen_bounds [OF d]
    by (metis of_int_le_iff of_int_less_iff of_int_numeral of_int_power)+
  then have "power_int 2 (bitlen n - 1) / power_int 2 (bitlen d) \<le> (of_int n / of_int d :: rat)"
    using bn n d by (intro frac_le) (auto simp: power_int_def)
  then have "power_int 2 (?k - 1) \<le> q"
    by (simp add: q power_int_diff [symmetric] algebra_simps)
  then show ?thesis by (simp add: f64_exp_def nd Let_def)
qed

lemma f64_err:
  assumes "0 \<le> q"
  shows "\<bar>f64 q - q\<bar> \<le> q / 2 ^ 53"
proof (cases "q = 0")
  case False
  then have pos: "0 < q" using assms by simp
  let ?u = "power_int 2 (f64_exp q - 52) :: rat"
  have u: "0 < ?u" by simp
  have "f64 q - q = (of_int (round_half_even (q / ?u)) - q / ?u) * ?u"
    using False by (simp add: f64_def Let_def left_diff_distrib)
  then have "\<bar>f64 q - q\<bar> = \<bar>of_int (round_half_even (q / ?u)) - q / ?u\<bar> * ?u"
    using u by (simp only: abs_mult abs_of_pos)
  also have "\<dots> \<le> 1 / 2 * ?u" using round_half_even_err u by (intro mult_right_mono) auto
  also have "\<dots> = power_int 2 (f64_exp q) / 2 ^ 53" by (simp add: power_int_diff)
  also have "\<dots> \<le> q / 2 ^ 53" using f64_exp_le [OF pos] by (simp add: divide_right_mono)
  finally show ?thesis .
qed (simp add: f64_def)

lemma f64_double:
  assumes q: "0 \<le> q"
  shows "f64 q \<le> 2 * q" "q / 2 \<le> f64 q"
proof -
  have "q / 2 ^ 53 \<le> q / 2" using q by (intro divide_left_mono) auto
  then show "f64 q \<le> 2 * q" "q / 2 \<le> f64 q" using f64_err [OF q] q by linarith+
qed

lemma round_half_even_int [simp]: "round_half_even (of_int z) = z"
  by (simp add: round_half_even_def)

lemma f64_nat:
  assumes "n < 2 ^ 53"
  shows "f64 (of_nat n) = of_nat n"
proof (cases "n = 0")
  case False
  let ?q = "of_nat n :: rat" and ?e = "f64_exp (of_nat n)"
  have e: "?e \<le> 52"
  proof (rule ccontr)
    assume "\<not> ?e \<le> 52"
    then have "(power_int 2 53 :: rat) \<le> power_int 2 ?e" by (intro power_int_increasing) auto
    also have "\<dots> \<le> ?q" using False f64_exp_le [of ?q] by simp
    finally have "(2 :: rat) ^ 53 \<le> of_nat n" by simp
    then have "2 ^ 53 \<le> n" by (metis of_nat_le_iff of_nat_numeral of_nat_power)
    then show False using assms by simp
  qed
  then have p: "(power_int 2 (?e - 52) :: rat) * 2 ^ nat (52 - ?e) = 1"
    by (simp add: power_int_add [symmetric] flip: power_int_of_nat)
  then have u: "?q / power_int 2 (?e - 52) = of_int (int n * 2 ^ nat (52 - ?e))"
    by (simp add: divide_eq_eq mult.assoc mult.commute)
  show ?thesis
    using False p unfolding f64_def Let_def u round_half_even_int by (simp add: mult.assoc mult.commute)
qed (simp add: f64_def)

section \<open>Token bucket: invariant and refill\<close>

lemma gcd_loop_gcd: "gcd_loop x y = gcd x y"
  by (induction x y rule: gcd_loop.induct) (subst gcd_loop.simps, simp add: gcd.commute gcd_red_nat [symmetric])

definition refill_ns :: "TokenBucket \<Rightarrow> nat" where
  "refill_ns b = refill_time b * NANOSEC_IN_ONE_MILLISEC"

definition tb_inv :: "TokenBucket \<Rightarrow> bool" where
  "tb_inv b \<longleftrightarrow> 0 < tsize b \<and> 0 < refill_time b \<and> tbudget b \<le> tsize b \<and> 0 < processed_refill_time b \<and>
     processed_capacity b * refill_ns b = tsize b * processed_refill_time b"

text \<open>The refill computed with the reduced fraction is the refill of the formula.\<close>

lemma refill_reduced:
  assumes "tb_inv b"
  shows "(dt * processed_capacity b) div processed_refill_time b = (dt * tsize b) div refill_ns b"
proof -
  have pos: "0 < processed_refill_time b" "0 < refill_ns b"
    using assms by (auto simp: tb_inv_def refill_ns_def NANOSEC_IN_ONE_MILLISEC_def)
  have "(dt * tsize b) div refill_ns b = (dt * (tsize b * processed_refill_time b)) div (refill_ns b * processed_refill_time b)"
    using pos by (simp add: mult.assoc [symmetric])
  also have "\<dots> = (dt * processed_capacity b * refill_ns b) div (processed_refill_time b * refill_ns b)"
    using assms by (simp add: tb_inv_def mult_ac)
  also have "\<dots> = (dt * processed_capacity b) div processed_refill_time b" using pos by simp
  finally show ?thesis by simp
qed

lemma new_inv:
  assumes "TokenBucket_new sz burst ms now = Some b"
  shows "tb_inv b"
proof -
  define g where "g = gcd sz (ms * NANOSEC_IN_ONE_MILLISEC)"
  have b: "0 < sz" "0 < ms" "tsize b = sz" "refill_time b = ms" "tbudget b = sz"
      "processed_capacity b = sz div g" "processed_refill_time b = ms * NANOSEC_IN_ONE_MILLISEC div g"
    using assms by (auto simp: TokenBucket_new_def gcd_loop_gcd g_def Let_def checked_mul_def split: if_splits)
  have "g dvd sz" "g dvd ms * NANOSEC_IN_ONE_MILLISEC" by (simp_all add: g_def)
  then obtain p q where pq: "sz = g * p" "ms * NANOSEC_IN_ONE_MILLISEC = g * q" by (elim dvdE) blast
  moreover have "0 < g" using b(1) by (simp add: g_def)
  moreover have "0 < ms * NANOSEC_IN_ONE_MILLISEC" using b(2) by (simp add: NANOSEC_IN_ONE_MILLISEC_def)
  ultimately show ?thesis using b by (auto simp: tb_inv_def refill_ns_def)
qed

lemma auto_replenish_Some:
  assumes "tb_inv b" "auto_replenish b t1 t2 = Some b'"
  shows "b' = b\<lparr>last_update := t2, tbudget := min (tbudget b + elapsed_u64 b t1 * tsize b div refill_ns b) (tsize b)\<rparr>"
  using assms(2) by (auto simp: auto_replenish_def checked_mul_def checked_add_def Let_def refill_reduced [OF assms(1)] split: if_splits)

lemma auto_replenish_total:
  assumes "tb_inv b" "tsize b + elapsed_u64 b t1 * processed_capacity b \<le> u64_max"
  shows "auto_replenish b t1 t2 =
    Some (b\<lparr>last_update := t2, tbudget := min (tbudget b + elapsed_u64 b t1 * tsize b div refill_ns b) (tsize b)\<rparr>)"
proof -
  have "elapsed_u64 b t1 * processed_capacity b div processed_refill_time b \<le> elapsed_u64 b t1 * processed_capacity b"
    by simp
  then have "tbudget b + elapsed_u64 b t1 * processed_capacity b div processed_refill_time b \<le> u64_max"
      "elapsed_u64 b t1 * processed_capacity b \<le> u64_max"
    using assms unfolding tb_inv_def by linarith+
  then show ?thesis
    by (simp add: auto_replenish_def checked_mul_def checked_add_def Let_def refill_reduced [OF assms(1), symmetric])
qed

lemma inv_update [simp]:
  "tb_inv (b\<lparr>last_update := t\<rparr>) = tb_inv b" "tb_inv (b\<lparr>tb_one_time_burst := x\<rparr>) = tb_inv b"
  "refill_ns (b\<lparr>last_update := t\<rparr>) = refill_ns b" "refill_ns (b\<lparr>tb_one_time_burst := x\<rparr>) = refill_ns b"
  "refill_ns (b\<lparr>tbudget := x\<rparr>) = refill_ns b"
  "elapsed_u64 (b\<lparr>tb_one_time_burst := x\<rparr>) t = elapsed_u64 b t"
  by (simp_all add: tb_inv_def refill_ns_def elapsed_u64_def)

lemma inv_budget: "tb_inv b \<Longrightarrow> x \<le> tsize b \<Longrightarrow> tb_inv (b\<lparr>tbudget := x\<rparr>)"
  by (simp add: tb_inv_def refill_ns_def)

end
