(* ===== verification/RateClaims.thy ===== *)
theory RateClaims
  imports RateLimiter
begin

text \<open>
  Properties of the rate limiter: its invariant, the refill formula, the rate it enforces, that a
  blocked limiter recovers, and what happens when a request exceeds the size of the bucket.
\<close>

section \<open>One request\<close>

lemma reduce_step:
  assumes inv: "tb_inv b" and r: "bucket_reduce b t1 t2 k = Some (out, b')" and clock: "last_update b \<le> t1" "t1 \<le> t2"
  shows "tb_inv b' \<and> tsize b' = tsize b \<and> refill_time b' = refill_time b \<and> processed_capacity b' = processed_capacity b \<and>
    last_update b \<le> last_update b' \<and> last_update b' \<le> t2 \<and>
    (k \<le> tsize b \<longrightarrow> out \<in> {Success, Failure} \<and>
      ((if out = Failure then 0 else k) + tb_one_time_burst b' + tbudget b') * refill_ns b + last_update b * tsize b
        \<le> (tb_one_time_burst b + tbudget b) * refill_ns b + last_update b' * tsize b)"
proof (cases "0 < tb_one_time_burst b \<and> k \<le> tb_one_time_burst b")
  case True
  then show ?thesis using inv r clock by (auto simp: bucket_reduce_def)
next
  case burst: False
  let ?k = "k - tb_one_time_burst b" and ?b1 = "b\<lparr>tb_one_time_burst := 0\<rparr>"
  have k: "k \<le> ?k + tb_one_time_burst b" by simp
  show ?thesis
  proof (cases "?k > tbudget b")
    case False
    then have "out = Success" "b' = ?b1\<lparr>tbudget := tbudget b - ?k\<rparr>"
      using r burst by (auto simp: bucket_reduce_def Let_def split: if_splits)
    moreover have "tb_inv (?b1\<lparr>tbudget := tbudget b - ?k\<rparr>)" using inv by (intro inv_budget) (auto simp: tb_inv_def)
    ultimately show ?thesis using False clock k by auto
  next
    case True
    let ?n = "elapsed_u64 b t1 * tsize b div refill_ns b"
    let ?b2 = "?b1\<lparr>last_update := t2, tbudget := min (tbudget b + ?n) (tsize b)\<rparr>"
    obtain b2 where a: "auto_replenish ?b1 t1 t2 = Some b2"
      using r burst True by (auto simp: bucket_reduce_def Let_def split: if_splits)
    have b2: "b2 = ?b2" using auto_replenish_Some [OF _ a] inv by simp
    have i2: "tb_inv (?b2\<lparr>tbudget := x\<rparr>)" if "x \<le> tsize b" for x
      using inv_budget [of "?b1\<lparr>last_update := t2\<rparr>" x] inv that by simp
    have "elapsed_u64 b t1 \<le> t1 - last_update b" by (simp add: elapsed_u64_def)
    then have "?n * refill_ns b \<le> (t2 - last_update b) * tsize b"
      using clock by (meson diff_le_mono div_times_less_eq_dividend le_trans mult_le_mono1)
    then have refill: "?n * refill_ns b + last_update b * tsize b \<le> t2 * tsize b"
      using clock by (simp add: diff_mult_distrib) (metis add_le_imp_le_diff le_add_diff_inverse2 le_trans mult_le_mono1 nat_add_left_cancel_le add.commute)
    have pay: "(x + y) * refill_ns b + last_update b * tsize b \<le> (tbudget b + z) * refill_ns b + t2 * tsize b"
      if "x + y \<le> tbudget b + z + ?n" for x y z
    proof -
      have "(x + y) * refill_ns b \<le> (tbudget b + z + ?n) * refill_ns b" using that by (rule mult_le_mono1)
      then show ?thesis using refill by (simp add: distrib_right)
    qed
    consider (over) "tsize b < ?k" "b' = ?b2\<lparr>tbudget := 0\<rparr>"
      | (fail) "\<not> tsize b < ?k" "tbudget ?b2 < ?k" "out = Failure" "b' = ?b2"
      | (ok) "\<not> tsize b < ?k" "\<not> tbudget ?b2 < ?k" "out = Success" "b' = ?b2\<lparr>tbudget := tbudget ?b2 - ?k\<rparr>"
      using r burst True a b2 by (auto simp: bucket_reduce_def Let_def checked_sub_def split: if_splits)
    then show ?thesis
    proof cases
      case over
      then have "\<not> k \<le> tsize b" by simp
      with over show ?thesis using i2 [of 0] clock by simp
    next
      case fail
      then show ?thesis
        using i2 [of "tbudget ?b2"] clock pay [of "tbudget ?b2" 0 "tb_one_time_burst b"] by (simp add: add.commute)
    next
      case ok
      then show ?thesis
        using i2 [of "tbudget ?b2 - ?k"] clock pay [of k "tbudget ?b2 - ?k" "tb_one_time_burst b"] k by (simp add: add.commute)
    qed
  qed
qed

lemma reduce_full:
  assumes "tb_inv b" "tb_one_time_burst b = 0" "tsize b + elapsed_u64 b t1 * processed_capacity b \<le> u64_max"
    and "refill_ns b \<le> elapsed_u64 b t1" "k \<le> tsize b"
  shows "\<exists>b'. bucket_reduce b t1 t2 k = Some (Success, b')"
proof (cases "tbudget b < k")
  case False
  then show ?thesis using assms by (simp add: bucket_reduce_def Let_def)
next
  case True
  have "0 < refill_ns b" using assms(1) by (simp add: tb_inv_def refill_ns_def NANOSEC_IN_ONE_MILLISEC_def)
  then have "tsize b = refill_ns b * tsize b div refill_ns b" by simp
  also have "\<dots> \<le> elapsed_u64 b t1 * tsize b div refill_ns b" by (intro div_le_mono mult_le_mono1 assms(4))
  finally have "k \<le> tbudget b + elapsed_u64 b t1 * tsize b div refill_ns b" using assms(5) by simp
  then show ?thesis
    using True assms auto_replenish_total [of "b\<lparr>tb_one_time_burst := 0\<rparr>" t1 t2]
    by (simp add: bucket_reduce_def Let_def)
qed

text \<open>A bucket under a request larger than its size.\<close>

lemma reduce_over:
  assumes "tb_inv b" "tb_one_time_burst b = 0" "tsize b + elapsed_u64 b t1 * processed_capacity b \<le> u64_max"
    and "tsize b \<le> tbudget b + elapsed_u64 b t1 * tsize b div refill_ns b" "tsize b < k"
  shows "bucket_reduce b t1 t2 k =
    Some (OverConsumption (f64 (f64 (of_nat (k - tsize b)) / f64 (of_nat (tsize b)))), b\<lparr>last_update := t2, tbudget := 0\<rparr>)"
proof -
  have "tbudget b < k" using assms(1,5) by (simp add: tb_inv_def)
  moreover have same: "b\<lparr>tb_one_time_burst := 0\<rparr> = b" using assms(2) by simp
  moreover have "auto_replenish b t1 t2 = Some (b\<lparr>last_update := t2, tbudget := tsize b\<rparr>)"
    using auto_replenish_total [OF assms(1,3), of t2] assms(4) by (simp add: min_absorb2)
  ultimately show ?thesis
    using assms(2,5) unfolding bucket_reduce_def Let_def same by (simp add: checked_sub_def)
qed

lemma f64_one [simp]: "f64 1 = 1"
  using f64_nat [of 1] by simp

lemma f64_pos: "0 < q \<Longrightarrow> 0 < f64 q"
  using f64_double(2) [of q] by linarith

section \<open>Runs\<close>

text \<open>A run of requests, each with its two clock readings; the number of tokens granted is counted.\<close>

fun run_bucket :: "TokenBucket \<Rightarrow> (nat \<times> nat \<times> nat) list \<Rightarrow> (nat \<times> TokenBucket) may_panic" where
  "run_bucket b [] = ret (0, b)"
| "run_bucket b ((t1, t2, k) # rs) = do {
     (out, b') \<leftarrow> bucket_reduce b t1 t2 k;
     (g, b'') \<leftarrow> run_bucket b' rs;
     ret ((if out = Failure then 0 else k) + g, b'') }"

fun clock_ordered :: "nat \<Rightarrow> (nat \<times> nat \<times> nat) list \<Rightarrow> bool" where
  "clock_ordered t [] = True"
| "clock_ordered t ((t1, t2, k) # rs) = (t \<le> t1 \<and> t1 \<le> t2 \<and> clock_ordered t2 rs)"

fun end_time :: "nat \<Rightarrow> (nat \<times> nat \<times> nat) list \<Rightarrow> nat" where
  "end_time t [] = t"
| "end_time t ((t1, t2, k) # rs) = end_time t2 rs"

lemma clock_ordered_le: "clock_ordered t rs \<Longrightarrow> t \<le> end_time t rs"
  by (induction t rs rule: clock_ordered.induct) auto

lemma run_bucket_potential:
  assumes "run_bucket b rs = Some (g, b')" "tb_inv b" "last_update b \<le> t" "clock_ordered t rs"
    and "\<forall>(t1, t2, k) \<in> set rs. k \<le> tsize b"
  shows "g * refill_ns b + last_update b * tsize b \<le>
    (tb_one_time_burst b + tbudget b) * refill_ns b + end_time t rs * tsize b"
  using assms
proof (induction b rs arbitrary: g t rule: run_bucket.induct)
  case (1 b)
  then show ?case by (simp add: trans_le_add2)
next
  case (2 b t1 t2 k rs)
  obtain out b1 g1 where r: "bucket_reduce b t1 t2 k = Some (out, b1)" "run_bucket b1 rs = Some (g1, b')"
    and g: "g = (if out = Failure then 0 else k) + g1"
    using 2(2) by auto
  have cl: "last_update b \<le> t1" "t1 \<le> t2" "clock_ordered t2 rs" using 2(4,5) by auto
  note st = reduce_step [OF 2(3) r(1) cl(1,2)]
  have same: "refill_ns b1 = refill_ns b" "tsize b1 = tsize b" using st by (simp_all add: refill_ns_def)
  have "g1 * refill_ns b + last_update b1 * tsize b \<le>
      (tb_one_time_burst b1 + tbudget b1) * refill_ns b + end_time t2 rs * tsize b"
    using 2(1) [OF r(1) refl r(2), of t2] st 2(6) cl same by auto
  then show ?case using st 2(6) unfolding g by (simp add: distrib_right)
qed

section \<open>Properties\<close>

definition rl_inv :: "RateLimiter \<Rightarrow> bool" where
  "rl_inv rl \<longleftrightarrow> (\<forall>ty b. get_bucket ty rl = Some b \<longrightarrow> tb_inv b)"

lemma put_get [simp]: "get_bucket ty (put_bucket ty' b rl) = (if ty = ty' then Some b else get_bucket ty rl)"
  by (cases ty; cases ty') (simp_all add: get_bucket_def put_bucket_def)

lemma get_bucket_timer [simp]:
  "get_bucket ty (activate_timer st rl) = get_bucket ty rl" "get_bucket ty (rl\<lparr>timer_active := x\<rparr>) = get_bucket ty rl"
  by (cases ty; simp add: get_bucket_def activate_timer_def)+

lemma put_timer [simp]: "timer_active (put_bucket ty b rl) = timer_active rl"
  by (cases ty) (simp_all add: put_bucket_def)

definition demo_bucket :: TokenBucket where
  "demo_bucket = \<lparr>tsize = 6400, tb_initial_one_time_burst = 0, refill_time = 100, tb_one_time_burst = 0, tbudget = 6400,
     last_update = 0, processed_capacity = 1, processed_refill_time = 15625\<rparr>"

lemma demo_gcd: "gcd_loop 6400 100000000 = 6400"
  by (subst gcd_loop.simps, subst gcd_loop.simps, subst gcd_loop.simps) simp

lemma demo_bucket_new: "TokenBucket_new 6400 0 100 0 = Some demo_bucket"
  by (simp add: TokenBucket_new_def demo_bucket_def checked_mul_def u_max_vals NANOSEC_IN_ONE_MILLISEC_def demo_gcd)

lemma demo_bucket_inv: "tb_inv demo_bucket"
  by (rule new_inv [OF demo_bucket_new])

definition demo_rl :: RateLimiter where
  "demo_rl = \<lparr>bandwidth = Some demo_bucket, ops = None, timer_fd = Disarmed, timer_active = False\<rparr>"

lemma consume_reduces:
  assumes "consume rl t1 t2 k ty = Some (out, rl')" "\<not> (timer_active rl \<or> get_bucket ty rl = None)"
  shows "\<exists>b red b'. get_bucket ty rl = Some b \<and> bucket_reduce b t1 t2 k = Some (red, b') \<and>
    (\<forall>ty'. get_bucket ty' rl' = get_bucket ty' (put_bucket ty b' rl))"
proof -
  obtain b where b: "get_bucket ty rl = Some b" using assms(2) by auto
  then obtain red b' where r: "bucket_reduce b t1 t2 k = Some (red, b')"
    using assms by (cases "bucket_reduce b t1 t2 k") (auto simp: consume_def)
  then have "get_bucket ty' rl' = get_bucket ty' (put_bucket ty b' rl)" for ty'
    using assms b by (cases red) (auto simp: consume_def Let_def)
  then show ?thesis using b r by blast
qed

lemma consume_inv:
  assumes "rl_inv rl" "consume rl t1 t2 k ty = Some (out, rl')" "t1 \<le> t2" "\<forall>b. get_bucket ty rl = Some b \<longrightarrow> last_update b \<le> t1"
  shows "rl_inv rl'"
proof (cases "timer_active rl \<or> get_bucket ty rl = None")
  case True
  then show ?thesis using assms(1,2) by (auto simp: consume_def split: if_splits)
next
  case False
  from consume_reduces [OF assms(2) this]
  obtain b red b' where b: "get_bucket ty rl = Some b" "bucket_reduce b t1 t2 k = Some (red, b')"
    and rl': "\<forall>ty'. get_bucket ty' rl' = get_bucket ty' (put_bucket ty b' rl)"
    by (elim exE conjE)
  have "tb_inv b'" using reduce_step [OF _ b(2)] assms b(1) by (auto simp: rl_inv_def)
  then show ?thesis using assms(1) rl' by (auto simp: rl_inv_def split: if_splits)
qed

lemma manual_replenish_inv:
  assumes "rl_inv rl" "manual_replenish rl k ty = Some rl'"
  shows "rl_inv rl'"
proof (cases "get_bucket ty rl")
  case None
  then show ?thesis using assms by (simp add: manual_replenish_def)
next
  case (Some b)
  then have "tb_inv b" using assms(1) by (simp add: rl_inv_def)
  then have "tb_inv b'" if "force_replenish b k = Some b'" for b'
    using that inv_budget [of b] by (auto simp: force_replenish_def split: if_splits)
  then show ?thesis using assms Some by (auto simp: manual_replenish_def rl_inv_def split: if_splits)
qed

lemma make_bucket_inv: "make_bucket c b ms t = Some (Some tb) \<Longrightarrow> tb_inv tb"
  by (auto simp: make_bucket_def new_inv split: if_splits)

lemma limiter_new_inv: "RateLimiter_new bytes os t1 t2 tm = Some (Ok rl) \<Longrightarrow> rl_inv rl"
  by (cases bytes; cases os; cases tm)
    (auto simp: RateLimiter_new_def rl_inv_def get_bucket_def make_bucket_inv split: TokenType.splits)

lemma update_buckets_inv:
  "rl_inv rl \<Longrightarrow> \<forall>b. u = BUUpdate b \<or> v = BUUpdate b \<longrightarrow> tb_inv b \<Longrightarrow> rl_inv (update_buckets u v rl)"
  by (cases u; cases v) (auto simp: rl_inv_def update_buckets_def get_bucket_def split: TokenType.splits)

text \<open>C33: every operation of the limiter keeps its buckets well formed: positive size and refill time, a
  budget within the size, and a reduced fraction equal to tokens over refill time.\<close>

theorem limiter_well_formed:
  "(RateLimiter_new bytes os t1 t2 tm = Some (Ok rl) \<longrightarrow> rl_inv rl) \<and>
   (rl_inv rl \<longrightarrow>
      (consume rl t1 t2 k ty = Some (out, rl') \<and> t1 \<le> t2 \<and> (\<forall>b. get_bucket ty rl = Some b \<longrightarrow> last_update b \<le> t1) \<longrightarrow>
         rl_inv rl') \<and>
      (manual_replenish rl k ty = Some rl' \<longrightarrow> rl_inv rl') \<and>
      rl_inv (snd (event_handler rl n)) \<and>
      ((\<forall>b. u = BUUpdate b \<or> v = BUUpdate b \<longrightarrow> tb_inv b) \<longrightarrow> rl_inv (update_buckets u v rl)))"
proof -
  have "rl_inv (snd (event_handler rl n))" if "rl_inv rl" using that by (simp add: event_handler_def rl_inv_def)
  then show ?thesis
    using limiter_new_inv [of bytes os t1 t2 tm rl] consume_inv [of rl t1 t2 k ty out rl']
      manual_replenish_inv [of rl k ty rl'] update_buckets_inv [of rl u v]
    by (simp add: imp_conjL)
qed

theorem limiter_well_formed_witness:
  "\<exists>rl'. consume demo_rl 5 6 100 Bytes = Some (True, rl') \<and> rl_inv rl'"
proof -
  obtain rl' where e: "consume demo_rl 5 6 100 Bytes = Some (True, rl')"
    by (simp add: consume_def demo_rl_def demo_bucket_def get_bucket_def bucket_reduce_def Let_def)
  have "rl_inv demo_rl" using demo_bucket_inv by (auto simp: rl_inv_def demo_rl_def get_bucket_def split: TokenType.splits)
  then show ?thesis
    using limiter_well_formed [of _ _ 5 6 _ demo_rl 100 Bytes True rl'] e
    by (auto simp: demo_rl_def get_bucket_def demo_bucket_def)
qed

text \<open>The refill of a new bucket, computed with the fraction reduced by Euclid's algorithm, equals the
  unreduced formula \<open>delta * size / (refill_ms * 10^6)\<close> for every elapsed time.\<close>

theorem refill_equals_formula:
  assumes "TokenBucket_new sz burst ms now = Some b"
  shows "(dt * processed_capacity b) div processed_refill_time b = (dt * sz) div (ms * NANOSEC_IN_ONE_MILLISEC)"
proof -
  have "tsize b = sz" "refill_time b = ms"
    using assms by (auto simp: TokenBucket_new_def checked_mul_def Let_def split: if_splits)
  then show ?thesis using refill_reduced [OF new_inv [OF assms], of dt] by (simp add: refill_ns_def)
qed

theorem refill_equals_formula_witness:
  "(31250 * processed_capacity demo_bucket) div processed_refill_time demo_bucket = 2"
  using refill_equals_formula [OF demo_bucket_new, of 31250] by (simp add: NANOSEC_IN_ONE_MILLISEC_def)

text \<open>C11: the rate is enforced.  Over any run of requests no larger than the bucket, the tokens granted never
  exceed the one-time burst, the budget at the start and the share of the elapsed time.\<close>

theorem rate_enforced:
  assumes "tb_inv b" "clock_ordered (last_update b) rs" "\<forall>(t1, t2, k) \<in> set rs. k \<le> tsize b"
    and "run_bucket b rs = Some (granted, b')"
  shows "granted * refill_ns b \<le>
    (tb_one_time_burst b + tbudget b) * refill_ns b + (end_time (last_update b) rs - last_update b) * tsize b"
proof -
  have "last_update b * tsize b \<le> end_time (last_update b) rs * tsize b"
    using clock_ordered_le [OF assms(2)] by (rule mult_le_mono1)
  then show ?thesis
    using run_bucket_potential [OF assms(4,1) order_refl assms(2,3)] by (simp add: diff_mult_distrib)
qed

theorem rate_enforced_witness:
  "\<exists>g b'. run_bucket demo_bucket [(0, 0, 6400), (31250, 31250, 3)] = Some (g, b') \<and> g * 100000000 \<le> 6400 * 100000000 + 31250 * 6400"
proof -
  obtain g b' where e: "run_bucket demo_bucket [(0, 0, 6400), (31250, 31250, 3)] = Some (g, b')"
    by (simp add: demo_bucket_def bucket_reduce_def Let_def auto_replenish_def elapsed_u64_def checked_mul_def
        checked_add_def u_max_vals)
  have "g * 100000000 \<le> 6400 * 100000000 + 31250 * 6400"
    using rate_enforced [OF demo_bucket_inv _ _ e] by (simp add: demo_bucket_def refill_ns_def NANOSEC_IN_ONE_MILLISEC_def)
  then show ?thesis using e by blast
qed

text \<open>C32: a blocked limiter recovers.  While it is blocked every request is refused; once the timer event is
  handled, a request no larger than the bucket succeeds as soon as one refill time has passed since the last
  update (and the products fit in 64 bits).\<close>

theorem blocked_limiter_recovers:
  assumes "rl_inv rl" "is_blocked rl" "get_bucket ty rl = Some b" "tb_one_time_burst b = 0" "k \<le> tsize b"
    and "refill_ns b \<le> elapsed_u64 b t1" "tsize b + elapsed_u64 b t1 * processed_capacity b \<le> u64_max" "0 < n"
  shows "consume rl t t' j ty' = Some (False, rl) \<and>
    (\<exists>rl1 rl2. event_handler rl n = (Ok (), rl1) \<and> consume rl1 t1 t2 k ty = Some (True, rl2) \<and> \<not> is_blocked rl2)"
proof -
  obtain b' where "bucket_reduce b t1 t2 k = Some (Success, b')"
    using reduce_full [of b t1 k t2] assms by (auto simp: rl_inv_def)
  then show ?thesis using assms by (simp add: consume_def event_handler_def is_blocked_def Let_def)
qed

theorem blocked_limiter_recovers_witness:
  "\<exists>rl1 rl2. event_handler (demo_rl\<lparr>timer_active := True\<rparr>) 1 = (Ok (), rl1) \<and>
     consume rl1 100000000 100000000 5000 Bytes = Some (True, rl2)"
proof -
  have "rl_inv (demo_rl\<lparr>timer_active := True\<rparr>)"
    using demo_bucket_inv by (auto simp: rl_inv_def demo_rl_def get_bucket_def split: TokenType.splits)
  then show ?thesis
    using blocked_limiter_recovers [of "demo_rl\<lparr>timer_active := True\<rparr>" Bytes demo_bucket 5000 100000000 1 0 0 0 Bytes 100000000]
    by (auto simp: demo_rl_def get_bucket_def is_blocked_def demo_bucket_def refill_ns_def elapsed_u64_def
        NANOSEC_IN_ONE_MILLISEC_def u_max_vals)
qed

definition recharged :: "RateLimiter \<Rightarrow> TokenBucket \<Rightarrow> nat \<Rightarrow> bool" where
  "recharged rl b t \<longleftrightarrow> \<not> timer_active rl \<and> bandwidth rl = Some b \<and> tb_inv b \<and> tb_one_time_burst b = 0 \<and>
     t = last_update b + refill_ns b \<and> refill_ns b < 2 ^ 64 \<and> refill_time b < 2 ^ 53 \<and>
     tsize b + refill_ns b * processed_capacity b \<le> u64_max"

text \<open>C40: a request larger than the bucket defeats the limit.  A limiter whose bucket has refilled grants a
  request for twice the size, blocks for exactly one refill time, and is then again in the state in which it
  grants such a request: twice the configured rate, without end.  The time it is blocked also refills the
  bucket.\<close>

theorem over_consumption_doubles_rate:
  assumes "recharged rl b t"
  shows "\<exists>rl'. consume rl t t (2 * tsize b) Bytes = Some (True, rl') \<and> timer_fd rl' = Oneshot (refill_time b) \<and>
    recharged (snd (event_handler rl' 1)) (b\<lparr>last_update := t, tbudget := 0\<rparr>) (t + refill_ns b)"
proof -
  have r: "\<not> timer_active rl" "bandwidth rl = Some b" "tb_inv b" "tb_one_time_burst b = 0" "t = last_update b + refill_ns b"
      "tsize b + refill_ns b * processed_capacity b \<le> u64_max" "refill_ns b < 2 ^ 64" "refill_time b < 2 ^ 53"
    using assms by (auto simp: recharged_def)
  have el: "elapsed_u64 b t = refill_ns b" using r by (simp add: elapsed_u64_def)
  have pos: "0 < refill_ns b" "0 < tsize b" using r(3) by (auto simp: tb_inv_def refill_ns_def NANOSEC_IN_ONE_MILLISEC_def)
  have "f64 (of_nat (2 * tsize b - tsize b)) / f64 (of_nat (tsize b)) = 1"
    using f64_pos [of "of_nat (tsize b)"] pos by simp
  then have red: "bucket_reduce b t t (2 * tsize b) = Some (OverConsumption 1, b\<lparr>last_update := t, tbudget := 0\<rparr>)"
    using reduce_over [OF r(3,4), of t "2 * tsize b" t] r(6) el pos by simp
  moreover have "over_ms 1 (refill_time b) = refill_time b"
    using r(8) by (simp add: over_ms_def f64_nat f64_to_u64_def u_max_vals)
  moreover have "tb_inv (b\<lparr>last_update := t, tbudget := 0\<rparr>)" using r(3) inv_budget [of "b\<lparr>last_update := t\<rparr>" 0] by simp
  ultimately show ?thesis
    using r pos by (simp add: consume_def get_bucket_def put_bucket_def activate_timer_def event_handler_def recharged_def)
qed

theorem over_consumption_doubles_rate_witness:
  "\<exists>rl'. consume demo_rl 100000000 100000000 12800 Bytes = Some (True, rl') \<and> timer_fd rl' = Oneshot 100"
proof -
  have "recharged demo_rl demo_bucket 100000000"
    using demo_bucket_inv
    by (simp add: recharged_def demo_rl_def demo_bucket_def refill_ns_def NANOSEC_IN_ONE_MILLISEC_def u_max_vals)
  from over_consumption_doubles_rate [OF this] show ?thesis by (auto simp: demo_bucket_def)
qed

text \<open>a small excess blocks the limiter with a timer of zero length.  When a request exceeds the bucket by
  so little that the blocking time rounds down to zero milliseconds, the timer is set to zero, which disarms a
  \<open>timerfd\<close>, while the limiter counts as blocked: every later request is refused.\<close>

theorem small_excess_zero_timer:
  assumes "\<not> timer_active rl" "bandwidth rl = Some b" "tb_inv b" "tb_one_time_burst b = 0" "tbudget b = tsize b"
    and "tsize b + elapsed_u64 b t1 * processed_capacity b \<le> u64_max" "0 < e" "32 * e * refill_time b < tsize b"
  shows "\<exists>rl'. consume rl t1 t2 (tsize b + e) Bytes = Some (True, rl') \<and> timer_fd rl' = Oneshot 0 \<and>
    (\<forall>s1 s2 k ty. consume rl' s1 s2 k ty = Some (False, rl'))"
proof -
  let ?a = "f64 (of_nat e)" and ?s = "f64 (of_nat (tsize b))" and ?r = "f64 (of_nat (refill_time b))"
  have pos: "0 < tsize b" using assms(3) by (simp add: tb_inv_def)
  have s: "of_nat (tsize b) / 2 \<le> ?s" "0 < ?s" using f64_double(2) f64_pos pos by simp_all
  have nn: "0 \<le> ?a" "0 \<le> ?r" using f64_double(2) [of "of_nat e"] f64_double(2) [of "of_nat (refill_time b)"]
    by (meson dual_order.trans of_nat_0_le_iff zero_le_divide_iff zero_le_numeral)+
  have "?a / ?s \<le> (2 * of_nat e) / (of_nat (tsize b) / 2)"
    using f64_double(1) [of "of_nat e"] s pos by (intro frac_le) auto
  then have q: "f64 (?a / ?s) \<le> 8 * of_nat e / of_nat (tsize b)" "0 \<le> f64 (?a / ?s)"
    using f64_double [of "?a / ?s"] nn s by (auto intro: order_trans)
  have "f64 (?a / ?s) * ?r \<le> (8 * of_nat e / of_nat (tsize b)) * (2 * of_nat (refill_time b))"
    using q nn f64_double(1) [of "of_nat (refill_time b)"] by (intro mult_mono) auto
  then have "f64 (f64 (?a / ?s) * ?r) \<le> 32 * of_nat e * of_nat (refill_time b) / of_nat (tsize b)"
    using f64_double(1) [of "f64 (?a / ?s) * ?r"] q nn by simp
  also have "\<dots> < 1" using assms(8) pos
    by (simp add: divide_less_eq) (metis of_nat_less_iff of_nat_mult of_nat_numeral)
  finally have z: "over_ms (f64 (?a / ?s)) (refill_time b) = 0"
    by (simp add: over_ms_def f64_to_u64_def)
  have "bucket_reduce b t1 t2 (tsize b + e) = Some (OverConsumption (f64 (?a / ?s)), b\<lparr>last_update := t2, tbudget := 0\<rparr>)"
    using reduce_over [OF assms(3,4,6), of "tsize b + e" t2] assms(5,7) by simp
  then show ?thesis using assms(1,2) z
    by (simp add: consume_def get_bucket_def put_bucket_def activate_timer_def)
qed

theorem small_excess_zero_timer_witness:
  "\<exists>rl'. consume demo_rl 5 5 6401 Bytes = Some (True, rl') \<and> timer_fd rl' = Oneshot 0"
proof -
  have "\<exists>rl'. consume demo_rl 5 5 (tsize demo_bucket + 1) Bytes = Some (True, rl') \<and> timer_fd rl' = Oneshot 0 \<and>
      (\<forall>s1 s2 k ty. consume rl' s1 s2 k ty = Some (False, rl'))"
    by (rule small_excess_zero_timer [OF _ _ demo_bucket_inv])
      (simp_all add: demo_rl_def demo_bucket_def elapsed_u64_def u_max_vals)
  then show ?thesis by (auto simp: demo_bucket_def)
qed

end
