(* ===== verification/TxBuf.thy ===== *)
theory TxBuf
  imports Bytes Effects
begin

text \<open>
  The transmit ring buffer of a vsock connection (\<open>vsock/csm/txbuf.rs\<close>), with its wrapping
  head and tail, and the proof that it implements a bounded queue of bytes.

  The host stream behind it is a record of functions over its own state; an I/O error is
  reported by its kind.
\<close>

definition CONN_TX_BUF_SIZE :: "32 word" where "CONN_TX_BUF_SIZE = 64 * 1024"

definition TXBUF_SIZE :: nat where "TXBUF_SIZE = unat CONN_TX_BUF_SIZE"

datatype io_kind = WouldBlock | BrokenPipe | OtherIo nat

datatype csm_error = TxBufFull | TxBufFlush io_kind | StreamWrite io_kind

record 'w VsockStream =
  stream_read :: "nat \<Rightarrow> ('w, io_kind, byte list) eff"
  stream_write :: "byte list \<Rightarrow> ('w, io_kind, nat) eff"

record TxBuf =
  tdata :: "byte list option"
  thead :: "32 word"
  ttail :: "32 word"

definition TxBuf_default :: TxBuf where
  "TxBuf_default = \<lparr>tdata = None, thead = 0, ttail = 0\<rparr>"

definition tx_len :: "TxBuf \<Rightarrow> nat" where
  "tx_len b = unat (thead b - ttail b)"

definition tx_is_empty :: "TxBuf \<Rightarrow> bool" where
  "tx_is_empty b = (tx_len b = 0)"

definition tx_push :: "TxBuf \<Rightarrow> byte list \<Rightarrow> ((csm_error + unit) \<times> TxBuf) may_panic" where
  "tx_push b src =
     (if tx_len b + length src > TXBUF_SIZE then ret (Err TxBufFull, b)
      else do {
        let d = (case tdata b of None \<Rightarrow> replicate TXBUF_SIZE 0 | Some d \<Rightarrow> d);
        let head_ofs = unat (thead b) mod TXBUF_SIZE;
        let n = min (TXBUF_SIZE - head_ofs) (length src);
        d1 \<leftarrow> copy_into d head_ofs (take n src);
        d2 \<leftarrow> (if n < length src then copy_into d1 0 (drop n src) else ret d1);
        ret (Ok (), b\<lparr>tdata := Some d2, thead := thead b + of_nat (length src)\<rparr>) })"

text \<open>
  The recursive call issues the second write.  A stream that reports more bytes than it was given
  could make the recursion endless, so the function is partial; for a proper stream it returns.
\<close>

partial_function (option) flush_to ::
  "'w VsockStream \<Rightarrow> TxBuf \<Rightarrow> 'w \<Rightarrow> ((csm_error + nat) \<times> TxBuf \<times> 'w) may_panic" where
  "flush_to sink b w =
     (if tx_is_empty b then ret (Ok 0, b, w)
      else
        let tail_ofs = unat (ttail b) mod TXBUF_SIZE; len_to_write = min (TXBUF_SIZE - tail_ofs) (tx_len b) in
        case tdata b of
          None \<Rightarrow> panic
        | Some d \<Rightarrow>
            if tail_ofs + len_to_write > length d then panic
            else (case stream_write sink (take len_to_write (drop tail_ofs d)) w of
                    None \<Rightarrow> panic
                  | Some (r, w1) \<Rightarrow>
                      (case r of
                         Inl e \<Rightarrow> ret (Err (TxBufFlush e), b, w1)
                       | Inr written \<Rightarrow>
                           let b1 = b\<lparr>ttail := ttail b + of_nat written\<rparr> in
                           if written < len_to_write then ret (Ok written, b1, w1)
                           else do {
                             (r2, b2, w2) \<leftarrow> flush_to sink b1 w1;
                             ret (Ok (written + (case r2 of Inl _ \<Rightarrow> 0 | Inr n \<Rightarrow> n)), b2, w2) })))"

section \<open>Abstraction to a queue of bytes\<close>

definition tx_inv :: "TxBuf \<Rightarrow> bool" where
  "tx_inv b \<longleftrightarrow> tx_len b \<le> TXBUF_SIZE \<and>
     (case tdata b of None \<Rightarrow> tx_len b = 0 | Some d \<Rightarrow> length d = TXBUF_SIZE)"

definition tx_contents :: "TxBuf \<Rightarrow> byte list" where
  "tx_contents b = (case tdata b of
     None \<Rightarrow> []
   | Some d \<Rightarrow> map (\<lambda>i. d ! ((unat (ttail b) + i) mod TXBUF_SIZE)) [0 ..< tx_len b])"

lemma TXBUF_SIZE_val: "TXBUF_SIZE = 65536"
  by (simp add: TXBUF_SIZE_def CONN_TX_BUF_SIZE_def)

lemma unat_add_nat: "unat (x + of_nat k :: 32 word) = (unat x + k) mod 2 ^ 32"
  by (simp add: unat_word_ariths unat_of_nat mod_add_right_eq)

lemma wrap_mod: "unat (x + of_nat k :: 32 word) mod TXBUF_SIZE = (unat x + k) mod TXBUF_SIZE"
proof -
  have "TXBUF_SIZE dvd 2 ^ 32" by (simp add: TXBUF_SIZE_val)
  then show ?thesis unfolding unat_add_nat by (rule mod_mod_cancel)
qed

lemma head_ofs: "unat (thead b) mod TXBUF_SIZE = (unat (ttail b) + tx_len b) mod TXBUF_SIZE"
  using wrap_mod [of "ttail b" "tx_len b"] by (simp add: tx_len_def)

lemma tx_len_push: "tx_len b + k \<le> TXBUF_SIZE \<Longrightarrow> tx_len (b\<lparr>tdata := d, thead := thead b + of_nat k\<rparr>) = tx_len b + k"
proof -
  assume le: "tx_len b + k \<le> TXBUF_SIZE"
  have "thead b + of_nat k - ttail b = (thead b - ttail b) + of_nat k" by simp
  then have "unat (thead b + of_nat k - ttail b) = (unat (thead b - ttail b) + k) mod 2 ^ 32"
    by (simp only: unat_add_nat)
  also have "\<dots> = unat (thead b - ttail b) + k" using le by (simp add: tx_len_def TXBUF_SIZE_val)
  finally show ?thesis by (simp add: tx_len_def)
qed

lemma tx_len_pop: "k \<le> tx_len b \<Longrightarrow> tx_len (b\<lparr>ttail := ttail b + of_nat k\<rparr>) = tx_len b - k"
proof -
  assume le: "k \<le> tx_len b"
  have "thead b - (ttail b + of_nat k) = (thead b - ttail b) - of_nat k" by simp
  moreover have "unat (of_nat k :: 32 word) = k"
    using le unsigned_less [of "thead b - ttail b", where 'a = nat] by (simp add: tx_len_def unat_of_nat)
  moreover have "unat ((thead b - ttail b) - of_nat k) = tx_len b - k"
    by (subst unat_sub) (use le calculation(2) in \<open>simp_all add: tx_len_def word_le_nat_alt\<close>)
  ultimately have "unat (thead b - (ttail b + of_nat k)) = tx_len b - k" by (simp only:)
  then show ?thesis by (simp add: tx_len_def)
qed

lemma contents_length [simp]: "tx_inv b \<Longrightarrow> length (tx_contents b) = tx_len b"
  by (auto simp: tx_contents_def tx_inv_def split: option.splits)

lemma empty_contents: "tx_inv b \<Longrightarrow> tx_is_empty b \<Longrightarrow> tx_contents b = []"
  by (metis contents_length length_0_conv tx_is_empty_def)

lemma tx_inv_default: "tx_inv TxBuf_default" "tx_contents TxBuf_default = []"
  by (simp_all add: tx_inv_def tx_contents_def TxBuf_default_def tx_len_def)

text \<open>Both copies of a push write the source behind the head, modulo the size.\<close>

lemma push_copies:
  assumes d: "length d = TXBUF_SIZE" and h: "h < TXBUF_SIZE" and n: "n = min (TXBUF_SIZE - h) (length src)"
    and le: "length src \<le> TXBUF_SIZE"
  shows "\<exists>d1 d2. copy_into d h (take n src) = Some d1 \<and>
    (if n < length src then copy_into d1 0 (drop n src) else Some d1) = Some d2 \<and> length d2 = TXBUF_SIZE \<and>
    (\<forall>k < length src. d2 ! ((h + k) mod TXBUF_SIZE) = src ! k) \<and>
    (\<forall>j < TXBUF_SIZE. (\<forall>k < length src. j \<noteq> (h + k) mod TXBUF_SIZE) \<longrightarrow> d2 ! j = d ! j)"
proof -
  have "h + length (take n src) \<le> length d" using d h n by simp
  then obtain d1 where d1: "copy_into d h (take n src) = Some d1" by (simp add: copy_into_def)
  note c1 = copy_into_nth [OF d1]
  have "0 + length (drop n src) \<le> length d1"
    using c1(1) d le by (metis add_0 diff_le_self length_drop order_trans)
  then have "\<exists>d2. (if n < length src then copy_into d1 0 (drop n src) else Some d1) = Some d2"
    by (simp only: copy_into_def) simp
  then obtain d2 where d2: "(if n < length src then copy_into d1 0 (drop n src) else Some d1) = Some d2" by blast
  have n2: "n = length src \<or> n = TXBUF_SIZE - h" "n \<le> length src" "h + n \<le> TXBUF_SIZE" using n h by auto
  have c2: "length d2 = TXBUF_SIZE" "d2 ! j = (if j < length src - n then src ! (n + j) else d1 ! j)" if "j < TXBUF_SIZE" for j
    using d2 copy_into_nth [of d1 0 "drop n src" d2] c1(1) d that n2(2) by (auto split: if_splits)
  have at: "d2 ! ((h + k) mod TXBUF_SIZE) = src ! k" if k: "k < length src" for k
  proof (cases "k < n")
    case True
    then have "(h + k) mod TXBUF_SIZE = h + k" "h + k < TXBUF_SIZE" using n2(3) by auto
    moreover have "\<not> h + k < length src - n" using n2 le True by auto
    ultimately show ?thesis using c2(2) [of "h + k"] c1(2) [of "h + k"] d True k n2(2) by simp
  next
    case False
    then have "n = TXBUF_SIZE - h" using n2 k by auto
    then have "h + k = TXBUF_SIZE + (k - n)" and lt: "k - n < TXBUF_SIZE" using False h k le by auto
    then have "(h + k) mod TXBUF_SIZE = k - n" by (simp only: mod_add_self1 mod_less)
    moreover have "k - n < length src - n" "n + (k - n) = k" using False k by auto
    ultimately show ?thesis using c2(2) [OF lt] by simp
  qed
  have off: "d2 ! j = d ! j" if j: "j < TXBUF_SIZE" "\<forall>k < length src. j \<noteq> (h + k) mod TXBUF_SIZE" for j
  proof -
    have "\<not> j < length src - n"
    proof
      assume lt: "j < length src - n"
      then have "n = TXBUF_SIZE - h" using n2 by auto
      then have "h + (n + j) = TXBUF_SIZE + j" using h by simp
      then have "(h + (n + j)) mod TXBUF_SIZE = j" using j(1) by (simp only: mod_add_self1 mod_less)
      moreover have "n + j < length src" using lt by simp
      then have "j \<noteq> (h + (n + j)) mod TXBUF_SIZE" by (rule j(2) [rule_format])
      ultimately show False by (simp only:)
    qed
    moreover have "\<not> (h \<le> j \<and> j < h + n)"
    proof
      assume "h \<le> j \<and> j < h + n"
      then have "(h + (j - h)) mod TXBUF_SIZE = j" "j - h < length src" using j(1) n2(2) by auto
      then show False using j(2) [rule_format, of "j - h"] by simp
    qed
    ultimately show ?thesis using c2(2) [OF j(1)] c1(2) [of j] d j(1) n2(2) by (auto split: if_splits)
  qed
  show ?thesis using d1 d2 c2(1) [of 0] at off h by auto
qed

section \<open>The ring buffer implements a bounded queue\<close>

lemma ring_distinct:
  assumes "i < j" "j < i + TXBUF_SIZE"
  shows "(t + i) mod TXBUF_SIZE \<noteq> (t + j) mod TXBUF_SIZE"
proof
  assume "(t + i) mod TXBUF_SIZE = (t + j) mod TXBUF_SIZE"
  then have "TXBUF_SIZE dvd (t + j) - (t + i)" using assms(1) by (metis add_le_cancel_left less_imp_le mod_eq_dvd_iff_nat)
  then have "TXBUF_SIZE dvd j - i" by simp
  moreover have "0 < j - i" "j - i < TXBUF_SIZE" using assms by auto
  ultimately show False using nat_dvd_not_less by blast
qed

lemma push_full: "tx_len b + length src > TXBUF_SIZE \<Longrightarrow> tx_push b src = Some (Err TxBufFull, b)"
  by (simp add: tx_push_def)

lemma push_fits:
  assumes inv: "tx_inv b" and fits: "tx_len b + length src \<le> TXBUF_SIZE"
  shows "\<exists>b'. tx_push b src = Some (Ok (), b') \<and> tx_inv b' \<and> tx_contents b' = tx_contents b @ src"
proof -
  let ?h = "unat (thead b) mod TXBUF_SIZE" and ?t = "unat (ttail b)"
  define d where "d = (case tdata b of None \<Rightarrow> replicate TXBUF_SIZE 0 | Some d \<Rightarrow> d)"
  have d: "length d = TXBUF_SIZE" using inv by (auto simp: d_def tx_inv_def split: option.splits)
  have h: "?h < TXBUF_SIZE" by (simp add: TXBUF_SIZE_val)
  obtain d1 d2 where c: "copy_into d ?h (take (min (TXBUF_SIZE - ?h) (length src)) src) = Some d1"
      "(if min (TXBUF_SIZE - ?h) (length src) < length src then copy_into d1 0 (drop (min (TXBUF_SIZE - ?h) (length src)) src) else Some d1) = Some d2"
      "length d2 = TXBUF_SIZE" "\<forall>k < length src. d2 ! ((?h + k) mod TXBUF_SIZE) = src ! k"
      "\<forall>j < TXBUF_SIZE. (\<forall>k < length src. j \<noteq> (?h + k) mod TXBUF_SIZE) \<longrightarrow> d2 ! j = d ! j"
    using push_copies [OF d h refl, of src] fits by auto
  let ?b = "b\<lparr>tdata := Some d2, thead := thead b + of_nat (length src)\<rparr>"
  have p: "tx_push b src = Some (Ok (), ?b)"
    using fits c(1,2) unfolding tx_push_def by (simp add: Let_def d_def [symmetric])
  have len: "tx_len ?b = tx_len b + length src" using tx_len_push [OF fits] .
  have pos: "(?h + k) mod TXBUF_SIZE = (?t + (tx_len b + k)) mod TXBUF_SIZE" for k
    unfolding head_ofs by (simp add: mod_add_left_eq add.assoc)
  have old: "d2 ! ((?t + i) mod TXBUF_SIZE) = d ! ((?t + i) mod TXBUF_SIZE)" if "i < tx_len b" for i
  proof -
    have "(?t + i) mod TXBUF_SIZE \<noteq> (?h + k) mod TXBUF_SIZE" if "k < length src" for k
      unfolding pos using \<open>i < tx_len b\<close> that fits by (intro ring_distinct) linarith+
    moreover have "(?t + i) mod TXBUF_SIZE < TXBUF_SIZE" by (simp add: TXBUF_SIZE_val)
    ultimately show ?thesis by (intro c(5) [rule_format])
  qed
  have "tx_contents ?b = map (\<lambda>i. d2 ! ((?t + i) mod TXBUF_SIZE)) [0 ..< tx_len b] @
      map (\<lambda>i. d2 ! ((?t + i) mod TXBUF_SIZE)) [tx_len b ..< tx_len b + length src]"
    using len upt_add_eq_append [of 0 "tx_len b" "length src"] by (simp add: tx_contents_def)
  also have "map (\<lambda>i. d2 ! ((?t + i) mod TXBUF_SIZE)) [0 ..< tx_len b] = tx_contents b"
    using old inv by (auto simp: tx_contents_def d_def tx_inv_def split: option.splits)
  also have "map (\<lambda>i. d2 ! ((?t + i) mod TXBUF_SIZE)) [tx_len b ..< tx_len b + length src] = src"
    using c(4) pos by (intro nth_equalityI) auto
  finally have "tx_contents ?b = tx_contents b @ src" .
  moreover have "tx_inv ?b" using len fits c(3) by (simp add: tx_inv_def)
  ultimately show ?thesis using p by blast
qed

text \<open>Bytes up to the end of the array lie contiguously behind the tail.\<close>

lemma contents_prefix:
  assumes "tx_inv b" "tdata b = Some d" "n = min (TXBUF_SIZE - unat (ttail b) mod TXBUF_SIZE) (tx_len b)"
  shows "take n (drop (unat (ttail b) mod TXBUF_SIZE) d) = take n (tx_contents b)"
    and "unat (ttail b) mod TXBUF_SIZE + n \<le> length d"
proof -
  let ?o = "unat (ttail b) mod TXBUF_SIZE"
  have l: "length d = TXBUF_SIZE" using assms(1,2) by (simp add: tx_inv_def)
  have o: "?o < TXBUF_SIZE" by (simp add: TXBUF_SIZE_val)
  have "(unat (ttail b) + i) mod TXBUF_SIZE = ?o + i" if "i < n" for i
  proof -
    have "(unat (ttail b) + i) mod TXBUF_SIZE = (?o + i) mod TXBUF_SIZE" by (simp add: mod_add_left_eq)
    moreover have "?o + i < TXBUF_SIZE" using that assms(3) by auto
    ultimately show ?thesis by simp
  qed
  then show "take n (drop ?o d) = take n (tx_contents b)"
    using assms l o by (intro nth_equalityI) (auto simp: tx_contents_def)
  show "?o + n \<le> length d" using assms(3) l o by simp
qed

lemma contents_pop:
  assumes "tx_inv b" "k \<le> tx_len b"
  shows "tx_inv (b\<lparr>ttail := ttail b + of_nat k\<rparr>)" "tx_contents (b\<lparr>ttail := ttail b + of_nat k\<rparr>) = drop k (tx_contents b)"
proof -
  have len: "tx_len (b\<lparr>ttail := ttail b + of_nat k\<rparr>) = tx_len b - k" using tx_len_pop [OF assms(2)] .
  then show "tx_inv (b\<lparr>ttail := ttail b + of_nat k\<rparr>)" using assms by (auto simp: tx_inv_def split: option.splits)
  have "(unat (ttail b + of_nat k) + i) mod TXBUF_SIZE = (unat (ttail b) + (k + i)) mod TXBUF_SIZE" for i
    using wrap_mod [of "ttail b" k] by (metis add.assoc mod_add_left_eq)
  then show "tx_contents (b\<lparr>ttail := ttail b + of_nat k\<rparr>) = drop k (tx_contents b)"
    using len by (auto simp: tx_contents_def split: option.splits intro!: nth_equalityI)
qed

section \<open>Flushing\<close>

text \<open>
  What \<open>std::io::Write\<close> promises: a write returns, takes a prefix of the bytes and reports its length,
  or fails and takes nothing.  \<open>sent\<close> observes the bytes the stream has taken.
\<close>

definition sink_ok :: "'w VsockStream \<Rightarrow> ('w \<Rightarrow> byte list) \<Rightarrow> bool" where
  "sink_ok sink sent \<longleftrightarrow> (\<forall>bs w. \<exists>r w'. stream_write sink bs w = Some (r, w') \<and>
     (case r of Inl e \<Rightarrow> sent w' = sent w | Inr n \<Rightarrow> n \<le> length bs \<and> sent w' = sent w @ take n bs))"

definition flushed :: "('w \<Rightarrow> byte list) \<Rightarrow> TxBuf \<Rightarrow> 'w \<Rightarrow> nat \<Rightarrow> TxBuf \<Rightarrow> 'w \<Rightarrow> bool" where
  "flushed sent b w n b' w' \<longleftrightarrow> tx_inv b' \<and> n \<le> tx_len b \<and> sent w' = sent w @ take n (tx_contents b) \<and>
     tx_contents b' = drop n (tx_contents b)"

lemma flush_refines:
  assumes ok: "sink_ok sink sent" and inv: "tx_inv b"
  shows "\<exists>r b' w'. flush_to sink b w = Some (r, b', w') \<and>
    (case r of Inl e \<Rightarrow> b' = b \<and> sent w' = sent w | Inr n \<Rightarrow> flushed sent b w n b' w')"
  using inv
proof (induction "tx_len b" arbitrary: b w rule: less_induct)
  case less
  show ?case
  proof (cases "tx_is_empty b")
    case True
    then show ?thesis using less.prems by (subst flush_to.simps) (auto simp: flushed_def tx_is_empty_def)
  next
    case False
    let ?o = "unat (ttail b) mod TXBUF_SIZE"
    define n where "n = min (TXBUF_SIZE - ?o) (tx_len b)"
    have "?o < TXBUF_SIZE" by (simp add: TXBUF_SIZE_val)
    then have n: "0 < n" "n \<le> tx_len b" using False by (auto simp: n_def tx_is_empty_def)
    obtain d where d: "tdata b = Some d" using False less.prems by (auto simp: tx_is_empty_def tx_inv_def split: option.splits)
    note pre = contents_prefix [OF less.prems d n_def]
    let ?bs = "take n (drop ?o d)"
    have bs: "?bs = take n (tx_contents b)" "length ?bs = n" using pre n(2) less.prems by auto
    obtain r w1 where w: "stream_write sink ?bs w = Some (r, w1)"
        "case r of Inl e \<Rightarrow> sent w1 = sent w | Inr k \<Rightarrow> k \<le> length ?bs \<and> sent w1 = sent w @ take k ?bs"
      using ok unfolding sink_ok_def by blast
    have step: "flush_to sink b w =
        (case r of
           Inl e \<Rightarrow> Some (Err (TxBufFlush e), b, w1)
         | Inr k \<Rightarrow> let b1 = b\<lparr>ttail := ttail b + of_nat k\<rparr> in
             if k < n then Some (Ok k, b1, w1)
             else Option.bind (flush_to sink b1 w1)
               (\<lambda>(r2, b2, w2). Some (Ok (k + (case r2 of Inl _ \<Rightarrow> 0 | Inr m \<Rightarrow> m)), b2, w2)))"
      using False d pre(2) w(1) by (subst flush_to.simps) (cases r; simp add: n_def [symmetric] Let_def)
    show ?thesis
    proof (cases r)
      case (Inl e)
      then show ?thesis using step w(2) by simp
    next
      case (Inr k)
      then have k: "k \<le> n" "sent w1 = sent w @ take k (tx_contents b)" using w(2) bs by (auto simp: min_def)
      let ?b1 = "b\<lparr>ttail := ttail b + of_nat k\<rparr>"
      have b1: "tx_inv ?b1" "tx_contents ?b1 = drop k (tx_contents b)" "tx_len ?b1 = tx_len b - k"
        using contents_pop [OF less.prems, of k] tx_len_pop [of k b] k(1) n(2) by auto
      show ?thesis
      proof (cases "k < n")
        case True
        then show ?thesis using step Inr k b1 n(2) by (simp add: flushed_def)
      next
        case False
        then have "tx_len ?b1 < tx_len b" using k(1) n b1(3) by simp
        then obtain r2 b2 w2 where r2: "flush_to sink ?b1 w1 = Some (r2, b2, w2)"
            "case r2 of Inl e \<Rightarrow> b2 = ?b1 \<and> sent w2 = sent w1 | Inr m \<Rightarrow> flushed sent ?b1 w1 m b2 w2"
          using less.hyps [OF _ b1(1), of w1] by blast
        let ?m = "case r2 of Inl _ \<Rightarrow> 0 | Inr m \<Rightarrow> m"
        have "flushed sent ?b1 w1 ?m b2 w2" using r2(2) b1(1) by (auto simp: flushed_def split: sum.splits)
        then have "flushed sent b w (k + ?m) b2 w2"
          using k b1 n(2) by (auto simp: flushed_def take_add add.commute)
        then show ?thesis using step Inr False r2(1) by simp
      qed
    qed
  qed
qed

end
