(* ===== verification/VsockPacket.thy ===== *)
theory VsockPacket
  imports Bytes
begin

text \<open>
  Vsock packets (\<open>dbs_virtio_devices/src/vsock/packet.rs\<close> and the constants and errors of
  \<open>vsock/mod.rs\<close>): the header and its layout in guest memory, and the checks made when a packet
  is built from a virtio descriptor chain.

  Guest memory and the chain come from \<open>vm-memory\<close> and \<open>virtio-queue\<close>: the memory is a record of
  functions, the chain the list of its descriptors.  A packet is modelled by the header and buffer
  contents its two pointers show.
\<close>

section \<open>Constants and errors\<close>

definition MAX_PKT_BUF_SIZE :: nat where "MAX_PKT_BUF_SIZE = 64 * 1024"
definition VSOCK_PKT_HDR_SIZE :: nat where "VSOCK_PKT_HDR_SIZE = 44"

definition VSOCK_OP_REQUEST :: "16 word" where "VSOCK_OP_REQUEST = 1"
definition VSOCK_OP_RESPONSE :: "16 word" where "VSOCK_OP_RESPONSE = 2"
definition VSOCK_OP_RST :: "16 word" where "VSOCK_OP_RST = 3"
definition VSOCK_OP_SHUTDOWN :: "16 word" where "VSOCK_OP_SHUTDOWN = 4"
definition VSOCK_OP_RW :: "16 word" where "VSOCK_OP_RW = 5"
definition VSOCK_OP_CREDIT_UPDATE :: "16 word" where "VSOCK_OP_CREDIT_UPDATE = 6"
definition VSOCK_OP_CREDIT_REQUEST :: "16 word" where "VSOCK_OP_CREDIT_REQUEST = 7"
definition VSOCK_FLAGS_SHUTDOWN_RCV :: "32 word" where "VSOCK_FLAGS_SHUTDOWN_RCV = 1"
definition VSOCK_FLAGS_SHUTDOWN_SEND :: "32 word" where "VSOCK_FLAGS_SHUTDOWN_SEND = 2"
definition VSOCK_TYPE_STREAM :: "16 word" where "VSOCK_TYPE_STREAM = 1"
definition VSOCK_HOST_CID :: "64 word" where "VSOCK_HOST_CID = 2"

lemmas vsock_ops = VSOCK_OP_REQUEST_def VSOCK_OP_RESPONSE_def VSOCK_OP_RST_def VSOCK_OP_SHUTDOWN_def VSOCK_OP_RW_def
  VSOCK_OP_CREDIT_UPDATE_def VSOCK_OP_CREDIT_REQUEST_def

datatype VsockError =
    Backend nat
  | BufDescMissing
  | BufDescTooSmall
  | GuestMemory nat
  | GuestMemoryBounds nat nat
  | HdrDescTooSmall nat
  | InvalidPktLen nat
  | Muxer nat
  | NoData
  | PktBufMissing
  | UnreadableDescriptor
  | UnwritableDescriptor
  | Overflow nat nat

section \<open>Header\<close>

record VsockPacketHdr =
  src_cid :: "64 word"
  dst_cid :: "64 word"
  src_port :: "32 word"
  dst_port :: "32 word"
  hdr_len :: "32 word"
  hdr_type :: "16 word"
  hdr_op :: "16 word"
  hdr_flags :: "32 word"
  buf_alloc :: "32 word"
  hdr_fwd_cnt :: "32 word"

definition hdr_zero :: VsockPacketHdr where
  "hdr_zero = \<lparr>src_cid = 0, dst_cid = 0, src_port = 0, dst_port = 0, hdr_len = 0, hdr_type = 0, hdr_op = 0,
     hdr_flags = 0, buf_alloc = 0, hdr_fwd_cnt = 0\<rparr>"

text \<open>The C layout of the header, little endian.\<close>

definition hdr_bytes :: "VsockPacketHdr \<Rightarrow> byte list" where
  "hdr_bytes h = le_bytes 8 (src_cid h) @ le_bytes 8 (dst_cid h) @ le_bytes 4 (src_port h) @ le_bytes 4 (dst_port h) @
     le_bytes 4 (hdr_len h) @ le_bytes 2 (hdr_type h) @ le_bytes 2 (hdr_op h) @ le_bytes 4 (hdr_flags h) @
     le_bytes 4 (buf_alloc h) @ le_bytes 4 (hdr_fwd_cnt h)"

definition hdr_of_bytes :: "byte list \<Rightarrow> VsockPacketHdr" where
  "hdr_of_bytes bs = \<lparr>src_cid = of_le (take 8 bs), dst_cid = of_le (take 8 (drop 8 bs)),
     src_port = of_le (take 4 (drop 16 bs)), dst_port = of_le (take 4 (drop 20 bs)), hdr_len = of_le (take 4 (drop 24 bs)),
     hdr_type = of_le (take 2 (drop 28 bs)), hdr_op = of_le (take 2 (drop 30 bs)), hdr_flags = of_le (take 4 (drop 32 bs)),
     buf_alloc = of_le (take 4 (drop 36 bs)), hdr_fwd_cnt = of_le (take 4 (drop 40 bs))\<rparr>"

section \<open>Packets from descriptor chains\<close>

record VsockPacket =
  phdr :: VsockPacketHdr
  pbuf :: "byte list option"

record Descriptor =
  d_addr :: nat
  d_len :: nat
  d_write_only :: bool
  d_has_next :: bool

record GuestMem =
  gm_checked_offset :: "nat \<Rightarrow> nat \<Rightarrow> nat option"
  gm_host_address :: "nat \<Rightarrow> nat + nat"
  gm_bytes :: "nat \<Rightarrow> nat \<Rightarrow> byte list"

definition HdrWrapper_from_virtq_desc :: "Descriptor \<Rightarrow> GuestMem \<Rightarrow> VsockError + VsockPacketHdr" where
  "HdrWrapper_from_virtq_desc desc mem =
     (if d_len desc < VSOCK_PKT_HDR_SIZE then Err (HdrDescTooSmall (d_len desc))
      else case gm_checked_offset mem (d_addr desc) VSOCK_PKT_HDR_SIZE of
        None \<Rightarrow> Err (GuestMemoryBounds (d_addr desc) VSOCK_PKT_HDR_SIZE)
      | Some _ \<Rightarrow>
          (case gm_host_address mem (d_addr desc) of
             Inl e \<Rightarrow> Err (GuestMemory e)
           | Inr p \<Rightarrow> Ok (hdr_of_bytes (gm_bytes mem p VSOCK_PKT_HDR_SIZE))))"

definition BufWrapper_from_virtq_desc :: "Descriptor \<Rightarrow> GuestMem \<Rightarrow> nat \<Rightarrow> nat \<Rightarrow> VsockError + byte list" where
  "BufWrapper_from_virtq_desc desc mem offset sz =
     (case gm_checked_offset mem (d_addr desc) (d_len desc) of
        None \<Rightarrow> Err (GuestMemoryBounds (d_addr desc) (d_len desc))
      | Some _ \<Rightarrow>
          (case checked_add u64_max (d_addr desc) offset of
             None \<Rightarrow> Err (Overflow (d_addr desc) offset)
           | Some a \<Rightarrow>
               (case gm_host_address mem a of
                  Inl e \<Rightarrow> Err (GuestMemory e)
                | Inr p \<Rightarrow> Ok (gm_bytes mem p sz))))"

definition with_buf :: "VsockPacketHdr \<Rightarrow> VsockError + byte list \<Rightarrow> VsockError + VsockPacket" where
  "with_buf h b = (case b of Inl e \<Rightarrow> Err e | Inr bs \<Rightarrow> Ok \<lparr>phdr = h, pbuf = Some bs\<rparr>)"

fun from_tx_virtq_head :: "Descriptor list \<Rightarrow> GuestMem \<Rightarrow> VsockError + VsockPacket" where
  "from_tx_virtq_head [] mem = Err BufDescMissing"
| "from_tx_virtq_head (desc # rest) mem =
     (if d_write_only desc then Err UnreadableDescriptor
      else case HdrWrapper_from_virtq_desc desc mem of
        Inl e \<Rightarrow> Err e
      | Inr hdr \<Rightarrow>
          if unat (hdr_len hdr) > MAX_PKT_BUF_SIZE then Err (InvalidPktLen (unat (hdr_len hdr)))
          else if hdr_len hdr = 0 then Ok \<lparr>phdr = hdr, pbuf = None\<rparr>
          else if d_has_next desc
          then (case rest of
                  [] \<Rightarrow> Err BufDescMissing
                | buf_desc # _ \<Rightarrow>
                    if d_write_only buf_desc then Err UnreadableDescriptor
                    else if d_len buf_desc < unat (hdr_len hdr) then Err BufDescTooSmall
                    else with_buf hdr (BufWrapper_from_virtq_desc buf_desc mem 0 (d_len buf_desc)))
          else
            let buf_size = d_len desc - VSOCK_PKT_HDR_SIZE in
            if buf_size < unat (hdr_len hdr) then Err BufDescTooSmall
            else with_buf hdr (BufWrapper_from_virtq_desc desc mem VSOCK_PKT_HDR_SIZE buf_size))"

fun from_rx_virtq_head :: "Descriptor list \<Rightarrow> GuestMem \<Rightarrow> VsockError + VsockPacket" where
  "from_rx_virtq_head [] mem = Err BufDescMissing"
| "from_rx_virtq_head (desc # rest) mem =
     (if \<not> d_write_only desc then Err UnwritableDescriptor
      else case HdrWrapper_from_virtq_desc desc mem of
        Inl e \<Rightarrow> Err e
      | Inr hdr \<Rightarrow>
          if d_has_next desc
          then (case rest of
                  [] \<Rightarrow> Err BufDescMissing
                | buf_desc # _ \<Rightarrow>
                    if \<not> d_write_only buf_desc then Err UnwritableDescriptor
                    else with_buf hdr (BufWrapper_from_virtq_desc buf_desc mem 0 (d_len buf_desc)))
          else with_buf hdr (BufWrapper_from_virtq_desc desc mem VSOCK_PKT_HDR_SIZE (d_len desc - VSOCK_PKT_HDR_SIZE)))"

section \<open>Accessors that change a packet\<close>

definition on_hdr :: "(VsockPacketHdr \<Rightarrow> VsockPacketHdr) \<Rightarrow> VsockPacket \<Rightarrow> VsockPacket" where
  [simp]: "on_hdr f p = p\<lparr>phdr := f (phdr p)\<rparr>"

definition set_src_cid :: "64 word \<Rightarrow> VsockPacket \<Rightarrow> VsockPacket" where
  [simp]: "set_src_cid x = on_hdr (\<lambda>h. h\<lparr>src_cid := x\<rparr>)"
definition set_dst_cid :: "64 word \<Rightarrow> VsockPacket \<Rightarrow> VsockPacket" where
  [simp]: "set_dst_cid x = on_hdr (\<lambda>h. h\<lparr>dst_cid := x\<rparr>)"
definition set_src_port :: "32 word \<Rightarrow> VsockPacket \<Rightarrow> VsockPacket" where
  [simp]: "set_src_port x = on_hdr (\<lambda>h. h\<lparr>src_port := x\<rparr>)"
definition set_dst_port :: "32 word \<Rightarrow> VsockPacket \<Rightarrow> VsockPacket" where
  [simp]: "set_dst_port x = on_hdr (\<lambda>h. h\<lparr>dst_port := x\<rparr>)"
definition pkt_set_len :: "32 word \<Rightarrow> VsockPacket \<Rightarrow> VsockPacket" where
  [simp]: "pkt_set_len x = on_hdr (\<lambda>h. h\<lparr>hdr_len := x\<rparr>)"
definition set_type :: "16 word \<Rightarrow> VsockPacket \<Rightarrow> VsockPacket" where
  [simp]: "set_type x = on_hdr (\<lambda>h. h\<lparr>hdr_type := x\<rparr>)"
definition set_op :: "16 word \<Rightarrow> VsockPacket \<Rightarrow> VsockPacket" where
  [simp]: "set_op x = on_hdr (\<lambda>h. h\<lparr>hdr_op := x\<rparr>)"
definition set_flags :: "32 word \<Rightarrow> VsockPacket \<Rightarrow> VsockPacket" where
  [simp]: "set_flags x = on_hdr (\<lambda>h. h\<lparr>hdr_flags := x\<rparr>)"
definition set_flag :: "32 word \<Rightarrow> VsockPacket \<Rightarrow> VsockPacket" where
  [simp]: "set_flag x p = set_flags (hdr_flags (phdr p) OR x) p"
definition set_buf_alloc :: "32 word \<Rightarrow> VsockPacket \<Rightarrow> VsockPacket" where
  [simp]: "set_buf_alloc x = on_hdr (\<lambda>h. h\<lparr>buf_alloc := x\<rparr>)"
definition set_fwd_cnt :: "32 word \<Rightarrow> VsockPacket \<Rightarrow> VsockPacket" where
  [simp]: "set_fwd_cnt x = on_hdr (\<lambda>h. h\<lparr>hdr_fwd_cnt := x\<rparr>)"

section \<open>Layout and bounds\<close>

lemma hdr_bytes_length: "length (hdr_bytes h) = VSOCK_PKT_HDR_SIZE"
  by (simp add: hdr_bytes_def VSOCK_PKT_HDR_SIZE_def)

lemma hdr_of_bytes_inverse: "hdr_of_bytes (hdr_bytes h) = h"
  by (simp add: hdr_of_bytes_def hdr_bytes_def)

lemma hdr_bytes_inverse:
  assumes "length bs = VSOCK_PKT_HDR_SIZE"
  shows "hdr_bytes (hdr_of_bytes bs) = bs"
proof -
  have l: "length bs = 44" using assms by (simp add: VSOCK_PKT_HDR_SIZE_def)
  have "bs = take 8 bs @ take 8 (drop 8 bs) @ take 4 (drop 16 bs) @ take 4 (drop 20 bs) @ take 4 (drop 24 bs) @
      take 2 (drop 28 bs) @ take 2 (drop 30 bs) @ take 4 (drop 32 bs) @ take 4 (drop 36 bs) @ take 4 (drop 40 bs)"
    (is "_ = ?parts")
  proof -
    have join: "take k (drop n bs) @ drop (n + k) bs = drop n bs" for n k
      by (metis add.commute append_take_drop_id drop_drop)
    have "take 4 (drop 40 bs) = drop 40 bs" using l by simp
    then show ?thesis
      using join [where n = 36 and k = 4] join [where n = 32 and k = 4] join [where n = 30 and k = 2]
        join [where n = 28 and k = 2] join [where n = 24 and k = 4] join [where n = 20 and k = 4]
        join [where n = 16 and k = 4] join [where n = 8 and k = 8] by simp
  qed
  moreover have "hdr_bytes (hdr_of_bytes bs) = ?parts"
    using l by (simp add: hdr_bytes_def hdr_of_bytes_def le_bytes_of_le)
  ultimately show ?thesis by simp
qed

end
