(* ===== verification/VsockConn.thy ===== *)
theory VsockConn
  imports TxBuf VsockPacket
begin

text \<open>
  The vsock connection state machine (\<open>vsock/csm/mod.rs\<close> and \<open>vsock/csm/connection.rs\<close>): packets
  from the guest go to a host stream, data from the stream to the guest, under credit-based flow
  control.

  The counters wrap at 32 bits as in the code.  Instants are nanoseconds; an operation that reads
  the clock takes the reading as an argument.  The event set of \<open>epoll\<close> is a set of named events.
  Log statements are left out.
\<close>

section \<open>Constants, states, pending indications\<close>

definition CONN_CREDIT_UPDATE_THRESHOLD :: "32 word" where "CONN_CREDIT_UPDATE_THRESHOLD = 4 * 1024"
definition CONN_REQUEST_TIMEOUT_MS :: nat where "CONN_REQUEST_TIMEOUT_MS = 2000"
definition CONN_SHUTDOWN_TIMEOUT_MS :: nat where "CONN_SHUTDOWN_TIMEOUT_MS = 2000"

definition from_millis :: "nat \<Rightarrow> nat" where "from_millis ms = ms * 1000000"

datatype ConnState = LocalInit | PeerInit | Established | LocalClosed | PeerClosed bool bool | Killed

datatype PendingRx = Request | Response | Rst | Rw | CreditUpdate

fun rx_index :: "PendingRx \<Rightarrow> nat" where
  "rx_index Request = 0"
| "rx_index Response = 1"
| "rx_index Rst = 2"
| "rx_index Rw = 3"
| "rx_index CreditUpdate = 4"

definition into_mask :: "PendingRx \<Rightarrow> 16 word" where
  "into_mask it = push_bit (rx_index it) 1"

type_synonym PendingRxSet = "16 word"

definition prx_insert :: "PendingRx \<Rightarrow> PendingRxSet \<Rightarrow> PendingRxSet" where
  "prx_insert it s = s OR into_mask it"

definition prx_contains :: "PendingRxSet \<Rightarrow> PendingRx \<Rightarrow> bool" where
  "prx_contains s it = (s AND into_mask it \<noteq> 0)"

definition prx_remove :: "PendingRx \<Rightarrow> PendingRxSet \<Rightarrow> bool \<times> PendingRxSet" where
  "prx_remove it s = (prx_contains s it, s AND NOT (into_mask it))"

definition prx_is_empty :: "PendingRxSet \<Rightarrow> bool" where
  "prx_is_empty s = (s = 0)"

definition prx_from :: "PendingRx \<Rightarrow> PendingRxSet" where
  "prx_from it = into_mask it"

section \<open>Connections\<close>

record VsockConnection =
  cstate :: ConnState
  local_cid :: "64 word"
  peer_cid :: "64 word"
  local_port :: "32 word"
  peer_port :: "32 word"
  keep :: bool
  tx_buf :: TxBuf
  fwd_cnt :: "32 word"
  peer_buf_alloc :: "32 word"
  peer_fwd_cnt :: "32 word"
  rx_cnt :: "32 word"
  last_fwd_cnt_to_peer :: "32 word"
  pending_rx :: PendingRxSet
  expiry :: "nat option"

definition new_peer_init ::
  "64 word \<Rightarrow> 64 word \<Rightarrow> 32 word \<Rightarrow> 32 word \<Rightarrow> 32 word \<Rightarrow> bool \<Rightarrow> VsockConnection" where
  "new_peer_init lcid pcid lport pport alloc kp =
     \<lparr>cstate = PeerInit, local_cid = lcid, peer_cid = pcid, local_port = lport, peer_port = pport, keep = kp,
      tx_buf = TxBuf_default, fwd_cnt = 0, peer_buf_alloc = alloc, peer_fwd_cnt = 0, rx_cnt = 0,
      last_fwd_cnt_to_peer = 0, pending_rx = prx_from Response, expiry = None\<rparr>"

definition new_local_init :: "64 word \<Rightarrow> 64 word \<Rightarrow> 32 word \<Rightarrow> 32 word \<Rightarrow> bool \<Rightarrow> VsockConnection" where
  "new_local_init lcid pcid lport pport kp =
     \<lparr>cstate = LocalInit, local_cid = lcid, peer_cid = pcid, local_port = lport, peer_port = pport, keep = kp,
      tx_buf = TxBuf_default, fwd_cnt = 0, peer_buf_alloc = 0, peer_fwd_cnt = 0, rx_cnt = 0,
      last_fwd_cnt_to_peer = 0, pending_rx = prx_from Request, expiry = None\<rparr>"

definition will_expire :: "VsockConnection \<Rightarrow> nat \<Rightarrow> bool" where
  "will_expire c now = (case expiry c of None \<Rightarrow> False | Some t \<Rightarrow> t > now)"

definition has_expired :: "VsockConnection \<Rightarrow> nat \<Rightarrow> bool" where
  "has_expired c now = (case expiry c of None \<Rightarrow> False | Some t \<Rightarrow> t \<le> now)"

definition insert_pending :: "PendingRx \<Rightarrow> VsockConnection \<Rightarrow> VsockConnection" where
  "insert_pending it c = c\<lparr>pending_rx := prx_insert it (pending_rx c)\<rparr>"

definition kill :: "VsockConnection \<Rightarrow> VsockConnection" where
  "kill c = insert_pending Rst (c\<lparr>cstate := Killed\<rparr>)"

definition has_pending_rx :: "VsockConnection \<Rightarrow> bool" where
  "has_pending_rx c = (\<not> prx_is_empty (pending_rx c))"

definition peer_needs_credit_update :: "VsockConnection \<Rightarrow> bool" where
  "peer_needs_credit_update c =
     (CONN_TX_BUF_SIZE - (fwd_cnt c - last_fwd_cnt_to_peer c) < CONN_CREDIT_UPDATE_THRESHOLD)"

definition peer_avail_credit :: "VsockConnection \<Rightarrow> nat" where
  "peer_avail_credit c = unat (peer_buf_alloc c - (rx_cnt c - peer_fwd_cnt c))"

definition need_credit_update_from_peer :: "VsockConnection \<Rightarrow> bool" where
  "need_credit_update_from_peer c = (peer_avail_credit c = 0)"

definition init_pkt :: "VsockConnection \<Rightarrow> VsockPacket \<Rightarrow> VsockPacket" where
  "init_pkt c pkt =
     set_fwd_cnt (fwd_cnt c) (set_buf_alloc CONN_TX_BUF_SIZE (set_type VSOCK_TYPE_STREAM
       (set_dst_port (peer_port c) (set_src_port (local_port c) (set_dst_cid (peer_cid c)
         (set_src_cid (local_cid c) (pkt\<lparr>phdr := hdr_zero\<rparr>)))))))"

section \<open>From the stream to the guest\<close>

text \<open>The results of a packet operation: the outcome, the connection, the packet, the stream.\<close>

type_synonym 'w recv_result = "((VsockError + unit) \<times> VsockConnection \<times> VsockPacket \<times> 'w) may_panic"

definition recv_credit_update :: "VsockConnection \<Rightarrow> VsockPacket \<Rightarrow> 'w \<Rightarrow> 'w recv_result" where
  "recv_credit_update c pkt w =
     (let c1 = c\<lparr>pending_rx := snd (prx_remove CreditUpdate (pending_rx c))\<rparr> in
      if fst (prx_remove CreditUpdate (pending_rx c)) \<and> \<not> has_pending_rx c1
      then ret (Ok (), c1\<lparr>last_fwd_cnt_to_peer := fwd_cnt c1\<rparr>, set_op VSOCK_OP_CREDIT_UPDATE pkt, w)
      else ret (Err NoData, c1, pkt, w))"

definition recv_data :: "'w VsockStream \<Rightarrow> nat \<Rightarrow> VsockConnection \<Rightarrow> VsockPacket \<Rightarrow> 'w \<Rightarrow> 'w recv_result" where
  "recv_data strm now c pkt w =
     (if \<not> (cstate c = Established \<or> (\<exists>s \<in> {True, False}. cstate c = PeerClosed False s))
      then ret (Ok (), c, set_op VSOCK_OP_RST pkt, w)
      else if need_credit_update_from_peer c
      then ret (Ok (), c\<lparr>last_fwd_cnt_to_peer := fwd_cnt c\<rparr>, set_op VSOCK_OP_CREDIT_REQUEST pkt, w)
      else case pbuf pkt of
        None \<Rightarrow> ret (Err PktBufMissing, c, pkt, w)
      | Some buf \<Rightarrow>
          (case stream_read strm (min (length buf) (peer_avail_credit c)) w of
             None \<Rightarrow> panic
           | Some (Inl WouldBlock, w') \<Rightarrow> recv_credit_update c pkt w'
           | Some (Inl _, w') \<Rightarrow> ret (Ok (), c\<lparr>last_fwd_cnt_to_peer := fwd_cnt c\<rparr>, set_op VSOCK_OP_RST pkt, w')
           | Some (Inr bs, w') \<Rightarrow>
               let pkt1 = pkt\<lparr>pbuf := Some (bs @ drop (length bs) buf)\<rparr>;
                   (c1, pkt2) =
                     (if bs = []
                      then (c\<lparr>cstate := LocalClosed, expiry := Some (now + from_millis CONN_SHUTDOWN_TIMEOUT_MS)\<rparr>,
                            set_flag VSOCK_FLAGS_SHUTDOWN_SEND (set_flag VSOCK_FLAGS_SHUTDOWN_RCV (set_op VSOCK_OP_SHUTDOWN pkt1)))
                      else (c, pkt_set_len (of_nat (length bs)) (set_op VSOCK_OP_RW pkt1)))
               in ret (Ok (), c1\<lparr>rx_cnt := rx_cnt c1 + hdr_len (phdr pkt2), last_fwd_cnt_to_peer := fwd_cnt c1\<rparr>, pkt2, w')))"

definition recv_pkt :: "'w VsockStream \<Rightarrow> nat \<Rightarrow> VsockConnection \<Rightarrow> VsockPacket \<Rightarrow> 'w \<Rightarrow> 'w recv_result" where
  "recv_pkt strm now c pkt0 w =
     (let pkt = init_pkt c pkt0; drop_pending = (\<lambda>it. c\<lparr>pending_rx := snd (prx_remove it (pending_rx c))\<rparr>) in
      if prx_contains (pending_rx c) Rst then ret (Ok (), drop_pending Rst, set_op VSOCK_OP_RST pkt, w)
      else if prx_contains (pending_rx c) Response
      then ret (Ok (), (drop_pending Response)\<lparr>cstate := Established\<rparr>, set_op VSOCK_OP_RESPONSE pkt, w)
      else if prx_contains (pending_rx c) Request
      then ret (Ok (), (drop_pending Request)\<lparr>expiry := Some (now + from_millis CONN_REQUEST_TIMEOUT_MS)\<rparr>,
                set_op VSOCK_OP_REQUEST pkt, w)
      else if prx_contains (pending_rx c) Rw then recv_data strm now (drop_pending Rw) pkt w
      else recv_credit_update c pkt w)"

section \<open>From the guest to the stream\<close>

definition send_bytes_raw :: "'w VsockStream \<Rightarrow> byte list \<Rightarrow> 'w \<Rightarrow> ((csm_error + nat) \<times> 'w) may_panic" where
  "send_bytes_raw strm buf = eff_map_err StreamWrite (stream_write strm buf)"

definition send_bytes ::
  "'w VsockStream \<Rightarrow> VsockConnection \<Rightarrow> byte list \<Rightarrow> 'w \<Rightarrow> ((csm_error + unit) \<times> VsockConnection \<times> 'w) may_panic" where
  "send_bytes strm c buf w =
     (if \<not> tx_is_empty (tx_buf c)
      then do { (r, b) \<leftarrow> tx_push (tx_buf c) buf; ret (r, c\<lparr>tx_buf := b\<rparr>, w) }
      else case stream_write strm buf w of
        None \<Rightarrow> panic
      | Some (res, w') \<Rightarrow>
          let written = (case res of
                Inr cnt \<Rightarrow> Ok cnt
              | Inl WouldBlock \<Rightarrow> Ok 0
              | Inl BrokenPipe \<Rightarrow> if \<not> keep c then Err (StreamWrite BrokenPipe) else Ok 0
              | Inl e \<Rightarrow> Err (StreamWrite e)) in
          (case written of
             Inl e \<Rightarrow> ret (Err e, c, w')
           | Inr n \<Rightarrow>
               let c1 = c\<lparr>fwd_cnt := fwd_cnt c + of_nat n\<rparr> in
               if n < length buf
               then do { (r, b) \<leftarrow> tx_push (tx_buf c1) (drop n buf); ret (r, c1\<lparr>tx_buf := b\<rparr>, w') }
               else ret (Ok (), c1, w')))"

definition send_data :: "'w VsockStream \<Rightarrow> VsockConnection \<Rightarrow> VsockPacket \<Rightarrow> 'w \<Rightarrow> (VsockConnection \<times> 'w) may_panic" where
  "send_data strm c pkt w =
     (case pbuf pkt of
        None \<Rightarrow> ret (c, w)
      | Some buf \<Rightarrow>
          if unat (hdr_len (phdr pkt)) > length buf then panic
          else do {
            (r, c1, w1) \<leftarrow> send_bytes strm c (take (unat (hdr_len (phdr pkt))) buf) w;
            (case r of
               Inl TxBufFull \<Rightarrow> ret (if \<not> keep c1 then kill c1 else c1, w1)
             | Inl _ \<Rightarrow> ret (kill c1, w1)
             | Inr _ \<Rightarrow> ret (if peer_needs_credit_update c1 then insert_pending CreditUpdate c1 else c1, w1)) })"

definition flag_set :: "VsockPacket \<Rightarrow> 32 word \<Rightarrow> bool" where
  "flag_set pkt flag = (hdr_flags (phdr pkt) AND flag \<noteq> 0)"

definition shutdown_established :: "nat \<Rightarrow> VsockConnection \<Rightarrow> VsockPacket \<Rightarrow> VsockConnection" where
  "shutdown_established now c pkt =
     (let recv_off = flag_set pkt VSOCK_FLAGS_SHUTDOWN_RCV; send_off = flag_set pkt VSOCK_FLAGS_SHUTDOWN_SEND;
          c1 = c\<lparr>cstate := PeerClosed recv_off send_off\<rparr> in
      if recv_off \<and> send_off
      then (if tx_is_empty (tx_buf c1) then insert_pending Rst c1
            else c1\<lparr>expiry := Some (now + from_millis CONN_SHUTDOWN_TIMEOUT_MS)\<rparr>)
      else c1)"

definition shutdown_more :: "VsockConnection \<Rightarrow> bool \<Rightarrow> bool \<Rightarrow> VsockPacket \<Rightarrow> VsockConnection" where
  "shutdown_more c r s pkt =
     (let recv_off = (r \<or> flag_set pkt VSOCK_FLAGS_SHUTDOWN_RCV); send_off = (s \<or> flag_set pkt VSOCK_FLAGS_SHUTDOWN_SEND);
          c1 = c\<lparr>cstate := PeerClosed recv_off send_off\<rparr> in
      if recv_off \<and> send_off \<and> tx_is_empty (tx_buf c1) then insert_pending Rst c1 else c1)"

definition send_pkt :: "'w VsockStream \<Rightarrow> nat \<Rightarrow> VsockConnection \<Rightarrow> VsockPacket \<Rightarrow> 'w \<Rightarrow> (VsockConnection \<times> 'w) may_panic" where
  "send_pkt strm now c0 pkt w =
     (let c = c0\<lparr>peer_buf_alloc := buf_alloc (phdr pkt), peer_fwd_cnt := hdr_fwd_cnt (phdr pkt)\<rparr>; op = hdr_op (phdr pkt) in
      case cstate c of
        Established \<Rightarrow>
          if op = VSOCK_OP_RW then send_data strm c pkt w
          else if op = VSOCK_OP_SHUTDOWN then ret (shutdown_established now c pkt, w)
          else if op = VSOCK_OP_CREDIT_REQUEST then ret (insert_pending CreditUpdate c, w)
          else ret (c, w)
      | PeerClosed r s \<Rightarrow>
          if op = VSOCK_OP_RW \<and> \<not> s then send_data strm c pkt w
          else if op = VSOCK_OP_SHUTDOWN then ret (shutdown_more c r s pkt, w)
          else if op = VSOCK_OP_CREDIT_REQUEST \<and> \<not> s then ret (insert_pending CreditUpdate c, w)
          else ret (c, w)
      | LocalInit \<Rightarrow>
          if op = VSOCK_OP_RESPONSE then ret (c\<lparr>expiry := None, cstate := Established\<rparr>, w) else ret (c, w)
      | PeerInit \<Rightarrow>
          if op = VSOCK_OP_CREDIT_REQUEST then ret (insert_pending CreditUpdate c, w) else ret (c, w)
      | _ \<Rightarrow> ret (c, w))"

section \<open>Events on the stream\<close>

datatype epoll_event = EPOLLIN | EPOLLOUT | EPOLLHUP | EPOLLERR

definition get_polled_evset :: "VsockConnection \<Rightarrow> epoll_event set" where
  "get_polled_evset c =
     (if tx_is_empty (tx_buf c) then {} else {EPOLLOUT}) \<union>
     (case cstate c of
        Killed \<Rightarrow> {}
      | LocalClosed \<Rightarrow> {}
      | PeerClosed True s \<Rightarrow> {}
      | _ \<Rightarrow> if need_credit_update_from_peer c then {} else {EPOLLIN})"

definition notify_out :: "'w VsockStream \<Rightarrow> VsockConnection \<Rightarrow> 'w \<Rightarrow> (VsockConnection \<times> 'w) may_panic" where
  "notify_out strm c w = do {
     (r, b, w1) \<leftarrow> flush_to strm (tx_buf c) w;
     let c1 = c\<lparr>tx_buf := b\<rparr>;
     let (c2, n) = (case r of
           Inr n \<Rightarrow> (c1, n)
         | Inl (TxBufFlush WouldBlock) \<Rightarrow> (c1, 0)
         | Inl (TxBufFlush BrokenPipe) \<Rightarrow> (if \<not> keep c1 then kill c1 else c1, 0)
         | Inl _ \<Rightarrow> (kill c1, 0));
     let c3 = c2\<lparr>fwd_cnt := fwd_cnt c2 + of_nat n\<rparr>;
     ret (if cstate c3 = PeerClosed True True \<and> tx_is_empty (tx_buf c3) then insert_pending Rst c3
          else if peer_needs_credit_update c3 then insert_pending CreditUpdate c3
          else c3, w1) }"

definition notify :: "'w VsockStream \<Rightarrow> VsockConnection \<Rightarrow> epoll_event set \<Rightarrow> 'w \<Rightarrow> (VsockConnection \<times> 'w) may_panic" where
  "notify strm c evset w =
     (let c1 = (if EPOLLIN \<in> evset \<or> EPOLLHUP \<in> evset then insert_pending Rw c else c) in
      if EPOLLOUT \<in> evset
      then (if tx_is_empty (tx_buf c1) then ret (c1, w) else notify_out strm c1 w)
      else if EPOLLERR \<in> evset \<and> EPOLLIN \<notin> evset then ret (kill c1, w)
      else ret (c1, w))"

end
