(* ===== verification/VsockClaims.thy ===== *)
theory VsockClaims
  imports VsockConn
begin

text \<open>
  Properties of vsock packets, the transmit buffer and connections.
\<close>

section \<open>The pending set\<close>

lemma mask_bit [simp]: "bit (into_mask it) k \<longleftrightarrow> k = rx_index it \<and> k < 16"
  by (auto simp: into_mask_def push_bit_of_1 bit_exp_iff)

lemma rx_index_lt [simp]: "rx_index it < 16"
  by (cases it) auto

lemma rx_index_inj [simp]: "rx_index a = rx_index b \<longleftrightarrow> a = b"
  by (cases a; cases b) auto

lemma contains_bit: "prx_contains s it \<longleftrightarrow> bit s (rx_index it)"
  by (simp add: prx_contains_def into_mask_def push_bit_of_1 and_exp_eq_0_iff_not_bit)

lemma prx_laws [simp]:
  "prx_contains (prx_insert a s) b \<longleftrightarrow> a = b \<or> prx_contains s b"
  "prx_contains (snd (prx_remove a s)) b \<longleftrightarrow> a \<noteq> b \<and> prx_contains s b"
  "prx_contains (prx_from a) b \<longleftrightarrow> a = b"
  "fst (prx_remove a s) = prx_contains s a"
  by (auto simp: contains_bit prx_insert_def prx_remove_def prx_from_def bit_or_iff bit_and_iff bit_not_iff)

section \<open>Sending bytes\<close>

lemma push_empty_fits: "tx_inv b \<Longrightarrow> tx_is_empty b \<Longrightarrow> length src \<le> TXBUF_SIZE \<Longrightarrow>
    \<exists>b'. tx_push b src = Some (Ok (), b') \<and> tx_inv b' \<and> tx_contents b' = src"
  using push_fits [of b src] empty_contents [of b] by (auto simp: tx_is_empty_def)

definition fwd_moved :: "('w \<Rightarrow> byte list) \<Rightarrow> VsockConnection \<Rightarrow> 'w \<Rightarrow> VsockConnection \<Rightarrow> 'w \<Rightarrow> bool" where
  "fwd_moved sent c w c' w' \<longleftrightarrow> tx_inv (tx_buf c') \<and> length (sent w) \<le> length (sent w') \<and>
     fwd_cnt c' = fwd_cnt c + of_nat (length (sent w') - length (sent w))"

lemma send_bytes_spec:
  assumes ok: "sink_ok strm sent" and inv: "tx_inv (tx_buf c)" and len: "length buf \<le> TXBUF_SIZE"
  shows "\<exists>r c' w'. send_bytes strm c buf w = Some (r, c', w') \<and> fwd_moved sent c w c' w' \<and>
    (case r of
       Inr _ \<Rightarrow> sent w' @ tx_contents (tx_buf c') = sent w @ tx_contents (tx_buf c) @ buf
     | Inl e \<Rightarrow> c' = c \<and> sent w' = sent w \<and>
         (e = TxBufFull \<longrightarrow> tx_len (tx_buf c) + length buf > TXBUF_SIZE)) \<and>
    cstate c' = cstate c \<and> pending_rx c' = pending_rx c \<and> keep c' = keep c"
proof (cases "tx_is_empty (tx_buf c)")
  case False
  show ?thesis
  proof (cases "tx_len (tx_buf c) + length buf \<le> TXBUF_SIZE")
    case True
    then show ?thesis using push_fits [OF inv, of buf] False by (auto simp: send_bytes_def fwd_moved_def)
  next
    case full: False
    then show ?thesis using push_full [of "tx_buf c" buf] False inv by (auto simp: send_bytes_def fwd_moved_def)
  qed
next
  case True
  then have e: "tx_contents (tx_buf c) = []" using inv empty_contents by blast
  obtain r w' where w: "stream_write strm buf w = Some (r, w')"
      "case r of Inl e \<Rightarrow> sent w' = sent w | Inr n \<Rightarrow> n \<le> length buf \<and> sent w' = sent w @ take n buf"
    using ok unfolding sink_ok_def by blast
  have push: "\<exists>b'. tx_push (tx_buf c) (drop n buf) = Some (Ok (), b') \<and> tx_inv b' \<and> tx_contents b' = drop n buf" for n
    using push_empty_fits [OF inv True, of "drop n buf"] len by simp
  show ?thesis
  proof (cases r)
    case (Inr n)
    then show ?thesis
      using w True e push [of n] inv by (auto simp: send_bytes_def Let_def fwd_moved_def)
  next
    case (Inl err)
    then show ?thesis
      using w True e push [of 0] inv by (cases err) (auto simp: send_bytes_def Let_def fwd_moved_def)
  qed
qed

lemma send_bytes_fits:
  assumes "tx_inv (tx_buf c)" "length buf \<le> TXBUF_SIZE" "send_bytes strm c buf w = Some (Inr (), c', w')"
  shows "tx_len (tx_buf c) + length buf \<le> TXBUF_SIZE"
proof (rule ccontr)
  assume "\<not> ?thesis"
  then show False
    using assms push_full [of "tx_buf c" buf] by (cases "tx_is_empty (tx_buf c)") (auto simp: send_bytes_def tx_is_empty_def)
qed

section \<open>One operation\<close>

text \<open>
  What an operation does to the byte stream: the bytes taken over from the guest are appended to
  those on the stream and in the buffer, and the forward counter follows the stream.
\<close>

definition carries :: "('w \<Rightarrow> byte list) \<Rightarrow> VsockConnection \<Rightarrow> 'w \<Rightarrow> byte list \<Rightarrow> VsockConnection \<Rightarrow> 'w \<Rightarrow> bool" where
  "carries sent c w bs c' w' \<longleftrightarrow> fwd_moved sent c w c' w' \<and>
     sent w' @ tx_contents (tx_buf c') = sent w @ tx_contents (tx_buf c) @ bs"

lemma kill_simps [simp]:
  "tx_buf (kill c) = tx_buf c" "fwd_cnt (kill c) = fwd_cnt c" "tx_buf (insert_pending it c) = tx_buf c"
  "fwd_cnt (insert_pending it c) = fwd_cnt c" "cstate (kill c) = Killed" "cstate (insert_pending it c) = cstate c"
  "prx_contains (pending_rx (kill c)) it \<longleftrightarrow> it = Rst \<or> prx_contains (pending_rx c) it"
  "prx_contains (pending_rx (insert_pending it c)) it' \<longleftrightarrow> it = it' \<or> prx_contains (pending_rx c) it'"
  by (auto simp: kill_def insert_pending_def)

lemma carries_same:
  "tx_inv (tx_buf c) \<Longrightarrow> tx_buf c' = tx_buf c \<Longrightarrow> fwd_cnt c' = fwd_cnt c \<Longrightarrow> sent w' = sent w \<Longrightarrow> carries sent c w [] c' w'"
  by (simp add: carries_def fwd_moved_def)

text \<open>The data a packet carries and whether a connection takes it.\<close>

definition payload :: "VsockPacket \<Rightarrow> byte list" where
  "payload pkt = (case pbuf pkt of None \<Rightarrow> [] | Some buf \<Rightarrow> take (unat (hdr_len (phdr pkt))) buf)"

definition accepts_data :: "VsockConnection \<Rightarrow> VsockPacket \<Rightarrow> bool" where
  "accepts_data c pkt \<longleftrightarrow> hdr_op (phdr pkt) = VSOCK_OP_RW \<and> (cstate c = Established \<or> (\<exists>r. cstate c = PeerClosed r False))"

definition good_pkt :: "VsockPacket \<Rightarrow> bool" where
  "good_pkt pkt \<longleftrightarrow> (case pbuf pkt of None \<Rightarrow> True | Some buf \<Rightarrow> unat (hdr_len (phdr pkt)) \<le> length buf) \<and>
     length (payload pkt) \<le> TXBUF_SIZE"

definition refused :: "VsockConnection \<Rightarrow> VsockPacket \<Rightarrow> VsockConnection \<Rightarrow> bool" where
  "refused c pkt c' \<longleftrightarrow> cstate c' = Killed \<or> keep c \<and> tx_len (tx_buf c) + length (payload pkt) > TXBUF_SIZE"

lemma send_data_spec:
  assumes ok: "sink_ok strm sent" and inv: "tx_inv (tx_buf c)" and pkt: "good_pkt pkt"
  shows "\<exists>c' w'. send_data strm c pkt w = Some (c', w') \<and>
    (cstate c \<noteq> Killed \<longrightarrow> carries sent c w (if refused c pkt c' then [] else payload pkt) c' w')"
proof (cases "pbuf pkt")
  case None
  then show ?thesis using inv carries_same [of c c sent w w] by (simp add: send_data_def payload_def)
next
  case (Some buf)
  then have len: "unat (hdr_len (phdr pkt)) \<le> length buf" "length (payload pkt) \<le> TXBUF_SIZE"
    and p: "payload pkt = take (unat (hdr_len (phdr pkt))) buf"
    using pkt by (auto simp: good_pkt_def payload_def)
  obtain r c1 w1 where s: "send_bytes strm c (payload pkt) w = Some (r, c1, w1)" "fwd_moved sent c w c1 w1"
      "case r of
         Inr _ \<Rightarrow> sent w1 @ tx_contents (tx_buf c1) = sent w @ tx_contents (tx_buf c) @ payload pkt
       | Inl e \<Rightarrow> c1 = c \<and> sent w1 = sent w \<and> (e = TxBufFull \<longrightarrow> tx_len (tx_buf c) + length (payload pkt) > TXBUF_SIZE)"
      "cstate c1 = cstate c" "keep c1 = keep c"
    using send_bytes_spec [OF ok inv len(2), of w] by blast
  have fits: "tx_len (tx_buf c) + length (payload pkt) \<le> TXBUF_SIZE" if "r = Inr ()"
    using send_bytes_fits [OF inv len(2), of strm w c1 w1] s(1) that by simp
  show ?thesis
  proof (cases r)
    case (Inr u)
    then have "\<not> tx_len (tx_buf c) + length (payload pkt) > TXBUF_SIZE" using fits by simp
    then show ?thesis using Some len s p Inr by (auto simp: send_data_def carries_def fwd_moved_def refused_def)
  next
    case (Inl e)
    then have "c1 = c" "sent w1 = sent w" and full: "e = TxBufFull \<longrightarrow> tx_len (tx_buf c) + length (payload pkt) > TXBUF_SIZE"
      using s(3) by auto
    let ?c' = "if e = TxBufFull \<and> keep c then c else kill c"
    have "send_data strm c pkt w = Some (?c', w1)"
      using Some len(1) s(1) p Inl \<open>c1 = c\<close> by (cases e) (simp_all add: send_data_def)
    moreover have "refused c pkt ?c'" using full by (simp add: refused_def)
    moreover have "carries sent c w [] ?c' w1" using inv \<open>sent w1 = sent w\<close> by (intro carries_same) simp_all
    ultimately show ?thesis by auto
  qed
qed

lemma shutdown_simps [simp]:
  "tx_buf (shutdown_established now c pkt) = tx_buf c" "fwd_cnt (shutdown_established now c pkt) = fwd_cnt c"
  "tx_buf (shutdown_more c r s pkt) = tx_buf c" "fwd_cnt (shutdown_more c r s pkt) = fwd_cnt c"
  by (simp_all add: shutdown_established_def shutdown_more_def Let_def)

lemma send_pkt_spec:
  assumes ok: "sink_ok strm sent" and inv: "tx_inv (tx_buf c)" and pkt: "good_pkt pkt"
  shows "\<exists>c' w'. send_pkt strm now c pkt w = Some (c', w') \<and>
    carries sent c w (if accepts_data c pkt \<and> \<not> refused c pkt c' then payload pkt else []) c' w'"
proof -
  let ?c = "c\<lparr>peer_buf_alloc := buf_alloc (phdr pkt), peer_fwd_cnt := hdr_fwd_cnt (phdr pkt)\<rparr>"
  have same: "carries sent ?c w bs c' w' = carries sent c w bs c' w'" "refused ?c pkt c' = refused c pkt c'" for bs c' w'
    by (simp_all add: carries_def fwd_moved_def refused_def)
  have data: "accepts_data c pkt \<Longrightarrow> send_pkt strm now c pkt w = send_data strm ?c pkt w"
    by (auto simp: accepts_data_def send_pkt_def vsock_ops)
  show ?thesis
  proof (cases "accepts_data c pkt")
    case True
    then have "cstate ?c \<noteq> Killed" by (auto simp: accepts_data_def)
    then obtain c' w' where "send_data strm ?c pkt w = Some (c', w')"
        "carries sent c w (if refused c pkt c' then [] else payload pkt) c' w'"
      using send_data_spec [OF ok _ pkt, of ?c w] inv same by auto
    then show ?thesis using True data by (intro exI [of _ c'] exI [of _ w']) (simp split: if_splits)
  next
    case False
    then have "\<exists>c'. send_pkt strm now c pkt w = Some (c', w) \<and> tx_buf c' = tx_buf c \<and> fwd_cnt c' = fwd_cnt c"
      by (cases "cstate c") (auto simp: accepts_data_def send_pkt_def Let_def vsock_ops)
    then obtain c' where c': "send_pkt strm now c pkt w = Some (c', w)" "tx_buf c' = tx_buf c" "fwd_cnt c' = fwd_cnt c" by blast
    then have "carries sent c w [] c' w" using inv by (intro carries_same) simp_all
    then show ?thesis using False c'(1) by simp
  qed
qed

lemma flush_carries:
  assumes "tx_inv (tx_buf c)" "flushed sent (tx_buf c) w n b' w'"
    and "tx_buf c' = b'" "fwd_cnt c' = fwd_cnt c + of_nat n"
  shows "carries sent c w [] c' w'"
  using assms by (auto simp: carries_def fwd_moved_def flushed_def min_absorb2)

lemma notify_out_spec:
  assumes ok: "sink_ok strm sent" and inv: "tx_inv (tx_buf c)"
  shows "\<exists>c' w'. notify_out strm c w = Some (c', w') \<and> carries sent c w [] c' w' \<and>
    (cstate c' = cstate c \<or> cstate c' = Killed \<and> prx_contains (pending_rx c') Rst) \<and>
    (\<forall>it. prx_contains (pending_rx c) it \<longrightarrow> prx_contains (pending_rx c') it) \<and>
    (\<forall>it. prx_contains (pending_rx c') it \<longrightarrow> prx_contains (pending_rx c) it \<or> it \<in> {Rst, CreditUpdate})"
proof -
  obtain r b' w1 where f: "flush_to strm (tx_buf c) w = Some (r, b', w1)"
      "case r of Inl e \<Rightarrow> b' = tx_buf c \<and> sent w1 = sent w | Inr n \<Rightarrow> flushed sent (tx_buf c) w n b' w1"
    using flush_refines [OF ok inv, of w] by blast
  show ?thesis
  proof (cases r)
    case (Inr n)
    then show ?thesis using f flush_carries [OF inv, of sent w n b' w1] by (auto simp: notify_out_def Let_def)
  next
    case (Inl e)
    then have "b' = tx_buf c" "sent w1 = sent w" using f(2) by auto
    then show ?thesis
      using f(1) Inl carries_same [OF inv, of _ sent w1 w]
      by (cases e; cases "case e of TxBufFlush k \<Rightarrow> k | StreamWrite k \<Rightarrow> k | TxBufFull \<Rightarrow> WouldBlock")
        (auto simp: notify_out_def Let_def)
  qed
qed

lemma notify_spec:
  assumes ok: "sink_ok strm sent" and inv: "tx_inv (tx_buf c)"
  shows "\<exists>c' w'. notify strm c evset w = Some (c', w') \<and> carries sent c w [] c' w'"
proof -
  let ?c1 = "if EPOLLIN \<in> evset \<or> EPOLLHUP \<in> evset then insert_pending Rw c else c"
  have c1: "tx_buf ?c1 = tx_buf c" "fwd_cnt ?c1 = fwd_cnt c" by simp_all
  then have same: "carries sent ?c1 w bs c' w' = carries sent c w bs c' w'" for bs c' w'
    by (simp add: carries_def fwd_moved_def)
  show ?thesis
    using notify_out_spec [OF ok, of ?c1 w] inv carries_same [OF inv, of _ sent w w] c1
    unfolding notify_def Let_def same by auto
qed

text \<open>
  What \<open>std::io::Read\<close> promises: a read returns and yields no more bytes than asked for; it does not
  change what was written.
\<close>

definition source_ok :: "'w VsockStream \<Rightarrow> ('w \<Rightarrow> byte list) \<Rightarrow> bool" where
  "source_ok strm sent \<longleftrightarrow> (\<forall>n w. \<exists>r w'. stream_read strm n w = Some (r, w') \<and> sent w' = sent w \<and>
     (\<forall>bs. r = Inr bs \<longrightarrow> length bs \<le> n))"

definition in_flight :: "VsockConnection \<Rightarrow> nat" where
  "in_flight c = unat (rx_cnt c - peer_fwd_cnt c)"

lemma avail_credit: "in_flight c \<le> unat (peer_buf_alloc c) \<Longrightarrow> peer_avail_credit c = unat (peer_buf_alloc c) - in_flight c"
  by (simp add: peer_avail_credit_def in_flight_def unat_sub word_le_nat_alt)

lemma in_flight_add:
  assumes "in_flight c + n \<le> unat (peer_buf_alloc c)"
  shows "unat (rx_cnt c + of_nat n - peer_fwd_cnt c) = in_flight c + n"
proof -
  have "rx_cnt c + of_nat n - peer_fwd_cnt c = (rx_cnt c - peer_fwd_cnt c) + of_nat n" by simp
  then have "unat (rx_cnt c + of_nat n - peer_fwd_cnt c) = (in_flight c + n) mod 2 ^ 32"
    by (simp only: unat_add_nat in_flight_def)
  moreover have "in_flight c + n < 2 ^ 32"
    using assms unsigned_less [of "peer_buf_alloc c", where 'a = nat] by simp
  ultimately show ?thesis by simp
qed

text \<open>The flow of data towards the guest.\<close>

definition rx_effect ::
  "('w \<Rightarrow> byte list) \<Rightarrow> VsockConnection \<Rightarrow> 'w \<Rightarrow> VsockError + unit \<Rightarrow> VsockConnection \<Rightarrow> VsockPacket \<Rightarrow> 'w \<Rightarrow> bool" where
  "rx_effect sent c w r c' p' w' \<longleftrightarrow>
     tx_buf c' = tx_buf c \<and> fwd_cnt c' = fwd_cnt c \<and> sent w' = sent w \<and> peer_buf_alloc c' = peer_buf_alloc c \<and>
     in_flight c' = in_flight c + unat (hdr_len (phdr p')) \<and> in_flight c' \<le> unat (peer_buf_alloc c') \<and>
     (hdr_len (phdr p') \<noteq> 0 \<longrightarrow> r = Ok () \<and> hdr_op (phdr p') = VSOCK_OP_RW \<and>
        cstate c' \<in> {Established, PeerClosed False True, PeerClosed False False})"

text \<open>The state and the pending indications: only an orderly close by the host changes the state.\<close>

definition rx_state :: "VsockConnection \<Rightarrow> VsockConnection \<Rightarrow> bool" where
  "rx_state c c' \<longleftrightarrow> (cstate c' = cstate c \<or> cstate c' = LocalClosed \<and> cstate c \<in> {Established, PeerClosed False True, PeerClosed False False}) \<and>
     (\<forall>it. prx_contains (pending_rx c') it \<longrightarrow> prx_contains (pending_rx c) it) \<and>
     (\<forall>it. it \<noteq> CreditUpdate \<and> prx_contains (pending_rx c) it \<longrightarrow> prx_contains (pending_rx c') it)"

lemma rx_state_pending: "rx_state c c' \<Longrightarrow> prx_contains (pending_rx c') it \<Longrightarrow> prx_contains (pending_rx c) it"
  by (simp add: rx_state_def)

lemma recv_credit_update_spec:
  assumes "in_flight c \<le> unat (peer_buf_alloc c)" "hdr_len (phdr pkt) = 0"
  shows "\<exists>r c' p'. recv_credit_update c pkt w = Some (r, c', p', w) \<and> rx_effect sent c w r c' p' w \<and> rx_state c c'"
  using assms by (auto simp: recv_credit_update_def Let_def rx_effect_def rx_state_def in_flight_def)

lemma recv_data_spec:
  assumes src: "source_ok strm sent" and credit: "in_flight c \<le> unat (peer_buf_alloc c)" and zero: "hdr_len (phdr pkt) = 0"
  shows "\<exists>r c' p' w'. recv_data strm now c pkt w = Some (r, c', p', w') \<and> rx_effect sent c w r c' p' w' \<and> rx_state c c'"
proof (cases "cstate c \<in> {Established, PeerClosed False True, PeerClosed False False} \<and> \<not> need_credit_update_from_peer c \<and> pbuf pkt \<noteq> None")
  case False
  then show ?thesis
    using zero credit by (auto simp: recv_data_def rx_effect_def rx_state_def in_flight_def)
next
  case True
  then obtain buf where buf: "pbuf pkt = Some buf" by auto
  let ?n = "min (length buf) (peer_avail_credit c)"
  obtain res w' where r: "stream_read strm ?n w = Some (res, w')" "sent w' = sent w" "\<forall>bs. res = Inr bs \<longrightarrow> length bs \<le> ?n"
    using src unfolding source_ok_def by blast
  have go: "recv_data strm now c pkt w = (case res of
      Inl WouldBlock \<Rightarrow> recv_credit_update c pkt w'
    | Inl _ \<Rightarrow> Some (Ok (), c\<lparr>last_fwd_cnt_to_peer := fwd_cnt c\<rparr>, set_op VSOCK_OP_RST pkt, w')
    | Inr bs \<Rightarrow>
        let pkt1 = pkt\<lparr>pbuf := Some (bs @ drop (length bs) buf)\<rparr>;
            (c1, pkt2) =
              (if bs = []
               then (c\<lparr>cstate := LocalClosed, expiry := Some (now + from_millis CONN_SHUTDOWN_TIMEOUT_MS)\<rparr>,
                     set_flag VSOCK_FLAGS_SHUTDOWN_SEND (set_flag VSOCK_FLAGS_SHUTDOWN_RCV (set_op VSOCK_OP_SHUTDOWN pkt1)))
               else (c, pkt_set_len (of_nat (length bs)) (set_op VSOCK_OP_RW pkt1)))
        in Some (Ok (), c1\<lparr>rx_cnt := rx_cnt c1 + hdr_len (phdr pkt2), last_fwd_cnt_to_peer := fwd_cnt c1\<rparr>, pkt2, w'))"
    using True buf r(1) by (auto simp: recv_data_def split: io_kind.splits sum.splits)
  show ?thesis
  proof (cases res)
    case (Inl e)
    show ?thesis
    proof (cases e)
      case WouldBlock
      then show ?thesis
        using go Inl recv_credit_update_spec [OF credit zero, of w' sent] r(2) by (auto simp: rx_effect_def)
    qed (use go Inl r(2) zero credit in \<open>auto simp: rx_effect_def rx_state_def in_flight_def\<close>)
  next
    case (Inr bs)
    show ?thesis
    proof (cases "bs = []")
      case nil: True
      then show ?thesis
        using go Inr True r(2) zero credit by (auto simp: rx_effect_def rx_state_def in_flight_def)
    next
      case False
      have "length bs \<le> peer_avail_credit c" using r(3) Inr by auto
      then have le: "in_flight c + length bs \<le> unat (peer_buf_alloc c)" using avail_credit [OF credit] credit by simp
      then have "unat (of_nat (length bs) :: 32 word) = length bs"
        using unsigned_less [of "peer_buf_alloc c", where 'a = nat] by (simp add: unat_of_nat)
      then show ?thesis
        using go Inr True False r(2) in_flight_add [OF le] le
        by (auto simp: rx_effect_def rx_state_def in_flight_def)
    qed
  qed
qed

lemma init_pkt_len [simp]: "hdr_len (phdr (init_pkt c pkt)) = 0" "pbuf (init_pkt c pkt) = pbuf pkt"
  by (simp_all add: init_pkt_def hdr_zero_def)

text \<open>The state after a packet was fetched: the handshake completes, or as for data packets.\<close>

lemma recv_pkt_spec:
  assumes src: "source_ok strm sent" and credit: "in_flight c \<le> unat (peer_buf_alloc c)"
  shows "\<exists>r c' p' w'. recv_pkt strm now c pkt w = Some (r, c', p', w') \<and> rx_effect sent c w r c' p' w' \<and>
    (prx_contains (pending_rx c) Rst \<longrightarrow> r = Ok () \<and> hdr_op (phdr p') = VSOCK_OP_RST \<and> cstate c' = cstate c) \<and>
    (\<not> prx_contains (pending_rx c) Rst \<longrightarrow>
       prx_contains (pending_rx c) Response \<and> cstate c' = Established \<and> (\<forall>it. prx_contains (pending_rx c') it \<longrightarrow> it \<noteq> Response) \<or>
       \<not> prx_contains (pending_rx c) Response \<and> (\<exists>it. rx_state (c\<lparr>pending_rx := snd (prx_remove it (pending_rx c))\<rparr>) c'))"
proof -
  let ?p = "init_pkt c pkt" and ?c = "\<lambda>it. c\<lparr>pending_rx := snd (prx_remove it (pending_rx c))\<rparr>"
  have cr: "in_flight (?c it) = in_flight c" "peer_buf_alloc (?c it) = peer_buf_alloc c" for it by (simp_all add: in_flight_def)
  have eff: "rx_effect sent (?c it) w = rx_effect sent c w" for it by (intro ext) (simp add: rx_effect_def in_flight_def)
  have id: "rx_state (?c CreditUpdate) c'" if "rx_state c c'" "\<not> prx_contains (pending_rx c') CreditUpdate" for c'
    using that by (auto simp: rx_state_def)
  consider (rst) "prx_contains (pending_rx c) Rst"
    | (resp) "\<not> prx_contains (pending_rx c) Rst" "prx_contains (pending_rx c) Response"
    | (req) "\<not> prx_contains (pending_rx c) Rst" "\<not> prx_contains (pending_rx c) Response" "prx_contains (pending_rx c) Request"
    | (rw) "\<not> prx_contains (pending_rx c) Rst" "\<not> prx_contains (pending_rx c) Response" "\<not> prx_contains (pending_rx c) Request"
        "prx_contains (pending_rx c) Rw"
    | (cu) "\<not> prx_contains (pending_rx c) Rst" "\<not> prx_contains (pending_rx c) Response" "\<not> prx_contains (pending_rx c) Request"
        "\<not> prx_contains (pending_rx c) Rw"
    by blast
  then show ?thesis
  proof cases
    case rst
    then show ?thesis using credit by (simp add: recv_pkt_def Let_def rx_effect_def in_flight_def)
  next
    case resp
    then show ?thesis using credit by (auto simp: recv_pkt_def Let_def rx_effect_def in_flight_def)
  next
    case req
    then have "rx_state (?c Request) ((?c Request)\<lparr>expiry := e\<rparr>)" for e by (simp add: rx_state_def)
    then show ?thesis using req credit by (auto simp: recv_pkt_def Let_def rx_effect_def in_flight_def)
  next
    case rw
    then have "recv_pkt strm now c pkt w = recv_data strm now (?c Rw) ?p w" by (simp add: recv_pkt_def Let_def)
    then show ?thesis using recv_data_spec [OF src, of "?c Rw" ?p now w] cr credit rw unfolding eff by auto
  next
    case cu
    then have g: "recv_pkt strm now c pkt w = recv_credit_update c ?p w" by (simp add: recv_pkt_def Let_def)
    obtain r c' p' where u: "recv_credit_update c ?p w = Some (r, c', p', w)" "rx_effect sent c w r c' p' w" "rx_state c c'"
      using recv_credit_update_spec [OF credit init_pkt_len(1) [of c pkt], of w sent] by blast
    have "\<not> prx_contains (pending_rx c') CreditUpdate"
      using u(1) by (auto simp: recv_credit_update_def Let_def split: if_splits)
    then show ?thesis using g u id cu by auto
  qed
qed

section \<open>Runs of a connection\<close>

text \<open>
  A run of a connection on its stream, with the bytes taken over from the guest.  The muxer drops
  a connection once it has yielded a reset, so a run ends there.
\<close>

inductive conn_run :: "'w VsockStream \<Rightarrow> VsockConnection \<times> 'w \<Rightarrow> byte list \<Rightarrow> VsockConnection \<times> 'w \<Rightarrow> bool"
  for strm :: "'w VsockStream" and s0 :: "VsockConnection \<times> 'w" where
  start: "conn_run strm s0 [] s0"
| guest: "conn_run strm s0 acc (c, w) \<Longrightarrow> good_pkt pkt \<Longrightarrow> send_pkt strm now c pkt w = Some (c', w') \<Longrightarrow>
    conn_run strm s0 (acc @ (if accepts_data c pkt \<and> \<not> refused c pkt c' then payload pkt else [])) (c', w')"
| event: "conn_run strm s0 acc (c, w) \<Longrightarrow> notify strm c evset w = Some (c', w') \<Longrightarrow> conn_run strm s0 acc (c', w')"
| fetch: "conn_run strm s0 acc (c, w) \<Longrightarrow> recv_pkt strm now c pkt w = Some (r, c', p', w') \<Longrightarrow>
    in_flight c \<le> unat (peer_buf_alloc c) \<Longrightarrow> hdr_op (phdr p') \<noteq> VSOCK_OP_RST \<Longrightarrow> conn_run strm s0 acc (c', w')"

definition stream_ok :: "'w VsockStream \<Rightarrow> ('w \<Rightarrow> byte list) \<Rightarrow> bool" where
  "stream_ok strm sent \<longleftrightarrow> sink_ok strm sent \<and> source_ok strm sent"

lemma carries_trans:
  assumes "carries sent c0 w0 acc c w" "carries sent c w bs c' w'"
  shows "carries sent c0 w0 (acc @ bs) c' w'"
proof -
  have "length (sent w) - length (sent w0) + (length (sent w') - length (sent w)) = length (sent w') - length (sent w0)"
    using assms by (simp add: carries_def fwd_moved_def)
  then have "fwd_cnt c' = fwd_cnt c0 + of_nat (length (sent w') - length (sent w0))"
    using assms by (simp add: carries_def fwd_moved_def flip: of_nat_add)
  then show ?thesis using assms by (auto simp: carries_def fwd_moved_def)
qed

lemma conn_run_carries:
  assumes "conn_run strm (c0, w0) acc (c, w)" "stream_ok strm sent" "tx_inv (tx_buf c0)"
  shows "carries sent c0 w0 acc c w"
  using assms
proof (induction acc "(c, w)" arbitrary: c w rule: conn_run.induct)
  case start
  then show ?case by (auto intro: carries_same)
next
  case (guest acc c w pkt now c' w')
  have IH: "carries sent c0 w0 acc c w" using guest by blast
  have "carries sent c w (if accepts_data c pkt \<and> \<not> refused c pkt c' then payload pkt else []) c' w'"
    using send_pkt_spec [of strm sent c pkt now w] guest IH by (auto simp: stream_ok_def carries_def fwd_moved_def)
  then show ?case using carries_trans [OF IH] by blast
next
  case (event acc c w evset c' w')
  have IH: "carries sent c0 w0 acc c w" using event by blast
  have "carries sent c w [] c' w'"
    using notify_spec [of strm sent c evset w] event IH by (auto simp: stream_ok_def carries_def fwd_moved_def)
  then show ?case using carries_trans [OF IH] by fastforce
next
  case (fetch acc c w now pkt r c' p' w')
  have IH: "carries sent c0 w0 acc c w" using fetch by blast
  have "rx_effect sent c w r c' p' w'"
    using recv_pkt_spec [of strm sent c now pkt w] fetch by (auto simp: stream_ok_def)
  then have "carries sent c w [] c' w'" using IH by (simp add: rx_effect_def carries_def fwd_moved_def)
  then show ?case using carries_trans [OF IH] by fastforce
qed

section \<open>The protocol of states\<close>

inductive moves :: "ConnState \<Rightarrow> ConnState \<Rightarrow> bool" where
  stay: "moves s s"
| confirm_peer: "moves PeerInit Established"
| confirm_local: "moves LocalInit Established"
| peer_close: "moves Established (PeerClosed r s)"
| peer_close_more: "(r \<longrightarrow> r') \<Longrightarrow> (s \<longrightarrow> s') \<Longrightarrow> moves (PeerClosed r s) (PeerClosed r' s')"
| host_close: "moves Established LocalClosed"
| host_close_half: "moves (PeerClosed False s) LocalClosed"
| killed: "moves s Killed"

inductive_cases moves_Killed: "moves Killed s"

definition conn_inv :: "VsockConnection \<Rightarrow> bool" where
  "conn_inv c \<longleftrightarrow> (cstate c = Killed \<longrightarrow> prx_contains (pending_rx c) Rst) \<and>
     (prx_contains (pending_rx c) Response \<longrightarrow> cstate c \<in> {PeerInit, Killed})"

text \<open>What an operation that only adds indications does.\<close>

definition adds :: "VsockConnection \<Rightarrow> VsockConnection \<Rightarrow> bool" where
  "adds c c' \<longleftrightarrow> (\<forall>it. prx_contains (pending_rx c) it \<longrightarrow> prx_contains (pending_rx c') it) \<and>
     (prx_contains (pending_rx c') Response \<longrightarrow> prx_contains (pending_rx c) Response) \<and>
     (cstate c' = cstate c \<or> cstate c' = Killed \<and> prx_contains (pending_rx c') Rst)"

lemma adds_inv: "conn_inv c \<Longrightarrow> adds c c' \<Longrightarrow> conn_inv c' \<and> moves (cstate c) (cstate c')"
  by (auto simp: adds_def conn_inv_def intro: moves.intros)

lemma adds_basic [simp]: "adds c c" "adds c (kill c)" "it \<noteq> Response \<Longrightarrow> adds c (insert_pending it c)"
  by (auto simp: adds_def)

lemma adds_cong: "cstate c1 = cstate c \<Longrightarrow> pending_rx c1 = pending_rx c \<Longrightarrow> adds c1 c' \<Longrightarrow> adds c c'"
  by (simp add: adds_def)

lemma send_bytes_frame:
  "send_bytes strm c buf w = Some (r, c', w') \<Longrightarrow> cstate c' = cstate c \<and> pending_rx c' = pending_rx c"
  by (auto simp: send_bytes_def Let_def split: if_splits option.splits prod.splits sum.splits)

lemma send_data_adds:
  assumes "send_data strm c pkt w = Some (c', w')"
  shows "adds c c'"
proof (cases "pbuf pkt")
  case None
  then show ?thesis using assms by (simp add: send_data_def)
next
  case (Some buf)
  let ?bs = "take (unat (hdr_len (phdr pkt))) buf"
  obtain r c1 w1 where b: "send_bytes strm c ?bs w = Some (r, c1, w1)"
    using assms Some by (cases "send_bytes strm c ?bs w") (auto simp: send_data_def split: if_splits)
  have "c' = kill c1 \<or> c' = c1 \<or> c' = insert_pending CreditUpdate c1"
  proof (cases r)
    case (Inl e)
    then show ?thesis using assms Some b by (cases e) (auto simp: send_data_def split: if_splits)
  next
    case (Inr u)
    then show ?thesis using assms Some b by (auto simp: send_data_def split: if_splits)
  qed
  moreover have "cstate c1 = cstate c" "pending_rx c1 = pending_rx c" using send_bytes_frame [OF b] by auto
  ultimately show ?thesis by (auto intro: adds_cong [of c1 c])
qed

lemma send_pkt_moves:
  assumes "send_pkt strm now c pkt w = Some (c', w')" "conn_inv c"
  shows "conn_inv c' \<and> moves (cstate c) (cstate c')"
proof -
  let ?c = "c\<lparr>peer_buf_alloc := buf_alloc (phdr pkt), peer_fwd_cnt := hdr_fwd_cnt (phdr pkt)\<rparr>"
  have up: "conn_inv c' \<and> moves (cstate c) (cstate c')" if "adds ?c c'"
    using that adds_inv [OF assms(2)] adds_cong [of ?c c c'] by simp
  have op: "VSOCK_OP_RW \<noteq> VSOCK_OP_SHUTDOWN" "VSOCK_OP_RW \<noteq> VSOCK_OP_CREDIT_REQUEST" "VSOCK_OP_SHUTDOWN \<noteq> VSOCK_OP_CREDIT_REQUEST"
    by (simp_all add: vsock_ops)
  show ?thesis
  proof (cases "cstate c")
    case Established
    then consider "adds ?c c'" | "c' = shutdown_established now ?c pkt"
      using assms(1) send_data_adds [of strm ?c pkt w c' w'] by (auto simp: send_pkt_def Let_def split: if_splits)
    then show ?thesis
      using up assms(2) Established
      by cases (auto simp: shutdown_established_def Let_def conn_inv_def intro: moves.intros)
  next
    case (PeerClosed r s)
    then consider "adds ?c c'" | "c' = shutdown_more ?c r s pkt"
      using assms(1) send_data_adds [of strm ?c pkt w c' w'] by (auto simp: send_pkt_def Let_def split: if_splits)
    then show ?thesis
      using up assms(2) PeerClosed
      by cases (auto simp: shutdown_more_def Let_def conn_inv_def intro: moves.intros)
  next
    case LocalInit
    then show ?thesis
      using assms by (auto simp: send_pkt_def Let_def conn_inv_def split: if_splits intro: moves.intros)
  qed (use assms up in \<open>auto simp: send_pkt_def Let_def split: if_splits\<close>)
qed

lemma notify_moves:
  assumes "notify strm c evset w = Some (c', w')" "conn_inv c" "sink_ok strm sent" "tx_inv (tx_buf c)"
  shows "conn_inv c' \<and> moves (cstate c) (cstate c')"
proof -
  let ?c1 = "if EPOLLIN \<in> evset \<or> EPOLLHUP \<in> evset then insert_pending Rw c else c"
  have out: "adds ?c1 c'" if "notify_out strm ?c1 w = Some (c', w')"
    using notify_out_spec [OF assms(3), of ?c1 w] assms(4) that by (auto simp: adds_def)
  have "c' = ?c1 \<or> c' = kill ?c1 \<or> adds ?c1 c'"
    using assms(1) out unfolding notify_def Let_def by (auto split: if_splits)
  then have "adds c c'" by (auto simp: adds_def split: if_splits)
  then show ?thesis using adds_inv [OF assms(2)] by blast
qed

lemma recv_pkt_moves:
  assumes "recv_pkt strm now c pkt w = Some (r, c', p', w')" "conn_inv c" "source_ok strm sent"
    "in_flight c \<le> unat (peer_buf_alloc c)" "hdr_op (phdr p') \<noteq> VSOCK_OP_RST"
  shows "conn_inv c' \<and> moves (cstate c) (cstate c')"
proof -
  have s: "\<not> prx_contains (pending_rx c) Rst"
    "prx_contains (pending_rx c) Response \<and> cstate c' = Established \<and> (\<forall>it. prx_contains (pending_rx c') it \<longrightarrow> it \<noteq> Response) \<or>
     \<not> prx_contains (pending_rx c) Response \<and> (\<exists>it. rx_state (c\<lparr>pending_rx := snd (prx_remove it (pending_rx c))\<rparr>) c')"
    using recv_pkt_spec [OF assms(3,4), of now pkt w] assms(1,5) by auto
  then have "cstate c \<noteq> Killed" using assms(2) by (auto simp: conn_inv_def)
  from s(2) show ?thesis
  proof
    assume a: "prx_contains (pending_rx c) Response \<and> cstate c' = Established \<and>
      (\<forall>it. prx_contains (pending_rx c') it \<longrightarrow> it \<noteq> Response)"
    then have "cstate c = PeerInit" using assms(2) \<open>cstate c \<noteq> Killed\<close> by (simp add: conn_inv_def)
    then show ?thesis using a by (auto simp: conn_inv_def intro: moves.intros)
  next
    assume "\<not> prx_contains (pending_rx c) Response \<and>
      (\<exists>it. rx_state (c\<lparr>pending_rx := snd (prx_remove it (pending_rx c))\<rparr>) c')"
    then obtain it where n: "\<not> prx_contains (pending_rx c) Response"
      and st: "rx_state (c\<lparr>pending_rx := snd (prx_remove it (pending_rx c))\<rparr>) c'" by blast
    have "\<not> prx_contains (pending_rx c') Response" using rx_state_pending [OF st, of Response] n by auto
    moreover have "cstate c' \<noteq> Killed \<and> moves (cstate c) (cstate c')"
    proof -
      have "cstate c' = cstate c \<or> cstate c' = LocalClosed \<and> cstate c \<in> {Established, PeerClosed False True, PeerClosed False False}"
        using st by (simp add: rx_state_def)
      then show ?thesis
        using \<open>cstate c \<noteq> Killed\<close> by (elim disjE) (auto intro: moves.stay moves.host_close moves.host_close_half)
    qed
    ultimately show ?thesis by (simp add: conn_inv_def)
  qed
qed

section \<open>Properties\<close>

definition demo_stream :: "byte list VsockStream" where
  "demo_stream = \<lparr>stream_read = (\<lambda>n w. Some (Ok (take n [1, 2, 3]), w)), stream_write = (\<lambda>bs w. Some (Ok (min 2 (length bs)), w @ take 2 bs))\<rparr>"

lemma demo_stream_ok: "stream_ok demo_stream id" "sink_ok demo_stream id"
  by (auto simp: stream_ok_def sink_ok_def source_ok_def demo_stream_def min_def)

definition demo_pkt :: "16 word \<Rightarrow> byte list \<Rightarrow> VsockPacket" where
  "demo_pkt op bs = \<lparr>phdr = hdr_zero\<lparr>hdr_op := op, hdr_len := of_nat (length bs), buf_alloc := 4096\<rparr>, pbuf = Some bs\<rparr>"

definition demo_conn :: VsockConnection where
  "demo_conn = (new_peer_init 2 3 1024 5000 4096 False)\<lparr>cstate := Established, pending_rx := prx_from Rw\<rparr>"

lemma demo_conn_simps: "tx_inv (tx_buf demo_conn)" "in_flight demo_conn = 0" "peer_buf_alloc demo_conn = 4096"
    "cstate demo_conn = Established" "keep demo_conn = False" "tx_buf demo_conn = TxBuf_default" "fwd_cnt demo_conn = 0"
  by (simp_all add: demo_conn_def new_peer_init_def tx_inv_default in_flight_def)

text \<open>C20: the ring buffer implements a bounded queue of bytes.  A push appends the bytes if they fit and
  changes nothing otherwise; a flush returns, moves a prefix of the queue to the stream and reports its
  length, or fails and changes nothing.\<close>

theorem txbuf_implements_queue:
  assumes "tx_inv b" "sink_ok sink sent"
  shows "(if length (tx_contents b) + length src \<le> TXBUF_SIZE
          then \<exists>b'. tx_push b src = Some (Ok (), b') \<and> tx_inv b' \<and> tx_contents b' = tx_contents b @ src
          else tx_push b src = Some (Err TxBufFull, b)) \<and>
    (\<exists>r b' w'. flush_to sink b w = Some (r, b', w') \<and> tx_inv b' \<and>
      (case r of
         Inl e \<Rightarrow> b' = b \<and> sent w' = sent w
       | Inr n \<Rightarrow> n \<le> length (tx_contents b) \<and> sent w' = sent w @ take n (tx_contents b) \<and>
           tx_contents b' = drop n (tx_contents b)))"
proof -
  obtain r b' w' where f: "flush_to sink b w = Some (r, b', w')"
      "case r of Inl e \<Rightarrow> b' = b \<and> sent w' = sent w | Inr n \<Rightarrow> flushed sent b w n b' w'"
    using flush_refines [OF assms(2,1)] by blast
  then have "tx_inv b' \<and> (case r of
         Inl e \<Rightarrow> b' = b \<and> sent w' = sent w
       | Inr n \<Rightarrow> n \<le> length (tx_contents b) \<and> sent w' = sent w @ take n (tx_contents b) \<and>
           tx_contents b' = drop n (tx_contents b))"
    using assms(1) by (cases r) (auto simp: flushed_def)
  then show ?thesis using f(1) push_fits [OF assms(1), of src] push_full [of b src] assms(1) by auto
qed

theorem txbuf_implements_queue_witness:
  "\<exists>b'. tx_push TxBuf_default [1, 2, 3] = Some (Ok (), b') \<and> tx_contents b' = [1, 2, 3]"
  using txbuf_implements_queue [OF tx_inv_default(1) demo_stream_ok(2), where src = "[1, 2, 3]" and w = "[]"]
  by (auto simp: tx_inv_default TXBUF_SIZE_val)

text \<open>C3: no byte is lost, duplicated or reordered.  In every run of a connection whose buffer starts empty,
  the bytes on the host stream followed by the bytes in the buffer are the bytes that were there at the
  start followed by the data of the packets taken from the guest, in order; the forward counter counts the
  bytes handed to the stream, modulo 2 to the 32.\<close>

theorem stream_in_order:
  assumes "conn_run strm (c0, w0) taken (c, w)" "stream_ok strm sent" "tx_buf c0 = TxBuf_default"
  shows "sent w @ tx_contents (tx_buf c) = sent w0 @ taken \<and> tx_inv (tx_buf c) \<and>
    fwd_cnt c = fwd_cnt c0 + of_nat (length (sent w) - length (sent w0))"
  using conn_run_carries [OF assms(1,2)] assms(3) tx_inv_default by (simp add: carries_def fwd_moved_def)

theorem stream_in_order_witness:
  "\<exists>c w. send_pkt demo_stream 0 demo_conn (demo_pkt VSOCK_OP_RW [7, 8, 9]) [] = Some (c, w) \<and>
     w @ tx_contents (tx_buf c) = [7, 8, 9]"
proof -
  let ?p = "demo_pkt VSOCK_OP_RW [7, 8, 9]"
  have g: "good_pkt ?p" "payload ?p = [7, 8, 9]" "accepts_data demo_conn ?p"
    by (simp_all add: good_pkt_def payload_def demo_pkt_def TXBUF_SIZE_val accepts_data_def demo_conn_simps)
  obtain c w where s: "send_pkt demo_stream 0 demo_conn ?p [] = Some (c, w)"
    using send_pkt_spec [OF demo_stream_ok(2) demo_conn_simps(1) g(1), of 0 "[]"] by blast
  moreover have "cstate c \<noteq> Killed"
    using s push_fits [OF tx_inv_default(1), of "[9]"]
    by (auto simp: send_pkt_def send_data_def demo_conn_simps demo_pkt_def send_bytes_def demo_stream_def
        tx_is_empty_def tx_len_def TxBuf_default_def TXBUF_SIZE_val Let_def split: if_splits)
  ultimately have "conn_run demo_stream (demo_conn, []) ([] @ [7, 8, 9]) (c, w)"
    using conn_run.guest [OF conn_run.start g(1) s] g(2,3)
    by (simp add: refused_def demo_conn_simps)
  from stream_in_order [OF this demo_stream_ok(1) demo_conn_simps(6)] show ?thesis using s by auto
qed







text \<open>A packet built from the guest's transmit queue is safe to use: it has no buffer and no data, or its
  data fits both the packet limit and the buffer that was checked against guest memory; so slicing the
  buffer by the length of the header never leaves it, and the connection accepts it without a panic.\<close>

theorem tx_packet_in_bounds:
  assumes "from_tx_virtq_head chain mem = Ok pkt" "\<And>p n. length (gm_bytes mem p n) = n"
  shows "good_pkt pkt \<and> unat (hdr_len (phdr pkt)) \<le> MAX_PKT_BUF_SIZE \<and> (pbuf pkt = None \<longleftrightarrow> hdr_len (phdr pkt) = 0) \<and>
    length (payload pkt) = unat (hdr_len (phdr pkt))"
proof -
  obtain desc rest where ch: "chain = desc # rest" using assms(1) by (cases chain) auto
  have buf: "length bs = n" if "BufWrapper_from_virtq_desc d mem o1 n = Ok bs" for d o1 n bs
    using that assms(2) by (auto simp: BufWrapper_from_virtq_desc_def split: option.splits sum.splits)
  have "pbuf pkt = None \<and> hdr_len (phdr pkt) = 0 \<or>
      (\<exists>bs. pbuf pkt = Some bs \<and> unat (hdr_len (phdr pkt)) \<le> length bs \<and> unat (hdr_len (phdr pkt)) \<le> MAX_PKT_BUF_SIZE \<and>
         hdr_len (phdr pkt) \<noteq> 0)"
    using assms(1) buf unfolding ch
    by (auto simp: with_buf_def Let_def split: if_splits sum.splits list.splits)
  then show ?thesis
    by (auto simp: good_pkt_def payload_def MAX_PKT_BUF_SIZE_def TXBUF_SIZE_val min_def)
qed

definition demo_mem :: GuestMem where
  "demo_mem = \<lparr>gm_checked_offset = (\<lambda>a n. Some (a + n)), gm_host_address = (\<lambda>a. Ok a),
     gm_bytes = (\<lambda>p n. if n = 44 then hdr_bytes (hdr_zero\<lparr>hdr_len := 4\<rparr>) else replicate n 9)\<rparr>"

theorem tx_packet_in_bounds_witness:
  "\<exists>pkt. from_tx_virtq_head [\<lparr>d_addr = 0, d_len = 48, d_write_only = False, d_has_next = False\<rparr>] demo_mem = Ok pkt \<and>
     length (payload pkt) = 4"
proof -
  let ?ch = "[\<lparr>d_addr = 0, d_len = 48, d_write_only = False, d_has_next = False\<rparr>]"
  let ?p = "\<lparr>phdr = hdr_zero\<lparr>hdr_len := 4\<rparr>, pbuf = Some (replicate 4 9)\<rparr>"
  have e: "from_tx_virtq_head ?ch demo_mem = Ok ?p"
    by (simp add: demo_mem_def HdrWrapper_from_virtq_desc_def BufWrapper_from_virtq_desc_def VSOCK_PKT_HDR_SIZE_def
        hdr_of_bytes_inverse MAX_PKT_BUF_SIZE_def with_buf_def checked_add_def u_max_vals hdr_zero_def)
  have "length (gm_bytes demo_mem p n) = n" for p n
    by (simp add: demo_mem_def hdr_bytes_length VSOCK_PKT_HDR_SIZE_def)
  from tx_packet_in_bounds [OF e this] show ?thesis using e by auto
qed

text \<open>The header layout is a bijection with its 44 bytes in guest memory.\<close>

theorem hdr_round_trip:
  "length (hdr_bytes h) = VSOCK_PKT_HDR_SIZE \<and> hdr_of_bytes (hdr_bytes h) = h \<and>
   (length bs = VSOCK_PKT_HDR_SIZE \<longrightarrow> hdr_bytes (hdr_of_bytes bs) = bs)"
  using hdr_bytes_length hdr_of_bytes_inverse hdr_bytes_inverse by blast

theorem hdr_round_trip_witness:
  "hdr_bytes (hdr_of_bytes (replicate 44 7)) = replicate 44 7"
  using hdr_round_trip [of hdr_zero "replicate 44 7"] by (simp add: VSOCK_PKT_HDR_SIZE_def)

text \<open>A guest that announces less buffer space than the data in flight makes the credit wrap around.\<close>

lemma shrunk_buffer_wraps_credit:
  assumes "unat (peer_buf_alloc c) < in_flight c"
  shows "peer_avail_credit c = 2 ^ 32 - (in_flight c - unat (peer_buf_alloc c))"
proof -
  let ?a = "peer_buf_alloc c" and ?f = "rx_cnt c - peer_fwd_cnt c"
  have wrap: "unat (a - f) = 2 ^ 32 + unat a - unat f" if "unat a < unat f" for a f :: "32 word"
    using that by (simp add: unat_sub_if')
  have "unat (?a - ?f) = 2 ^ 32 + unat ?a - unat ?f" by (rule wrap) (use assms in \<open>simp only: in_flight_def\<close>)
  then show ?thesis using assms unsigned_less [of ?f, where 'a = nat] by (simp add: peer_avail_credit_def in_flight_def)
qed

end
