(* ===== verification/VsockQueues.thy ===== *)
theory VsockQueues
  imports VsockConn "HOL-Library.Multiset"
begin

text \<open>
  The two queues of the vsock muxer: the queue of packets to deliver
  (\<open>vsock/muxer/muxer_rxq.rs\<close>) and the queue of connections to terminate
  (\<open>vsock/muxer/muxer_killq.rs\<close>).

  The connection table is a list of keys and connections with distinct keys: the order is the
  (unspecified) iteration order of the hash map.  A connection is kept together with the file
  descriptor and the type of its stream.  Building the kill queue reads the clock once for all
  connections.
\<close>

definition MAX_CONNECTIONS :: nat where "MAX_CONNECTIONS = 1023"
definition MUXER_RXQ_SIZE :: nat where "MUXER_RXQ_SIZE = 256"
definition MUXER_KILLQ_SIZE :: nat where "MUXER_KILLQ_SIZE = 128"

record ConnMapKey =
  key_local_port :: "32 word"
  key_peer_port :: "32 word"

datatype MuxerRx = ConnRx ConnMapKey | RstPkt "32 word" "32 word"

datatype VsockBackendType = UnixStream | Tcp | Inner | HybridStream

record MuxConn =
  mconn :: VsockConnection
  mfd :: int
  mtype :: VsockBackendType

type_synonym conn_table = "(ConnMapKey \<times> MuxConn) list"

section \<open>RX queue\<close>

record MuxerRxQ =
  rxq_items :: "MuxerRx list"
  rxq_synced :: bool

definition MuxerRxQ_default :: MuxerRxQ where
  "MuxerRxQ_default = \<lparr>rxq_items = [], rxq_synced = True\<rparr>"

definition rxq_is_full :: "MuxerRxQ \<Rightarrow> bool" where
  "rxq_is_full q = (length (rxq_items q) = MUXER_RXQ_SIZE)"

definition rxq_is_empty :: "MuxerRxQ \<Rightarrow> bool" where
  "rxq_is_empty q = (length (rxq_items q) = 0)"

fun rxq_collect :: "conn_table \<Rightarrow> MuxerRx list \<Rightarrow> MuxerRxQ" where
  "rxq_collect [] q = \<lparr>rxq_items = q, rxq_synced = True\<rparr>"
| "rxq_collect ((key, c) # m) q =
     (if \<not> has_pending_rx (mconn c) then rxq_collect m q
      else if length q \<ge> MUXER_RXQ_SIZE then \<lparr>rxq_items = q, rxq_synced = False\<rparr>
      else rxq_collect m (q @ [ConnRx key]))"

definition rxq_from_conn_map :: "conn_table \<Rightarrow> MuxerRxQ" where
  "rxq_from_conn_map m = rxq_collect m []"

text \<open>The eviction loop walks the queue from the back and replaces the first connection it meets.\<close>

fun replace_conn :: "MuxerRx list \<Rightarrow> MuxerRx \<Rightarrow> MuxerRx list option" where
  "replace_conn [] rx = None"
| "replace_conn (ConnRx k # q) rx = Some (rx # q)"
| "replace_conn (RstPkt l p # q) rx = map_option ((#) (RstPkt l p)) (replace_conn q rx)"

definition rxq_push :: "MuxerRx \<Rightarrow> MuxerRxQ \<Rightarrow> bool \<times> MuxerRxQ" where
  "rxq_push rx q =
     (if rxq_synced q \<and> \<not> rxq_is_full q then (True, q\<lparr>rxq_items := rxq_items q @ [rx]\<rparr>)
      else case rx of
        RstPkt _ _ \<Rightarrow>
          (case replace_conn (rev (rxq_items q)) rx of
             Some xs \<Rightarrow> (True, \<lparr>rxq_items = rev xs, rxq_synced = False\<rparr>)
           | None \<Rightarrow> (False, q))
      | ConnRx _ \<Rightarrow> (False, q\<lparr>rxq_synced := False\<rparr>))"

definition rxq_peek :: "MuxerRxQ \<Rightarrow> MuxerRx option" where
  "rxq_peek q = (case rxq_items q of [] \<Rightarrow> None | x # _ \<Rightarrow> Some x)"

definition rxq_pop :: "MuxerRxQ \<Rightarrow> MuxerRx option \<times> MuxerRxQ" where
  "rxq_pop q = (case rxq_items q of [] \<Rightarrow> (None, q) | x # xs \<Rightarrow> (Some x, q\<lparr>rxq_items := xs\<rparr>))"

section \<open>Kill queue\<close>

record MuxerKillQItem =
  kq_key :: ConnMapKey
  kill_time :: nat

record MuxerKillQ =
  killq_items :: "MuxerKillQItem list"
  killq_synced :: bool

definition MuxerKillQ_default :: MuxerKillQ where
  "MuxerKillQ_default = \<lparr>killq_items = [], killq_synced = True\<rparr>"

definition killq_is_full :: "MuxerKillQ \<Rightarrow> bool" where
  "killq_is_full q = (length (killq_items q) = MUXER_KILLQ_SIZE)"

definition killq_is_empty :: "MuxerKillQ \<Rightarrow> bool" where
  "killq_is_empty q = (length (killq_items q) = 0)"

fun killq_collect :: "nat \<Rightarrow> conn_table \<Rightarrow> MuxerKillQItem list \<Rightarrow> MuxerKillQ" where
  "killq_collect now [] q = \<lparr>killq_items = q, killq_synced = True\<rparr>"
| "killq_collect now ((key, c) # m) q =
     (if \<not> will_expire (mconn c) now then killq_collect now m q
      else if length q \<ge> MUXER_KILLQ_SIZE then \<lparr>killq_items = q, killq_synced = False\<rparr>
      else killq_collect now m (q @ [\<lparr>kq_key = key, kill_time = the (expiry (mconn c))\<rparr>]))"

text \<open>The order of items with the same time is left open by the unstable sort; here it is kept.\<close>

definition killq_from_conn_map :: "nat \<Rightarrow> conn_table \<Rightarrow> MuxerKillQ" where
  "killq_from_conn_map now m =
     (let q = killq_collect now m [] in q\<lparr>killq_items := sort_key kill_time (killq_items q)\<rparr>)"

definition killq_push :: "ConnMapKey \<Rightarrow> nat \<Rightarrow> MuxerKillQ \<Rightarrow> MuxerKillQ" where
  "killq_push key t q =
     (if \<not> killq_synced q \<or> killq_is_full q then q\<lparr>killq_synced := False\<rparr>
      else q\<lparr>killq_items := killq_items q @ [\<lparr>kq_key = key, kill_time = t\<rparr>]\<rparr>)"

definition killq_pop :: "nat \<Rightarrow> MuxerKillQ \<Rightarrow> ConnMapKey option \<times> MuxerKillQ" where
  "killq_pop now q =
     (case killq_items q of
        [] \<Rightarrow> (None, q)
      | it # its \<Rightarrow> if now > kill_time it then (Some (kq_key it), q\<lparr>killq_items := its\<rparr>) else (None, q))"

definition MuxerKillQItem_eq :: "MuxerKillQItem \<Rightarrow> MuxerKillQItem \<Rightarrow> bool" where
  "MuxerKillQItem_eq a b =
     ((if kill_time b \<le> kill_time a then (kill_time a - kill_time b) div 1000000 \<le> 10
       else (kill_time b - kill_time a) div 1000000 \<le> 10) \<and> kq_key a = kq_key b)"

section \<open>RX queue: nothing is lost\<close>

definition is_rst :: "MuxerRx \<Rightarrow> bool" where
  "is_rst rx = (case rx of RstPkt _ _ \<Rightarrow> True | ConnRx _ \<Rightarrow> False)"

text \<open>A synchronised queue knows every connection that has something to deliver.\<close>

definition rxq_complete :: "conn_table \<Rightarrow> MuxerRxQ \<Rightarrow> bool" where
  "rxq_complete m q \<longleftrightarrow> (rxq_synced q \<longrightarrow> (\<forall>(k, c) \<in> set m. has_pending_rx (mconn c) \<longrightarrow> ConnRx k \<in> set (rxq_items q)))"

lemma rxq_collect_spec:
  assumes "length q \<le> MUXER_RXQ_SIZE" "\<forall>(k, c) \<in> set m0. has_pending_rx (mconn c) \<longrightarrow> ConnRx k \<in> set q"
  shows "length (rxq_items (rxq_collect m q)) \<le> MUXER_RXQ_SIZE \<and> rxq_complete (m0 @ m) (rxq_collect m q) \<and>
    (\<forall>x \<in> set (rxq_items (rxq_collect m q)). x \<in> set q \<or> (\<exists>(k, c) \<in> set m. x = ConnRx k \<and> has_pending_rx (mconn c)))"
  using assms
proof (induction m q arbitrary: m0 rule: rxq_collect.induct)
  case (1 q)
  then show ?case by (auto simp: rxq_complete_def)
next
  case (2 key c m q)
  consider (skip) "\<not> has_pending_rx (mconn c)" | (full) "has_pending_rx (mconn c)" "length q \<ge> MUXER_RXQ_SIZE"
    | (add) "has_pending_rx (mconn c)" "\<not> length q \<ge> MUXER_RXQ_SIZE" by blast
  then show ?case
  proof cases
    case skip
    then show ?thesis using 2(1) [OF skip, of "m0 @ [(key, c)]"] 2(3,4) by fastforce
  next
    case full
    then show ?thesis using 2(3) by (auto simp: rxq_complete_def)
  next
    case add
    then have "\<forall>(k, c') \<in> set (m0 @ [(key, c)]). has_pending_rx (mconn c') \<longrightarrow> ConnRx k \<in> set (q @ [ConnRx key])"
      using 2(4) by auto
    moreover have "length (q @ [ConnRx key]) \<le> MUXER_RXQ_SIZE" using add(2) by simp
    ultimately show ?thesis using 2(2) [OF _ add(2), of "m0 @ [(key, c)]"] add by fastforce
  qed
qed

lemma replace_conn_Some:
  "replace_conn q rx = Some q' \<Longrightarrow> length q' = length q \<and>
     mset (filter is_rst q') = mset (filter is_rst q) + (if is_rst rx then {#rx#} else {#})"
  by (induction q rx arbitrary: q' rule: replace_conn.induct) (auto simp: is_rst_def)

lemma replace_conn_None: "replace_conn q rx = None \<longleftrightarrow> (\<forall>x \<in> set q. is_rst x)"
  by (induction q rx rule: replace_conn.induct) (auto simp: is_rst_def)

lemma rxq_push_length:
  assumes "length (rxq_items q) \<le> MUXER_RXQ_SIZE"
  shows "length (rxq_items (snd (rxq_push rx q))) \<le> MUXER_RXQ_SIZE"
  using assms by (auto simp: rxq_push_def rxq_is_full_def dest: replace_conn_Some split: MuxerRx.splits option.splits)

lemma rxq_push_complete:
  assumes "rxq_complete m q"
  shows "rxq_complete m (snd (rxq_push rx q))"
  using assms by (auto simp: rxq_push_def rxq_complete_def split: MuxerRx.splits option.splits)

lemma rxq_push_conn: "rxq_synced (snd (rxq_push (ConnRx k) q)) \<Longrightarrow> ConnRx k \<in> set (rxq_items (snd (rxq_push (ConnRx k) q)))"
  by (auto simp: rxq_push_def split: if_splits)

end
