(* ===== verification/PortRequest.thy ===== *)
theory PortRequest
  imports TxBuf
begin

text \<open>
  The command a host process writes to a freshly accepted stream (\<open>connect <port>\<close> or
  \<open>passfd\<close>), as read and parsed by \<open>vsock/muxer/muxer_impl.rs\<close>, and the message that passes a
  file descriptor.  Text is decoded from UTF-8 to code points as \<open>std::str\<close> does.
\<close>

section \<open>Text\<close>

definition cont :: "byte \<Rightarrow> bool" where
  "cont b = (b AND 0xC0 = 0x80)"

definition low6 :: "byte \<Rightarrow> nat" where
  "low6 b = unat (b AND 0x3F)"

text \<open>\<open>std::str::from_utf8\<close>: overlong forms, surrogates and values above \<open>0x10FFFF\<close> are rejected.\<close>

fun from_utf8 :: "byte list \<Rightarrow> nat list option" where
  "from_utf8 [] = Some []"
| "from_utf8 (a # bs) =
     (if unat a < 0x80 then map_option ((#) (unat a)) (from_utf8 bs)
      else if 0xC2 \<le> unat a \<and> unat a \<le> 0xDF
      then (case bs of
              b # bs1 \<Rightarrow> if cont b then map_option ((#) (unat (a AND 0x1F) * 64 + low6 b)) (from_utf8 bs1) else None
            | _ \<Rightarrow> None)
      else if 0xE0 \<le> unat a \<and> unat a \<le> 0xEF
      then (case bs of
              b # c # bs1 \<Rightarrow>
                let v = unat (a AND 0x0F) * 4096 + low6 b * 64 + low6 c in
                if cont b \<and> cont c \<and> 0x800 \<le> v \<and> \<not> (0xD800 \<le> v \<and> v \<le> 0xDFFF)
                then map_option ((#) v) (from_utf8 bs1) else None
            | _ \<Rightarrow> None)
      else if 0xF0 \<le> unat a \<and> unat a \<le> 0xF4
      then (case bs of
              b # c # d # bs1 \<Rightarrow>
                let v = unat (a AND 0x07) * 262144 + low6 b * 4096 + low6 c * 64 + low6 d in
                if cont b \<and> cont c \<and> cont d \<and> 0x10000 \<le> v \<and> v \<le> 0x10FFFF
                then map_option ((#) v) (from_utf8 bs1) else None
            | _ \<Rightarrow> None)
      else None)"

text \<open>\<open>char::is_whitespace\<close>: the code points with the property \<open>White_Space\<close>.\<close>

definition is_space :: "nat \<Rightarrow> bool" where
  "is_space c = (9 \<le> c \<and> c \<le> 13 \<or> c = 32 \<or> c = 0x85 \<or> c = 0xA0 \<or> c = 0x1680 \<or> 0x2000 \<le> c \<and> c \<le> 0x200A \<or>
     c = 0x2028 \<or> c = 0x2029 \<or> c = 0x202F \<or> c = 0x205F \<or> c = 0x3000)"

fun split_words :: "nat list \<Rightarrow> nat list \<Rightarrow> nat list list" where
  "split_words [] w = (if w = [] then [] else [rev w])"
| "split_words (c # cs) w =
     (if is_space c then (if w = [] then split_words cs [] else rev w # split_words cs [])
      else split_words cs (c # w))"

definition split_whitespace :: "nat list \<Rightarrow> nat list list" where
  "split_whitespace cs = split_words cs []"

text \<open>Lower case for the letters of the two commands; other letters only need to stay different.\<close>

definition to_lower :: "nat \<Rightarrow> nat" where
  "to_lower c = (if 65 \<le> c \<and> c \<le> 90 then c + 32 else c)"

definition codes :: "string \<Rightarrow> nat list" where
  "codes s = map of_char s"

definition is_digit :: "nat \<Rightarrow> bool" where
  "is_digit c = (48 \<le> c \<and> c \<le> 57)"

fun digits_value :: "nat list \<Rightarrow> nat \<Rightarrow> nat" where
  "digits_value [] acc = acc"
| "digits_value (c # cs) acc = digits_value cs (acc * 10 + (c - 48))"

text \<open>\<open>str::parse::<u32>\<close>.\<close>

definition parse_u32 :: "nat list \<Rightarrow> nat option" where
  "parse_u32 cs =
     (let ds = (case cs of c # r \<Rightarrow> if c = 43 then r else cs | [] \<Rightarrow> []) in
      if ds \<noteq> [] \<and> list_all is_digit ds \<and> digits_value ds 0 \<le> u32_max then Some (digits_value ds 0) else None)"

section \<open>Commands\<close>

datatype ReadPortResult = PassFd | Connect "32 word"

definition REQUEST_BUF_LEN :: nat where "REQUEST_BUF_LEN = 32"
definition MIN_READ_LEN :: nat where "MIN_READ_LEN = 7"

definition parse_request :: "byte list \<Rightarrow> ReadPortResult option" where
  "parse_request buf =
     (case from_utf8 buf of
        None \<Rightarrow> None
      | Some cs \<Rightarrow>
          (case split_whitespace cs of
             [] \<Rightarrow> None
           | w # ws \<Rightarrow>
               let key = map to_lower w in
               if key = codes ''connect''
               then (case ws of [] \<Rightarrow> None | p # _ \<Rightarrow> map_option (\<lambda>n. Connect (of_nat n)) (parse_u32 p))
               else if key = codes ''passfd'' then Some PassFd
               else None))"

text \<open>Reading on, one byte at a time, until a line feed or the end of the buffer.\<close>

function read_line :: "(nat \<Rightarrow> ('w, io_kind, byte list) eff) \<Rightarrow> byte list \<Rightarrow> nat \<Rightarrow> ('w, io_kind, byte list) eff" where
  "read_line rd buf blen =
     (if blen < length buf \<and> buf ! (blen - 1) \<noteq> 10
      then eff_bind (rd 1) (\<lambda>bs. read_line rd (buf[blen := hd (bs @ [0])]) (blen + 1))
      else eff_ret buf)"
  by auto
termination by (relation "measure (\<lambda>(rd, buf, blen). length buf - blen)") auto

declare read_line.simps [simp del]

definition read_request ::
  "(nat \<Rightarrow> ('w, io_kind, byte list) eff) \<Rightarrow> (nat \<Rightarrow> ('w, io_kind, byte list) eff) \<Rightarrow> ('w, io_kind, byte list) eff" where
  "read_request rd rd_exact =
     eff_bind (rd MIN_READ_LEN) (\<lambda>bs.
     read_line rd_exact (take MIN_READ_LEN bs @ replicate (REQUEST_BUF_LEN - length (take MIN_READ_LEN bs)) 0) MIN_READ_LEN)"

definition parse_passfd :: "byte list \<Rightarrow> int list \<Rightarrow> (int \<times> 32 word \<times> bool) option" where
  "parse_passfd buf fds =
     (if length fds \<noteq> 1 \<or> hd fds \<le> 0 then None
      else case from_utf8 buf of
        None \<Rightarrow> None
      | Some cs \<Rightarrow>
          (case split_whitespace cs of
             [] \<Rightarrow> None
           | p # ws \<Rightarrow>
               map_option (\<lambda>n. (hd fds, of_nat n, case ws of kp # _ \<Rightarrow> kp = codes ''keep'' | [] \<Rightarrow> False)) (parse_u32 p)))"

section \<open>Parsing what was printed\<close>

lemma from_utf8_ascii: "\<forall>b \<in> set bs. unat b < 0x80 \<Longrightarrow> from_utf8 bs = Some (map unat bs)"
  by (induction bs) auto

lemma split_words_word:
  "\<forall>c \<in> set cs. \<not> is_space c \<Longrightarrow> split_words (cs @ rest) w = split_words rest (rev cs @ w)"
  by (induction cs arbitrary: w) auto

lemma dec_string_digits: "dec_string n \<noteq> [] \<and> (\<forall>c \<in> set (dec_string n). 48 \<le> (of_char c :: nat) \<and> (of_char c :: nat) \<le> 57)"
proof (induction n rule: dec_string.induct)
  case (1 n)
  then show ?case by (subst (1 2) dec_string.simps) auto
qed

lemma digits_value_append: "digits_value (xs @ ys) acc = digits_value ys (digits_value xs acc)"
  by (induction xs arbitrary: acc) auto

lemma digits_value_dec: "digits_value (codes (dec_string n)) 0 = n"
proof (induction n rule: dec_string.induct)
  case (1 n)
  show ?case
  proof (cases "n < 10")
    case True
    then show ?thesis by (subst dec_string.simps) (simp add: codes_def)
  next
    case False
    then have "digits_value (codes (dec_string (n div 10))) 0 = n div 10" using 1 by simp
    then show ?thesis using False by (subst dec_string.simps) (simp add: codes_def digits_value_append)
  qed
qed

end
