(* ===== verification/VsockMuxer.thy ===== *)
theory VsockMuxer
  imports VsockQueues PortRequest "HOL-Library.AList"
begin

text \<open>
  The vsock muxer (\<open>vsock/muxer/muxer_impl.rs\<close>): it owns the connections, routes packets
  between the guest and the connections, dispatches stream events, and keeps the queue of packets
  to deliver and the queue of connections to terminate.

  \<open>epoll\<close>, the clock, the backends and the streams are fields of the record \<open>mux_os\<close> over their own
  state.  Errors that the code only logs are dropped.
\<close>

section \<open>State\<close>

datatype mux_error =
    EpollAdd io_kind
  | EpollFdCreate io_kind
  | InvalidPortRequest
  | BackendAddAfterActivated
  | BackendAccept io_kind
  | BackendBind io_kind
  | BackendConnect io_kind
  | BackendSetNonBlock io_kind
  | BackendRead io_kind
  | TooManyConnections
  | BackendRegistered VsockBackendType

text \<open>A stream is known by its file descriptor and type.\<close>

type_synonym stream_ref = "int \<times> VsockBackendType"

datatype EpollListener =
    LConnection ConnMapKey "epoll_event set" VsockBackendType
  | LBackend VsockBackendType
  | LLocalStream stream_ref
  | LPassFdStream stream_ref

record VsockMuxer =
  cid :: "64 word"
  conn_map :: conn_table
  listener_map :: "int \<rightharpoonup> EpollListener"
  rxq :: MuxerRxQ
  killq :: MuxerKillQ
  local_port_set :: "32 word set"
  local_port_last :: "32 word"
  backend_map :: "VsockBackendType \<rightharpoonup> int"
  peer_backend :: "VsockBackendType option"

definition muxer_init :: "64 word \<Rightarrow> VsockMuxer" where
  "muxer_init c = \<lparr>cid = c, conn_map = [], listener_map = Map.empty, rxq = MuxerRxQ_default, killq = MuxerKillQ_default,
     local_port_set = {}, local_port_last = push_bit 30 1 - 1, backend_map = Map.empty, peer_backend = None\<rparr>"

text \<open>
  The world of the muxer: the operating system and the slave streams still attached to the hybrid
  streams, by file descriptor.  The bits of an \<open>epoll\<close> event that are no known events are \<open>None\<close>.
\<close>

record 'w mux_os =
  os_now :: "'w \<Rightarrow> nat \<times> 'w"
  epoll_create :: "('w, io_kind, unit) eff"
  epoll_add :: "int \<Rightarrow> epoll_event set \<Rightarrow> ('w, io_kind, unit) eff"
  epoll_mod :: "int \<Rightarrow> epoll_event set \<Rightarrow> ('w, io_kind, unit) eff"
  epoll_del :: "int \<Rightarrow> ('w, io_kind, unit) eff"
  epoll_wait :: "nat \<Rightarrow> ('w, io_kind, (int \<times> epoll_event set option) list) eff"
  os_close :: "int \<Rightarrow> 'w \<Rightarrow> 'w"
  os_stream :: "int \<Rightarrow> 'w VsockStream"
  read_exact :: "int \<Rightarrow> nat \<Rightarrow> ('w, io_kind, byte list) eff"
  recv_data_fd :: "int \<Rightarrow> ('w, io_kind, byte list \<times> int list) eff"
  fcntl_getfl :: "int \<Rightarrow> 'w \<Rightarrow> 32 word \<times> 'w"
  fcntl_setfl :: "int \<Rightarrow> 32 word \<Rightarrow> ('w, io_kind, unit) eff"
  backend_accept :: "VsockBackendType \<Rightarrow> ('w, io_kind, stream_ref) eff"
  backend_connect :: "VsockBackendType \<Rightarrow> 32 word \<Rightarrow> ('w, io_kind, stream_ref) eff"

record 'w host =
  hworld :: 'w
  slaves :: "int \<rightharpoonup> int"

record 'w mux_state =
  mux :: VsockMuxer
  mworld :: "'w host"

definition m_modify :: "(VsockMuxer \<Rightarrow> VsockMuxer) \<Rightarrow> ('w mux_state, 'e, unit) eff" where
  "m_modify f = eff_modify (\<lambda>s. s\<lparr>mux := f (mux s)\<rparr>)"

definition m_get :: "(VsockMuxer \<Rightarrow> 'a) \<Rightarrow> ('w mux_state, 'e, 'a) eff" where
  "m_get f = (\<lambda>s. ret (Ok (f (mux s)), s))"

definition host_os :: "('w, 'e, 'a) eff \<Rightarrow> ('w host, 'e, 'a) eff" where
  "host_os = eff_zoom hworld (\<lambda>w h. h\<lparr>hworld := w\<rparr>)"

definition m_host :: "('w host, 'e, 'a) eff \<Rightarrow> ('w mux_state, 'e, 'a) eff" where
  "m_host = eff_zoom mworld (\<lambda>h s. s\<lparr>mworld := h\<rparr>)"

definition m_os :: "('w, 'e, 'a) eff \<Rightarrow> ('w mux_state, 'e, 'a) eff" where
  "m_os m = m_host (host_os m)"

definition m_now :: "'w mux_os \<Rightarrow> ('w mux_state, 'e, nat) eff" where
  "m_now os = m_os (\<lambda>w. case os_now os w of (t, w') \<Rightarrow> ret (Ok t, w'))"

text \<open>\<open>unwrap_or_else\<close>: recover from an error.\<close>

definition m_catch :: "('w mux_state, 'e, 'a) eff \<Rightarrow> ('e \<Rightarrow> ('w mux_state, 'f, 'a) eff) \<Rightarrow> ('w mux_state, 'f, 'a) eff" where
  "m_catch m h = (\<lambda>s. case m s of
     None \<Rightarrow> panic
   | Some (r, s') \<Rightarrow> (case r of Inl e \<Rightarrow> h e s' | Inr x \<Rightarrow> ret (Ok x, s')))"

section \<open>Streams\<close>

text \<open>
  A hybrid stream (\<open>vsock/backend/hybrid_stream.rs\<close>) sends its first write to the slave stream and
  drops it; everything else goes to the stream itself.  Other streams have no slave.
\<close>

definition hybrid_write :: "'w mux_os \<Rightarrow> int \<Rightarrow> byte list \<Rightarrow> ('w host, io_kind, nat) eff" where
  "hybrid_write os fd buf = (\<lambda>h.
     case slaves h fd of
       Some sfd \<Rightarrow>
         (case host_os (stream_write (os_stream os sfd) buf) (h\<lparr>slaves := (slaves h)(fd := None)\<rparr>) of
            None \<Rightarrow> panic
          | Some (r, h1) \<Rightarrow> ret (r, h1\<lparr>hworld := os_close os sfd (hworld h1)\<rparr>))
     | None \<Rightarrow> host_os (stream_write (os_stream os fd) buf) h)"

definition conn_stream :: "'w mux_os \<Rightarrow> int \<Rightarrow> 'w host VsockStream" where
  "conn_stream os fd = \<lparr>stream_read = (\<lambda>n. host_os (stream_read (os_stream os fd) n)), stream_write = hybrid_write os fd\<rparr>"

definition drop_stream :: "'w mux_os \<Rightarrow> int \<Rightarrow> ('w mux_state, 'e, unit) eff" where
  "drop_stream os fd = m_host (\<lambda>h.
     let h1 = h\<lparr>hworld := os_close os fd (hworld h)\<rparr> in
     ret (Ok (), case slaves h fd of
        None \<Rightarrow> h1
      | Some sfd \<Rightarrow> \<lparr>hworld = os_close os sfd (hworld h1), slaves = (slaves h)(fd := None)\<rparr>))"

definition O_NONBLOCK :: "32 word" where "O_NONBLOCK = 0x800"

definition set_nonblocking :: "'w mux_os \<Rightarrow> int \<Rightarrow> bool \<Rightarrow> ('w, io_kind, unit) eff" where
  "set_nonblocking os fd nonblocking = (\<lambda>w.
     let (flag, w1) = fcntl_getfl os fd w in
     fcntl_setfl os fd (if nonblocking then flag OR O_NONBLOCK else flag OR NOT O_NONBLOCK) w1)"

section \<open>Listeners\<close>

fun listener_evset :: "EpollListener \<Rightarrow> epoll_event set" where
  "listener_evset (LConnection _ evset _) = evset"
| "listener_evset _ = {EPOLLIN}"

fun drop_listener :: "'w mux_os \<Rightarrow> EpollListener \<Rightarrow> ('w mux_state, 'e, unit) eff" where
  "drop_listener os (LLocalStream (fd, _)) = drop_stream os fd"
| "drop_listener os (LPassFdStream (fd, _)) = drop_stream os fd"
| "drop_listener os _ = eff_ret ()"

definition add_listener :: "'w mux_os \<Rightarrow> int \<Rightarrow> EpollListener \<Rightarrow> ('w mux_state, mux_error, unit) eff" where
  "add_listener os fd listener =
     m_catch (eff_bind (m_os (epoll_add os fd (listener_evset listener))) (\<lambda>_.
              m_modify (\<lambda>m. m\<lparr>listener_map := (listener_map m)(fd \<mapsto> listener)\<rparr>)))
       (\<lambda>err. eff_bind (drop_listener os listener) (\<lambda>_. eff_fail (EpollAdd err)))"

definition remove_listener :: "'w mux_os \<Rightarrow> int \<Rightarrow> ('w mux_state, 'e, EpollListener option) eff" where
  "remove_listener os fd =
     eff_bind (m_get (\<lambda>m. listener_map m fd)) (\<lambda>l.
     eff_bind (m_modify (\<lambda>m. m\<lparr>listener_map := (listener_map m)(fd := None)\<rparr>)) (\<lambda>_.
     if l \<noteq> None then eff_bind (eff_ignore (m_os (epoll_del os fd))) (\<lambda>_. eff_ret l) else eff_ret l))"

section \<open>Ports\<close>

text \<open>The loop may run forever only when every port of the range is taken.\<close>

partial_function (option) allocate_local_port_from :: "32 word set \<Rightarrow> 32 word \<Rightarrow> 32 word option" where
  "allocate_local_port_from used port =
     (let p = (port + 1) AND NOT (push_bit 31 1) OR push_bit 30 1 in
      if p \<notin> used then Some p else allocate_local_port_from used p)"

definition allocate_local_port :: "('w mux_state, 'e, 32 word) eff" where
  "allocate_local_port = (\<lambda>s. case allocate_local_port_from (local_port_set (mux s)) (local_port_last (mux s)) of
     None \<Rightarrow> panic
   | Some p \<Rightarrow> ret (Ok p, s\<lparr>mux := (mux s)\<lparr>local_port_set := insert p (local_port_set (mux s)), local_port_last := p\<rparr>\<rparr>))"

definition free_local_port :: "32 word \<Rightarrow> ('w mux_state, 'e, unit) eff" where
  "free_local_port port = m_modify (\<lambda>m. m\<lparr>local_port_set := local_port_set m - {port}\<rparr>)"

section \<open>Connections\<close>

definition push_rx :: "MuxerRx \<Rightarrow> ('w mux_state, 'e, bool) eff" where
  "push_rx rx = (\<lambda>s. case rxq_push rx (rxq (mux s)) of (b, q) \<Rightarrow> ret (Ok b, s\<lparr>mux := (mux s)\<lparr>rxq := q\<rparr>\<rparr>))"

definition enq_rst :: "32 word \<Rightarrow> 32 word \<Rightarrow> ('w mux_state, 'e, unit) eff" where
  "enq_rst lport pport = eff_bind (push_rx (RstPkt lport pport)) (\<lambda>_. eff_ret ())"

definition put_conn :: "ConnMapKey \<Rightarrow> MuxConn \<Rightarrow> VsockMuxer \<Rightarrow> VsockMuxer" where
  "put_conn key c m = m\<lparr>conn_map := AList.update key c (conn_map m)\<rparr>"

definition kill_connection :: "ConnMapKey \<Rightarrow> ('w mux_state, 'e, unit) eff" where
  "kill_connection key =
     eff_bind (m_get (\<lambda>m. map_of (conn_map m) key)) (\<lambda>found.
     eff_bind (case found of
                 None \<Rightarrow> eff_ret False
               | Some c \<Rightarrow> eff_bind (m_modify (put_conn key (c\<lparr>mconn := kill (mconn c)\<rparr>))) (\<lambda>_. eff_ret (has_pending_rx (mconn c)))) (\<lambda>had_rx.
     if \<not> had_rx then eff_bind (push_rx (ConnRx key)) (\<lambda>_. eff_ret ()) else eff_ret ()))"

definition remove_connection :: "'w mux_os \<Rightarrow> ConnMapKey \<Rightarrow> ('w mux_state, 'e, unit) eff" where
  "remove_connection os key =
     eff_bind (m_get (\<lambda>m. map_of (conn_map m) key)) (\<lambda>found.
     eff_bind (case found of
                 None \<Rightarrow> eff_ret ()
               | Some c \<Rightarrow>
                   eff_bind (m_modify (\<lambda>m. m\<lparr>conn_map := AList.delete key (conn_map m)\<rparr>)) (\<lambda>_.
                   eff_bind (remove_listener os (mfd c)) (\<lambda>_. drop_stream os (mfd c)))) (\<lambda>_.
     free_local_port (key_local_port key)))"

text \<open>One round of the loop over the kill queue.\<close>

definition pop_kill :: "'w mux_os \<Rightarrow> ('w mux_state, 'e, ConnMapKey option) eff" where
  "pop_kill os =
     eff_bind (m_get (\<lambda>m. killq_is_empty (killq m))) (\<lambda>empty.
     if empty then eff_ret None
     else eff_bind (m_now os) (\<lambda>now. \<lambda>s.
       case killq_pop now (killq (mux s)) of (k, q) \<Rightarrow> ret (Ok k, s\<lparr>mux := (mux s)\<lparr>killq := q\<rparr>\<rparr>)))"

definition kill_if_expired :: "'w mux_os \<Rightarrow> ConnMapKey \<Rightarrow> ('w mux_state, 'e, unit) eff" where
  "kill_if_expired os key =
     eff_bind (m_get (\<lambda>m. map_of (conn_map m) key)) (\<lambda>found.
     case found of
       None \<Rightarrow> eff_ret ()
     | Some c \<Rightarrow>
         (case expiry (mconn c) of
            None \<Rightarrow> eff_ret ()
          | Some _ \<Rightarrow> eff_bind (m_now os) (\<lambda>now. if has_expired (mconn c) now then kill_connection key else eff_ret ())))"

definition rebuild_killq :: "'w mux_os \<Rightarrow> ('w mux_state, 'e, unit) eff" where
  "rebuild_killq os = eff_bind (m_now os) (\<lambda>now. m_modify (\<lambda>m. m\<lparr>killq := killq_from_conn_map now (conn_map m)\<rparr>))"

text \<open>The sweep: pop and kill, then rebuild an emptied, unsynchronised queue and sweep again.\<close>

partial_function (option) sweep_killq :: "'w mux_os \<Rightarrow> 'w mux_state \<Rightarrow> 'w mux_state may_panic" where
  "sweep_killq os s = do {
     (r, s1) \<leftarrow> (pop_kill os :: ('w mux_state, unit, ConnMapKey option) eff) s;
     case r of
       Inr (Some key) \<Rightarrow> do {
         (_, s2) \<leftarrow> (kill_if_expired os key :: ('w mux_state, unit, unit) eff) s1;
         sweep_killq os s2 }
     | _ \<Rightarrow>
         if killq_is_empty (killq (mux s1)) \<and> \<not> killq_synced (killq (mux s1))
         then do {
           (_, s2) \<leftarrow> (rebuild_killq os :: ('w mux_state, unit, unit) eff) s1;
           sweep_killq os s2 }
         else ret s1 }"

definition sweep :: "'w mux_os \<Rightarrow> ('w mux_state, 'e, unit) eff" where
  "sweep os = (\<lambda>s. map_option (\<lambda>s'. (Ok (), s')) (sweep_killq os s))"

definition insert_conn :: "'w mux_os \<Rightarrow> ConnMapKey \<Rightarrow> MuxConn \<Rightarrow> ('w mux_state, 'e, unit) eff" where
  "insert_conn os key c =
     eff_bind (m_get (\<lambda>m. map_of (conn_map m) key)) (\<lambda>old.
     eff_bind (m_modify (put_conn key c)) (\<lambda>_.
     case old of None \<Rightarrow> eff_ret () | Some c0 \<Rightarrow> drop_stream os (mfd c0)))"

definition add_connection :: "'w mux_os \<Rightarrow> ConnMapKey \<Rightarrow> MuxConn \<Rightarrow> ('w mux_state, mux_error, unit) eff" where
  "add_connection os key c =
     eff_bind (sweep os) (\<lambda>_.
     eff_bind (m_get (\<lambda>m. length (conn_map m))) (\<lambda>n.
     if n \<ge> MAX_CONNECTIONS then eff_bind (drop_stream os (mfd c)) (\<lambda>_. eff_fail TooManyConnections)
     else
       eff_bind (m_catch (add_listener os (mfd c) (LConnection key (get_polled_evset (mconn c)) (mtype c)))
                   (\<lambda>err. eff_bind (drop_stream os (mfd c)) (\<lambda>_. eff_fail err))) (\<lambda>_.
       eff_bind (if has_pending_rx (mconn c) then eff_bind (push_rx (ConnRx key)) (\<lambda>_. eff_ret ()) else eff_ret ()) (\<lambda>_.
       insert_conn os key c))))"

section \<open>Acting on a connection\<close>

definition m_will_expire :: "'w mux_os \<Rightarrow> VsockConnection \<Rightarrow> ('w mux_state, 'e, bool) eff" where
  "m_will_expire os c = (if expiry c = None then eff_ret False else eff_bind (m_now os) (\<lambda>now. eff_ret (will_expire c now)))"

text \<open>The acknowledgement to the host when its connection becomes established.\<close>

definition ack_msg :: "32 word \<Rightarrow> byte list" where
  "ack_msg port = ascii (''OK '' @ dec_string (unat port) @ [CHR 0x0A])"

definition ack_host :: "'w mux_os \<Rightarrow> ConnMapKey \<Rightarrow> int \<Rightarrow> ConnState \<Rightarrow> VsockConnection \<Rightarrow> ('w mux_state, 'e, VsockConnection) eff" where
  "ack_host os key fd prev_state c =
     (if prev_state = LocalInit \<and> cstate c = Established
      then m_catch
             (eff_bind (m_host (send_bytes_raw (conn_stream os fd) (ack_msg (key_local_port key)))) (\<lambda>written.
              eff_ret (if written = length (ack_msg (key_local_port key)) then c else kill c)))
             (\<lambda>_. eff_ret (kill c))
      else eff_ret c)"

definition update_listener :: "'w mux_os \<Rightarrow> ConnMapKey \<Rightarrow> MuxConn \<Rightarrow> ('w mux_state, 'e, unit) eff" where
  "update_listener os key c =
     (let fd = mfd c; new_evset = get_polled_evset (mconn c) in
      if new_evset = {} then eff_bind (remove_listener os fd) (\<lambda>_. eff_ret ())
      else eff_bind (m_get (\<lambda>m. listener_map m fd)) (\<lambda>l.
        case l of
          Some (LConnection k evset b) \<Rightarrow>
            if evset \<noteq> new_evset
            then eff_bind (m_modify (\<lambda>m. m\<lparr>listener_map := (listener_map m)(fd \<mapsto> LConnection k new_evset b)\<rparr>)) (\<lambda>_.
                 m_catch (m_os (epoll_mod os fd new_evset)) (\<lambda>_. kill_connection key))
            else eff_ret ()
        | _ \<Rightarrow>
            if cstate (mconn c) \<noteq> LocalClosed
            then m_catch (add_listener os fd (LConnection key new_evset (mtype c))) (\<lambda>_. kill_connection key)
            else eff_ret ()))"

text \<open>
  The action gets the stream of the connection and a reading of the clock.  The result is \<open>None\<close>
  when there is no such connection.
\<close>

type_synonym ('w, 'a) conn_action =
  "'w host VsockStream \<Rightarrow> nat \<Rightarrow> VsockConnection \<Rightarrow> 'w host \<Rightarrow> ('a \<times> VsockConnection \<times> 'w host) may_panic"

definition run_action :: "'w mux_os \<Rightarrow> ('w, 'a) conn_action \<Rightarrow> MuxConn \<Rightarrow> nat \<Rightarrow> ('w mux_state, 'e, 'a \<times> VsockConnection) eff" where
  "run_action os act c now =
     m_host (\<lambda>h. map_option (\<lambda>(x, c', h'). (Ok (x, c'), h')) (act (conn_stream os (mfd c)) now (mconn c) h))"

definition after_mutation :: "'w mux_os \<Rightarrow> ConnMapKey \<Rightarrow> MuxConn \<Rightarrow> bool \<Rightarrow> bool \<Rightarrow> ('w mux_state, 'e, unit) eff" where
  "after_mutation os key c had_rx was_expiring =
     eff_bind (m_modify (put_conn key c)) (\<lambda>_.
     eff_bind (if \<not> had_rx \<and> has_pending_rx (mconn c) then eff_bind (push_rx (ConnRx key)) (\<lambda>_. eff_ret ()) else eff_ret ()) (\<lambda>_.
     eff_bind (if was_expiring then eff_ret False else m_will_expire os (mconn c)) (\<lambda>starts.
     eff_bind (if starts then m_modify (\<lambda>m. m\<lparr>killq := killq_push key (the (expiry (mconn c))) (killq m)\<rparr>) else eff_ret ()) (\<lambda>_.
     update_listener os key c))))"

definition apply_conn_mutation :: "'w mux_os \<Rightarrow> ConnMapKey \<Rightarrow> ('w, 'a) conn_action \<Rightarrow> ('w mux_state, 'e, 'a option) eff" where
  "apply_conn_mutation os key act =
     eff_bind (m_get (\<lambda>m. map_of (conn_map m) key)) (\<lambda>found.
     case found of
       None \<Rightarrow> eff_ret None
     | Some c \<Rightarrow>
         eff_bind (m_will_expire os (mconn c)) (\<lambda>was_expiring.
         eff_bind (m_now os) (\<lambda>now.
         eff_bind (run_action os act c now) (\<lambda>(x, c1).
         eff_bind (ack_host os key (mfd c) (cstate (mconn c)) c1) (\<lambda>c2.
         eff_bind (after_mutation os key (c\<lparr>mconn := c2\<rparr>) (has_pending_rx (mconn c)) was_expiring) (\<lambda>_.
         eff_ret (Some x)))))))"

section \<open>Packets\<close>

definition rst_pkt :: "64 word \<Rightarrow> 32 word \<Rightarrow> 32 word \<Rightarrow> VsockPacket \<Rightarrow> VsockPacket" where
  "rst_pkt guest lport pport pkt =
     set_fwd_cnt 0 (set_buf_alloc 0 (set_flags 0 (set_type VSOCK_TYPE_STREAM (pkt_set_len 0 (set_dst_port pport
       (set_src_port lport (set_dst_cid guest (set_src_cid VSOCK_HOST_CID (set_op VSOCK_OP_RST pkt)))))))))"

definition pop_rx :: "('w mux_state, 'e, unit) eff" where
  "pop_rx = (\<lambda>s. case rxq_pop (rxq (mux s)) of
     (None, q) \<Rightarrow> panic
   | (Some _, q) \<Rightarrow> ret (Ok (), s\<lparr>mux := (mux s)\<lparr>rxq := q\<rparr>\<rparr>))"

text \<open>Fetching from a connection; whether to pop the queue is decided when the action ends.\<close>

definition recv_action :: "VsockPacket \<Rightarrow> ('w, (VsockError + unit) \<times> VsockPacket \<times> bool) conn_action" where
  "recv_action pkt strm now c h = do {
     (r, c', pkt', h') \<leftarrow> recv_pkt strm now c pkt h;
     ret ((r, pkt', \<not> has_pending_rx c'), c', h') }"

definition recv_conn :: "'w mux_os \<Rightarrow> ConnMapKey \<Rightarrow> VsockPacket \<Rightarrow> ('w mux_state, VsockError, (VsockError + unit) \<times> VsockPacket) eff" where
  "recv_conn os key pkt =
     eff_bind (apply_conn_mutation os key (recv_action pkt)) (\<lambda>x.
     let (r, pkt', do_pop) = (case x of None \<Rightarrow> (Err NoData, pkt, True) | Some y \<Rightarrow> y) in
     eff_bind (if do_pop then pop_rx else eff_ret ()) (\<lambda>_. eff_ret (r, pkt')))"

definition resync_rxq :: "('w mux_state, 'e, unit) eff" where
  "resync_rxq = m_modify (\<lambda>m.
     if rxq_is_empty (rxq m) \<and> \<not> rxq_synced (rxq m) then m\<lparr>rxq := rxq_from_conn_map (conn_map m)\<rparr> else m)"

partial_function (option) recv_loop ::
  "'w mux_os \<Rightarrow> VsockPacket \<Rightarrow> 'w mux_state \<Rightarrow> ((VsockError + unit) \<times> VsockPacket \<times> 'w mux_state) may_panic" where
  "recv_loop os pkt s =
     (case rxq_peek (rxq (mux s)) of
        None \<Rightarrow> ret (Err NoData, pkt, s)
      | Some (RstPkt lport pport) \<Rightarrow> do {
          (_, s1) \<leftarrow> (pop_rx :: ('w mux_state, VsockError, unit) eff) s;
          ret (Ok (), rst_pkt (cid (mux s)) lport pport pkt, s1) }
      | Some (ConnRx key) \<Rightarrow> do {
          (x, s1) \<leftarrow> recv_conn os key pkt s;
          case x of
            Inr (Inr _, pkt1) \<Rightarrow> do {
              (_, s2) \<leftarrow> (if hdr_op (phdr pkt1) = VSOCK_OP_RST
                         then remove_connection os \<lparr>key_local_port = src_port (phdr pkt1), key_peer_port = dst_port (phdr pkt1)\<rparr>
                         else eff_ret () :: ('w mux_state, VsockError, unit) eff) s1;
              ret (Ok (), pkt1, s2) }
          | Inr (Inl _, pkt1) \<Rightarrow> recv_loop os pkt1 s1
          | Inl _ \<Rightarrow> panic })"

definition mux_recv_pkt ::
  "'w mux_os \<Rightarrow> VsockPacket \<Rightarrow> 'w mux_state \<Rightarrow> ((VsockError + unit) \<times> VsockPacket \<times> 'w mux_state) may_panic" where
  "mux_recv_pkt os pkt s = do {
     (_, s1) \<leftarrow> (resync_rxq :: ('w mux_state, VsockError, unit) eff) s;
     recv_loop os pkt s1 }"

definition handle_peer_request_pkt :: "'w mux_os \<Rightarrow> VsockPacket \<Rightarrow> ('w mux_state, VsockError, unit) eff" where
  "handle_peer_request_pkt os pkt =
     (let lport = dst_port (phdr pkt); pport = src_port (phdr pkt); refuse = enq_rst lport pport in
      eff_bind (m_get (\<lambda>m. m)) (\<lambda>m.
      case peer_backend m of
        None \<Rightarrow> refuse
      | Some ty \<Rightarrow>
          (case backend_map m ty of
             None \<Rightarrow> refuse
           | Some _ \<Rightarrow>
               m_catch
                 (eff_bind (eff_map_err BackendConnect (m_os (backend_connect os ty lport))) (\<lambda>(fd, bty).
                  add_connection os \<lparr>key_local_port = lport, key_peer_port = pport\<rparr>
                    \<lparr>mconn = new_peer_init VSOCK_HOST_CID (cid m) lport pport (buf_alloc (phdr pkt)) False, mfd = fd, mtype = bty\<rparr>))
                 (\<lambda>_. refuse))))"

text \<open>A kept connection whose host end had closed is revived by a packet from the guest.\<close>

definition revive :: "'w mux_os \<Rightarrow> ConnMapKey \<Rightarrow> ('w mux_state, 'e, unit) eff" where
  "revive os key =
     eff_bind (m_get (\<lambda>m. map_of (conn_map m) key)) (\<lambda>found.
     case found of
       None \<Rightarrow> \<lambda>s. panic
     | Some c \<Rightarrow>
         if cstate (mconn c) = LocalClosed \<and> keep (mconn c)
         then let c1 = (mconn c)\<lparr>cstate := Established\<rparr> in
              eff_bind (m_modify (put_conn key (c\<lparr>mconn := c1\<rparr>))) (\<lambda>_.
              m_catch (add_listener os (mfd c) (LConnection key (get_polled_evset c1) (mtype c))) (\<lambda>_. kill_connection key))
         else eff_ret ())"

definition send_action :: "VsockPacket \<Rightarrow> ('w, unit) conn_action" where
  "send_action pkt strm now c h = map_option (\<lambda>(c', h'). ((), c', h')) (send_pkt strm now c pkt h)"

definition mux_send_pkt :: "'w mux_os \<Rightarrow> VsockPacket \<Rightarrow> ('w mux_state, VsockError, unit) eff" where
  "mux_send_pkt os pkt =
     (let key = \<lparr>key_local_port = dst_port (phdr pkt), key_peer_port = src_port (phdr pkt)\<rparr>; op = hdr_op (phdr pkt) in
      if hdr_type (phdr pkt) \<noteq> VSOCK_TYPE_STREAM then enq_rst (dst_port (phdr pkt)) (src_port (phdr pkt))
      else if dst_cid (phdr pkt) \<noteq> VSOCK_HOST_CID then eff_ret ()
      else eff_bind (m_get (\<lambda>m. map_of (conn_map m) key)) (\<lambda>found.
        if found = None
        then (if op = VSOCK_OP_REQUEST then handle_peer_request_pkt os pkt
              else enq_rst (dst_port (phdr pkt)) (src_port (phdr pkt)))
        else if op = VSOCK_OP_RST then remove_connection os key
        else eff_bind (revive os key) (\<lambda>_.
             eff_bind (apply_conn_mutation os key (send_action pkt)) (\<lambda>_. eff_ret ()))))"

definition mux_has_pending_rx :: "VsockMuxer \<Rightarrow> bool" where
  "mux_has_pending_rx m = (\<not> rxq_is_empty (rxq m) \<or> \<not> rxq_synced (rxq m))"

section \<open>Events\<close>

definition read_local_stream_port :: "'w mux_os \<Rightarrow> int \<Rightarrow> ('w mux_state, mux_error, ReadPortResult) eff" where
  "read_local_stream_port os fd =
     eff_bind (eff_map_err BackendRead (m_os (read_request (stream_read (os_stream os fd)) (read_exact os fd)))) (\<lambda>buf.
     eff_opt InvalidPortRequest (parse_request buf))"

definition passfd_read_port_and_fd :: "'w mux_os \<Rightarrow> int \<Rightarrow> ('w mux_state, mux_error, int \<times> 32 word \<times> bool) eff" where
  "passfd_read_port_and_fd os fd =
     eff_bind (eff_map_err BackendRead (m_os (recv_data_fd os fd))) (\<lambda>(buf, fds).
     eff_opt InvalidPortRequest (parse_passfd buf fds))"

text \<open>A stream read for its command is closed when the command is invalid.\<close>

definition or_drop :: "'w mux_os \<Rightarrow> int \<Rightarrow> ('w mux_state, 'e, 'a) eff \<Rightarrow> ('w mux_state, 'e, 'a) eff" where
  "or_drop os fd m = m_catch m (\<lambda>e. eff_bind (drop_stream os fd) (\<lambda>_. eff_fail e))"

definition local_key :: "32 word \<Rightarrow> 32 word \<Rightarrow> ConnMapKey" where
  "local_key lport pport = \<lparr>key_local_port = lport, key_peer_port = pport\<rparr>"

definition handle_local_stream :: "'w mux_os \<Rightarrow> stream_ref \<Rightarrow> ('w mux_state, mux_error, unit) eff" where
  "handle_local_stream os strm =
     eff_bind (or_drop os (fst strm) (read_local_stream_port os (fst strm))) (\<lambda>r.
     case r of
       Connect pport \<Rightarrow>
         eff_bind allocate_local_port (\<lambda>lport.
         eff_bind (m_get cid) (\<lambda>guest.
         add_connection os (local_key lport pport)
           \<lparr>mconn = new_local_init VSOCK_HOST_CID guest lport pport False, mfd = fst strm, mtype = snd strm\<rparr>))
     | PassFd \<Rightarrow> add_listener os (fst strm) (LPassFdStream strm))"

definition handle_passfd_stream :: "'w mux_os \<Rightarrow> stream_ref \<Rightarrow> ('w mux_state, mux_error, unit) eff" where
  "handle_passfd_stream os strm =
     eff_bind (or_drop os (fst strm) (passfd_read_port_and_fd os (fst strm))) (\<lambda>(nfd, pport, kp).
     eff_bind allocate_local_port (\<lambda>lport.
     eff_bind (m_host (eff_modify (\<lambda>h. h\<lparr>slaves := (slaves h)(nfd \<mapsto> fst strm)\<rparr>))) (\<lambda>_.
     eff_bind (or_drop os nfd (eff_map_err BackendSetNonBlock (m_os (set_nonblocking os nfd True)))) (\<lambda>_.
     eff_bind (m_get cid) (\<lambda>guest.
     add_connection os (local_key lport pport)
       \<lparr>mconn = new_local_init VSOCK_HOST_CID guest lport pport kp, mfd = nfd, mtype = HybridStream\<rparr>)))))"

definition handle_backend :: "'w mux_os \<Rightarrow> VsockBackendType \<Rightarrow> ('w mux_state, mux_error, unit) eff" where
  "handle_backend os ty =
     eff_bind (m_get (\<lambda>m. length (rxq_items (rxq m)))) (\<lambda>n.
     if n = MAX_CONNECTIONS
     then m_catch (eff_bind (m_os (backend_accept os ty)) (\<lambda>(fd, _). drop_stream os fd)) (\<lambda>_. eff_ret ())
     else eff_bind (eff_map_err BackendAccept (m_os (backend_accept os ty))) (\<lambda>strm.
          add_listener os (fst strm) (LLocalStream strm)))"

text \<open>The hybrid connection whose host end is gone stops being polled.\<close>

definition close_kept :: "'w mux_os \<Rightarrow> int \<Rightarrow> ConnMapKey \<Rightarrow> epoll_event set \<Rightarrow> ('w mux_state, 'e, unit) eff" where
  "close_kept os fd key evset =
     eff_bind (m_get (\<lambda>m. map_of (conn_map m) key)) (\<lambda>found.
     case found of
       None \<Rightarrow> eff_ret ()
     | Some c \<Rightarrow>
         if EPOLLERR \<in> evset \<and> keep (mconn c)
         then eff_bind (m_modify (put_conn key (c\<lparr>mconn := (mconn c)\<lparr>cstate := LocalClosed\<rparr>\<rparr>))) (\<lambda>_.
              eff_bind (remove_listener os fd) (\<lambda>_. eff_ret ()))
         else eff_ret ())"

definition notify_action :: "epoll_event set \<Rightarrow> ('w, unit) conn_action" where
  "notify_action evset strm now c h = map_option (\<lambda>(c', h'). ((), c', h')) (notify strm c evset h)"

definition handle_event :: "'w mux_os \<Rightarrow> int \<Rightarrow> epoll_event set \<Rightarrow> ('w mux_state, VsockError, unit) eff" where
  "handle_event os fd evset =
     eff_bind (m_get (\<lambda>m. m)) (\<lambda>m.
     case listener_map m fd of
       Some (LConnection key _ _) \<Rightarrow>
         eff_bind (close_kept os fd key evset) (\<lambda>_.
         eff_bind (apply_conn_mutation os key (notify_action evset)) (\<lambda>_. eff_ret ()))
     | Some (LBackend ty) \<Rightarrow>
         if backend_map m ty \<noteq> None then m_catch (handle_backend os ty) (\<lambda>_. eff_ret ()) else eff_ret ()
     | Some (LLocalStream strm) \<Rightarrow>
         eff_bind (remove_listener os fd) (\<lambda>_. m_catch (handle_local_stream os strm) (\<lambda>_. eff_ret ()))
     | Some (LPassFdStream strm) \<Rightarrow>
         eff_bind (remove_listener os fd) (\<lambda>_. m_catch (handle_passfd_stream os strm) (\<lambda>_. eff_ret ()))
     | None \<Rightarrow> eff_ret ())"

fun handle_events :: "'w mux_os \<Rightarrow> (int \<times> epoll_event set option) list \<Rightarrow> ('w mux_state, VsockError, unit) eff" where
  "handle_events os [] = eff_ret ()"
| "handle_events os ((fd, Some evset) # evs) = eff_bind (handle_event os fd evset) (\<lambda>_. handle_events os evs)"
| "handle_events os ((fd, None) # evs) = (\<lambda>s. panic)"

definition mux_notify :: "'w mux_os \<Rightarrow> ('w mux_state, VsockError, unit) eff" where
  "mux_notify os = eff_bind (m_catch (m_os (epoll_wait os 32)) (\<lambda>_. eff_ret [])) (handle_events os)"

section \<open>Set-up\<close>

definition muxer_new :: "'w mux_os \<Rightarrow> 64 word \<Rightarrow> ('w, mux_error, VsockMuxer) eff" where
  "muxer_new os c = eff_bind (eff_map_err EpollFdCreate (epoll_create os)) (\<lambda>_. eff_ret (muxer_init c))"

definition add_backend :: "'w mux_os \<Rightarrow> VsockBackendType \<Rightarrow> int \<Rightarrow> bool \<Rightarrow> ('w mux_state, mux_error, unit) eff" where
  "add_backend os ty fd is_peer_backend =
     or_drop os fd (
       eff_bind (m_get (\<lambda>m. backend_map m ty)) (\<lambda>old.
       if old \<noteq> None then eff_fail (BackendRegistered ty)
       else eff_bind (add_listener os fd (LBackend ty)) (\<lambda>_.
         m_modify (\<lambda>m. m\<lparr>backend_map := (backend_map m)(ty \<mapsto> fd), peer_backend := (if is_peer_backend then Some ty else peer_backend m)\<rparr>))))"

end
