(* ===== verification/VsockTotal.thy ===== *)
theory VsockTotal
  imports VsockClaims
begin

text \<open>
  The operations of a connection on any stream that keeps the contract of \<open>Read\<close> and \<open>Write\<close>: they
  return and keep the invariant of the transmit buffer.  The facts about the bytes on the stream
  carry over from a stream that logs what it takes.
\<close>

definition stream_total :: "'w VsockStream \<Rightarrow> bool" where
  "stream_total strm \<longleftrightarrow>
     (\<forall>bs w. \<exists>r w'. stream_write strm bs w = Some (r, w') \<and> (\<forall>n. r = Inr n \<longrightarrow> n \<le> length bs)) \<and>
     (\<forall>n w. \<exists>r w'. stream_read strm n w = Some (r, w') \<and> (\<forall>bs. r = Inr bs \<longrightarrow> length bs \<le> n))"

definition logged :: "'w VsockStream \<Rightarrow> ('w \<times> byte list) VsockStream" where
  "logged strm =
     \<lparr>stream_read = (\<lambda>n w. map_option (\<lambda>(r, w'). (r, w', snd w)) (stream_read strm n (fst w))),
      stream_write = (\<lambda>bs w. map_option (\<lambda>(r, w'). (r, w', snd w @ (case r of Inl _ \<Rightarrow> [] | Inr n \<Rightarrow> take n bs)))
        (stream_write strm bs (fst w)))\<rparr>"

lemma logged_ok:
  assumes "stream_total strm"
  shows "stream_ok (logged strm) snd"
proof -
  have "\<exists>r w'. stream_write (logged strm) bs w = Some (r, w') \<and>
      (case r of Inl e \<Rightarrow> snd w' = snd w | Inr n \<Rightarrow> n \<le> length bs \<and> snd w' = snd w @ take n bs)" for bs w
  proof -
    obtain r w' where "stream_write strm bs (fst w) = Some (r, w')" "\<forall>n. r = Inr n \<longrightarrow> n \<le> length bs"
      using assms unfolding stream_total_def by blast
    then show ?thesis by (cases r) (simp_all add: logged_def)
  qed
  moreover have "\<exists>r w'. stream_read (logged strm) n w = Some (r, w') \<and> snd w' = snd w \<and> (\<forall>bs. r = Inr bs \<longrightarrow> length bs \<le> n)" for n w
  proof -
    obtain r w' where "stream_read strm n (fst w) = Some (r, w')" "\<forall>bs. r = Inr bs \<longrightarrow> length bs \<le> n"
      using assms unfolding stream_total_def by blast
    then show ?thesis by (simp add: logged_def)
  qed
  ultimately show ?thesis unfolding stream_ok_def sink_ok_def source_ok_def by blast
qed

lemma write_logged:
  "stream_write (logged strm) bs w = Some (r, w') \<Longrightarrow> stream_write strm bs (fst w) = Some (r, fst w')"
  by (auto simp: logged_def)

lemma flush_logged:
  fixes strm :: "'w VsockStream"
  assumes "flush_to (logged strm) b w = Some y"
  shows "flush_to strm b (fst w) = Some (fst y, fst (snd y), fst (snd (snd y)))"
proof -
  let ?P = "\<lambda>(sink :: ('w \<times> byte list) VsockStream) b (w :: 'w \<times> byte list) (y :: (csm_error + nat) \<times> TxBuf \<times> 'w \<times> byte list).
    \<forall>strm. sink = logged strm \<longrightarrow> flush_to strm b (fst w) = Some (fst y, fst (snd y), fst (snd (snd y)))"
  have "?P (logged strm) b w y"
  proof (rule flush_to.raw_induct [OF _ assms], intro allI impI)
    fix flush y and w :: "'w \<times> byte list" and strm :: "'w VsockStream" and b :: TxBuf and sink :: "('w \<times> byte list) VsockStream"
    assume hyp: "\<And>sink b w y. flush sink b w = Some y \<Longrightarrow> ?P sink b w y" and sink: "sink = logged strm"
    let ?o = "unat (ttail b) mod TXBUF_SIZE"
    let ?n = "min (TXBUF_SIZE - ?o) (tx_len b)"
    assume body: "(if tx_is_empty b then Some (Inr 0, b, w)
      else let tail_ofs = ?o; len_to_write = min (TXBUF_SIZE - tail_ofs) (tx_len b) in
        case tdata b of
          None \<Rightarrow> None
        | Some d \<Rightarrow>
            if tail_ofs + len_to_write > length d then None
            else (case stream_write sink (take len_to_write (drop tail_ofs d)) w of
                    None \<Rightarrow> None
                  | Some (r, w1) \<Rightarrow>
                      (case r of
                         Inl e \<Rightarrow> Some (Inl (TxBufFlush e), b, w1)
                       | Inr written \<Rightarrow>
                           let b1 = b\<lparr>ttail := ttail b + of_nat written\<rparr> in
                           if written < len_to_write then Some (Inr written, b1, w1)
                           else Option.bind (flush sink b1 w1)
                             (\<lambda>(r2, b2, w2). Some (Inr (written + (case r2 of Inl _ \<Rightarrow> 0 | Inr n \<Rightarrow> n)), b2, w2))))) = Some y"
    show "flush_to strm b (fst w) = Some (fst y, fst (snd y), fst (snd (snd y)))"
    proof (cases "tx_is_empty b")
      case True
      then show ?thesis using body by (subst flush_to.simps) auto
    next
      case False
      then obtain d r1 w1 where d: "tdata b = Some d" "\<not> ?o + ?n > length d"
          and wr: "stream_write sink (take ?n (drop ?o d)) w = Some (r1, w1)"
        using body by (auto simp: Let_def split: option.splits if_splits)
      have wr': "stream_write strm (take ?n (drop ?o d)) (fst w) = Some (r1, fst w1)"
        using wr sink write_logged by blast
      consider e where "r1 = Inl e" | k where "r1 = Inr k" "k < ?n" | k where "r1 = Inr k" "\<not> k < ?n"
        by (cases r1) blast+
      then show ?thesis
      proof cases
        case (3 k)
        let ?b1 = "b\<lparr>ttail := ttail b + of_nat k\<rparr>"
        obtain z where z: "flush sink ?b1 w1 = Some z"
            "y = (Ok (k + (case fst z of Inl _ \<Rightarrow> 0 | Inr n \<Rightarrow> n)), fst (snd z), snd (snd z))"
          using body False d wr 3 by (cases "flush sink ?b1 w1") (auto simp: Let_def split: prod.splits)
        have "flush_to strm ?b1 (fst w1) = Some (fst z, fst (snd z), fst (snd (snd z)))"
          using hyp [OF z(1)] sink by blast
        then show ?thesis using False d wr' 3 z(2) by (subst flush_to.simps) (auto simp: Let_def)
      qed (use body False d wr wr' in \<open>subst flush_to.simps, auto simp: Let_def\<close>)+
    qed
  qed
  then show ?thesis by blast
qed

section \<open>The operations carry over\<close>

lemma send_bytes_logged:
  assumes "send_bytes (logged strm) c buf w = Some (r, c', w')"
  shows "send_bytes strm c buf (fst w) = Some (r, c', fst w')"
proof (cases "tx_is_empty (tx_buf c)")
  case False
  then show ?thesis using assms by (auto simp: send_bytes_def)
next
  case True
  then obtain x w1 where w1: "stream_write (logged strm) buf w = Some (x, w1)"
    using assms by (auto simp: send_bytes_def split: option.splits)
  show ?thesis
    using assms True w1 write_logged [OF w1]
    by (cases x; cases "projl x") (auto simp: send_bytes_def Let_def split: if_splits)
qed

lemma send_data_logged:
  assumes "send_data (logged strm) c pkt w = Some (c', w')"
  shows "send_data strm c pkt (fst w) = Some (c', fst w')"
proof (cases "pbuf pkt")
  case (Some buf)
  let ?bs = "take (unat (hdr_len (phdr pkt))) buf"
  obtain r c1 w1 where b: "send_bytes (logged strm) c ?bs w = Some (r, c1, w1)"
    using assms Some by (cases "send_bytes (logged strm) c ?bs w") (auto simp: send_data_def split: if_splits)
  then show ?thesis
    using assms Some send_bytes_logged [OF b]
    by (cases r; cases "projl r") (auto simp: send_data_def split: if_splits)
qed (use assms in \<open>simp add: send_data_def\<close>)

lemma send_pkt_logged:
  "send_pkt (logged strm) now c pkt w = Some (c', w') \<Longrightarrow> send_pkt strm now c pkt (fst w) = Some (c', fst w')"
  by (cases "cstate c") (auto simp: send_pkt_def Let_def split: if_splits dest: send_data_logged)

lemma notify_out_logged:
  assumes "notify_out (logged strm) c w = Some (c', w')"
  shows "notify_out strm c (fst w) = Some (c', fst w')"
proof -
  obtain r b w1 where f: "flush_to (logged strm) (tx_buf c) w = Some (r, b, w1)"
    using assms by (cases "flush_to (logged strm) (tx_buf c) w") (auto simp: notify_out_def)
  then show ?thesis
    using assms flush_logged [OF f]
    by (cases r; cases "projl r"; cases "case projl r of TxBufFlush k \<Rightarrow> k | StreamWrite k \<Rightarrow> k | TxBufFull \<Rightarrow> WouldBlock")
      (auto simp: notify_out_def Let_def)
qed

lemma notify_logged:
  "notify (logged strm) c evset w = Some (c', w') \<Longrightarrow> notify strm c evset (fst w) = Some (c', fst w')"
  unfolding notify_def Let_def by (auto split: if_splits dest: notify_out_logged)

section \<open>Every operation returns\<close>

text \<open>What no operation changes: the ports and the unused bits of the set of indications.\<close>

definition conn_frame :: "VsockConnection \<Rightarrow> 32 word \<times> 32 word \<times> 16 word" where
  "conn_frame c = (local_port c, peer_port c, drop_bit 5 (pending_rx c))"

lemma unused_bits [simp]:
  "drop_bit 5 (prx_insert it s) = drop_bit 5 s" "drop_bit 5 (snd (prx_remove it s)) = drop_bit 5 s"
proof -
  have i: "rx_index it < 5" by (cases it) simp_all
  show "drop_bit 5 (prx_insert it s) = drop_bit 5 s"
    using i by (intro bit_eqI) (auto simp: prx_insert_def bit_drop_bit_eq bit_or_iff)
  show "drop_bit 5 (snd (prx_remove it s)) = drop_bit 5 s"
    using i by (intro bit_eqI) (auto simp: prx_remove_def bit_drop_bit_eq bit_and_iff bit_not_iff dest: bit_imp_le_length)
qed

lemma frame_simps [simp]:
  "conn_frame (kill c) = conn_frame c" "conn_frame (insert_pending it c) = conn_frame c" "conn_frame (tx_buf_update f c) = conn_frame c"
  "conn_frame (cstate_update g c) = conn_frame c" "conn_frame (fwd_cnt_update h c) = conn_frame c"
  "conn_frame (c\<lparr>pending_rx := snd (prx_remove it (pending_rx c))\<rparr>) = conn_frame c"
  "conn_frame (expiry_update e c) = conn_frame c" "conn_frame (rx_cnt_update k c) = conn_frame c"
  "conn_frame (last_fwd_cnt_to_peer_update l c) = conn_frame c"
  by (simp_all add: conn_frame_def kill_def insert_pending_def)

lemma send_bytes_ports: "send_bytes strm c buf w = Some (r, c', w') \<Longrightarrow> conn_frame c' = conn_frame c"
  by (auto simp: send_bytes_def Let_def split: if_splits option.splits prod.splits sum.splits)

text \<open>The ports of a connection never change, and its buffer keeps its invariant.\<close>

lemma send_data_ports: 
  assumes "send_data strm c pkt w = Some (c', w')"
  shows "conn_frame c' = conn_frame c"
proof (cases "pbuf pkt")
  case (Some buf)
  let ?bs = "take (unat (hdr_len (phdr pkt))) buf"
  obtain r c1 w1 where b: "send_bytes strm c ?bs w = Some (r, c1, w1)"
    using assms Some by (cases "send_bytes strm c ?bs w") (auto simp: send_data_def split: if_splits)
  then show ?thesis
    using assms Some send_bytes_ports [OF b] by (cases r; cases "projl r") (auto simp: send_data_def split: if_splits)
qed (use assms in \<open>simp add: send_data_def\<close>)

lemma shutdown_ports [simp]:
  "conn_frame (shutdown_established now c pkt) = conn_frame c" "conn_frame (shutdown_more c r s pkt) = conn_frame c"
  by (simp_all add: shutdown_established_def shutdown_more_def Let_def)

lemma send_pkt_total:
  assumes "stream_total strm" "tx_inv (tx_buf c)" "good_pkt pkt"
  shows "\<exists>c' w'. send_pkt strm now c pkt w = Some (c', w') \<and> tx_inv (tx_buf c') \<and> conn_frame c' = conn_frame c"
proof -
  obtain c' w' where s: "send_pkt (logged strm) now c pkt (w, []) = Some (c', w')" "tx_inv (tx_buf c')"
    using send_pkt_spec [OF _ assms(2,3), of "logged strm" snd now "(w, [])"] logged_ok [OF assms(1)]
    by (auto simp: stream_ok_def carries_def fwd_moved_def)
  let ?c = "c\<lparr>peer_buf_alloc := buf_alloc (phdr pkt), peer_fwd_cnt := hdr_fwd_cnt (phdr pkt)\<rparr>"
  have p: "conn_frame ?c = conn_frame c" "conn_frame (?c\<lparr>expiry := e, cstate := st\<rparr>) = conn_frame c" for e st
    by (simp_all add: conn_frame_def)
  have f: "send_pkt strm now c pkt w = Some (c', fst w')" using send_pkt_logged [OF s(1)] by simp
  then have "conn_frame c' = conn_frame c"
    using p by (cases "cstate c") (auto simp: send_pkt_def Let_def split: if_splits dest!: send_data_ports)
  then show ?thesis using f s(2) by blast
qed

lemma notify_out_ports: "notify_out strm c w = Some (c', w') \<Longrightarrow> conn_frame c' = conn_frame c"
proof -
  assume a: "notify_out strm c w = Some (c', w')"
  then obtain r b w1 where f: "flush_to strm (tx_buf c) w = Some (r, b, w1)"
    by (cases "flush_to strm (tx_buf c) w") (auto simp: notify_out_def)
  then show ?thesis
    using a by (cases r; cases "projl r"; cases "case projl r of TxBufFlush k \<Rightarrow> k | StreamWrite k \<Rightarrow> k | TxBufFull \<Rightarrow> WouldBlock")
      (auto simp: notify_out_def Let_def)
qed

lemma notify_total:
  assumes "stream_total strm" "tx_inv (tx_buf c)"
  shows "\<exists>c' w'. notify strm c evset w = Some (c', w') \<and> tx_inv (tx_buf c') \<and> conn_frame c' = conn_frame c"
proof -
  obtain c' w' where s: "notify (logged strm) c evset (w, []) = Some (c', w')" "tx_inv (tx_buf c')"
    using notify_spec [OF _ assms(2), of "logged strm" snd evset "(w, [])"] logged_ok [OF assms(1)]
    by (auto simp: stream_ok_def carries_def fwd_moved_def)
  have f: "notify strm c evset w = Some (c', fst w')" using notify_logged [OF s(1)] by simp
  then have "conn_frame c' = conn_frame c"
    unfolding notify_def Let_def by (auto split: if_splits dest!: notify_out_ports)
  then show ?thesis using f s(2) by blast
qed

text \<open>
  Fetching without any assumption on the credit.  An error leaves fewer indications, unless there
  were none; a pending reset always yields a packet.
\<close>

definition pending_items :: "VsockConnection \<Rightarrow> PendingRx set" where
  "pending_items c = {it. prx_contains (pending_rx c) it}"

lemma pending_finite [simp]: "finite (pending_items c)"
proof -
  have "UNIV = {Request, Response, Rst, Rw, CreditUpdate}" using PendingRx.exhaust by auto
  then have "finite (UNIV :: PendingRx set)" by (metis finite.emptyI finite.insertI)
  then show ?thesis by (rule finite_subset [rotated]) simp
qed

definition pending_clean :: "VsockConnection \<Rightarrow> bool" where
  "pending_clean c \<longleftrightarrow> drop_bit 5 (pending_rx c) = 0"

lemma has_pending_items: "pending_clean c \<Longrightarrow> has_pending_rx c \<longleftrightarrow> pending_items c \<noteq> {}"
proof -
  assume clean: "pending_clean c"
  have "bit (pending_rx c) k \<Longrightarrow> \<exists>it. k = rx_index it" for k
  proof -
    assume b: "bit (pending_rx c) k"
    have "k < 5"
    proof (rule ccontr)
      assume "\<not> k < 5"
      then have "bit (drop_bit 5 (pending_rx c)) (k - 5)" using b by (simp add: bit_drop_bit_eq)
      then show False using clean by (simp add: pending_clean_def)
    qed
    then have "k \<in> {0, 1, 2, 3, 4}" by auto
    then show ?thesis by (metis empty_iff insertE rx_index.simps)
  qed
  then have "(\<exists>k. bit (pending_rx c) k) \<longleftrightarrow> (\<exists>it. bit (pending_rx c) (rx_index it))" by blast
  moreover have "pending_rx c = 0 \<longleftrightarrow> \<not> (\<exists>k. bit (pending_rx c) k)"
    by (metis bit_0_eq bit_eq_iff bot_apply bot_bool_def)
  ultimately show ?thesis
    by (auto simp: has_pending_rx_def prx_is_empty_def pending_items_def contains_bit)
qed

definition fetched :: "VsockConnection \<Rightarrow> VsockError + unit \<Rightarrow> VsockConnection \<Rightarrow> bool" where
  "fetched c r c' \<longleftrightarrow> tx_buf c' = tx_buf c \<and> conn_frame c' = conn_frame c \<and> pending_items c' \<subseteq> pending_items c \<and>
     (cstate c' = cstate c \<or> cstate c' = LocalClosed \<or> cstate c' = Established \<and> Response \<in> pending_items c) \<and>
     (case r of
        Inr _ \<Rightarrow> True
      | Inl _ \<Rightarrow> cstate c' = cstate c \<and> Rst \<notin> pending_items c \<and>
          (pending_items c' \<noteq> {} \<longrightarrow> pending_items c' \<noteq> pending_items c))"

lemma items_remove [simp]:
  "pending_items (c\<lparr>pending_rx := snd (prx_remove it (pending_rx c))\<rparr>) = pending_items c - {it}"
  by (auto simp: pending_items_def)

lemma items_cong: "pending_rx c' = pending_rx c \<Longrightarrow> pending_items c' = pending_items c"
  by (simp add: pending_items_def)

lemma credit_update_fetch:
  "\<exists>r c' p'. recv_credit_update c pkt w = Some (r, c', p', w) \<and> tx_buf c' = tx_buf c \<and> conn_frame c' = conn_frame c \<and>
     cstate c' = cstate c \<and> pending_items c' = pending_items c - {CreditUpdate}"
  by (auto simp: recv_credit_update_def Let_def items_cong [of "last_fwd_cnt_to_peer_update f x" x for f x])

lemma recv_data_fetch:
  assumes "stream_total strm"
  shows "\<exists>r c' p' w'. recv_data strm now c pkt w = Some (r, c', p', w') \<and> tx_buf c' = tx_buf c \<and> conn_frame c' = conn_frame c \<and>
    pending_items c' \<subseteq> pending_items c \<and> cstate c' \<in> {cstate c, LocalClosed} \<and> (\<forall>e. r = Inl e \<longrightarrow> cstate c' = cstate c)"
proof (cases "cstate c \<in> {Established, PeerClosed False True, PeerClosed False False} \<and> \<not> need_credit_update_from_peer c \<and> pbuf pkt \<noteq> None")
  case False
  then show ?thesis by (auto simp: recv_data_def items_cong [of "last_fwd_cnt_to_peer_update f x" x for f x])
next
  case True
  then obtain buf where buf: "pbuf pkt = Some buf" by auto
  obtain r w' where rd: "stream_read strm (min (length buf) (peer_avail_credit c)) w = Some (r, w')"
    using assms unfolding stream_total_def by blast
  have go: "recv_data strm now c pkt w =
    (case r of
       Inl WouldBlock \<Rightarrow> recv_credit_update c pkt w'
     | Inl _ \<Rightarrow> Some (Ok (), c\<lparr>last_fwd_cnt_to_peer := fwd_cnt c\<rparr>, set_op VSOCK_OP_RST pkt, w')
     | Inr bs \<Rightarrow> recv_data strm now c pkt w)"
    using True buf rd by (auto simp: recv_data_def split: sum.split io_kind.split)
  show ?thesis
  proof (cases r)
    case (Inl e)
    then show ?thesis
      using go credit_update_fetch [of c pkt w'] by (cases e) (auto simp: items_cong [of "last_fwd_cnt_to_peer_update f x" x for f x])
  next
    case (Inr bs)
    then have "\<exists>c' p'. recv_data strm now c pkt w = Some (Ok (), c', p', w') \<and> tx_buf c' = tx_buf c \<and> conn_frame c' = conn_frame c \<and>
        pending_rx c' = pending_rx c \<and> cstate c' \<in> {cstate c, LocalClosed}"
      using True buf rd by (auto simp: recv_data_def Let_def)
    then obtain c' p' where r: "recv_data strm now c pkt w = Some (Ok (), c', p', w')" "tx_buf c' = tx_buf c"
        "conn_frame c' = conn_frame c" "pending_rx c' = pending_rx c" "cstate c' \<in> {cstate c, LocalClosed}" by blast
    then have "pending_items c' = pending_items c" by (intro items_cong)
    then show ?thesis using r by simp
  qed
qed

lemma fetchedI:
  assumes "tx_buf c' = tx_buf c" "conn_frame c' = conn_frame c" "Rst \<notin> pending_items c" "pending_items c' \<subseteq> pending_items c"
    "pending_items c' \<noteq> {} \<longrightarrow> pending_items c' \<noteq> pending_items c" "\<forall>e. r = Inl e \<longrightarrow> cstate c' = cstate c"
    "cstate c' \<in> {cstate c, LocalClosed}"
  shows "fetched c r c'"
  using assms by (cases r) (auto simp: fetched_def)

lemma recv_pkt_total:
  assumes "stream_total strm"
  shows "\<exists>r c' p' w'. recv_pkt strm now c pkt w = Some (r, c', p', w') \<and> fetched c r c'"
proof -
  let ?drop = "\<lambda>it. c\<lparr>pending_rx := snd (prx_remove it (pending_rx c))\<rparr>"
  consider "Rst \<in> pending_items c \<or> Response \<in> pending_items c \<or> Request \<in> pending_items c"
    | (rw) "pending_items c \<inter> {Rst, Response, Request} = {}" "Rw \<in> pending_items c"
    | (cu) "pending_items c \<inter> {Rst, Response, Request, Rw} = {}"
    by blast
  then show ?thesis
  proof cases
    case 1
    then show ?thesis
      by (auto simp: recv_pkt_def Let_def fetched_def items_cong [of "expiry_update f x" x for f x]
          items_cong [of "cstate_update f x" x for f x]) (simp_all add: pending_items_def)
  next
    case rw
    have eq: "recv_pkt strm now c pkt w = recv_data strm now (?drop Rw) (init_pkt c pkt) w"
      using rw by (simp add: recv_pkt_def Let_def pending_items_def)
    obtain r c' p' w' where d: "recv_data strm now (?drop Rw) (init_pkt c pkt) w = Some (r, c', p', w')" "tx_buf c' = tx_buf c"
        "conn_frame c' = conn_frame c" "pending_items c' \<subseteq> pending_items c - {Rw}" "\<forall>e. r = Inl e \<longrightarrow> cstate c' = cstate c"
        "cstate c' \<in> {cstate c, LocalClosed}"
      using recv_data_fetch [OF assms, of now "?drop Rw" "init_pkt c pkt" w] by auto
    then have "fetched c r c'" using rw by (intro fetchedI) auto
    then show ?thesis using eq d(1) by auto
  next
    case cu
    then have sub: "x = CreditUpdate" if "x \<in> pending_items c" for x using that by (cases x) auto
    have eq: "recv_pkt strm now c pkt w = recv_credit_update c (init_pkt c pkt) w"
      using cu by (simp add: recv_pkt_def Let_def pending_items_def)
    obtain r c' p' where d: "recv_credit_update c (init_pkt c pkt) w = Some (r, c', p', w)" "tx_buf c' = tx_buf c"
        "conn_frame c' = conn_frame c" "cstate c' = cstate c" "pending_items c' = pending_items c - {CreditUpdate}"
      using credit_update_fetch [of c "init_pkt c pkt" w] by blast
    then have "fetched c r c'" using cu sub by (intro fetchedI) auto
    then show ?thesis using eq d(1) by auto
  qed
qed

text \<open>A connection opened by the host never has a response to send.\<close>

definition no_response :: "VsockConnection \<Rightarrow> bool" where
  "no_response c \<longleftrightarrow> \<not> (cstate c = LocalInit \<and> Response \<in> pending_items c)"

lemma adds_no_response: "adds c c' \<Longrightarrow> no_response c \<Longrightarrow> no_response c'"
  by (auto simp: adds_def no_response_def pending_items_def)

lemma send_pkt_no_response:
  assumes "send_pkt strm now c pkt w = Some (c', w')" "no_response c"
  shows "no_response c'"
proof -
  let ?c = "c\<lparr>peer_buf_alloc := buf_alloc (phdr pkt), peer_fwd_cnt := hdr_fwd_cnt (phdr pkt)\<rparr>"
  have n: "no_response ?c" using assms(2) by (simp add: no_response_def pending_items_def)
  have "cstate c' \<noteq> LocalInit \<or> adds ?c c'"
    using assms(1) by (cases "cstate c")
      (auto simp: send_pkt_def Let_def shutdown_established_def shutdown_more_def split: if_splits dest: send_data_adds)
  then show ?thesis using n adds_no_response by (auto simp: no_response_def)
qed

lemma notify_out_adds:
  assumes "notify_out strm c w = Some (c', w')" "stream_total strm" "tx_inv (tx_buf c)"
  shows "adds c c'"
proof -
  have "sink_ok (logged strm) snd" using logged_ok [OF assms(2)] by (simp add: stream_ok_def)
  from notify_out_spec [OF this assms(3), of "(w, [])"] obtain c2 w2
    where n: "notify_out (logged strm) c (w, []) = Some (c2, w2)"
      and st: "cstate c2 = cstate c \<or> cstate c2 = Killed \<and> prx_contains (pending_rx c2) Rst"
      and p: "\<forall>it. prx_contains (pending_rx c) it \<longrightarrow> prx_contains (pending_rx c2) it"
        "\<forall>it. prx_contains (pending_rx c2) it \<longrightarrow> prx_contains (pending_rx c) it \<or> it \<in> {Rst, CreditUpdate}"
    by blast
  have "c2 = c'" using notify_out_logged [OF n] assms(1) by simp
  then show ?thesis using st p by (auto simp: adds_def)
qed

lemma notify_no_response:
  assumes "notify strm c evset w = Some (c', w')" "no_response c" "stream_total strm" "tx_inv (tx_buf c)"
  shows "no_response c'"
proof -
  let ?c1 = "if EPOLLIN \<in> evset \<or> EPOLLHUP \<in> evset then insert_pending Rw c else c"
  have n: "no_response ?c1" using assms(2) by (simp add: no_response_def pending_items_def)
  have "adds ?c1 c'" if "notify_out strm ?c1 w = Some (c', w')"
    using notify_out_adds [OF that assms(3)] assms(4) by simp
  then have "c' = ?c1 \<or> c' = kill ?c1 \<or> adds ?c1 c'"
    using assms(1) unfolding notify_def Let_def by (auto split: if_splits)
  then show ?thesis using n adds_no_response by (auto simp: no_response_def)
qed

lemma fetched_no_response: "fetched c r c' \<Longrightarrow> no_response c \<Longrightarrow> no_response c'"
  by (auto simp: fetched_def no_response_def)

end
