(* ===== verification/EffLogic.thy ===== *)
theory EffLogic
  imports Effects
begin

text \<open>
  Total correctness of the computations of \<open>Effects\<close> by weakest preconditions: \<open>wp m Q E s\<close> says
  that \<open>m\<close> started in \<open>s\<close> returns without a panic, with \<open>Q\<close> for a value and \<open>E\<close> for an error.
  The rules for the combinators are equations, so the simplifier computes preconditions.
\<close>

named_theorems wp_simps "equations for weakest preconditions"

definition wp :: "('s, 'e, 'a) eff \<Rightarrow> ('a \<Rightarrow> 's \<Rightarrow> bool) \<Rightarrow> ('e \<Rightarrow> 's \<Rightarrow> bool) \<Rightarrow> 's \<Rightarrow> bool" where
  "wp m Q E s \<longleftrightarrow> (case m s of None \<Rightarrow> False | Some (r, s') \<Rightarrow> (case r of Inl e \<Rightarrow> E e s' | Inr x \<Rightarrow> Q x s'))"

lemma wp_ret [wp_simps]: "wp (eff_ret x) Q E = Q x" "wp (eff_fail e) Q E = E e"
  by (simp_all add: wp_def fun_eq_iff)

lemma wp_get [wp_simps]: "wp eff_get Q E s \<longleftrightarrow> Q s s"
  by (simp add: wp_def)

lemma wp_modify [wp_simps]: "wp (eff_modify f) Q E s \<longleftrightarrow> Q () (f s)"
  by (simp add: wp_def)

lemma wp_opt [wp_simps]: "wp (eff_opt e v) Q E s \<longleftrightarrow> (case v of None \<Rightarrow> E e s | Some x \<Rightarrow> Q x s)"
  by (simp add: wp_def split: option.splits)

lemma wp_bind [wp_simps]: "wp (eff_bind m f) Q E s \<longleftrightarrow> wp m (\<lambda>x. wp (f x) Q E) E s"
  by (simp add: wp_def eff_bind_def split: option.splits prod.splits sum.splits)

lemma wp_map_err [wp_simps]: "wp (eff_map_err g m) Q E s \<longleftrightarrow> wp m Q (\<lambda>e. E (g e)) s"
  by (simp add: wp_def eff_map_err_def split: option.splits prod.splits sum.splits)

lemma wp_ignore [wp_simps]: "wp (eff_ignore m) Q E s \<longleftrightarrow> wp m (\<lambda>_. Q ()) (\<lambda>_. Q ()) s"
  by (simp add: wp_def eff_ignore_def split: option.splits prod.splits sum.splits)

lemma wp_zoom [wp_simps]:
  "wp (eff_zoom g p m) Q E s \<longleftrightarrow> wp m (\<lambda>x t. Q x (p t s)) (\<lambda>e t. E e (p t s)) (g s)"
  by (simp add: wp_def eff_zoom_def split: option.splits prod.splits sum.splits)

lemma wp_if [wp_simps]: "wp (if b then m else n) Q E s \<longleftrightarrow> (if b then wp m Q E s else wp n Q E s)"
  by simp

lemma wp_let [wp_simps]: "wp (let x = v in f x) Q E s \<longleftrightarrow> wp (f v) Q E s"
  by simp

lemma wp_option [wp_simps]:
  "wp (case v of None \<Rightarrow> m | Some x \<Rightarrow> f x) Q E s \<longleftrightarrow> (case v of None \<Rightarrow> wp m Q E s | Some x \<Rightarrow> wp (f x) Q E s)"
  by (simp split: option.splits)

lemma wp_prod [wp_simps]: "wp (case v of (x, y) \<Rightarrow> f x y) Q E s \<longleftrightarrow> wp (f (fst v) (snd v)) Q E s"
  by (simp split: prod.splits)

lemma wp_mono:
  assumes "wp m Q E s" "\<And>x s'. Q x s' \<Longrightarrow> Q' x s'" "\<And>e s'. E e s' \<Longrightarrow> E' e s'"
  shows "wp m Q' E' s"
  using assms by (simp add: wp_def split: option.splits prod.splits sum.splits)

lemma wp_conj: "wp m Q E s \<Longrightarrow> wp m Q' E' s \<Longrightarrow> wp m (\<lambda>x s'. Q x s' \<and> Q' x s') (\<lambda>e s'. E e s' \<and> E' e s') s"
  by (simp add: wp_def split: option.splits prod.splits sum.splits)

lemma wp_result: "wp m Q E s \<Longrightarrow> m s = Some (Inr x, s') \<Longrightarrow> Q x s'" "wp m Q E s \<Longrightarrow> m s = Some (Inl e, s') \<Longrightarrow> E e s'"
  by (simp_all add: wp_def)

lemma wp_resultE:
  assumes "wp m Q E s"
  obtains (ok) x s' where "m s = Some (Inr x, s')" "Q x s'" | (err) e s' where "m s = Some (Inl e, s')" "E e s'"
proof (cases "m s")
  case None
  then show ?thesis using assms by (simp add: wp_def)
next
  case (Some p)
  obtain r s' where "p = (r, s')" by fastforce
  then show ?thesis using Some assms that by (cases r) (simp_all add: wp_def)
qed

text \<open>A computation that always returns: a call to the operating system.\<close>

definition returns :: "('s, 'e, 'a) eff \<Rightarrow> bool" where
  "returns m \<longleftrightarrow> (\<forall>s. m s \<noteq> None)"

lemma returns_ret [simp]: "returns (eff_ret x)" "returns (eff_fail e)"
  by (simp_all add: returns_def)

lemma returns_bind:
  assumes "returns m" "\<And>x. returns (f x)"
  shows "returns (eff_bind m f)"
  unfolding returns_def
proof
  fix s
  obtain r s' where "m s = Some (r, s')" using assms(1) unfolding returns_def by (metis option.collapse prod.collapse)
  then show "eff_bind m f s \<noteq> None" using assms(2) by (cases r) (simp_all add: eff_bind_def returns_def)
qed

lemma wp_returns:
  assumes "returns m" "\<And>x s'. m s = Some (Inr x, s') \<Longrightarrow> Q x s'" "\<And>e s'. m s = Some (Inl e, s') \<Longrightarrow> E e s'"
  shows "wp m Q E s"
proof -
  obtain r s' where "m s = Some (r, s')" using assms(1) unfolding returns_def by (metis option.collapse prod.collapse)
  then show ?thesis using assms(2,3) by (cases r) (auto simp: wp_def)
qed

end
