(* ===== verification/MuxLogic.thy ===== *)
theory MuxLogic
  imports VsockMuxer VsockTotal EffLogic
begin

text \<open>
  Preconditions of the operations of the vsock muxer and its invariant.
\<close>

section \<open>The operating system\<close>

text \<open>
  What the muxer relies on: calls return, streams keep the contract of \<open>Read\<close> and \<open>Write\<close>,
  \<open>epoll\<close> reports no more events than asked for and only known ones.
\<close>

definition os_ok :: "'w mux_os \<Rightarrow> bool" where
  "os_ok os \<longleftrightarrow>
     (\<forall>fd evs. returns (epoll_add os fd evs) \<and> returns (epoll_mod os fd evs)) \<and>
     (\<forall>fd. returns (epoll_del os fd) \<and> stream_total (os_stream os fd) \<and> returns (recv_data_fd os fd)) \<and>
     (\<forall>fd n. returns (read_exact os fd n)) \<and> (\<forall>fd flag. returns (fcntl_setfl os fd flag)) \<and>
     (\<forall>ty. returns (backend_accept os ty)) \<and> (\<forall>ty port. returns (backend_connect os ty port)) \<and>
     (\<forall>n. returns (epoll_wait os n)) \<and>
     (\<forall>n w evs w'. epoll_wait os n w = Some (Inr evs, w') \<longrightarrow> length evs \<le> n \<and> (\<forall>(fd, ev) \<in> set evs. ev \<noteq> None))"

text \<open>\<open>std::time::Instant\<close> never goes back.\<close>

definition clock_ok :: "'w mux_os \<Rightarrow> ('w \<Rightarrow> nat) \<Rightarrow> bool" where
  "clock_ok os clk \<longleftrightarrow> (\<forall>w. clk w \<le> fst (os_now os w) \<and> fst (os_now os w) \<le> clk (snd (os_now os w)))"

lemma os_okD:
  assumes "os_ok os"
  shows "returns (epoll_add os fd evs)" "returns (epoll_mod os fd evs)" "returns (epoll_del os fd)"
    "stream_total (os_stream os fd)" "returns (recv_data_fd os fd)" "returns (read_exact os fd n)"
    "returns (fcntl_setfl os fd flag)" "returns (backend_accept os ty)" "returns (backend_connect os ty port)"
    "returns (epoll_wait os n)"
  using assms by (simp_all add: os_ok_def)

lemma returns_host_os [simp]: "returns m \<Longrightarrow> returns (host_os m)"
  by (auto simp: returns_def host_os_def eff_zoom_def split: option.splits)

lemma stream_total_conn:
  assumes "os_ok os"
  shows "stream_total (conn_stream os fd)"
proof -
  have wr: "\<exists>r h'. host_os (stream_write (os_stream os f) bs) h = Some (r, h') \<and> (\<forall>n. r = Inr n \<longrightarrow> n \<le> length bs)" for f bs h
  proof -
    obtain r w' where "stream_write (os_stream os f) bs (hworld h) = Some (r, w')" "\<forall>n. r = Inr n \<longrightarrow> n \<le> length bs"
      using os_okD(4) [OF assms, of f] unfolding stream_total_def by blast
    then show ?thesis by (simp add: host_os_def)
  qed
  have "\<exists>r h'. stream_write (conn_stream os fd) bs h = Some (r, h') \<and> (\<forall>n. r = Inr n \<longrightarrow> n \<le> length bs)" for bs h
  proof (cases "slaves h fd")
    case None
    then show ?thesis using wr [of fd bs h] by (simp add: conn_stream_def hybrid_write_def)
  next
    case (Some sfd)
    obtain r h' where "host_os (stream_write (os_stream os sfd) bs) (h\<lparr>slaves := (slaves h)(fd := None)\<rparr>) = Some (r, h')"
        "\<forall>n. r = Inr n \<longrightarrow> n \<le> length bs"
      using wr [of sfd bs "h\<lparr>slaves := (slaves h)(fd := None)\<rparr>"] by blast
    then show ?thesis using Some by (simp add: conn_stream_def hybrid_write_def)
  qed
  moreover have "\<exists>r h'. stream_read (conn_stream os fd) n h = Some (r, h') \<and> (\<forall>bs. r = Inr bs \<longrightarrow> length bs \<le> n)" for n h
  proof -
    obtain r w' where "stream_read (os_stream os fd) n (hworld h) = Some (r, w')" "\<forall>bs. r = Inr bs \<longrightarrow> length bs \<le> n"
      using os_okD(4) [OF assms, of fd] unfolding stream_total_def by blast
    then show ?thesis by (simp add: conn_stream_def host_os_def)
  qed
  ultimately show ?thesis unfolding stream_total_def by blast
qed

section \<open>Primitive operations\<close>

definition st :: "VsockMuxer \<Rightarrow> 'w host \<Rightarrow> 'w mux_state" where
  "st m h = \<lparr>mux = m, mworld = h\<rparr>"

lemma st_simps [simp]:
  "mux (st m h) = m" "mworld (st m h) = h" "st (mux s) (mworld s) = s"
  by (simp_all add: st_def)

lemma st_updates [wp_simps]: "s\<lparr>mux := m\<rparr> = st m (mworld s)" "s\<lparr>mworld := h\<rparr> = st (mux s) h"
  by (simp_all add: st_def)

lemma wp_m_get [wp_simps]: "wp (m_get f) Q E s \<longleftrightarrow> Q (f (mux s)) s"
  by (simp add: wp_def m_get_def)

lemma wp_m_modify [wp_simps]: "wp (m_modify f) Q E s \<longleftrightarrow> Q () (st (f (mux s)) (mworld s))"
  by (simp add: m_modify_def wp_modify st_updates)

lemma wp_m_host [wp_simps]:
  "wp (m_host m) Q E s \<longleftrightarrow> wp m (\<lambda>x h. Q x (st (mux s) h)) (\<lambda>e h. E e (st (mux s) h)) (mworld s)"
  by (simp add: m_host_def wp_zoom st_updates)

lemma wp_m_now:
  "wp (m_now os) Q E s \<longleftrightarrow> Q (fst (os_now os (hworld (mworld s)))) (st (mux s) ((mworld s)\<lparr>hworld := snd (os_now os (hworld (mworld s)))\<rparr>))"
  by (simp add: m_now_def m_os_def host_os_def wp_m_host wp_zoom) (simp add: wp_def split: prod.splits)

lemma wp_m_catch [wp_simps]: "wp (m_catch m h) Q E s \<longleftrightarrow> wp m Q (\<lambda>e. wp (h e) Q E) s"
  by (simp add: wp_def m_catch_def split: option.splits prod.splits sum.splits)

lemma wp_push_rx [wp_simps]:
  "wp (push_rx rx) Q E s \<longleftrightarrow> Q (fst (rxq_push rx (rxq (mux s)))) (st ((mux s)\<lparr>rxq := snd (rxq_push rx (rxq (mux s)))\<rparr>) (mworld s))"
  by (simp add: wp_def push_rx_def st_updates split: prod.splits)

text \<open>A call changes the world in an unknown way; so does reading the clock.\<close>

lemma wp_m_os:
  assumes "returns m" "\<And>x h. Q x (st (mux s) h)" "\<And>e h. E e (st (mux s) h)"
  shows "wp (m_os m) Q E s"
  unfolding m_os_def wp_m_host using assms by (intro wp_returns) simp_all

lemma wp_now:
  assumes "\<And>t h. Q t (st (mux s) h)"
  shows "wp (m_now os) Q E s"
  using assms by (simp add: wp_m_now)

lemma wp_drop_stream:
  assumes "\<And>h. Q () (st (mux s) h)"
  shows "wp (drop_stream os fd) Q E s"
  unfolding drop_stream_def wp_m_host using assms by (simp add: wp_def Let_def)

lemma wp_drop_listener:
  assumes "\<And>h. Q () (st (mux s) h)"
  shows "wp (drop_listener os l) Q E s"
  using assms assms [of "mworld s"] by (cases "(os, l)" rule: drop_listener.cases) (auto simp: wp_ret intro: wp_drop_stream)

text \<open>Only the world and the listeners change.\<close>

abbreviation env :: "'w mux_state \<Rightarrow> (int \<rightharpoonup> EpollListener) \<Rightarrow> 'w host \<Rightarrow> 'w mux_state" where
  "env s lm h \<equiv> st ((mux s)\<lparr>listener_map := lm\<rparr>) h"

lemma env_same [simp]: "m\<lparr>listener_map := listener_map m\<rparr> = m"
  by simp

lemma wp_add_listener:
  assumes "os_ok os" "\<And>lm h. Q () (env s lm h)" "\<And>e lm h. E e (env s lm h)"
  shows "wp (add_listener os fd l) Q E s"
  unfolding add_listener_def wp_m_catch wp_bind
proof (rule wp_m_os)
  show "returns (epoll_add os fd (listener_evset l))" by (rule os_okD [OF assms(1)])
  show "wp (m_modify (\<lambda>m. m\<lparr>listener_map := (listener_map m)(fd \<mapsto> l)\<rparr>)) Q
      (\<lambda>e. wp (drop_listener os l) (\<lambda>x. wp (eff_fail (EpollAdd e)) Q E) E) (st (mux s) h)" for x h
    using assms(2) by (simp add: wp_m_modify)
  show "wp (drop_listener os l) (\<lambda>x. wp (eff_fail (EpollAdd e)) Q E) E (st (mux s) h)" for e h
    using assms(3) [of _ "listener_map (mux s)"] by (intro wp_drop_listener) (simp add: wp_ret)
qed

lemma wp_remove_listener:
  assumes "os_ok os" "\<And>lm h. Q (listener_map (mux s) fd) (env s lm h)"
  shows "wp (remove_listener os fd) Q E s"
  using assms(2) os_okD(3) [OF assms(1)]
  by (auto simp: remove_listener_def wp_simps intro!: wp_m_os)

section \<open>Invariant\<close>

text \<open>
  A connection under its key: its buffer is well formed, its ports are the key, no unused
  indication is set.  Unless the queue is known to be out of date, every connection with
  something to deliver is queued.
\<close>

definition conn_good :: "ConnMapKey \<Rightarrow> MuxConn \<Rightarrow> bool" where
  "conn_good k c \<longleftrightarrow> tx_inv (tx_buf (mconn c)) \<and> conn_frame (mconn c) = (key_local_port k, key_peer_port k, 0) \<and>
     no_response (mconn c)"

definition queued :: "VsockMuxer \<Rightarrow> bool" where
  "queued m \<longleftrightarrow> (rxq_synced (rxq m) \<longrightarrow>
     (\<forall>k c. map_of (conn_map m) k = Some c \<and> has_pending_rx (mconn c) \<longrightarrow> ConnRx k \<in> set (rxq_items (rxq m))))"

definition mux_inv :: "VsockMuxer \<Rightarrow> bool" where
  "mux_inv m \<longleftrightarrow> distinct (map fst (conn_map m)) \<and> length (conn_map m) \<le> MAX_CONNECTIONS \<and>
     (\<forall>k c. map_of (conn_map m) k = Some c \<longrightarrow> conn_good k c) \<and>
     length (rxq_items (rxq m)) \<le> MUXER_RXQ_SIZE \<and> queued m \<and> length (killq_items (killq m)) \<le> MUXER_KILLQ_SIZE"

lemma queued_complete: "distinct (map fst (conn_map m)) \<Longrightarrow> queued m \<longleftrightarrow> rxq_complete (conn_map m) (rxq m)"
  by (auto simp: queued_def rxq_complete_def)

lemma mux_inv_other [simp]:
  "mux_inv (m\<lparr>listener_map := lm\<rparr>) = mux_inv m" "mux_inv (m\<lparr>local_port_set := ps\<rparr>) = mux_inv m"
  "mux_inv (m\<lparr>local_port_last := p\<rparr>) = mux_inv m" "mux_inv (m\<lparr>backend_map := bm\<rparr>) = mux_inv m"
  "mux_inv (m\<lparr>peer_backend := pb\<rparr>) = mux_inv m"
  by (simp_all add: mux_inv_def queued_def)

lemma push_effect:
  "rxq_synced (snd (rxq_push rx q)) \<Longrightarrow> rxq_synced q \<and> set (rxq_items q) \<subseteq> set (rxq_items (snd (rxq_push rx q)))"
  by (auto simp: rxq_push_def split: if_splits MuxerRx.splits option.splits)

lemma push_conn_items:
  "rxq_items (snd (rxq_push (ConnRx k) q)) = rxq_items q \<and> \<not> rxq_synced (snd (rxq_push (ConnRx k) q)) \<or>
   rxq_items (snd (rxq_push (ConnRx k) q)) = rxq_items q @ [ConnRx k]"
  by (auto simp: rxq_push_def)

lemma mux_inv_push: "mux_inv m \<Longrightarrow> mux_inv (m\<lparr>rxq := snd (rxq_push rx (rxq m))\<rparr>)"
  using push_effect [of rx "rxq m"] rxq_push_length [of "rxq m" rx] by (auto simp: mux_inv_def queued_def) blast

lemma mux_inv_killq: "mux_inv m \<Longrightarrow> mux_inv (m\<lparr>killq := killq_push k t (killq m)\<rparr>)"
  by (auto simp: mux_inv_def queued_def killq_push_def killq_is_full_def)

lemma mux_inv_killq_short: "mux_inv m \<Longrightarrow> length (killq_items kq) \<le> MUXER_KILLQ_SIZE \<Longrightarrow> mux_inv (m\<lparr>killq := kq\<rparr>)"
  by (auto simp: mux_inv_def queued_def)

lemma map_of_put [simp]: "map_of (conn_map (put_conn k c m)) = (map_of (conn_map m))(k \<mapsto> c)"
  by (simp add: put_conn_def update_conv')

lemma put_conn_fields [simp]:
  "rxq (put_conn k c m) = rxq m" "killq (put_conn k c m) = killq m" "listener_map (put_conn k c m) = listener_map m"
  "cid (put_conn k c m) = cid m" "local_port_set (put_conn k c m) = local_port_set m"
  "local_port_last (put_conn k c m) = local_port_last m" "backend_map (put_conn k c m) = backend_map m"
  "peer_backend (put_conn k c m) = peer_backend m"
  by (simp_all add: put_conn_def)

lemma mux_inv_put:
  assumes "mux_inv m" "map_of (conn_map m) k \<noteq> None \<or> length (conn_map m) < MAX_CONNECTIONS" "conn_good k c"
    and "has_pending_rx (mconn c) \<Longrightarrow> rxq_synced (rxq m) \<Longrightarrow> ConnRx k \<in> set (rxq_items (rxq m))"
  shows "mux_inv (put_conn k c m)"
proof -
  have keys: "map fst (conn_map (put_conn k c m)) =
      (if k \<in> set (map fst (conn_map m)) then map fst (conn_map m) else map fst (conn_map m) @ [k])"
    by (simp add: put_conn_def update_keys)
  have "distinct (map fst (conn_map (put_conn k c m)))" using assms(1) unfolding keys mux_inv_def by auto
  moreover have "length (conn_map (put_conn k c m)) \<le> MAX_CONNECTIONS"
  proof -
    have "length (conn_map (put_conn k c m)) = length (map fst (conn_map (put_conn k c m)))" by simp
    also have "\<dots> \<le> MAX_CONNECTIONS" using assms(1,2) unfolding keys mux_inv_def by (auto simp: map_of_eq_None_iff)
    finally show ?thesis .
  qed
  ultimately show ?thesis using assms(1,3,4) by (auto simp: mux_inv_def queued_def)
qed

lemma mux_inv_delete: "mux_inv m \<Longrightarrow> mux_inv (m\<lparr>conn_map := AList.delete k (conn_map m)\<rparr>)"
  using length_delete_le [of k "conn_map m"]
  by (auto simp: mux_inv_def queued_def distinct_delete delete_conv' intro: order_trans split: if_splits)

text \<open>Killing a connection.\<close>

definition killed_mux :: "ConnMapKey \<Rightarrow> VsockMuxer \<Rightarrow> VsockMuxer" where
  "killed_mux key m =
     (case map_of (conn_map m) key of
        None \<Rightarrow> m\<lparr>rxq := snd (rxq_push (ConnRx key) (rxq m))\<rparr>
      | Some c \<Rightarrow>
          let m1 = put_conn key (c\<lparr>mconn := kill (mconn c)\<rparr>) m in
          if has_pending_rx (mconn c) then m1 else m1\<lparr>rxq := snd (rxq_push (ConnRx key) (rxq m))\<rparr>)"

lemma wp_kill_connection [wp_simps]: "wp (kill_connection key) Q E s \<longleftrightarrow> Q () (st (killed_mux key (mux s)) (mworld s))"
  by (auto simp: kill_connection_def killed_mux_def wp_simps Let_def split: option.splits)

lemma kill_good: "conn_good k c \<Longrightarrow> conn_good k (c\<lparr>mconn := kill (mconn c)\<rparr>)"
  by (simp add: conn_good_def no_response_def)

lemma put_push_commute: "(put_conn k c m)\<lparr>rxq := q\<rparr> = put_conn k c (m\<lparr>rxq := q\<rparr>)"
  by (simp add: put_conn_def)

lemma mux_inv_killed:
  assumes "mux_inv m"
  shows "mux_inv (killed_mux key m)"
proof (cases "map_of (conn_map m) key")
  case None
  then show ?thesis using assms by (simp add: killed_mux_def mux_inv_push)
next
  case (Some c)
  then have good: "conn_good key (c\<lparr>mconn := kill (mconn c)\<rparr>)" using assms kill_good by (simp add: mux_inv_def)
  show ?thesis
  proof (cases "has_pending_rx (mconn c)")
    case True
    then have "rxq_synced (rxq m) \<Longrightarrow> ConnRx key \<in> set (rxq_items (rxq m))" using assms Some by (auto simp: mux_inv_def queued_def)
    then show ?thesis using assms Some True good by (auto simp: killed_mux_def Let_def intro!: mux_inv_put)
  next
    case False
    let ?m = "m\<lparr>rxq := snd (rxq_push (ConnRx key) (rxq m))\<rparr>"
    have "mux_inv (put_conn key (c\<lparr>mconn := kill (mconn c)\<rparr>) ?m)"
      using mux_inv_push [OF assms] Some good rxq_push_conn by (intro mux_inv_put) auto
    then show ?thesis using Some False by (simp add: killed_mux_def Let_def put_push_commute)
  qed
qed

end
