(* ===== verification/MuxOps.thy ===== *)
theory MuxOps
  imports MuxLogic
begin

text \<open>
  Total correctness of the operations of the vsock muxer: each returns and keeps the invariant.
\<close>

section \<open>Acting on a connection\<close>

text \<open>The muxer after an action left the connection as \<open>c\<close>, up to listeners and kill queue.\<close>

definition mutated :: "ConnMapKey \<Rightarrow> MuxConn \<Rightarrow> bool \<Rightarrow> VsockMuxer \<Rightarrow> VsockMuxer" where
  "mutated key c had_rx m =
     (let m1 = put_conn key c m in
      if \<not> had_rx \<and> has_pending_rx (mconn c) then m1\<lparr>rxq := snd (rxq_push (ConnRx key) (rxq m))\<rparr> else m1)"

lemma killed_listener: "killed_mux key (m\<lparr>listener_map := lm\<rparr>) = (killed_mux key m)\<lparr>listener_map := lm\<rparr>"
  by (auto simp: killed_mux_def Let_def put_conn_def split: option.splits)

lemma wp_m_will_expire:
  assumes "\<And>b h. Q b (st (mux s) h)"
  shows "wp (m_will_expire os c) Q E s"
  using assms assms [of False "mworld s"] by (auto simp: m_will_expire_def wp_simps intro!: wp_now)

lemma wp_update_listener:
  assumes "os_ok os" "\<And>lm h. Q () (env s lm h)" "\<And>lm h. Q () (st ((killed_mux key (mux s))\<lparr>listener_map := lm\<rparr>) h)"
  shows "wp (update_listener os key c) Q E s"
proof (cases "get_polled_evset (mconn c) = {}")
  case True
  then show ?thesis
    using assms(1,2) by (auto simp: update_listener_def Let_def wp_simps intro!: wp_remove_listener)
next
  case False
  let ?l = "listener_map (mux s) (mfd c)"
  consider k ev b where "?l = Some (LConnection k ev b)" | "\<not> (\<exists>k ev b. ?l = Some (LConnection k ev b))" by blast
  then show ?thesis
  proof cases
    case 1
    have "Q () s" using assms(2) [of "listener_map (mux s)" "mworld s"] by simp
    then show ?thesis
      using False 1 assms(2,3) os_okD(2) [OF assms(1)]
      by (auto simp: update_listener_def Let_def wp_simps killed_listener intro!: wp_m_os)
  next
    case 2
    have s: "Q () s" using assms(2) [of "listener_map (mux s)" "mworld s"] by simp
    have "wp (m_catch (add_listener os (mfd c) l) (\<lambda>_. kill_connection key)) Q E s" for l
      unfolding wp_m_catch using assms by (intro wp_add_listener) (simp_all add: wp_simps killed_listener)
    then have "wp (case ?l of
          Some (LConnection k evset b) \<Rightarrow> f k evset b
        | _ \<Rightarrow> if cstate (mconn c) \<noteq> LocalClosed
               then m_catch (add_listener os (mfd c) l) (\<lambda>_. kill_connection key) else eff_ret ()) Q E s" for f l
      using 2 s by (auto simp: wp_ret split: option.splits EpollListener.splits)
    then show ?thesis using False by (simp add: update_listener_def Let_def wp_bind wp_m_get)
  qed
qed

lemma wp_after_mutation:
  assumes "os_ok os"
    and "\<And>lm kq h. length (killq_items (killq (mux s))) \<le> MUXER_KILLQ_SIZE \<longrightarrow> length (killq_items kq) \<le> MUXER_KILLQ_SIZE \<Longrightarrow>
      Q () (st ((mutated key c had_rx (mux s))\<lparr>killq := kq, listener_map := lm\<rparr>) h)"
    and "\<And>lm kq h. length (killq_items (killq (mux s))) \<le> MUXER_KILLQ_SIZE \<longrightarrow> length (killq_items kq) \<le> MUXER_KILLQ_SIZE \<Longrightarrow>
      Q () (st ((killed_mux key ((mutated key c had_rx (mux s))\<lparr>killq := kq\<rparr>))\<lparr>listener_map := lm\<rparr>) h)"
  shows "wp (after_mutation os key c had_rx was_expiring) Q E s"
proof -
  let ?m = "mutated key c had_rx (mux s)"
  have kq: "killq ?m = killq (mux s)" by (simp add: mutated_def Let_def)
  have upd: "wp (update_listener os key c) Q E (st (?m\<lparr>killq := kq\<rparr>) h)"
    if "kq = killq (mux s) \<or> (\<exists>t. kq = killq_push key t (killq (mux s)))" for kq h
  proof -
    have "length (killq_items (killq (mux s))) \<le> MUXER_KILLQ_SIZE \<longrightarrow> length (killq_items kq) \<le> MUXER_KILLQ_SIZE"
      using that by (auto simp: killq_push_def killq_is_full_def)
    then show ?thesis using assms by (intro wp_update_listener) simp_all
  qed
  have keep: "wp (update_listener os key c) Q E (st ?m h)" for h
  proof -
    have same: "?m\<lparr>killq := killq ?m\<rparr> = ?m" by simp
    show ?thesis using upd [of "killq ?m" h] unfolding same by (simp add: kq)
  qed
  have push: "wp (update_listener os key c) Q E (st (?m\<lparr>killq := killq_push key t (killq (mux s))\<rparr>) h)" for t h
    using upd by blast
  have body: "wp (eff_bind (if was_expiring then eff_ret False else m_will_expire os (mconn c)) (\<lambda>starts.
      eff_bind (if starts then m_modify (\<lambda>m. m\<lparr>killq := killq_push key (the (expiry (mconn c))) (killq m)\<rparr>) else eff_ret ()) (\<lambda>_.
      update_listener os key c))) Q E (st ?m h)" for h
    using keep push by (auto simp: wp_simps kq intro!: wp_m_will_expire)
  then show ?thesis
    by (auto simp: after_mutation_def wp_bind wp_m_modify wp_if wp_push_rx wp_ret mutated_def Let_def)
qed

lemma mux_inv_mutated:
  assumes "mux_inv m" "map_of (conn_map m) key = Some c" "conn_good key c'"
  shows "mux_inv (mutated key c' (has_pending_rx (mconn c)) m)"
proof (cases "\<not> has_pending_rx (mconn c) \<and> has_pending_rx (mconn c')")
  case True
  let ?m = "m\<lparr>rxq := snd (rxq_push (ConnRx key) (rxq m))\<rparr>"
  have "mux_inv (put_conn key c' ?m)"
    using mux_inv_push [OF assms(1)] assms(2,3) rxq_push_conn by (intro mux_inv_put) auto
  then show ?thesis using True by (simp add: mutated_def Let_def put_push_commute)
next
  case False
  then have "has_pending_rx (mconn c') \<Longrightarrow> rxq_synced (rxq m) \<Longrightarrow> ConnRx key \<in> set (rxq_items (rxq m))"
    using assms(1,2) by (auto simp: mux_inv_def queued_def)
  then show ?thesis using False assms by (auto simp: mutated_def Let_def intro!: mux_inv_put)
qed

lemma wp_ack_host:
  assumes "os_ok os" "\<And>h. Q c1 (st (mux s) h)"
    "\<And>h. prev = LocalInit \<Longrightarrow> cstate c1 = Established \<Longrightarrow> Q (kill c1) (st (mux s) h)"
  shows "wp (ack_host os key fd prev c1) Q E s"
proof (cases "prev = LocalInit \<and> cstate c1 = Established")
  case True
  have r: "returns (stream_write (conn_stream os fd) bs)" for bs
    using stream_total_conn [OF assms(1), of fd] unfolding stream_total_def returns_def by fastforce
  show ?thesis
    using True assms r by (auto simp: ack_host_def wp_simps send_bytes_raw_def intro!: wp_returns)
next
  case False
  then show ?thesis using assms(2) [of "mworld s"] by (auto simp: ack_host_def wp_ret)
qed

definition keeps_good :: "(VsockConnection \<Rightarrow> 'a \<Rightarrow> VsockConnection \<Rightarrow> bool) \<Rightarrow> bool" where
  "keeps_good R \<longleftrightarrow> (\<forall>c x c'. R c x c' \<longrightarrow> tx_inv (tx_buf c) \<longrightarrow> no_response c \<longrightarrow>
     tx_inv (tx_buf c') \<and> conn_frame c' = conn_frame c \<and> no_response c')"

lemma wp_apply_conn_mutation:
  assumes os: "os_ok os" and inv: "mux_inv (mux s)"
    and act: "\<And>c now h. map_of (conn_map (mux s)) key = Some c \<Longrightarrow>
      \<exists>x c' h'. act (conn_stream os (mfd c)) now (mconn c) h = Some (x, c', h') \<and> R (mconn c) x c'"
    and R: "keeps_good R"
    and none: "map_of (conn_map (mux s)) key = None \<Longrightarrow> Q None s"
    and some: "\<And>c x c1 c2 kq m' lm h. map_of (conn_map (mux s)) key = Some c \<Longrightarrow> R (mconn c) x c1 \<Longrightarrow>
      c2 = c1 \<or> c2 = kill c1 \<and> cstate (mconn c) = LocalInit \<and> cstate c1 = Established \<Longrightarrow>
      m' = (mutated key (c\<lparr>mconn := c2\<rparr>) (has_pending_rx (mconn c)) (mux s))\<lparr>killq := kq\<rparr> \<or>
      m' = killed_mux key ((mutated key (c\<lparr>mconn := c2\<rparr>) (has_pending_rx (mconn c)) (mux s))\<lparr>killq := kq\<rparr>) \<Longrightarrow>
      mux_inv m' \<Longrightarrow> Q (Some x) (st (m'\<lparr>listener_map := lm\<rparr>) h)"
  shows "wp (apply_conn_mutation os key act) Q E s"
proof (cases "map_of (conn_map (mux s)) key")
  case None
  then show ?thesis using none by (simp add: apply_conn_mutation_def wp_simps)
next
  case (Some c)
  have good: "conn_good key c" using inv Some by (simp add: mux_inv_def)
  have rest: "wp (eff_bind (ack_host os key (mfd c) (cstate (mconn c)) c1) (\<lambda>c2.
      eff_bind (after_mutation os key (c\<lparr>mconn := c2\<rparr>) (has_pending_rx (mconn c)) we) (\<lambda>_. eff_ret (Some x)))) Q E (st (mux s) h)"
    if r: "R (mconn c) x c1" for c1 x we h
  proof -
    have after: "wp (after_mutation os key (c\<lparr>mconn := c2\<rparr>) (has_pending_rx (mconn c)) we) (\<lambda>_. wp (eff_ret (Some x)) Q E) E (st (mux s) h)"
      if c2: "c2 = c1 \<or> c2 = kill c1 \<and> cstate (mconn c) = LocalInit \<and> cstate c1 = Established" for c2 h
    proof -
      have g2: "conn_good key (c\<lparr>mconn := c2\<rparr>)"
        using R r good c2 by (fastforce simp: keeps_good_def conn_good_def no_response_def)
      have i: "mux_inv ((mutated key (c\<lparr>mconn := c2\<rparr>) (has_pending_rx (mconn c)) (mux s))\<lparr>killq := kq\<rparr>)"
        if "length (killq_items kq) \<le> MUXER_KILLQ_SIZE" for kq
        using mux_inv_mutated [OF inv Some g2] that by (intro mux_inv_killq_short)
      have k: "length (killq_items (killq (mux s))) \<le> MUXER_KILLQ_SIZE" using inv by (simp add: mux_inv_def)
      show ?thesis
        using k some [OF Some r c2 disjI1 [OF refl] i] some [OF Some r c2 disjI2 [OF refl] mux_inv_killed [OF i]]
        by (intro wp_after_mutation [OF os]) (auto simp: wp_ret)
    qed
    show ?thesis unfolding wp_bind using after by (intro wp_ack_host [OF os]) simp_all
  qed
  have run: "wp (run_action os act c now) (\<lambda>x. wp (case x of (x, c1) \<Rightarrow>
      eff_bind (ack_host os key (mfd c) (cstate (mconn c)) c1) (\<lambda>c2.
      eff_bind (after_mutation os key (c\<lparr>mconn := c2\<rparr>) (has_pending_rx (mconn c)) we) (\<lambda>_. eff_ret (Some x)))) Q E) E (st (mux s) h)"
    for now we h
  proof -
    obtain x c' h' where "act (conn_stream os (mfd c)) now (mconn c) h = Some (x, c', h')" "R (mconn c) x c'"
      using act [OF Some] by blast
    then show ?thesis unfolding run_action_def wp_m_host using rest by (simp add: wp_def [of "\<lambda>h. map_option f (g h)" for f g])
  qed
  show ?thesis
    unfolding apply_conn_mutation_def wp_bind wp_m_get Some option.case
    using run by (intro wp_m_will_expire wp_now) simp_all
qed

end
