(* ===== verification/MuxSweep.thy ===== *)
theory MuxSweep
  imports MuxOps
begin

text \<open>
  The sweep over the kill queue of the vsock muxer returns, provided the clock does not go back,
  and changes nothing but to kill connections whose timer has run out.
\<close>

section \<open>One round\<close>

definition clock_of :: "('w \<Rightarrow> nat) \<Rightarrow> 'w mux_state \<Rightarrow> nat" where
  "clock_of clk s = clk (hworld (mworld s))"

definition tick :: "'w mux_os \<Rightarrow> 'w mux_state \<Rightarrow> nat \<times> 'w mux_state" where
  "tick os s = (case os_now os (hworld (mworld s)) of (t, w) \<Rightarrow> (t, st (mux s) ((mworld s)\<lparr>hworld := w\<rparr>)))"

lemma m_now_tick: "m_now os s = Some (Inr (fst (tick os s)), snd (tick os s))"
  by (simp add: m_now_def m_os_def m_host_def host_os_def eff_zoom_def tick_def st_def split: prod.splits)

lemma tick_mux [simp]: "mux (snd (tick os s)) = mux s"
  by (simp add: tick_def split: prod.splits)

lemma tick_clock: "clock_ok os clk \<Longrightarrow> clock_of clk s \<le> fst (tick os s) \<and> fst (tick os s) \<le> clock_of clk (snd (tick os s))"
  by (simp add: clock_ok_def clock_of_def tick_def split: prod.splits) (metis fst_conv snd_conv)

text \<open>The muxer after \<open>kill_if_expired\<close>.\<close>

definition expire :: "'w mux_os \<Rightarrow> ConnMapKey \<Rightarrow> 'w mux_state \<Rightarrow> 'w mux_state" where
  "expire os key s =
     (case map_of (conn_map (mux s)) key of
        None \<Rightarrow> s
      | Some c \<Rightarrow>
          if expiry (mconn c) = None then s
          else let (t, s1) = tick os s in
               if has_expired (mconn c) t then st (killed_mux key (mux s)) (mworld s1) else s1)"

lemma kill_connection_eq: "kill_connection key s = Some (Inr (), st (killed_mux key (mux s)) (mworld s))"
  using wp_kill_connection [of key "\<lambda>_ s'. s' = st (killed_mux key (mux s)) (mworld s)" "\<lambda>_ _. False" s]
  by (auto elim: wp_resultE)

lemma kill_if_expired_eq: "kill_if_expired os key s = Some (Inr (), expire os key s)"
proof (cases "map_of (conn_map (mux s)) key")
  case None
  then show ?thesis by (simp add: kill_if_expired_def expire_def eff_bind_def m_get_def)
next
  case (Some c)
  then show ?thesis
    by (cases "expiry (mconn c)")
      (auto simp: kill_if_expired_def expire_def eff_bind_def m_get_def m_now_tick kill_connection_eq Let_def split: prod.splits)
qed

definition rebuilt :: "'w mux_os \<Rightarrow> 'w mux_state \<Rightarrow> 'w mux_state" where
  "rebuilt os s = (let (t, s1) = tick os s in st ((mux s)\<lparr>killq := killq_from_conn_map t (conn_map (mux s))\<rparr>) (mworld s1))"

lemma rebuild_killq_eq: "rebuild_killq os s = Some (Inr (), rebuilt os s)"
  by (simp add: rebuild_killq_def rebuilt_def eff_bind_def m_now_tick m_modify_def st_updates Let_def split: prod.splits)

lemma sweep_killq_step:
  fixes os :: "'w mux_os"
  shows "sweep_killq os s =
     (case killq_items (killq (mux s)) of
        [] \<Rightarrow> if killq_synced (killq (mux s)) then Some s else sweep_killq os (rebuilt os s)
      | it # its \<Rightarrow>
          let (t, s1) = tick os s in
          if t > kill_time it
          then sweep_killq os (expire os (kq_key it) (st ((mux s)\<lparr>killq := (killq (mux s))\<lparr>killq_items := its\<rparr>\<rparr>) (mworld s1)))
          else Some s1)"
proof (cases "killq_items (killq (mux s))")
  case Nil
  then have "(pop_kill os :: ('w mux_state, unit, ConnMapKey option) eff) s = Some (Inr None, s)"
    by (simp add: pop_kill_def eff_bind_def m_get_def killq_is_empty_def)
  then show ?thesis
    using Nil by (subst sweep_killq.simps) (simp add: killq_is_empty_def rebuild_killq_eq)
next
  case (Cons it its)
  obtain t s1 where t: "tick os s = (t, s1)" by fastforce
  then have m1: "mux s1 = mux s" using tick_mux [of os s] by simp
  have "(pop_kill os :: ('w mux_state, unit, ConnMapKey option) eff) s =
      Some (if t > kill_time it
            then (Inr (Some (kq_key it)), st ((mux s)\<lparr>killq := (killq (mux s))\<lparr>killq_items := its\<rparr>\<rparr>) (mworld s1))
            else (Inr None, s1))"
    using Cons t m1 by (auto simp: pop_kill_def eff_bind_def m_get_def killq_is_empty_def m_now_tick killq_pop_def st_updates)
  then show ?thesis
    using Cons t m1 by (subst sweep_killq.simps) (simp add: killq_is_empty_def kill_if_expired_eq)
qed

section \<open>The rebuilt queue\<close>

definition expires_at :: "conn_table \<Rightarrow> ConnMapKey \<Rightarrow> nat option" where
  "expires_at m k = (case map_of m k of None \<Rightarrow> None | Some c \<Rightarrow> expiry (mconn c))"

lemma killq_collect_spec:
  assumes "distinct (map kq_key q @ map fst m)" "length q \<le> MUXER_KILLQ_SIZE"
  shows "length (killq_items (killq_collect now m q)) \<le> MUXER_KILLQ_SIZE \<and>
    distinct (map kq_key (killq_items (killq_collect now m q))) \<and>
    (\<forall>it \<in> set (killq_items (killq_collect now m q)). it \<in> set q \<or>
       kill_time it > now \<and> expires_at m (kq_key it) = Some (kill_time it)) \<and>
    (killq_synced (killq_collect now m q) \<or> killq_items (killq_collect now m q) \<noteq> [])"
  using assms
proof (induction now m q rule: killq_collect.induct)
  case (2 now key c m q)
  let ?r = "killq_collect now ((key, c) # m) q"
  have later: "expires_at ((key, c) # m) k = Some t" if "expires_at m k = Some t" for k t
  proof -
    have "k \<in> fst ` set m" using that by (force simp: expires_at_def split: option.splits dest: map_of_SomeD)
    then show ?thesis using that 2(3) by (auto simp: expires_at_def)
  qed
  consider (skip) "\<not> will_expire (mconn c) now" | (full) "will_expire (mconn c) now" "length q \<ge> MUXER_KILLQ_SIZE"
    | (add) "will_expire (mconn c) now" "\<not> length q \<ge> MUXER_KILLQ_SIZE" by blast
  then show ?case
  proof cases
    case skip
    then show ?thesis using 2(1) [OF skip] 2(3,4) later by auto
  next
    case full
    then have "q \<noteq> []" by (auto simp: MUXER_KILLQ_SIZE_def)
    then show ?thesis using 2(3,4) full by auto
  next
    case add
    obtain t where t: "expiry (mconn c) = Some t" "t > now" using add(1) by (auto simp: will_expire_def split: option.splits)
    let ?it = "\<lparr>kq_key = key, kill_time = t\<rparr>"
    have eq: "killq_collect now ((key, c) # m) q = killq_collect now m (q @ [?it])" using add t by simp
    have "expires_at ((key, c) # m) (kq_key ?it) = Some (kill_time ?it)" using t by (simp add: expires_at_def)
    moreover have "distinct (map kq_key (q @ [?it]) @ map fst m)" "length (q @ [?it]) \<le> MUXER_KILLQ_SIZE"
      using 2(3) add(2) by auto
    ultimately show ?thesis using 2(2) add later t unfolding eq by auto
  qed
qed auto

section \<open>The sweep returns\<close>

lemma kill_idem [simp]: "kill (kill c) = kill c"
  by (simp add: kill_def insert_pending_def prx_insert_def or.assoc)

lemma kill_expiry [simp]: "expiry (kill c) = expiry c"
  by (simp add: kill_def insert_pending_def)

text \<open>What a sweep may change: queues, the world, and connections whose timer has run out are killed.\<close>

definition same_rest :: "VsockMuxer \<Rightarrow> VsockMuxer \<Rightarrow> bool" where
  "same_rest m m' \<longleftrightarrow> cid m' = cid m \<and> listener_map m' = listener_map m \<and> local_port_set m' = local_port_set m \<and>
     local_port_last m' = local_port_last m \<and> backend_map m' = backend_map m \<and> peer_backend m' = peer_backend m"

definition swept :: "('w \<Rightarrow> nat) \<Rightarrow> 'w mux_state \<Rightarrow> 'w mux_state \<Rightarrow> bool" where
  "swept clk s s' \<longleftrightarrow> same_rest (mux s) (mux s') \<and> clock_of clk s \<le> clock_of clk s' \<and>
     (\<forall>k. map_of (conn_map (mux s')) k = map_of (conn_map (mux s)) k \<or>
        (\<exists>c t. map_of (conn_map (mux s)) k = Some c \<and> expiry (mconn c) = Some t \<and> t \<le> clock_of clk s' \<and>
           map_of (conn_map (mux s')) k = Some (c\<lparr>mconn := kill (mconn c)\<rparr>)))"

lemma swept_same: "conn_map (mux s') = conn_map (mux s) \<Longrightarrow> same_rest (mux s) (mux s') \<Longrightarrow> clock_of clk s \<le> clock_of clk s' \<Longrightarrow> swept clk s s'"
  by (simp add: swept_def)

lemma swept_trans:
  assumes "swept clk s1 s2" "swept clk s2 s3"
  shows "swept clk s1 s3"
  unfolding swept_def
proof (intro conjI allI)
  fix k
  let ?m = "\<lambda>s. map_of (conn_map (mux s)) k"
  let ?killed = "\<lambda>s s' s''. \<exists>c t. ?m s = Some c \<and> expiry (mconn c) = Some t \<and> t \<le> clock_of clk s'' \<and> ?m s' = Some (c\<lparr>mconn := kill (mconn c)\<rparr>)"
  have c23: "clock_of clk s2 \<le> clock_of clk s3" using assms(2) by (simp add: swept_def)
  have "?m s2 = ?m s1 \<or> ?killed s1 s2 s2" "?m s3 = ?m s2 \<or> ?killed s2 s3 s3"
    using assms by (simp_all add: swept_def)
  then show "?m s3 = ?m s1 \<or> ?killed s1 s3 s3"
  proof (elim disjE)
    assume "?m s2 = ?m s1" "?killed s2 s3 s3"
    then have "?killed s1 s3 s3" by simp
    then show ?thesis ..
  qed (use c23 in \<open>auto intro: order_trans\<close>)
qed (use assms in \<open>auto simp: swept_def same_rest_def\<close>)

lemma killed_mux_conns:
  "map_of (conn_map (killed_mux key m)) =
     (case map_of (conn_map m) key of None \<Rightarrow> map_of (conn_map m) | Some c \<Rightarrow> (map_of (conn_map m))(key \<mapsto> c\<lparr>mconn := kill (mconn c)\<rparr>))"
  by (simp add: killed_mux_def Let_def split: option.splits)

lemma killed_mux_rest: "same_rest m (killed_mux key m)" "killq (killed_mux key m) = killq m"
  by (simp_all add: killed_mux_def same_rest_def Let_def split: option.splits)

lemma expire_spec:
  assumes "clock_ok os clk" "mux_inv (mux s)"
  shows "mux_inv (mux (expire os key s)) \<and> swept clk s (expire os key s) \<and> killq (mux (expire os key s)) = killq (mux s)"
proof (cases "map_of (conn_map (mux s)) key")
  case None
  then show ?thesis using assms(2) by (simp add: expire_def swept_def same_rest_def)
next
  case (Some c)
  show ?thesis
  proof (cases "expiry (mconn c)")
    case None
    then show ?thesis using assms(2) Some by (simp add: expire_def swept_def same_rest_def)
  next
    case e: (Some t0)
    obtain t s1 where t: "tick os s = (t, s1)" by fastforce
    have cl: "clock_of clk s \<le> t" "t \<le> clock_of clk s1" "mux s1 = mux s"
      using tick_clock [OF assms(1), of s] tick_mux [of os s] t by simp_all
    have ex: "expire os key s = (if t0 \<le> t then st (killed_mux key (mux s)) (mworld s1) else s1)"
      using Some e t by (simp add: expire_def has_expired_def)
    show ?thesis
    proof (cases "t0 \<le> t")
      case True
      have "clock_of clk (st (killed_mux key (mux s)) (mworld s1)) = clock_of clk s1" by (simp add: clock_of_def)
      then have "swept clk s (expire os key s)"
        using True ex cl Some e killed_mux_rest(1) by (auto simp: swept_def killed_mux_conns)
      then show ?thesis using True ex mux_inv_killed [OF assms(2)] killed_mux_rest(2) by simp
    next
      case False
      then show ?thesis using ex cl assms(2) by (simp add: swept_def same_rest_def)
    qed
  qed
qed

lemma swept_expires: "swept clk s s' \<Longrightarrow> expires_at (conn_map (mux s')) k = expires_at (conn_map (mux s)) k"
  unfolding swept_def expires_at_def
  by (drule conjunct2, drule conjunct2, erule allE [of _ k]) (auto split: option.splits)

text \<open>The connections that wait for their timer and are not in the kill queue.\<close>

definition unqueued :: "('w \<Rightarrow> nat) \<Rightarrow> 'w mux_state \<Rightarrow> ConnMapKey set" where
  "unqueued clk s = {k. \<exists>t. expires_at (conn_map (mux s)) k = Some t \<and> t > clock_of clk s} - kq_key ` set (killq_items (killq (mux s)))"

definition fresh :: "'w mux_state \<Rightarrow> bool" where
  "fresh s \<longleftrightarrow> (\<forall>it \<in> set (killq_items (killq (mux s))).
     expires_at (conn_map (mux s)) (kq_key it) \<in> {None, Some (kill_time it)})"

lemma finite_unqueued [simp]: "finite (unqueued clk s)"
proof -
  have "unqueued clk s \<subseteq> fst ` set (conn_map (mux s))"
    by (auto simp: unqueued_def expires_at_def split: option.splits dest!: map_of_SomeD intro!: rev_image_eqI)
  then show ?thesis by (rule finite_subset) simp
qed

definition rank :: "('w \<Rightarrow> nat) \<Rightarrow> 'w mux_state \<Rightarrow> nat" where
  "rank clk s = 2 * card (unqueued clk s) + length (killq_items (killq (mux s))) + (if killq_synced (killq (mux s)) then 0 else 1)"

lemma rebuilt_spec:
  assumes clk: "clock_ok os clk" and inv: "mux_inv (mux s)" and e: "killq_items (killq (mux s)) = []" "\<not> killq_synced (killq (mux s))"
  shows "mux_inv (mux (rebuilt os s)) \<and> swept clk s (rebuilt os s) \<and> fresh (rebuilt os s) \<and> rank clk (rebuilt os s) < rank clk s"
proof -
  obtain t s1 where t: "tick os s = (t, s1)" by fastforce
  have cl: "clock_of clk s \<le> t" "t \<le> clock_of clk s1" "mux s1 = mux s"
    using tick_clock [OF clk, of s] tick_mux [of os s] t by simp_all
  let ?q = "killq_collect t (conn_map (mux s)) []" and ?s = "rebuilt os s"
  have r: "mux ?s = (mux s)\<lparr>killq := killq_from_conn_map t (conn_map (mux s))\<rparr>" "clock_of clk ?s = clock_of clk s1"
    using t by (simp_all add: rebuilt_def clock_of_def)
  have q: "length (killq_items ?q) \<le> MUXER_KILLQ_SIZE" "distinct (map kq_key (killq_items ?q))"
    "\<forall>it \<in> set (killq_items ?q). kill_time it > t \<and> expires_at (conn_map (mux s)) (kq_key it) = Some (kill_time it)"
    "killq_synced ?q \<or> killq_items ?q \<noteq> []"
    using killq_collect_spec [of "[]" "conn_map (mux s)" t] inv by (auto simp: mux_inv_def)
  have k: "set (killq_items (killq (mux ?s))) = set (killq_items ?q)" "length (killq_items (killq (mux ?s))) = length (killq_items ?q)"
    "killq_synced (killq (mux ?s)) = killq_synced ?q"
    by (simp_all add: r killq_from_conn_map_def Let_def)
  have i: "mux_inv (mux ?s)"
    unfolding r using inv q(1) by (intro mux_inv_killq_short) (simp_all add: killq_from_conn_map_def Let_def)
  have sw: "swept clk s ?s" using cl r by (intro swept_same) (simp_all add: same_rest_def)
  have f: "fresh ?s" using q(3) unfolding fresh_def k(1) by (simp add: r)
  let ?keys = "kq_key ` set (killq_items ?q)"
  have "unqueued clk ?s \<union> ?keys \<subseteq> unqueued clk s"
    using q(3) cl r(2) unfolding unqueued_def k(1) by (auto simp: r(1) e(1))
  moreover have "unqueued clk ?s \<inter> ?keys = {}" unfolding unqueued_def k(1) by blast
  ultimately have "card (unqueued clk ?s) + card ?keys \<le> card (unqueued clk s)"
    by (metis card_Un_disjoint card_mono finite_Un finite_subset finite_unqueued)
  moreover have "card ?keys = length (killq_items ?q)" using distinct_card [OF q(2)] by simp
  moreover define n where "n = length (killq_items ?q)"
  moreover have "killq_synced ?q \<or> 0 < n" using q(4) by (simp add: n_def)
  ultimately have "rank clk ?s < rank clk s"
    unfolding rank_def k(2,3) e(1) n_def [symmetric] using e(2) by (cases "killq_synced ?q") simp_all
  then show ?thesis using i sw f by blast
qed

lemma popped_spec:
  assumes clk: "clock_ok os clk" and inv: "mux_inv (mux s)" and items: "killq_items (killq (mux s)) = it # its"
    and t: "tick os s = (t, s1)" "t > kill_time it"
    and s3: "s3 = expire os (kq_key it) (st ((mux s)\<lparr>killq := (killq (mux s))\<lparr>killq_items := its\<rparr>\<rparr>) (mworld s1))"
  shows "mux_inv (mux s3) \<and> swept clk s s3 \<and> killq_items (killq (mux s3)) = its \<and> (fresh s \<longrightarrow> fresh s3 \<and> rank clk s3 < rank clk s)"
proof -
  let ?s2 = "st ((mux s)\<lparr>killq := (killq (mux s))\<lparr>killq_items := its\<rparr>\<rparr>) (mworld s1)"
  have cl: "clock_of clk s \<le> t" "t \<le> clock_of clk s1" "mux s1 = mux s"
    using tick_clock [OF clk, of s] tick_mux [of os s] t by simp_all
  have c2: "clock_of clk ?s2 = clock_of clk s1" by (simp add: clock_of_def)
  have i2: "mux_inv (mux ?s2)" using inv items by (simp add: mux_inv_killq_short mux_inv_def queued_def)
  have sw2: "swept clk s ?s2" using cl c2 by (intro swept_same) (simp_all add: same_rest_def)
  note ex = expire_spec [OF clk i2, of "kq_key it", folded s3]
  have sw: "swept clk s s3" using swept_trans [OF sw2] ex by blast
  have exp: "expires_at (conn_map (mux s3)) = expires_at (conn_map (mux s))" using swept_expires [OF sw] by blast
  have q: "killq (mux s3) = (killq (mux s))\<lparr>killq_items := its\<rparr>" using ex by simp
  have c3: "t \<le> clock_of clk s3" using ex cl c2 by (auto simp: swept_def)
  have "fresh s3 \<and> rank clk s3 < rank clk s" if f: "fresh s"
  proof
    show "fresh s3" using f items by (simp add: fresh_def exp q)
    have "expires_at (conn_map (mux s)) (kq_key it) \<in> {None, Some (kill_time it)}" using f items by (simp add: fresh_def)
    then have "unqueued clk s3 \<subseteq> unqueued clk s"
      using c3 cl t(2) items by (auto simp: unqueued_def exp q)
    then have "card (unqueued clk s3) \<le> card (unqueued clk s)" by (simp add: card_mono)
    then show "rank clk s3 < rank clk s" using items by (simp add: rank_def q)
  qed
  then show ?thesis using ex sw q by simp
qed

lemma sweep_returns:
  assumes clk: "clock_ok os clk" and inv: "mux_inv (mux s)"
  shows "\<exists>s'. sweep_killq os s = Some s' \<and> mux_inv (mux s') \<and> swept clk s s'"
  using inv
proof (induction s rule: wf_induct_rule [OF wf_measures [of "[\<lambda>s. if fresh s then 0 else 1,
    \<lambda>s. if fresh s then rank clk s else length (killq_items (killq (mux s)))]"]])
  case (1 s)
  show ?case
  proof (cases "killq_items (killq (mux s))")
    case Nil
    show ?thesis
    proof (cases "killq_synced (killq (mux s))")
      case True
      then show ?thesis using 1(2) Nil by (subst sweep_killq_step) (simp add: swept_same same_rest_def)
    next
      case False
      note r = rebuilt_spec [OF clk 1(2) Nil False]
      have "fresh s" using Nil by (simp add: fresh_def)
      then obtain s' where "sweep_killq os (rebuilt os s) = Some s'" "mux_inv (mux s')" "swept clk (rebuilt os s) s'"
        using 1(1) [of "rebuilt os s"] r by auto
      then show ?thesis using r Nil False swept_trans by (subst sweep_killq_step) auto
    qed
  next
    case (Cons it its)
    obtain t s1 where t: "tick os s = (t, s1)" by fastforce
    have cl: "clock_of clk s \<le> clock_of clk s1" "mux s1 = mux s"
      using tick_clock [OF clk, of s] tick_mux [of os s] t by simp_all
    show ?thesis
    proof (cases "t > kill_time it")
      case False
      then show ?thesis using 1(2) Cons t cl by (subst sweep_killq_step) (simp add: swept_same same_rest_def)
    next
      case True
      define s3 where s3: "s3 = expire os (kq_key it) (st ((mux s)\<lparr>killq := (killq (mux s))\<lparr>killq_items := its\<rparr>\<rparr>) (mworld s1))"
      note p = popped_spec [OF clk 1(2) Cons t True s3]
      obtain s' where "sweep_killq os s3 = Some s'" "mux_inv (mux s')" "swept clk s3 s'"
        using 1(1) [of s3] p Cons by (cases "fresh s"; cases "fresh s3") auto
      then show ?thesis using p Cons t True s3 swept_trans by (subst sweep_killq_step) auto
    qed
  qed
qed

lemma wp_sweep:
  assumes "clock_ok os clk" "mux_inv (mux s)" "\<And>s'. mux_inv (mux s') \<Longrightarrow> swept clk s s' \<Longrightarrow> Q () s'"
  shows "wp (sweep os) Q E s"
  using sweep_returns [OF assms(1,2)] assms(3) by (auto simp: sweep_def wp_def)

end
