(* ===== verification/MuxPorts.thy ===== *)
theory MuxPorts
  imports MuxSweep
begin

text \<open>Host-side ports of the vsock muxer: the search returns a free port whenever there is one.\<close>

definition next_port :: "32 word \<Rightarrow> 32 word" where
  "next_port port = (port + 1) AND NOT (push_bit 31 1) OR push_bit 30 1"

lemma next_port_unat: "unat (next_port p) = 2 ^ 30 + (unat p + 1) mod 2 ^ 30"
proof -
  have eq: "next_port p = take_bit 30 (p + 1) OR push_bit 30 1"
    proof (rule bit_word_eqI)
    fix n :: nat
    assume "n < LENGTH(32)"
    then have "n < 30 \<or> n = 30 \<or> n = 31" by auto
    then show "bit (next_port p) n = bit (take_bit 30 (p + 1) OR push_bit 30 1) n"
      unfolding next_port_def bit_or_iff bit_and_iff bit_not_iff bit_push_bit_iff bit_1_iff bit_take_bit_iff by auto
  qed
  have "take_bit 30 (p + 1) AND push_bit 30 1 = 0"
    by (rule bit_eqI) (unfold bit_and_iff bit_push_bit_iff bit_1_iff bit_take_bit_iff, auto)
  then have "take_bit 30 (p + 1) OR push_bit 30 1 = take_bit 30 (p + 1) + push_bit 30 1"
    by (rule disjunctive_add_eq_or [symmetric])
  then have np: "next_port p = take_bit 30 (p + 1) + 2 ^ 30" unfolding eq by (simp add: push_bit_eq_mult)
  have "unat (p + 1) mod 2 ^ 30 = (unat p + 1) mod 2 ^ 30"
    using unat_add_nat [of p 1] by (simp add: mod_mod_cancel)
  then have t: "unat (take_bit 30 (p + 1)) = (unat p + 1) mod 2 ^ 30"
    using unsigned_take_bit_eq [of 30 "p + 1", where 'a = nat] take_bit_eq_mod [of 30 "unat (p + 1)"] by simp
  have "unat (take_bit 30 (p + 1)) + 2 ^ 30 < 2 ^ 32" unfolding t by (simp add: order_less_le_trans [OF add_strict_right_mono [OF mod_less_divisor]])
  then show ?thesis unfolding np using t unat_add_nat [of "take_bit 30 (p + 1)" "2 ^ 30"] by simp
qed

definition local_range :: "32 word set" where
  "local_range = {p. 2 ^ 30 \<le> unat p \<and> unat p < 2 ^ 31}"

lemma next_port_range: "next_port p \<in> local_range"
proof -
  have "(unat p + 1) mod 2 ^ 30 < 2 ^ 30" by (rule mod_less_divisor) simp
  then show ?thesis unfolding local_range_def mem_Collect_eq next_port_unat by simp
qed

lemma allocate_step: "allocate_local_port_from used p = (if next_port p \<notin> used then Some (next_port p) else allocate_local_port_from used (next_port p))"
  by (subst allocate_local_port_from.simps) (simp add: next_port_def Let_def)

lemma mod_upper_half: "N \<le> u \<Longrightarrow> u < 2 * N \<Longrightarrow> N + u mod N = u" for N u :: nat
  by (simp add: le_mod_geq)

lemma mod_target:
  fixes N a f :: nat
  assumes "0 < N"
  shows "(a + (f + N - a mod N)) mod N = f mod N"
proof -
  obtain q r where a: "a = N * q + r" "r < N" using assms by (metis mod_less_divisor mult_div_mod_eq)
  then have "a + (f + N - a mod N) = f + N * (q + 1)" by simp
  then show ?thesis by (simp only: mod_mult_self2)
qed

lemma mod_next: "(N + a mod N + 1 + d) mod N = (a + 1 + d) mod N" for N a d :: nat
  using mod_add_self1 [of N "a mod N + (1 + d)"] mod_add_left_eq [of a N "1 + d"] by (simp only: add.assoc)

lemma unat_small: "x < 2 ^ 32 \<Longrightarrow> unat (of_nat x :: 32 word) = x"
  by (simp add: unat_of_nat)

lemma allocate_finds:
  assumes "f \<in> local_range" "f \<notin> used" "(unat p + 1 + d) mod 2 ^ 30 = unat f mod 2 ^ 30"
  shows "\<exists>q. allocate_local_port_from used p = Some q \<and> q \<in> local_range \<and> q \<notin> used"
  using assms(3)
proof (induction d arbitrary: p)
  case 0
  have "2 ^ 30 + unat f mod 2 ^ 30 = unat f" using assms(1) by (intro mod_upper_half) (simp_all add: local_range_def)
  then have "unat (next_port p) = unat f" using 0 unfolding next_port_unat by simp
  then have "next_port p = f" by (simp only: word_unat_eq_iff)
  then show ?case using assms(1,2) by (simp add: allocate_step)
next
  case (Suc d)
  have "(unat (next_port p) + 1 + d) mod 2 ^ 30 = (unat p + 1 + Suc d) mod 2 ^ 30"
    unfolding next_port_unat mod_next by simp
  then have "(unat (next_port p) + 1 + d) mod 2 ^ 30 = unat f mod 2 ^ 30" using Suc.prems by simp
  then show ?case using Suc.IH [of "next_port p"] next_port_range [of p] by (simp add: allocate_step [of used p])
qed

lemma range_card: "card local_range = 2 ^ 30"
proof -
  have "local_range = of_nat ` {2 ^ 30 ..< 2 ^ 31}"
  proof (intro equalityI subsetI)
    fix p assume "p \<in> local_range"
    then show "p \<in> of_nat ` {2 ^ 30 ..< 2 ^ 31}" by (intro image_eqI [of _ _ "unat p"]) (simp_all add: local_range_def)
  next
    fix p :: "32 word" assume "p \<in> of_nat ` {2 ^ 30 ..< 2 ^ 31}"
    then obtain n where "p = of_nat n" "2 ^ 30 \<le> n" "n < 2 ^ 31" by auto
    moreover from this have "unat p = n" by (simp add: unat_of_nat)
    ultimately show "p \<in> local_range" by (simp add: local_range_def)
  qed
  moreover have "inj_on (of_nat :: nat \<Rightarrow> 32 word) {2 ^ 30 ..< 2 ^ 31}"
  proof (rule inj_onI)
    fix x y :: nat
    assume "x \<in> {2 ^ 30 ..< 2 ^ 31}" "y \<in> {2 ^ 30 ..< 2 ^ 31}" and eq: "(of_nat x :: 32 word) = of_nat y"
    then have "x < 2 ^ 32" "y < 2 ^ 32" by simp_all
    then show "x = y" using eq unat_small by metis
  qed
  ultimately have "card local_range = card {2 ^ 30 ..< 2 ^ 31 :: nat}" by (metis card_image)
  then show ?thesis by simp
qed

lemma allocate_returns:
  assumes "card used < 2 ^ 30"
  shows "\<exists>q. allocate_local_port_from used p = Some q \<and> q \<in> local_range \<and> q \<notin> used"
proof -
  have "\<not> local_range \<subseteq> used" using assms range_card card_mono [of used local_range] by auto
  then obtain f where f: "f \<in> local_range" "f \<notin> used" by blast
  have "(unat p + 1 + (unat f + 2 ^ 30 - (unat p + 1) mod 2 ^ 30)) mod 2 ^ 30 = unat f mod 2 ^ 30"
    by (rule mod_target) simp
  then show ?thesis by (rule allocate_finds [OF f])
qed

lemma wp_allocate_local_port:
  assumes "card (local_port_set (mux s)) < 2 ^ 30"
    and "\<And>p. p \<in> local_range \<Longrightarrow> p \<notin> local_port_set (mux s) \<Longrightarrow>
      Q p (st ((mux s)\<lparr>local_port_set := insert p (local_port_set (mux s)), local_port_last := p\<rparr>) (mworld s))"
  shows "wp allocate_local_port Q E s"
  using allocate_returns [OF assms(1), of "local_port_last (mux s)"] assms(2)
  by (auto simp: allocate_local_port_def wp_def st_updates)

end
