(* ===== verification/MuxTotal.thy ===== *)
theory MuxTotal
  imports MuxPorts
begin

text \<open>
  Every operation of the vsock muxer returns, keeps the invariant and leaves the connections it is
  not about alone, except that a connection whose kill timer was armed may be killed.
\<close>

definition conn_of :: "'w mux_state \<Rightarrow> ConnMapKey \<Rightarrow> MuxConn option" where
  "conn_of s = map_of (conn_map (mux s))"

definition timed_out :: "MuxConn option \<Rightarrow> MuxConn option \<Rightarrow> bool" where
  "timed_out c c' \<longleftrightarrow> (\<exists>c0. c = Some c0 \<and> expiry (mconn c0) \<noteq> None \<and> c' = Some (c0\<lparr>mconn := kill (mconn c0)\<rparr>))"

text \<open>A step about the connections \<open>K\<close> that takes up to \<open>j\<close> more ports.\<close>

definition step_ok :: "ConnMapKey set \<Rightarrow> nat \<Rightarrow> 'w mux_state \<Rightarrow> 'w mux_state \<Rightarrow> bool" where
  "step_ok K j s s' \<longleftrightarrow> mux_inv (mux s') \<and> cid (mux s') = cid (mux s) \<and>
     card (local_port_set (mux s')) \<le> card (local_port_set (mux s)) + j \<and>
     (\<forall>k. k \<notin> K \<longrightarrow> conn_of s' k = conn_of s k \<or> timed_out (conn_of s k) (conn_of s' k))"

lemma step_okD: "step_ok K j s s' \<Longrightarrow> mux_inv (mux s')"
  by (simp add: step_ok_def)

lemma timed_out_trans: "timed_out a b \<Longrightarrow> timed_out b c \<Longrightarrow> timed_out a c"
  by (auto simp: timed_out_def)

lemma step_ok_trans:
  assumes "step_ok K j s s1" "step_ok K' j' s1 s2" "K \<union> K' \<subseteq> L" "j + j' \<le> n"
  shows "step_ok L n s s2"
proof -
  have "conn_of s2 k = conn_of s k \<or> timed_out (conn_of s k) (conn_of s2 k)" if "k \<notin> L" for k
  proof -
    have "conn_of s1 k = conn_of s k \<or> timed_out (conn_of s k) (conn_of s1 k)"
      "conn_of s2 k = conn_of s1 k \<or> timed_out (conn_of s1 k) (conn_of s2 k)"
      using assms(1,2,3) that unfolding step_ok_def by blast+
    then show ?thesis using timed_out_trans by (metis (no_types))
  qed
  then show ?thesis using assms unfolding step_ok_def by auto
qed

lemma step_ok_mono: "step_ok K j s s' \<Longrightarrow> K \<subseteq> L \<Longrightarrow> j \<le> n \<Longrightarrow> step_ok L n s s'"
  unfolding step_ok_def by (meson add_le_cancel_left order_trans subsetD)

lemma step_ok_same:
  "mux_inv m' \<Longrightarrow> cid m' = cid (mux s) \<Longrightarrow> local_port_set m' \<subseteq> local_port_set (mux s) \<Longrightarrow>
    (\<And>k. k \<in> K \<or> map_of (conn_map m') k = map_of (conn_map (mux s)) k) \<Longrightarrow> step_ok K j s (st m' h)"
  unfolding step_ok_def conn_of_def by (auto intro!: trans_le_add1 card_mono)

lemma step_ok_env: "mux_inv (mux s) \<Longrightarrow> step_ok K j s (env s lm h)"
  by (rule step_ok_same) simp_all

lemma step_ok_swept: "swept clk s s' \<Longrightarrow> mux_inv (mux s') \<Longrightarrow> step_ok K j s s'"
  by (fastforce simp: step_ok_def swept_def same_rest_def conn_of_def timed_out_def)

abbreviation wp_step :: "('w mux_state, 'e, 'a) eff \<Rightarrow> ConnMapKey set \<Rightarrow> nat \<Rightarrow> 'w mux_state \<Rightarrow> bool" where
  "wp_step m K j s \<equiv> wp m (\<lambda>_. step_ok K j s) (\<lambda>_. step_ok K j s) s"

lemma wp_step_mono: "wp_step m K j s \<Longrightarrow> K \<subseteq> L \<Longrightarrow> j \<le> n \<Longrightarrow> wp_step m L n s"
  by (erule wp_mono) (simp_all add: step_ok_mono)

lemma wp_step_after:
  assumes "step_ok K j s s1" "wp_step m K' j' s1" "K \<union> K' \<subseteq> L" "j + j' \<le> n"
  shows "wp m (\<lambda>_. step_ok L n s) (\<lambda>_. step_ok L n s) s1"
  using step_ok_trans [OF assms(1) _ assms(3,4)] by (intro wp_mono [OF assms(2)]) blast+

lemma wp_step_bind:
  assumes "wp_step m K j s" "\<And>x s1. step_ok K j s s1 \<Longrightarrow> wp_step (f x) K' j' s1" "K \<union> K' \<subseteq> L" "j + j' \<le> n"
  shows "wp_step (eff_bind m f) L n s"
  unfolding wp_bind
proof (rule wp_mono [OF assms(1)])
  show "wp (f x) (\<lambda>_. step_ok L n s) (\<lambda>_. step_ok L n s) s1" if "step_ok K j s s1" for x s1
    using wp_step_after [OF that assms(2) [OF that] assms(3,4)] .
  show "step_ok L n s s1" if "step_ok K j s s1" for s1
    using step_ok_mono [OF that] assms(3,4) by simp
qed

lemma wp_step_catch:
  assumes "wp_step m K j s" "\<And>e s1. step_ok K j s s1 \<Longrightarrow> wp_step (h e) K' j' s1" "K \<union> K' \<subseteq> L" "j + j' \<le> n"
  shows "wp_step (m_catch m h) L n s"
  unfolding wp_m_catch
proof (rule wp_mono [OF assms(1)])
  show "wp (h e) (\<lambda>_. step_ok L n s) (\<lambda>_. step_ok L n s) s1" if "step_ok K j s s1" for e s1
    using wp_step_after [OF that assms(2) [OF that] assms(3,4)] .
  show "step_ok L n s s1" if "step_ok K j s s1" for s1
    using step_ok_mono [OF that] assms(3,4) by simp
qed

section \<open>Connections\<close>

lemma enq_rst_step: "mux_inv (mux s) \<Longrightarrow> wp_step (enq_rst l p) K j s"
  by (auto simp: enq_rst_def wp_simps mux_inv_push intro!: step_ok_same)

lemma add_listener_step: "os_ok os \<Longrightarrow> mux_inv (mux s) \<Longrightarrow> wp_step (add_listener os fd l) K j s"
  by (rule wp_add_listener) (simp_all add: step_ok_env)

lemma remove_listener_step: "os_ok os \<Longrightarrow> mux_inv (mux s) \<Longrightarrow> wp_step (remove_listener os fd) K j s"
  by (rule wp_remove_listener) (simp_all add: step_ok_env)

lemma drop_stream_step: "mux_inv (mux s) \<Longrightarrow> wp_step (drop_stream os fd) K j s"
  by (rule wp_drop_stream) (auto intro: step_ok_same)

lemma kill_connection_step: "mux_inv (mux s) \<Longrightarrow> wp_step (kill_connection key) {key} j s"
  using killed_mux_rest(1) [of "mux s" key]
  by (auto simp: wp_simps mux_inv_killed killed_mux_conns same_rest_def intro!: step_ok_same split: option.splits if_splits)

lemma remove_connection_step:
  assumes "os_ok os" "mux_inv (mux s)"
  shows "wp_step (remove_connection os key) {key} j s"
proof -
  have fin: "step_ok {key} j s (st (m'\<lparr>local_port_set := local_port_set m' - {p}\<rparr>) h)"
    if "m' = (mux s)\<lparr>conn_map := AList.delete key (conn_map (mux s)), listener_map := lm\<rparr> \<or> m' = mux s" for m' p h lm
  proof (rule step_ok_same)
    have "mux_inv (((mux s)\<lparr>conn_map := AList.delete key (conn_map (mux s))\<rparr>)\<lparr>listener_map := lm\<rparr>)"
      using mux_inv_delete [OF assms(2)] by (simp only: mux_inv_other)
    then show "mux_inv (m'\<lparr>local_port_set := local_port_set m' - {p}\<rparr>)" using that assms(2) by auto
  qed (use that in \<open>auto simp: delete_conv' split: if_splits\<close>)
  show ?thesis
    using assms(1) fin [OF disjI1 [OF refl]] fin [OF disjI2 [OF refl]]
    by (auto simp: remove_connection_def free_local_port_def wp_simps split: option.splits
        intro!: wp_remove_listener wp_drop_stream)
qed

lemma insert_conn_step:
  assumes "mux_inv (mux s)" "length (conn_map (mux s)) < MAX_CONNECTIONS" "conn_good key c"
    and "has_pending_rx (mconn c) \<Longrightarrow> rxq_synced (rxq (mux s)) \<Longrightarrow> ConnRx key \<in> set (rxq_items (rxq (mux s)))"
  shows "wp_step (insert_conn os key c) {key} j s"
proof -
  have "step_ok {key} j s (st (put_conn key c (mux s)) h)" for h
    using assms mux_inv_put by (intro step_ok_same) auto
  then show ?thesis by (auto simp: insert_conn_def wp_simps intro!: wp_drop_stream split: option.splits)
qed

lemma add_connection_step:
  assumes os: "os_ok os" "clock_ok os clk" and inv: "mux_inv (mux s)" and good: "conn_good key c"
  shows "wp_step (add_connection os key c) {key} j s"
proof -
  let ?l = "LConnection key (get_polled_evset (mconn c)) (mtype c)"
  let ?add = "m_catch (add_listener os (mfd c) ?l) (\<lambda>err. eff_bind (drop_stream os (mfd c)) (\<lambda>_. eff_fail err))"
  let ?push = "if has_pending_rx (mconn c) then eff_bind (push_rx (ConnRx key)) (\<lambda>_. eff_ret ()) else eff_ret ()"
  have add: "wp ?add (\<lambda>_ s2. \<exists>lm h. s2 = env s1 lm h) (\<lambda>_. step_ok {key} j s1) s1" if "mux_inv (mux s1)" for s1
    unfolding wp_m_catch wp_bind using that by (intro wp_add_listener [OF os(1)]) (auto simp: wp_ret intro!: wp_drop_stream step_ok_env)
  have put: "wp_step (eff_bind ?push (\<lambda>_. insert_conn os key c)) {key} j s2"
    if i: "mux_inv (mux s2)" "length (conn_map (mux s2)) < MAX_CONNECTIONS" for s2
  proof (cases "has_pending_rx (mconn c)")
    case False
    then show ?thesis using insert_conn_step [OF i good] by (simp add: wp_simps)
  next
    case True
    let ?s3 = "st ((mux s2)\<lparr>rxq := snd (rxq_push (ConnRx key) (rxq (mux s2)))\<rparr>) (mworld s2)"
    have a: "step_ok {key} j s2 ?s3" using mux_inv_push [OF i(1)] by (intro step_ok_same) simp_all
    have b: "wp_step (insert_conn os key c) {key} 0 ?s3"
      using i mux_inv_push rxq_push_conn by (intro insert_conn_step [OF _ _ good]) auto
    show ?thesis using True wp_step_after [OF a b, of "{key}" j] by (simp add: wp_simps)
  qed
  have rest: "wp_step (eff_bind (m_get (\<lambda>m. length (conn_map m))) (\<lambda>n.
     if n \<ge> MAX_CONNECTIONS then eff_bind (drop_stream os (mfd c)) (\<lambda>_. eff_fail TooManyConnections)
     else eff_bind ?add (\<lambda>_. eff_bind ?push (\<lambda>_. insert_conn os key c)))) {key} j s1" if i: "mux_inv (mux s1)" for s1
  proof (cases "length (conn_map (mux s1)) \<ge> MAX_CONNECTIONS")
    case True
    then show ?thesis using i by (auto simp: wp_simps intro!: wp_drop_stream step_ok_same)
  next
    case False
    have "wp (eff_bind ?push (\<lambda>_. insert_conn os key c)) (\<lambda>_. step_ok {key} j s1) (\<lambda>_. step_ok {key} j s1) (env s1 lm h)" for lm h
      using i False by (intro wp_step_after [OF step_ok_env [OF i, of "{key}" 0 lm h] put]) simp_all
    then have "wp_step (eff_bind ?add (\<lambda>_. eff_bind ?push (\<lambda>_. insert_conn os key c))) {key} j s1"
      unfolding wp_bind [of ?add] by (intro wp_mono [OF add [OF i]]) auto
    then show ?thesis using False by (simp add: wp_bind [of "m_get f" for f] wp_m_get)
  qed
  show ?thesis
    unfolding add_connection_def wp_bind [of "sweep os"]
  proof (rule wp_sweep [OF os(2) inv], goal_cases)
    case (1 s1)
    then show ?case by (intro wp_step_after [OF step_ok_swept [of clk s s1 "{key}" 0] rest]) simp_all
  qed
qed

lemma mutated_fields [simp]:
  "cid (mutated key c b m) = cid m" "local_port_set (mutated key c b m) = local_port_set m"
  "map_of (conn_map (mutated key c b m)) = (map_of (conn_map m))(key \<mapsto> c)"
  by (simp_all add: mutated_def Let_def)

lemma apply_step:
  assumes os: "os_ok os" and inv: "mux_inv (mux s)"
    and act: "\<And>c now h. conn_good key c \<Longrightarrow> \<exists>x c' h'. act (conn_stream os (mfd c)) now (mconn c) h = Some (x, c', h') \<and>
      tx_inv (tx_buf c') \<and> conn_frame c' = conn_frame (mconn c) \<and> no_response c'"
  shows "wp_step (apply_conn_mutation os key act) {key} j s"
proof (rule wp_apply_conn_mutation [OF os inv, where R = "\<lambda>c x c'. tx_inv (tx_buf c) \<longrightarrow> no_response c \<longrightarrow>
      tx_inv (tx_buf c') \<and> conn_frame c' = conn_frame c \<and> no_response c'"], goal_cases)
  case (1 c now h)
  then have "conn_good key c" using inv by (simp add: mux_inv_def)
  then show ?case using act by blast
next
  case 2
  show ?case by (simp add: keeps_good_def)
next
  case 3
  show ?case using inv by (simp add: step_ok_def)
next
  case (4 c x c1 c2 kq m' lm h)
  let ?m = "(mutated key (c\<lparr>mconn := c2\<rparr>) (has_pending_rx (mconn c)) (mux s))\<lparr>killq := kq\<rparr>"
  have "cid m' = cid (mux s) \<and> local_port_set m' = local_port_set (mux s) \<and>
      (\<forall>k. k \<noteq> key \<longrightarrow> map_of (conn_map m') k = map_of (conn_map (mux s)) k)"
    using 4(4)
  proof
    assume "m' = ?m"
    then show ?thesis by simp
  next
    assume m': "m' = killed_mux key ?m"
    show ?thesis using killed_mux_rest(1) [of ?m key] by (simp add: m' same_rest_def killed_mux_conns)
  qed
  then show ?case using 4(5) by (intro step_ok_same) auto
qed

lemma send_action_step: "os_ok os \<Longrightarrow> mux_inv (mux s) \<Longrightarrow> good_pkt pkt \<Longrightarrow> wp_step (apply_conn_mutation os key (send_action pkt)) {key} j s"
proof (rule apply_step, goal_cases)
  case (3 c now h)
  obtain c' h' where s: "send_pkt (conn_stream os (mfd c)) now (mconn c) pkt h = Some (c', h')"
      "tx_inv (tx_buf c')" "conn_frame c' = conn_frame (mconn c)"
    using send_pkt_total [OF stream_total_conn [OF 3(1)], of "mconn c" pkt "mfd c" now h] 3(3,4) by (auto simp: conn_good_def)
  then show ?case using send_pkt_no_response [OF s(1)] 3(4) by (simp add: send_action_def conn_good_def)
qed

lemma notify_action_step: "os_ok os \<Longrightarrow> mux_inv (mux s) \<Longrightarrow> wp_step (apply_conn_mutation os key (notify_action evset)) {key} j s"
proof (rule apply_step, goal_cases)
  case (3 c now h)
  note total = stream_total_conn [OF 3(1), of "mfd c"]
  obtain c' h' where s: "notify (conn_stream os (mfd c)) (mconn c) evset h = Some (c', h')"
      "tx_inv (tx_buf c')" "conn_frame c' = conn_frame (mconn c)"
    using notify_total [OF total, of "mconn c" evset h] 3(3) by (auto simp: conn_good_def)
  then show ?case using notify_no_response [OF s(1) _ total] 3(3) by (simp add: notify_action_def conn_good_def)
qed

section \<open>Packets from the guest\<close>

definition pkt_key :: "VsockPacket \<Rightarrow> ConnMapKey" where
  "pkt_key pkt = \<lparr>key_local_port = dst_port (phdr pkt), key_peer_port = src_port (phdr pkt)\<rparr>"

lemma new_conn_good:
  "conn_good k \<lparr>mconn = new_peer_init lcid pcid (key_local_port k) (key_peer_port k) alloc kp, mfd = fd, mtype = ty\<rparr>"
  "conn_good k \<lparr>mconn = new_local_init lcid pcid (key_local_port k) (key_peer_port k) kp, mfd = fd, mtype = ty\<rparr>"
proof -
  have d: "drop_bit 5 (prx_from it) = 0" for it by (cases it) (simp_all add: prx_from_def into_mask_def)
  show "conn_good k \<lparr>mconn = new_peer_init lcid pcid (key_local_port k) (key_peer_port k) alloc kp, mfd = fd, mtype = ty\<rparr>"
    using d by (simp add: conn_good_def new_peer_init_def conn_frame_def no_response_def tx_inv_default)
  have "\<not> prx_contains (prx_from Request) Response" by (simp add: contains_bit prx_from_def)
  then show "conn_good k \<lparr>mconn = new_local_init lcid pcid (key_local_port k) (key_peer_port k) kp, mfd = fd, mtype = ty\<rparr>"
    using d by (simp add: conn_good_def new_local_init_def conn_frame_def no_response_def pending_items_def tx_inv_default)
qed

lemma m_os_step: "returns m \<Longrightarrow> mux_inv (mux s) \<Longrightarrow> wp_step (m_os m) {} 0 s"
  by (rule wp_m_os) (auto intro: step_ok_same)

lemma handle_peer_request_step:
  assumes os: "os_ok os" "clock_ok os clk" and inv: "mux_inv (mux s)"
  shows "wp_step (handle_peer_request_pkt os pkt) {pkt_key pkt} j s"
proof -
  have con: "wp_step (eff_bind (eff_map_err BackendConnect (m_os (backend_connect os ty lport))) (\<lambda>(fd, bty).
       add_connection os (pkt_key pkt) \<lparr>mconn = new_peer_init VSOCK_HOST_CID g (key_local_port (pkt_key pkt)) (key_peer_port (pkt_key pkt)) alloc False,
         mfd = fd, mtype = bty\<rparr>)) {pkt_key pkt} 0 s" for ty lport g alloc
  proof (rule wp_step_bind [where K = "{}" and j = 0 and K' = "{pkt_key pkt}" and j' = 0])
    show "wp_step (eff_map_err BackendConnect (m_os (backend_connect os ty lport))) {} 0 s"
      unfolding wp_map_err by (rule m_os_step [OF os_okD(9) [OF os(1)] inv])
  qed (auto simp: wp_prod intro!: add_connection_step [OF os] new_conn_good dest: step_okD)
  have "wp_step (m_catch (eff_bind (eff_map_err BackendConnect (m_os (backend_connect os ty lport))) (\<lambda>(fd, bty).
       add_connection os (pkt_key pkt) \<lparr>mconn = new_peer_init VSOCK_HOST_CID g (key_local_port (pkt_key pkt)) (key_peer_port (pkt_key pkt)) alloc False,
         mfd = fd, mtype = bty\<rparr>)) (\<lambda>_. enq_rst l p)) {pkt_key pkt} j s" for ty lport g alloc l p
    by (rule wp_step_catch [OF con, where K' = "{}" and j' = 0]) (auto intro: enq_rst_step dest: step_okD)
  then show ?thesis
    using enq_rst_step [OF inv, of _ _ "{pkt_key pkt}" j]
    by (auto simp: handle_peer_request_pkt_def Let_def wp_bind [of "m_get f" for f] wp_m_get pkt_key_def split: option.splits)
qed

lemma revive_step:
  assumes "os_ok os" "mux_inv (mux s)" "conn_of s key \<noteq> None"
  shows "wp_step (revive os key) {key} j s"
proof -
  obtain c where c: "map_of (conn_map (mux s)) key = Some c" using assms(3) by (auto simp: conn_of_def)
  have good: "conn_good key c" using assms(2) c by (simp add: mux_inv_def)
  let ?c = "c\<lparr>mconn := (mconn c)\<lparr>cstate := Established\<rparr>\<rparr>"
  have "conn_good key ?c" using good by (simp add: conn_good_def no_response_def)
  moreover have "has_pending_rx (mconn ?c) = has_pending_rx (mconn c)" by (simp add: has_pending_rx_def)
  ultimately have "mux_inv (put_conn key ?c (mux s))"
    using assms(2) c by (intro mux_inv_put) (auto simp: mux_inv_def queued_def)
  then have p: "step_ok {key} 0 s (st (put_conn key ?c (mux s)) h)" for h by (intro step_ok_same) auto
  have step: "wp_step (m_catch (add_listener os (mfd c) l) (\<lambda>_. kill_connection key)) {key} 0 s1" if "mux_inv (mux s1)" for s1 l
    using assms(1) that
    by (intro wp_step_catch [where K = "{}" and j = 0 and K' = "{key}" and j' = 0] add_listener_step kill_connection_step)
      (auto dest: step_okD)
  have act: "wp (m_catch (add_listener os (mfd c) l) (\<lambda>_. kill_connection key)) (\<lambda>_. step_ok {key} j s) (\<lambda>_. step_ok {key} j s)
      (st (put_conn key ?c (mux s)) h)" for l h
    using step_okD [OF p] by (intro wp_step_after [OF p step]) simp_all
  have "step_ok {key} j s s" using step_ok_same [of "mux s" s "{key}" j "mworld s"] assms(2) by simp
  then show ?thesis
    using c act by (auto simp: revive_def wp_bind wp_m_get wp_if wp_let wp_m_modify wp_ret Let_def)
qed

lemma step_ok_refl: "mux_inv (mux s) \<Longrightarrow> step_ok K j s s"
  by (simp add: step_ok_def)

lemma send_pkt_step:
  assumes os: "os_ok os" "clock_ok os clk" and inv: "mux_inv (mux s)" and pkt: "good_pkt pkt"
  shows "wp_step (mux_send_pkt os pkt) {pkt_key pkt} j s"
proof -
  have fwd: "wp_step (eff_bind (revive os (pkt_key pkt)) (\<lambda>_. eff_bind (apply_conn_mutation os (pkt_key pkt) (send_action pkt)) (\<lambda>_. eff_ret ())))
      {pkt_key pkt} j s" if "map_of (conn_map (mux s)) (pkt_key pkt) \<noteq> None"
  proof (rule wp_step_bind [where K = "{pkt_key pkt}" and j = 0 and K' = "{pkt_key pkt}" and j' = 0])
    show "wp_step (revive os (pkt_key pkt)) {pkt_key pkt} 0 s" using that by (intro revive_step os inv) (simp add: conn_of_def)
    show "wp_step (eff_bind (apply_conn_mutation os (pkt_key pkt) (send_action pkt)) (\<lambda>_. eff_ret ())) {pkt_key pkt} 0 s1"
      if "step_ok {pkt_key pkt} 0 s s1" for s1
      using send_action_step [OF os(1) step_okD [OF that] pkt] by (simp add: wp_bind wp_ret)
  qed simp_all
  show ?thesis
    unfolding mux_send_pkt_def Let_def pkt_key_def [symmetric] wp_if wp_bind [of "m_get f" for f] wp_m_get wp_ret
    using fwd step_ok_refl [OF inv]
    by (auto intro: enq_rst_step [OF inv] remove_connection_step [OF os(1) inv] handle_peer_request_step [OF os inv])
qed

section \<open>Events\<close>

lemma returns_read_line: "(\<And>n. returns (rd n)) \<Longrightarrow> returns (read_line rd buf n)"
proof (induction rd buf n rule: read_line.induct)
  case (1 rd buf n)
  then show ?case by (subst read_line.simps) (auto intro!: returns_bind)
qed

lemma returns_read_request: "(\<And>n. returns (rd n)) \<Longrightarrow> (\<And>n. returns (rx n)) \<Longrightarrow> returns (read_request rd rx)"
  unfolding read_request_def by (intro returns_bind returns_read_line)

lemma read_local_step:
  assumes "os_ok os" "mux_inv (mux s)"
  shows "wp_step (or_drop os fd (read_local_stream_port os fd)) {} 0 s"
proof -
  have "returns (stream_read (os_stream os fd) n)" for n
    using os_okD(4) [OF assms(1), of fd] unfolding stream_total_def returns_def by fastforce
  then have "returns (read_request (stream_read (os_stream os fd)) (read_exact os fd))"
    using os_okD(6) [OF assms(1)] by (rule returns_read_request)
  then have "wp_step (read_local_stream_port os fd) {} 0 s"
    unfolding read_local_stream_port_def wp_bind wp_map_err wp_opt
    using assms(2) by (intro wp_m_os) (auto intro: step_ok_same split: option.splits)
  then show ?thesis
    unfolding or_drop_def
    by (rule wp_step_catch [where K' = "{}" and j' = 0])
      (auto simp: wp_bind wp_ret intro!: wp_drop_stream step_ok_same dest: step_okD)
qed

lemma passfd_step:
  assumes "os_ok os" "mux_inv (mux s)"
  shows "wp_step (or_drop os fd (passfd_read_port_and_fd os fd)) {} 0 s"
proof -
  have "wp_step (passfd_read_port_and_fd os fd) {} 0 s"
    unfolding passfd_read_port_and_fd_def wp_bind wp_map_err wp_prod wp_opt
    using assms(2) by (intro wp_m_os os_okD(5) [OF assms(1)]) (auto intro: step_ok_same split: option.splits)
  then show ?thesis
    unfolding or_drop_def
    by (rule wp_step_catch [where K' = "{}" and j' = 0])
      (auto simp: wp_bind wp_ret intro!: wp_drop_stream step_ok_same dest: step_okD)
qed

abbreviation ports_left :: "'w mux_state \<Rightarrow> nat \<Rightarrow> bool" where
  "ports_left s n \<equiv> card (local_port_set (mux s)) + n \<le> 2 ^ 30"

lemma allocate_step_ok:
  assumes "mux_inv (mux s)" "ports_left s 1"
  shows "wp_step allocate_local_port UNIV 1 s"
proof (rule wp_allocate_local_port, goal_cases)
  case (2 p)
  let ?m = "(mux s)\<lparr>local_port_set := insert p (local_port_set (mux s)), local_port_last := p\<rparr>"
  have "card (insert p (local_port_set (mux s))) \<le> card (local_port_set (mux s)) + 1" by (simp add: card_insert_if)
  moreover have "mux_inv ?m" using assms(1) mux_inv_other(2,3) by (metis mux_inv_other(2) mux_inv_other(3))
  ultimately show ?case by (simp add: step_ok_def)
qed (use assms(2) in simp)

lemma get_step: "mux_inv (mux s) \<Longrightarrow> wp_step (m_get f) K j s"
  by (simp add: wp_m_get step_ok_refl)

lemma handle_local_stream_step:
  assumes os: "os_ok os" "clock_ok os clk" and inv: "mux_inv (mux s)" and ports: "ports_left s 1"
  shows "wp_step (handle_local_stream os strm) UNIV 1 s"
  unfolding handle_local_stream_def
proof (rule wp_step_bind [OF read_local_step [OF os(1) inv], where K' = UNIV and j' = 1])
  fix r s1
  assume s1: "step_ok {} 0 s s1"
  have i1: "mux_inv (mux s1)" "ports_left s1 1" using s1 ports by (auto simp: step_ok_def)
  have con: "wp_step (eff_bind allocate_local_port (\<lambda>lport. eff_bind (m_get cid) (\<lambda>guest. add_connection os (local_key lport pport)
       \<lparr>mconn = new_local_init VSOCK_HOST_CID guest lport pport False, mfd = fst strm, mtype = snd strm\<rparr>))) UNIV 1 s1" for pport
  proof (rule wp_step_bind [OF allocate_step_ok [OF i1], where K' = UNIV and j' = 0])
    fix lport s2
    assume "step_ok UNIV 1 s1 s2"
    then have i2: "mux_inv (mux s2)" by (rule step_okD)
    have good: "conn_good (local_key lport pport) \<lparr>mconn = new_local_init VSOCK_HOST_CID g lport pport False, mfd = fst strm, mtype = snd strm\<rparr>" for g
      using new_conn_good(2) [of "local_key lport pport"] by (simp add: local_key_def)
    show "wp_step (eff_bind (m_get cid) (\<lambda>guest. add_connection os (local_key lport pport)
       \<lparr>mconn = new_local_init VSOCK_HOST_CID guest lport pport False, mfd = fst strm, mtype = snd strm\<rparr>)) UNIV 0 s2"
      unfolding wp_bind wp_m_get
      by (rule wp_step_mono [OF add_connection_step [OF os i2 good]]) simp_all
  qed simp_all
  show "wp_step (case r of
       Connect pport \<Rightarrow> eff_bind allocate_local_port (\<lambda>lport. eff_bind (m_get cid) (\<lambda>guest. add_connection os (local_key lport pport)
         \<lparr>mconn = new_local_init VSOCK_HOST_CID guest lport pport False, mfd = fst strm, mtype = snd strm\<rparr>))
     | PassFd \<Rightarrow> add_listener os (fst strm) (LPassFdStream strm)) UNIV 1 s1"
    using con add_listener_step [OF os(1) i1(1)] by (cases r) simp_all
qed simp_all

lemma handle_passfd_stream_step:
  fixes os :: "'w mux_os"
  assumes os: "os_ok os" "clock_ok os clk" and inv: "mux_inv (mux s)" and ports: "ports_left s 1"
  shows "wp_step (handle_passfd_stream os strm) UNIV 1 s"
  unfolding handle_passfd_stream_def
proof (rule wp_step_bind [OF passfd_step [OF os(1) inv], where K' = UNIV and j' = 1])
  fix r :: "int \<times> 32 word \<times> bool" and s1 :: "'w mux_state"
  assume s1: "step_ok {} 0 s s1"
  obtain nfd pport kp where r: "r = (nfd, pport, kp)" by (cases r)
  have i1: "mux_inv (mux s1)" "ports_left s1 1" using s1 ports by (auto simp: step_ok_def)
  have nb: "wp_step (or_drop os nfd (eff_map_err BackendSetNonBlock (m_os (set_nonblocking os nfd True)))) {} 0 s3" if "mux_inv (mux s3)" for s3
  proof -
    have "returns (set_nonblocking os nfd True)"
      using os_okD(7) [OF os(1)] by (auto simp: returns_def set_nonblocking_def split: prod.splits)
    then show ?thesis
      unfolding or_drop_def using that
      by (intro wp_step_catch [where K = "{}" and j = 0 and K' = "{}" and j' = 0])
        (auto simp: wp_map_err wp_bind wp_ret intro!: m_os_step wp_drop_stream step_ok_same dest: step_okD)
  qed
  have host: "wp_step (m_host (eff_modify f)) {} 0 s2" if "mux_inv (mux s2)" for f and s2 :: "'w mux_state"
    using that by (auto simp: wp_m_host wp_modify intro: step_ok_same)
  have fin: "wp_step (eff_bind (m_get cid) (\<lambda>guest. add_connection os (local_key lport pport)
       \<lparr>mconn = new_local_init VSOCK_HOST_CID guest lport pport kp, mfd = nfd, mtype = HybridStream\<rparr>)) UNIV 0 s4"
    if i4: "mux_inv (mux s4)" for lport s4
  proof -
    have good: "conn_good (local_key lport pport) \<lparr>mconn = new_local_init VSOCK_HOST_CID g lport pport kp, mfd = nfd, mtype = HybridStream\<rparr>" for g
      using new_conn_good(2) [of "local_key lport pport"] by (simp add: local_key_def)
    show ?thesis
      unfolding wp_bind wp_m_get
      by (rule wp_step_mono [OF add_connection_step [OF os i4 good]]) simp_all
  qed
  show "wp_step (case r of (nfd, pport, kp) \<Rightarrow>
     eff_bind allocate_local_port (\<lambda>lport.
     eff_bind (m_host (eff_modify (\<lambda>h. h\<lparr>slaves := (slaves h)(nfd \<mapsto> fst strm)\<rparr>))) (\<lambda>_.
     eff_bind (or_drop os nfd (eff_map_err BackendSetNonBlock (m_os (set_nonblocking os nfd True)))) (\<lambda>_.
     eff_bind (m_get cid) (\<lambda>guest.
     add_connection os (local_key lport pport)
       \<lparr>mconn = new_local_init VSOCK_HOST_CID guest lport pport kp, mfd = nfd, mtype = HybridStream\<rparr>))))) UNIV 1 s1"
    unfolding r prod.case
    by (rule wp_step_bind [OF allocate_step_ok [OF i1], where K' = UNIV and j' = 0],
        rule wp_step_bind [OF host, where K' = UNIV and j' = 0], erule step_okD,
        rule wp_step_bind [OF nb, where K' = UNIV and j' = 0], erule step_okD,
        rule fin, erule step_okD) simp_all
qed simp_all

lemma handle_backend_step:
  fixes os :: "'w mux_os"
  assumes "os_ok os" "mux_inv (mux s)"
  shows "wp_step (handle_backend os ty) UNIV 0 s"
proof -
  have a: "wp_step (eff_map_err g (m_os (backend_accept os ty))) {} 0 s" for g :: "io_kind \<Rightarrow> 'z"
    unfolding wp_map_err by (rule m_os_step [OF os_okD(8) [OF assms(1)] assms(2)])
  have l: "wp_step (eff_bind (eff_map_err BackendAccept (m_os (backend_accept os ty))) (\<lambda>strm. add_listener os (fst strm) (LLocalStream strm))) UNIV 0 s"
    by (rule wp_step_bind [OF a, where K' = UNIV and j' = 0]) (auto intro: add_listener_step [OF assms(1)] dest: step_okD)
  have "wp_step (eff_bind (m_os (backend_accept os ty)) (\<lambda>(fd, _). drop_stream os fd)) UNIV 0 s"
    by (rule wp_step_bind [OF m_os_step [OF os_okD(8) [OF assms(1)] assms(2)], where K' = UNIV and j' = 0])
      (auto simp: wp_prod intro: drop_stream_step dest: step_okD)
  then have "wp_step (m_catch (eff_bind (m_os (backend_accept os ty)) (\<lambda>(fd, _). drop_stream os fd)) (\<lambda>_. eff_ret ()) :: ('w mux_state, mux_error, unit) eff) UNIV 0 s"
    by (rule wp_step_catch [where K' = UNIV and j' = 0]) (auto simp: wp_ret intro: step_ok_refl dest: step_okD)
  then show ?thesis using l by (simp add: handle_backend_def wp_bind [of "m_get f" for f] wp_m_get wp_if)
qed

lemma close_kept_step:
  assumes "os_ok os" "mux_inv (mux s)"
  shows "wp_step (close_kept os fd key evset) UNIV 0 s"
proof (cases "map_of (conn_map (mux s)) key")
  case None
  then show ?thesis using assms(2) by (simp add: close_kept_def wp_simps step_ok_refl)
next
  case (Some c)
  let ?c = "c\<lparr>mconn := (mconn c)\<lparr>cstate := LocalClosed\<rparr>\<rparr>"
  have "conn_good key c" using assms(2) Some by (simp add: mux_inv_def)
  then have "conn_good key ?c" by (simp add: conn_good_def no_response_def)
  moreover have "has_pending_rx (mconn ?c) = has_pending_rx (mconn c)" by (simp add: has_pending_rx_def)
  ultimately have "mux_inv (put_conn key ?c (mux s))"
    using assms(2) Some by (intro mux_inv_put) (auto simp: mux_inv_def queued_def)
  then have "step_ok UNIV 0 s (st ((put_conn key ?c (mux s))\<lparr>listener_map := lm\<rparr>) h)" for lm h
    by (intro step_ok_same) auto
  then show ?thesis
    using Some assms step_ok_refl [OF assms(2)]
    by (auto simp: close_kept_def wp_simps intro!: wp_remove_listener)
qed

lemma handle_event_step:
  assumes os: "os_ok os" "clock_ok os clk" and inv: "mux_inv (mux s)" and ports: "ports_left s 1"
  shows "wp_step (handle_event os fd evset) UNIV 1 s"
proof -
  have ret: "wp_step (m_catch m (\<lambda>_. eff_ret ())) UNIV 1 s0" if "wp_step m UNIV 1 s0"
    for m :: "('a mux_state, 'z, unit) eff" and s0
    by (rule wp_step_catch [OF that, where K' = UNIV and j' = 0]) (auto simp: wp_ret intro: step_ok_refl dest: step_okD)
  have rm: "wp_step (eff_bind (remove_listener os fd) (\<lambda>_. m)) UNIV 1 s"
    if "\<And>s1. mux_inv (mux s1) \<Longrightarrow> ports_left s1 1 \<Longrightarrow> wp_step m UNIV 1 s1" for m :: "('a mux_state, 'y, unit) eff"
    using that ports
    by (intro wp_step_bind [OF remove_listener_step [OF os(1) inv], where K = UNIV and j = 0 and K' = UNIV and j' = 1])
      (auto simp: step_ok_def)
  have conn: "wp_step (eff_bind (close_kept os fd key evset) (\<lambda>_. eff_bind (apply_conn_mutation os key (notify_action evset)) (\<lambda>_. eff_ret ()))) UNIV 1 s" for key
    by (rule wp_step_bind [OF close_kept_step [OF os(1) inv], where K' = UNIV and j' = 0])
      (auto simp: wp_bind wp_ret dest!: step_okD intro: wp_step_mono [OF notify_action_step [OF os(1)]])
  have lsn: "wp_step (eff_bind (remove_listener os fd) (\<lambda>_. m_catch (handle_local_stream os strm) (\<lambda>_. eff_ret ()))) UNIV 1 s" for strm
    by (intro rm ret handle_local_stream_step [OF os])
  have pfd: "wp_step (eff_bind (remove_listener os fd) (\<lambda>_. m_catch (handle_passfd_stream os strm) (\<lambda>_. eff_ret ()))) UNIV 1 s" for strm
    by (intro rm ret handle_passfd_stream_step [OF os])
  have be: "wp_step (m_catch (handle_backend os ty) (\<lambda>_. eff_ret ()) :: ('a mux_state, VsockError, unit) eff) UNIV 1 s" for ty
    by (intro ret wp_step_mono [OF handle_backend_step [OF os(1) inv]]) simp_all
  show ?thesis
    unfolding handle_event_def wp_bind [of "m_get f" for f] wp_m_get
    using conn lsn pfd be step_ok_refl [OF inv]
    by (cases "listener_map (mux s) fd"; cases "the (listener_map (mux s) fd)") (simp_all add: wp_ret wp_if)
qed

lemma handle_events_step:
  "os_ok os \<Longrightarrow> clock_ok os clk \<Longrightarrow> mux_inv (mux s) \<Longrightarrow> ports_left s (length evs) \<Longrightarrow> \<forall>(fd, ev) \<in> set evs. ev \<noteq> None \<Longrightarrow>
    wp_step (handle_events os evs) UNIV (length evs) s"
proof (induction os evs arbitrary: s rule: handle_events.induct)
  case (1 os)
  then show ?case unfolding handle_events.simps wp_ret by (intro step_ok_refl)
next
  case (2 os fd evset evs)
  show ?case
    unfolding handle_events.simps
  proof (rule wp_step_bind [where K = UNIV and j = 1 and K' = UNIV and j' = "length evs"])
    show "wp_step (handle_event os fd evset) UNIV 1 s" using 2 by (intro handle_event_step [of os clk]) simp_all
    show "wp_step (handle_events os evs) UNIV (length evs) s1" if "step_ok UNIV 1 s s1" for s1
      using that 2(2-) by (intro 2(1)) (auto simp: step_ok_def)
  qed simp_all
qed simp

lemma notify_step:
  assumes os: "os_ok os" "clock_ok os clk" and inv: "mux_inv (mux s)" and ports: "ports_left s 32"
  shows "wp_step (mux_notify os) UNIV 32 s"
proof -
  let ?w = "m_catch (m_os (epoll_wait os 32)) (\<lambda>_. eff_ret []) :: ('a mux_state, VsockError, _) eff"
  have w: "wp ?w (\<lambda>evs s1. step_ok {} 0 s s1 \<and> length evs \<le> 32 \<and> (\<forall>(fd, ev) \<in> set evs. ev \<noteq> None)) (\<lambda>_. step_ok UNIV 32 s) s"
    unfolding wp_m_catch m_os_def wp_m_host
  proof (rule wp_returns, goal_cases)
    case 1
    show ?case using os_okD(10) [OF os(1)] by simp
  next
    case (2 evs h)
    then obtain w' where "epoll_wait os 32 (hworld (mworld s)) = Some (Inr evs, w')" by (auto simp: host_os_def)
    then have "length evs \<le> 32 \<and> (\<forall>(fd, ev) \<in> set evs. ev \<noteq> None)" using os(1) unfolding os_ok_def by blast
    then show ?case using inv by (simp add: step_ok_same)
  next
    case (3 e h)
    show ?case using inv by (simp add: wp_ret step_ok_same)
  qed
  show ?thesis
    unfolding mux_notify_def wp_bind
  proof (rule wp_mono [OF w])
    fix evs :: "(int \<times> epoll_event set option) list" and s1
    assume a: "step_ok {} 0 s s1 \<and> length evs \<le> 32 \<and> (\<forall>(fd, ev) \<in> set evs. ev \<noteq> None)"
    then have h: "wp_step (handle_events os evs) UNIV (length evs) s1"
      using ports by (intro handle_events_step [OF os]) (auto simp: step_ok_def)
    show "wp (handle_events os evs) (\<lambda>_. step_ok UNIV 32 s) (\<lambda>_. step_ok UNIV 32 s) s1"
      using a by (intro wp_step_after [OF conjunct1 [OF a] h]) simp_all
  qed
qed

lemma add_backend_step:
  assumes "os_ok os" "mux_inv (mux s)"
  shows "wp_step (add_backend os ty fd p) {} 0 s"
proof -
  have "wp_step (eff_bind (m_get (\<lambda>m. backend_map m ty)) (\<lambda>old.
       if old \<noteq> None then eff_fail (BackendRegistered ty)
       else eff_bind (add_listener os fd (LBackend ty)) (\<lambda>_.
         m_modify (\<lambda>m. m\<lparr>backend_map := (backend_map m)(ty \<mapsto> fd), peer_backend := (if p then Some ty else peer_backend m)\<rparr>)))) {} 0 s"
    using assms step_ok_refl [OF assms(2), of "{}" 0]
    by (auto simp: wp_simps intro!: wp_add_listener step_ok_same)
  then show ?thesis
    unfolding add_backend_def or_drop_def
    by (rule wp_step_catch [where K' = "{}" and j' = 0]) (auto simp: wp_bind wp_ret intro!: wp_drop_stream step_ok_same dest: step_okD)
qed

end
