(* ===== verification/MuxRecv.thy ===== *)
theory MuxRecv
  imports MuxTotal
begin

text \<open>
  Delivering packets to the guest: the loop of the vsock muxer over its queue returns, and reports
  that there is no data only when the queue is drained.
\<close>

section \<open>A bound for the loop\<close>

definition conn_weight :: "MuxConn \<Rightarrow> nat" where
  "conn_weight c = (if Rst \<in> pending_items (mconn c) then 0 else Suc (card (pending_items (mconn c))))"

definition weight :: "(ConnMapKey \<rightharpoonup> MuxConn) \<Rightarrow> nat" where
  "weight f = (\<Sum>k \<in> dom f. conn_weight (the (f k)))"

lemma weight_upd:
  assumes "finite (dom f)" "f key = Some c"
  shows "weight (f(key \<mapsto> c')) + conn_weight c = weight f + conn_weight c'"
proof -
  have d: "dom (f(key \<mapsto> c')) = insert key (dom f - {key})" "dom f = insert key (dom f - {key})" using assms(2) by auto
  have "weight (f(key \<mapsto> c')) = conn_weight c' + (\<Sum>k \<in> dom f - {key}. conn_weight (the (f k)))"
    unfolding weight_def d(1) using assms(1) by (subst sum.insert) (auto intro: sum.cong)
  moreover have "weight f = conn_weight c + (\<Sum>k \<in> dom f - {key}. conn_weight (the (f k)))"
    unfolding weight_def by (subst d(2), subst sum.insert) (use assms in auto)
  ultimately show ?thesis by simp
qed

definition work :: "VsockMuxer \<Rightarrow> nat" where
  "work m = length (rxq_items (rxq m)) + weight (map_of (conn_map m))"

lemma wp_pop_rx:
  assumes "rxq_items (rxq (mux s)) = x # xs"
  shows "wp pop_rx Q E s \<longleftrightarrow> Q () (st ((mux s)\<lparr>rxq := (rxq (mux s))\<lparr>rxq_items := xs\<rparr>\<rparr>) (mworld s))"
  using assms by (simp add: pop_rx_def rxq_pop_def wp_def st_updates)

section \<open>Fetching from one connection\<close>

definition fetches :: "VsockConnection \<Rightarrow> (VsockError + unit) \<times> VsockPacket \<times> bool \<Rightarrow> VsockConnection \<Rightarrow> bool" where
  "fetches c x c' \<longleftrightarrow> fetched c (fst x) c' \<and> snd (snd x) = (\<not> has_pending_rx c')"

lemma fetches_good: "keeps_good fetches"
  by (auto simp: keeps_good_def fetches_def fetched_def no_response_def)

text \<open>The muxer after a fetch: the connection was left as \<open>c1\<close> or killed while its listener was updated.\<close>

lemma after_fetch:
  assumes inv: "mux_inv m" and c: "map_of (conn_map m) key = Some c" and f: "fetched (mconn c) r c1"
    and c2: "c2 = c1 \<or> c2 = kill c1 \<and> cstate (mconn c) = LocalInit \<and> cstate c1 = Established"
    and m': "m' = (mutated key (c\<lparr>mconn := c2\<rparr>) (has_pending_rx (mconn c)) m)\<lparr>killq := kq\<rparr> \<or>
      m' = killed_mux key ((mutated key (c\<lparr>mconn := c2\<rparr>) (has_pending_rx (mconn c)) m)\<lparr>killq := kq\<rparr>)"
  shows "map_of (conn_map m') = (map_of (conn_map m))(key \<mapsto> c\<lparr>mconn := c1\<rparr>) \<and> rxq m' = rxq m \<or>
    map_of (conn_map m') = (map_of (conn_map m))(key \<mapsto> c\<lparr>mconn := kill c1\<rparr>) \<and>
      rxq m' = (if has_pending_rx c1 then rxq m else snd (rxq_push (ConnRx key) (rxq m)))"
proof -
  have good: "conn_good key c" using inv c by (simp add: mux_inv_def)
  have "no_response (mconn c)" using good by (simp add: conn_good_def)
  then have c2: "c2 = c1" using c2 f by (auto simp: fetched_def no_response_def)
  have clean: "pending_clean (mconn c)" "pending_clean c1"
    using good f by (auto simp: conn_good_def pending_clean_def conn_frame_def fetched_def)
  have sub: "has_pending_rx c1 \<Longrightarrow> has_pending_rx (mconn c)"
    using f clean by (auto simp: has_pending_items fetched_def)
  let ?m = "(mutated key (c\<lparr>mconn := c1\<rparr>) (has_pending_rx (mconn c)) m)\<lparr>killq := kq\<rparr>"
  have r: "rxq ?m = rxq m" using sub by (auto simp: mutated_def Let_def)
  show ?thesis
    using m' unfolding c2
  proof
    assume "m' = ?m"
    then show ?thesis using r by simp
  next
    assume k: "m' = killed_mux key ?m"
    have "map_of (conn_map ?m) key = Some (c\<lparr>mconn := c1\<rparr>)" by simp
    then have "rxq (killed_mux key ?m) = (if has_pending_rx c1 then rxq m else snd (rxq_push (ConnRx key) (rxq m)))"
      using r by (simp add: killed_mux_def Let_def)
    then show ?thesis unfolding k by (simp add: killed_mux_conns)
  qed
qed

lemma drop_front:
  assumes "mux_inv m" "rxq_items (rxq m) = ConnRx key # xs"
    and "\<And>c. map_of (conn_map m) key = Some c \<Longrightarrow> has_pending_rx (mconn c) \<Longrightarrow> rxq_synced (rxq m) \<Longrightarrow> ConnRx key \<in> set xs"
  shows "mux_inv (m\<lparr>rxq := (rxq m)\<lparr>rxq_items := xs\<rparr>\<rparr>)"
  using assms by (fastforce simp: mux_inv_def queued_def)

lemma kill_items: "pending_items (kill c) = insert Rst (pending_items c)"
  by (auto simp: pending_items_def)

lemma kill_pending [simp]: "has_pending_rx (kill c)"
proof -
  have "Rst \<in> pending_items (kill c)" by (simp add: kill_items)
  then show ?thesis by (auto simp: has_pending_rx_def prx_is_empty_def pending_items_def prx_contains_def)
qed

text \<open>The state after the queue was popped, if it was.\<close>

lemma fetch_progress:
  assumes inv: "mux_inv m'" "mux_inv m" and c: "map_of (conn_map m) key = Some c" and f: "fetched (mconn c) r c1"
    and items: "rxq_items (rxq m) = ConnRx key # xs"
    and m': "map_of (conn_map m') = (map_of (conn_map m))(key \<mapsto> c\<lparr>mconn := c1\<rparr>) \<and> rxq m' = rxq m \<or>
      map_of (conn_map m') = (map_of (conn_map m))(key \<mapsto> c\<lparr>mconn := kill c1\<rparr>) \<and>
        rxq m' = (if has_pending_rx c1 then rxq m else snd (rxq_push (ConnRx key) (rxq m)))"
    and m2: "m2 = (if has_pending_rx c1 then m' else m'\<lparr>rxq := (rxq m')\<lparr>rxq_items := tl (rxq_items (rxq m'))\<rparr>\<rparr>)"
  shows "rxq_items (rxq m') = ConnRx key # tl (rxq_items (rxq m')) \<and> mux_inv m2 \<and> (\<forall>e. r = Inl e \<longrightarrow> work m2 < work m)"
proof -
  have good: "conn_good key c" using inv(2) c by (simp add: mux_inv_def)
  have clean: "pending_clean c1" using good f by (auto simp: conn_good_def pending_clean_def conn_frame_def fetched_def)
  have fin: "finite (dom (map_of (conn_map m)))" by (simp add: finite_dom_map_of)
  have front: "rxq_items (rxq m') = ConnRx key # tl (rxq_items (rxq m'))"
    "length (rxq_items (rxq m')) \<le> length (rxq_items (rxq m)) + 1"
    using m' items push_conn_items [of key "rxq m"] by (auto split: if_splits)
  have i2: "mux_inv m2"
  proof (cases "has_pending_rx c1")
    case True
    then show ?thesis using m2 inv(1) by simp
  next
    case False
    have "ConnRx key \<in> set (tl (rxq_items (rxq m')))"
      if "map_of (conn_map m') key = Some c'" "has_pending_rx (mconn c')" "rxq_synced (rxq m')" for c'
      using m' that False items push_conn_items [of key "rxq m"] by (auto split: if_splits)
    then show ?thesis using m2 False drop_front [OF inv(1) front(1)] by simp
  qed
  have "work m2 < work m" if "r = Inl e" for e
  proof -
    have p: "Rst \<notin> pending_items (mconn c)" "pending_items c1 \<subseteq> pending_items (mconn c)"
      "pending_items c1 \<noteq> {} \<Longrightarrow> pending_items c1 \<subset> pending_items (mconn c)"
      using f that by (auto simp: fetched_def)
    have wc: "conn_weight c = Suc (card (pending_items (mconn c)))" using p(1) by (simp add: conn_weight_def)
    have w1: "conn_weight (c\<lparr>mconn := c1\<rparr>) = Suc (card (pending_items c1))" using p(1,2) by (auto simp: conn_weight_def)
    have wk: "conn_weight (c\<lparr>mconn := kill c1\<rparr>) = 0" by (simp add: conn_weight_def kill_items)
    have le: "card (pending_items c1) \<le> card (pending_items (mconn c))" using p(2) by (simp add: card_mono)
    have lt: "has_pending_rx c1 \<Longrightarrow> card (pending_items c1) < card (pending_items (mconn c))"
      using p(3) clean by (simp add: has_pending_items psubset_card_mono)
    note u1 = weight_upd [OF fin c, of "c\<lparr>mconn := c1\<rparr>"] and uk = weight_upd [OF fin c, of "c\<lparr>mconn := kill c1\<rparr>"]
    show ?thesis
      using m'
    proof
      assume a: "map_of (conn_map m') = (map_of (conn_map m))(key \<mapsto> c\<lparr>mconn := c1\<rparr>) \<and> rxq m' = rxq m"
      show ?thesis
        using a u1 w1 wc le lt items m2 by (cases "has_pending_rx c1") (auto simp: work_def)
    next
      assume a: "map_of (conn_map m') = (map_of (conn_map m))(key \<mapsto> c\<lparr>mconn := kill c1\<rparr>) \<and>
        rxq m' = (if has_pending_rx c1 then rxq m else snd (rxq_push (ConnRx key) (rxq m)))"
      have "length (rxq_items (rxq m2)) \<le> length (rxq_items (rxq m))"
        using a m2 front by (cases "has_pending_rx c1") auto
      moreover have "map_of (conn_map m2) = map_of (conn_map m')" using m2 by simp
      ultimately show ?thesis using a uk wk wc by (simp add: work_def)
    qed
  qed
  then show ?thesis using front(1) i2 by blast
qed

lemma recv_conn_spec:
  assumes os: "os_ok os" and inv: "mux_inv (mux s)" and items: "rxq_items (rxq (mux s)) = ConnRx key # xs"
  shows "wp (recv_conn os key pkt) (\<lambda>x s'. mux_inv (mux s') \<and> (\<forall>e. fst x = Inl e \<longrightarrow> work (mux s') < work (mux s))) (\<lambda>_ _. False) s"
  unfolding recv_conn_def wp_bind
proof (rule wp_apply_conn_mutation [OF os inv _ fetches_good], goal_cases)
  case (1 c now h)
  obtain r c' p' h' where "recv_pkt (conn_stream os (mfd c)) now (mconn c) pkt h = Some (r, c', p', h')" "fetched (mconn c) r c'"
    using recv_pkt_total [OF stream_total_conn [OF os]] by blast
  then show ?case by (simp add: recv_action_def fetches_def)
next
  case 2
  have "mux_inv ((mux s)\<lparr>rxq := (rxq (mux s))\<lparr>rxq_items := xs\<rparr>\<rparr>)" using 2 by (intro drop_front [OF inv items]) simp
  then show ?case using items by (simp add: wp_bind wp_pop_rx [OF items] wp_ret work_def)
next
  case (3 c x c1 c2 kq m' lm h)
  obtain r p' b where x: "x = (r, p', b)" by (cases x)
  have f: "fetched (mconn c) r c1" "b = (\<not> has_pending_rx c1)" using 3(2) by (simp_all add: fetches_def x)
  define m2 where "m2 = (if has_pending_rx c1 then m' else m'\<lparr>rxq := (rxq m')\<lparr>rxq_items := tl (rxq_items (rxq m'))\<rparr>\<rparr>)"
  have p: "rxq_items (rxq m') = ConnRx key # tl (rxq_items (rxq m'))" "mux_inv m2" "\<forall>e. r = Inl e \<longrightarrow> work m2 < work (mux s)"
    using fetch_progress [OF 3(5) inv 3(1) f(1) items after_fetch [OF inv 3(1) f(1) 3(3,4)] m2_def] by blast+
  have pop: "rxq_items (rxq (mux (st (m'\<lparr>listener_map := lm\<rparr>) h))) = ConnRx key # tl (rxq_items (rxq m'))" using p(1) by simp
  have lm: "mux_inv (m'\<lparr>listener_map := lm, rxq := q\<rparr>) = mux_inv (m'\<lparr>rxq := q\<rparr>)"
    "work (m'\<lparr>listener_map := lm, rxq := q\<rparr>) = work (m'\<lparr>rxq := q\<rparr>)" "work (m'\<lparr>listener_map := lm\<rparr>) = work m'" for q
    by (simp_all add: mux_inv_def queued_def work_def)
  show ?case
    using f(2) p(2,3) unfolding m2_def by (auto simp: x lm wp_bind wp_if wp_ret wp_pop_rx [OF pop] split: if_splits)
qed

section \<open>The loop\<close>

lemma recv_loop_returns:
  assumes os: "os_ok os" and inv: "mux_inv (mux s)"
  shows "\<exists>r pkt' s'. recv_loop os pkt s = Some (r, pkt', s') \<and> mux_inv (mux s') \<and>
    (\<forall>e. r = Inl e \<longrightarrow> e = NoData \<and> rxq_items (rxq (mux s')) = [])"
  using inv
proof (induction "work (mux s)" arbitrary: s pkt rule: less_induct)
  case less
  show ?case
  proof (cases "rxq_items (rxq (mux s))")
    case Nil
    then show ?thesis using less.prems by (subst recv_loop.simps) (simp add: rxq_peek_def)
  next
    case (Cons x xs)
    show ?thesis
    proof (cases x)
      case (RstPkt l p)
      have "mux_inv ((mux s)\<lparr>rxq := (rxq (mux s))\<lparr>rxq_items := xs\<rparr>\<rparr>)"
        using less.prems Cons RstPkt by (fastforce simp: mux_inv_def queued_def)
      then show ?thesis using Cons RstPkt by (subst recv_loop.simps) (simp add: rxq_peek_def pop_rx_def rxq_pop_def)
    next
      case (ConnRx key)
      have items: "rxq_items (rxq (mux s)) = ConnRx key # xs" using Cons ConnRx by simp
      obtain y s1 where y: "recv_conn os key pkt s = Some (Inr y, s1)" "mux_inv (mux s1)"
          "\<forall>e. fst y = Inl e \<longrightarrow> work (mux s1) < work (mux s)"
        by (rule wp_resultE [OF recv_conn_spec [OF os less.prems items, of pkt]]) auto
      obtain r pkt1 where r: "y = (r, pkt1)" by (cases y)
      show ?thesis
      proof (cases r)
        case (Inl e)
        then obtain r' pkt' s' where "recv_loop os pkt1 s1 = Some (r', pkt', s')" "mux_inv (mux s')"
            "\<forall>e. r' = Inl e \<longrightarrow> e = NoData \<and> rxq_items (rxq (mux s')) = []"
          using less.hyps [of s1 pkt1] y r by auto
        then show ?thesis using Cons ConnRx y(1) r Inl by (subst recv_loop.simps) (simp add: rxq_peek_def)
      next
        case (Inr u)
        let ?rm = "if hdr_op (phdr pkt1) = VSOCK_OP_RST
          then remove_connection os \<lparr>key_local_port = src_port (phdr pkt1), key_peer_port = dst_port (phdr pkt1)\<rparr>
          else eff_ret () :: ('a mux_state, VsockError, unit) eff"
        have "wp_step ?rm UNIV 0 s1"
          using wp_step_mono [OF remove_connection_step [OF os y(2)], of _ UNIV 0] step_ok_refl [OF y(2)]
          by (auto simp: wp_ret)
        then obtain z s2 where "?rm s1 = Some (z, s2)" "mux_inv (mux s2)"
          by (elim wp_resultE) (auto dest: step_okD)
        then show ?thesis using Cons ConnRx y(1) r Inr by (subst recv_loop.simps) (simp add: rxq_peek_def)
      qed
    qed
  qed
qed

lemma resync_spec:
  assumes "mux_inv (mux s)"
  shows "\<exists>s'. resync_rxq s = Some (Inr (), s') \<and> mux_inv (mux s')"
proof -
  let ?m = "mux s" and ?q = "rxq_from_conn_map (conn_map (mux s))"
  have "length (rxq_items ?q) \<le> MUXER_RXQ_SIZE \<and> rxq_complete (conn_map ?m) ?q"
    using rxq_collect_spec [of "[]" "[]" "conn_map ?m"] by (simp add: rxq_from_conn_map_def)
  then have "mux_inv (?m\<lparr>rxq := ?q\<rparr>)"
    using assms queued_complete [of "?m\<lparr>rxq := ?q\<rparr>"] by (auto simp: mux_inv_def)
  then show ?thesis using assms by (auto simp: resync_rxq_def m_modify_def)
qed

lemma recv_returns:
  assumes "os_ok os" "mux_inv (mux s)"
  shows "\<exists>r pkt' s'. mux_recv_pkt os pkt s = Some (r, pkt', s') \<and> mux_inv (mux s') \<and>
    (\<forall>e. r = Inl e \<longrightarrow> e = NoData \<and> rxq_items (rxq (mux s')) = [])"
proof -
  obtain s1 where "(resync_rxq :: ('a mux_state, VsockError, unit) eff) s = Some (Inr (), s1)" "mux_inv (mux s1)"
    using resync_spec [OF assms(2)] by blast
  then show ?thesis using recv_loop_returns [OF assms(1), of s1 pkt] by (simp add: mux_recv_pkt_def)
qed

end
