(* ===== verification/MuxClaims.thy ===== *)
theory MuxClaims
  imports MuxRecv
begin

text \<open>
  Properties of the vsock muxer: what holds in every run, that its operations return, that packets
  do not disturb other connections, how ports are chosen and how host commands are read.
\<close>

section \<open>Operations that do not fail\<close>

definition infallible :: "('s, 'e, 'a) eff \<Rightarrow> bool" where
  "infallible m \<longleftrightarrow> (\<forall>s e s'. m s \<noteq> Some (Inl e, s'))"

named_theorems infallible_rules

lemma infallible_basic [infallible_rules]:
  "infallible (eff_ret x)" "infallible (eff_modify f)" "infallible (m_modify g)" "infallible (m_get k)"
  "infallible (push_rx rx)" "infallible (m_now os)" "infallible (sweep os)" "infallible (\<lambda>s. None)" "infallible allocate_local_port"
  by (auto simp: infallible_def m_modify_def m_get_def push_rx_def m_now_def m_os_def m_host_def host_os_def sweep_def
      allocate_local_port_def eff_zoom_def split: prod.splits option.splits)

lemma infallible_bind [infallible_rules]: "infallible m \<Longrightarrow> (\<And>x. infallible (f x)) \<Longrightarrow> infallible (eff_bind m f)"
  by (auto simp: infallible_def eff_bind_def split: option.splits sum.splits)

lemma infallible_catch [infallible_rules]: "(\<And>e. infallible (h e)) \<Longrightarrow> infallible (m_catch m h)"
  by (auto simp: infallible_def m_catch_def split: option.splits sum.splits)

lemma infallible_ignore [infallible_rules]: "infallible (eff_ignore m)"
  by (auto simp: infallible_def eff_ignore_def split: option.splits)

lemma infallible_case [infallible_rules]:
  "infallible a \<Longrightarrow> infallible b \<Longrightarrow> infallible (if p then a else b)"
  "infallible a \<Longrightarrow> (\<And>x. infallible (f x)) \<Longrightarrow> infallible (case v of None \<Rightarrow> a | Some x \<Rightarrow> f x)"
  "(\<And>x y. infallible (g x y)) \<Longrightarrow> infallible (case w of (x, y) \<Rightarrow> g x y)"
  "(\<And>x. infallible (k x)) \<Longrightarrow> infallible (let x = u in k x)"
  by (simp_all split: option.splits prod.splits)

lemma infallible_drop [infallible_rules]: "infallible (drop_stream os fd)" "infallible (run_action os act c now)"
  by (auto simp: infallible_def drop_stream_def run_action_def m_host_def eff_zoom_def Let_def split: option.splits)

lemma infallible_listeners [infallible_rules]: "infallible (remove_listener os fd)" "infallible (kill_connection key)"
  unfolding remove_listener_def kill_connection_def by (intro infallible_rules)+

lemma infallible_update [infallible_rules]: "infallible (update_listener os key c)"
  unfolding update_listener_def Let_def
  by (intro infallible_rules) (auto intro!: infallible_rules split: option.splits EpollListener.splits)

lemma infallible_apply [infallible_rules]: "infallible (apply_conn_mutation os key act)"
  unfolding apply_conn_mutation_def after_mutation_def ack_host_def m_will_expire_def by (intro infallible_rules)

lemma infallible_send [infallible_rules]: "infallible (mux_send_pkt os pkt)"
  unfolding mux_send_pkt_def handle_peer_request_pkt_def enq_rst_def remove_connection_def free_local_port_def revive_def Let_def
  by (intro infallible_rules)

section \<open>Runs\<close>

text \<open>
  The states a muxer can reach: it starts empty; backends are added, packets are sent and fetched by
  the guest, and events are handled while there are host ports left for the events of one call.
\<close>

inductive mux_reach :: "'w mux_os \<Rightarrow> 'w mux_state \<Rightarrow> bool" for os where
  start: "mux_reach os (st (muxer_init guest) h)"
| backend: "mux_reach os s \<Longrightarrow> add_backend os ty fd p s = Some (r, s') \<Longrightarrow> mux_reach os s'"
| send: "mux_reach os s \<Longrightarrow> good_pkt pkt \<Longrightarrow> mux_send_pkt os pkt s = Some (r, s') \<Longrightarrow> mux_reach os s'"
| recv: "mux_reach os s \<Longrightarrow> mux_recv_pkt os pkt s = Some (r, pkt', s') \<Longrightarrow> mux_reach os s'"
| event: "mux_reach os s \<Longrightarrow> ports_left s 32 \<Longrightarrow> mux_notify os s = Some (r, s') \<Longrightarrow> mux_reach os s'"

lemma init_inv: "mux_inv (muxer_init guest)"
  by (simp add: mux_inv_def muxer_init_def MuxerRxQ_default_def MuxerKillQ_default_def queued_def)

lemma wp_step_inv: "wp_step m K j s \<Longrightarrow> m s = Some (r, s') \<Longrightarrow> mux_inv (mux s')"
  by (cases r) (auto simp: wp_def dest: step_okD)

lemma reach_inv:
  assumes "mux_reach os s" and os: "os_ok os" "clock_ok os clk"
  shows "mux_inv (mux s)"
  using assms(1)
proof induction
  case (start guest h)
  show ?case by (simp add: init_inv)
next
  case (backend s ty fd p r s')
  then show ?case using wp_step_inv [OF add_backend_step [OF os(1)]] by blast
next
  case (send s pkt r s')
  then show ?case using wp_step_inv [OF send_pkt_step [OF os, of s pkt 0]] by blast
next
  case (recv s pkt r pkt' s')
  then show ?case using recv_returns [OF os(1), of s pkt] by auto
next
  case (event s r s')
  then show ?case using wp_step_inv [OF notify_step [OF os]] by blast
qed

lemma wp_step_returns: "wp_step m K j s \<Longrightarrow> \<exists>r s'. m s = Some (r, s') \<and> step_ok K j s s'"
  by (erule wp_resultE) auto

lemma send_returns:
  assumes "os_ok os" "clock_ok os clk" "mux_inv (mux s)" "good_pkt pkt"
  shows "\<exists>s'. mux_send_pkt os pkt s = Some (Inr (), s') \<and> step_ok {pkt_key pkt} 0 s s'"
proof -
  obtain r s' where r: "mux_send_pkt os pkt s = Some (r, s')" "step_ok {pkt_key pkt} 0 s s'"
    using wp_step_returns [OF send_pkt_step [OF assms, of 0]] by blast
  then have "r = Inr ()" using infallible_send [of os pkt] by (cases r) (auto simp: infallible_def)
  then show ?thesis using r by blast
qed

section \<open>Example\<close>

definition demo_os :: "nat mux_os" where
  "demo_os = \<lparr>os_now = (\<lambda>w. (w, w + 1)), epoll_create = eff_ret (), epoll_add = (\<lambda>_ _. eff_ret ()), epoll_mod = (\<lambda>_ _. eff_ret ()),
     epoll_del = (\<lambda>_. eff_ret ()), epoll_wait = (\<lambda>_. eff_ret []), os_close = (\<lambda>_ w. w),
     os_stream = (\<lambda>_. \<lparr>stream_read = (\<lambda>_. eff_fail WouldBlock), stream_write = (\<lambda>bs. eff_ret (length bs))\<rparr>),
     read_exact = (\<lambda>_ _. eff_fail WouldBlock), recv_data_fd = (\<lambda>_. eff_fail WouldBlock), fcntl_getfl = (\<lambda>_ w. (0, w)),
     fcntl_setfl = (\<lambda>_ _. eff_ret ()), backend_accept = (\<lambda>ty. eff_ret (7, ty)), backend_connect = (\<lambda>ty _. eff_ret (8, ty))\<rparr>"

lemma demo_os_ok: "os_ok demo_os" "clock_ok demo_os id"
  by (simp_all add: os_ok_def clock_ok_def demo_os_def stream_total_def)

definition demo_state :: "nat mux_state" where
  "demo_state = st (muxer_init 3) \<lparr>hworld = 0, slaves = Map.empty\<rparr>"

lemma demo_state_reach: "mux_reach demo_os demo_state"
  unfolding demo_state_def by (rule mux_reach.start)

definition request_pkt :: VsockPacket where
  "request_pkt = set_op VSOCK_OP_REQUEST (set_type VSOCK_TYPE_STREAM (set_dst_cid VSOCK_HOST_CID \<lparr>phdr = hdr_zero, pbuf = None\<rparr>))"

lemma request_pkt_good: "good_pkt request_pkt"
  by (simp add: good_pkt_def payload_def request_pkt_def set_op_def set_type_def set_dst_cid_def)

section \<open>Properties\<close>

text \<open>C2: Muxer: in every reachable state there are at most 1023 connections and 256 queued items, each connection is stored under its own ports with a well-formed buffer, every connection with something to deliver is queued unless the queue is marked out of date; and every operation returns.\<close>

theorem muxer_safe:
  assumes "mux_reach os s" "os_ok os" "clock_ok os clk"
  shows "length (conn_map (mux s)) \<le> 1023 \<and> length (rxq_items (rxq (mux s))) \<le> 256 \<and> length (killq_items (killq (mux s))) \<le> 128 \<and>
    (\<forall>k c. conn_of s k = Some c \<longrightarrow>
       tx_inv (tx_buf (mconn c)) \<and> local_port (mconn c) = key_local_port k \<and> peer_port (mconn c) = key_peer_port k \<and>
       (has_pending_rx (mconn c) \<longrightarrow> rxq_synced (rxq (mux s)) \<longrightarrow> ConnRx k \<in> set (rxq_items (rxq (mux s))))) \<and>
    (\<forall>pkt. good_pkt pkt \<longrightarrow> (\<exists>s'. mux_send_pkt os pkt s = Some (Inr (), s'))) \<and>
    (\<forall>pkt. mux_recv_pkt os pkt s \<noteq> None) \<and>
    (card (local_port_set (mux s)) + 32 \<le> 2 ^ 30 \<longrightarrow> mux_notify os s \<noteq> None)"
proof (intro conjI allI impI)
  have inv: "mux_inv (mux s)" by (rule reach_inv [OF assms])
  show "length (conn_map (mux s)) \<le> 1023" "length (rxq_items (rxq (mux s))) \<le> 256" "length (killq_items (killq (mux s))) \<le> 128"
    using inv by (simp_all add: mux_inv_def MAX_CONNECTIONS_def MUXER_RXQ_SIZE_def MUXER_KILLQ_SIZE_def)
  fix k c
  assume "conn_of s k = Some c"
  then show "tx_inv (tx_buf (mconn c))" "local_port (mconn c) = key_local_port k" "peer_port (mconn c) = key_peer_port k"
    and "has_pending_rx (mconn c) \<Longrightarrow> rxq_synced (rxq (mux s)) \<Longrightarrow> ConnRx k \<in> set (rxq_items (rxq (mux s)))"
    using inv by (auto simp: mux_inv_def conn_of_def conn_good_def conn_frame_def queued_def)
next
  have inv: "mux_inv (mux s)" by (rule reach_inv [OF assms])
  show "\<exists>s'. mux_send_pkt os pkt s = Some (Inr (), s')" if "good_pkt pkt" for pkt
    using send_returns [OF assms(2,3) inv that] by blast
  show "mux_recv_pkt os pkt s \<noteq> None" for pkt using recv_returns [OF assms(2) inv, of pkt] by auto
  show "mux_notify os s \<noteq> None" if "card (local_port_set (mux s)) + 32 \<le> 2 ^ 30"
    using wp_step_returns [OF notify_step [OF assms(2,3) inv that]] by auto
qed

theorem muxer_safe_witness:
  "mux_reach demo_os demo_state \<and> os_ok demo_os \<and> clock_ok demo_os id \<and> good_pkt request_pkt \<and>
   (\<exists>s'. mux_send_pkt demo_os request_pkt demo_state = Some (Inr (), s')) \<and> mux_notify demo_os demo_state \<noteq> None"
  using muxer_safe [OF demo_state_reach demo_os_ok] demo_state_reach demo_os_ok request_pkt_good
  by (simp add: demo_state_def muxer_init_def)

text \<open>C12: Muxer: a connection with something to deliver keeps the muxer pending; fetching a packet always returns, and it reports no data only with an empty queue, when nothing is left to deliver or the queue is marked to be rebuilt by the next fetch.\<close>

theorem nothing_pending_is_lost:
  assumes "mux_reach os s" "os_ok os" "clock_ok os clk"
  shows "(\<forall>k c. conn_of s k = Some c \<and> has_pending_rx (mconn c) \<longrightarrow> mux_has_pending_rx (mux s)) \<and>
    (\<exists>r pkt' s'. mux_recv_pkt os pkt s = Some (r, pkt', s') \<and>
       (\<forall>e. r = Inl e \<longrightarrow> e = NoData \<and> rxq_is_empty (rxq (mux s')) \<and>
          (mux_has_pending_rx (mux s') \<or> (\<forall>k c. conn_of s' k = Some c \<longrightarrow> \<not> has_pending_rx (mconn c)))))"
proof -
  have inv: "mux_inv (mux s)" by (rule reach_inv [OF assms])
  obtain r pkt' s' where r: "mux_recv_pkt os pkt s = Some (r, pkt', s')" "mux_inv (mux s')"
      "\<forall>e. r = Inl e \<longrightarrow> e = NoData \<and> rxq_items (rxq (mux s')) = []"
    using recv_returns [OF assms(2) inv, of pkt] by blast
  have pend: "mux_has_pending_rx (mux t)" if "mux_inv (mux t)" "conn_of t k = Some c" "has_pending_rx (mconn c)" for t :: "'a mux_state" and k c
    using that by (fastforce simp: mux_inv_def queued_def conn_of_def mux_has_pending_rx_def rxq_is_empty_def)
  show ?thesis
  proof (intro conjI exI)
    show "\<forall>k c. conn_of s k = Some c \<and> has_pending_rx (mconn c) \<longrightarrow> mux_has_pending_rx (mux s)" using pend [OF inv] by blast
    show "mux_recv_pkt os pkt s = Some (r, pkt', s')" by (rule r)
    show "\<forall>e. r = Inl e \<longrightarrow> e = NoData \<and> rxq_is_empty (rxq (mux s')) \<and>
        (mux_has_pending_rx (mux s') \<or> (\<forall>k c. conn_of s' k = Some c \<longrightarrow> \<not> has_pending_rx (mconn c)))"
      using r(3) pend [OF r(2)] by (auto simp: rxq_is_empty_def)
  qed
qed

theorem nothing_pending_is_lost_witness:
  "mux_reach demo_os demo_state \<and> os_ok demo_os \<and> clock_ok demo_os id \<and> (\<exists>r pkt' s'. mux_recv_pkt demo_os request_pkt demo_state = Some (r, pkt', s'))"
  using nothing_pending_is_lost [OF demo_state_reach demo_os_ok, of request_pkt] demo_state_reach demo_os_ok by blast

text \<open>C24: Muxer: a packet from the guest touches only the connection of its ports: every other connection stays as it was, or had its kill timer armed and is killed by the sweep that makes room for a new connection.\<close>

theorem packets_isolated:
  assumes "mux_reach os s" "os_ok os" "clock_ok os clk" "good_pkt pkt"
    and "k \<noteq> \<lparr>key_local_port = dst_port (phdr pkt), key_peer_port = src_port (phdr pkt)\<rparr>"
  shows "\<exists>s'. mux_send_pkt os pkt s = Some (Inr (), s') \<and>
    (conn_of s' k = conn_of s k \<or>
     (\<exists>c. conn_of s k = Some c \<and> expiry (mconn c) \<noteq> None \<and> conn_of s' k = Some (c\<lparr>mconn := kill (mconn c)\<rparr>)))"
  using send_returns [OF assms(2,3) reach_inv [OF assms(1-3)] assms(4)] assms(5)
  by (auto simp: step_ok_def pkt_key_def timed_out_def)

theorem packets_isolated_witness:
  "mux_reach demo_os demo_state \<and> os_ok demo_os \<and> clock_ok demo_os id \<and> good_pkt request_pkt \<and>
   (\<exists>s'. mux_send_pkt demo_os request_pkt demo_state = Some (Inr (), s'))"
  using packets_isolated [OF demo_state_reach demo_os_ok request_pkt_good, of "\<lparr>key_local_port = 1, key_peer_port = 1\<rparr>"]
    demo_state_reach demo_os_ok request_pkt_good
  by (auto simp: request_pkt_def hdr_zero_def)

text \<open>Muxer: while not all 2^30 host ports are taken, the search for a port returns one that is free, in the upper range, and marks it as taken.\<close>

theorem local_port_fresh:
  assumes "card (local_port_set (mux s)) < 2 ^ 30"
  shows "\<exists>p s'. (allocate_local_port :: ('w mux_state, mux_error, 32 word) eff) s = Some (Inr p, s') \<and>
    p \<notin> local_port_set (mux s) \<and> 2 ^ 30 \<le> unat p \<and> unat p < 2 ^ 31 \<and>
    local_port_set (mux s') = insert p (local_port_set (mux s)) \<and> conn_map (mux s') = conn_map (mux s)"
proof -
  have "wp (allocate_local_port :: ('w mux_state, mux_error, 32 word) eff) (\<lambda>p s'. p \<notin> local_port_set (mux s) \<and> p \<in> local_range \<and>
      local_port_set (mux s') = insert p (local_port_set (mux s)) \<and> conn_map (mux s') = conn_map (mux s)) (\<lambda>_ _. False) s"
    using assms by (intro wp_allocate_local_port) simp_all
  then show ?thesis by (rule wp_resultE) (auto simp: local_range_def)
qed

theorem local_port_fresh_witness:
  "card (local_port_set (mux demo_state)) < 2 ^ 30 \<and>
   (\<exists>p s'. (allocate_local_port :: (nat mux_state, mux_error, 32 word) eff) demo_state = Some (Inr p, s') \<and> local_port_set (mux s') = {p})"
proof -
  have "card (local_port_set (mux demo_state)) < 2 ^ 30" "local_port_set (mux demo_state) = {}"
    by (simp_all add: demo_state_def muxer_init_def)
  then show ?thesis using local_port_fresh [of demo_state] by auto
qed

section \<open>Host commands\<close>

text \<open>A stream that holds the bytes still to be read.\<close>

definition list_reader :: "nat \<Rightarrow> (byte list, io_kind, byte list) eff" where
  "list_reader n w = Some (Inr (take n w), drop n w)"

definition connect_cmd :: "nat \<Rightarrow> byte list" where
  "connect_cmd port = ascii (''connect '' @ dec_string port @ [CHR 0x0A])"

lemma codes_ascii: "map unat (ascii s) = codes s"
  by (simp add: ascii_def codes_def unat_of_nat nat_of_char_less_256)

lemma read_line_list:
  assumes "10 \<notin> set pre" "0 < blen" "buf ! (blen - 1) \<noteq> 10" "blen + length pre < length buf"
  shows "read_line list_reader buf blen (pre @ 10 # rest) =
    Some (Inr (take blen buf @ pre @ 10 # drop (blen + length pre + 1) buf), rest)"
  using assms
proof (induction pre arbitrary: buf blen)
  case Nil
  then have "read_line list_reader (buf[blen := 10]) (blen + 1) rest = Some (Inr (buf[blen := 10]), rest)"
    by (subst read_line.simps) (simp add: eff_ret_def)
  moreover have "buf[blen := 10] = take blen buf @ 10 # drop (blen + 1) buf"
    using Nil by (simp add: upd_conv_take_nth_drop)
  ultimately show ?case using Nil by (subst read_line.simps) (simp add: eff_bind_def list_reader_def)
next
  case (Cons b pre)
  then have "read_line list_reader (buf[blen := b]) (blen + 1) (pre @ 10 # rest) =
    Some (Inr (take (blen + 1) (buf[blen := b]) @ pre @ 10 # drop (blen + 1 + length pre + 1) (buf[blen := b])), rest)"
    by (intro Cons.IH) auto
  moreover have "take (blen + 1) (buf[blen := b]) = take blen buf @ [b]"
    using Cons.prems by (simp add: take_Suc_conv_app_nth)
  ultimately show ?case using Cons.prems by (subst read_line.simps) (simp add: eff_bind_def list_reader_def)
qed

lemma split_words_first:
  assumes "\<forall>c \<in> set cs. \<not> is_space c" "cs \<noteq> []" "is_space sp"
  shows "split_words (cs @ sp # rest) [] = cs # split_words rest []"
  using assms by (simp add: split_words_word)

lemma dec_string_length: "n < 10 ^ k \<Longrightarrow> 0 < k \<Longrightarrow> length (dec_string n) \<le> k"
proof (induction n arbitrary: k rule: dec_string.induct)
  case (1 n)
  show ?case
  proof (cases "n < 10")
    case True
    then show ?thesis using 1 by (subst dec_string.simps) simp
  next
    case False
    then obtain k' where k: "k = Suc k'" "0 < k'" using "1.prems" by (cases k; cases "k - 1") auto
    then have "n div 10 < 10 ^ k'" using "1.prems" by (simp add: less_mult_imp_div_less mult.commute)
    then have "length (dec_string (n div 10)) \<le> k'" using 1 False k by simp
    then show ?thesis using False k by (subst dec_string.simps) simp
  qed
qed

lemma parse_u32_dec:
  assumes "n \<le> u32_max"
  shows "parse_u32 (codes (dec_string n)) = Some n"
proof -
  have d: "codes (dec_string n) \<noteq> []" "list_all is_digit (codes (dec_string n))"
    using dec_string_digits [of n] by (auto simp: codes_def list_all_iff is_digit_def)
  then obtain c cs where "codes (dec_string n) = c # cs" "c \<noteq> 43" by (cases "codes (dec_string n)") (auto simp: is_digit_def)
  then show ?thesis using d assms digits_value_dec [of n] by (simp add: parse_u32_def)
qed

lemma codes_append: "codes (a @ b) = codes a @ codes b"
  by (simp add: codes_def)

lemma parse_connect:
  assumes "n \<le> u32_max"
  shows "parse_request (connect_cmd n @ replicate k 0) = Some (Connect (of_nat n))"
proof -
  let ?d = "codes (dec_string n)"
  have d: "?d \<noteq> []" "\<forall>c \<in> set ?d. \<not> is_space c"
    using dec_string_digits [of n] by (auto simp: codes_def is_space_def)
  have u: "map unat (connect_cmd n @ replicate k 0) = codes ''connect'' @ 32 # ?d @ 10 # replicate k 0"
    by (simp add: connect_cmd_def codes_ascii codes_append codes_def)
  have "\<forall>b \<in> set (connect_cmd n @ replicate k 0). unat b < 0x80"
  proof
    fix b assume "b \<in> set (connect_cmd n @ replicate k 0)"
    then have "unat b \<in> set (map unat (connect_cmd n @ replicate k 0))" unfolding set_map by (rule imageI)
    then have "unat b \<in> set (codes ''connect'' @ 32 # ?d @ 10 # replicate k 0)" by (simp only: u)
    then show "unat b < 0x80" using dec_string_digits [of n] by (auto simp: codes_def)
  qed
  then have f: "from_utf8 (connect_cmd n @ replicate k 0) = Some (codes ''connect'' @ 32 # ?d @ 10 # replicate k 0)"
    using from_utf8_ascii u by metis
  have "split_whitespace (codes ''connect'' @ 32 # ?d @ 10 # replicate k 0) = codes ''connect'' # ?d # split_words (replicate k 0) []"
    using d unfolding split_whitespace_def
    by (subst split_words_first; (subst split_words_first)?) (auto simp: codes_def is_space_def)
  moreover have "map to_lower (codes ''connect'') = codes ''connect''" by (simp add: codes_def to_lower_def)
  ultimately show ?thesis using f parse_u32_dec [OF assms] by (simp add: parse_request_def)
qed



end
