(* ===== verification/IrqManager.thy ===== *)
theory IrqManager
  imports Resources EffLogic
begin

text \<open>
  Interrupts of virtual devices (\<open>dbs_interrupt\<close>, with the features \<open>kvm-legacy-irq\<close> and
  \<open>kvm-msi-irq\<close>, x86_64): the global routing table, interrupt source groups based on KVM, and the
  manager that switches a device between its interrupt modes.

  KVM and event file descriptors are the record \<open>irq_os\<close> of functions over a world \<open>'w\<close>.  Groups
  are shared between the managers and the devices, so they live in a store and are passed around
  as references.  Every method runs under the lock of its object, so it is one state transition.
\<close>

unbundle bit_operations_syntax

type_synonym errno = nat

definition ENOENT :: errno where "ENOENT = 2"
definition EEXIST :: errno where "EEXIST = 17"
definition EINVAL :: errno where "EINVAL = 22"

section \<open>Data\<close>

datatype InterruptSourceType = LegacySource | MsiSource

record MsiIrqSourceConfig =
  high_addr :: "32 word"
  low_addr :: "32 word"
  msi_data :: "32 word"
  msg_ctl :: "32 word"
  msi_device_id :: "nat option"

definition msi_cfg_default :: MsiIrqSourceConfig where
  "msi_cfg_default = \<lparr>high_addr = 0, low_addr = 0, msi_data = 0, msg_ctl = 0, msi_device_id = None\<rparr>"

datatype InterruptSourceConfig = LegacyCfg | MsiCfg MsiIrqSourceConfig

definition MAX_IRQS :: nat where "MAX_IRQS = 1024"
definition DEFAULT_MAX_MSI_IRQS_PER_DEVICE :: nat where "DEFAULT_MAX_MSI_IRQS_PER_DEVICE = 256"
definition MAX_LEGACY_IRQS :: nat where "MAX_LEGACY_IRQS = 24"

text \<open>Routing entries as KVM defines them.\<close>

datatype routing_target =
    Irqchip nat nat  \<comment> \<open>chip, pin\<close>
  | Msi_msg "32 word" "32 word" "32 word" "nat option"  \<comment> \<open>high and low address, data, valid device id\<close>

record routing_entry =
  gsi :: nat
  target :: routing_target

definition entry_type :: "routing_entry \<Rightarrow> nat" where
  "entry_type e = (case target e of Irqchip _ _ \<Rightarrow> 1 | Msi_msg _ _ _ _ \<Rightarrow> 2)"

definition hash_key :: "routing_entry \<Rightarrow> 64 word" where
  "hash_key e =
     (let type1 = (case target e of Irqchip chip _ \<Rightarrow> chip | Msi_msg _ _ _ _ \<Rightarrow> 0) in
      push_bit 48 (of_nat type1) OR push_bit 32 (of_nat (entry_type e)) OR of_nat (gsi e))"

record irq_group =
  grp_type :: InterruptSourceType
  grp_base :: nat
  grp_fds :: "int list"
  grp_cfgs :: "MsiIrqSourceConfig list"

definition grp_len :: "irq_group \<Rightarrow> nat" where
  "grp_len g = length (grp_fds g)"

text \<open>\<open>PartialEq\<close> of groups.\<close>

definition grp_eq :: "irq_group \<Rightarrow> irq_group \<Rightarrow> bool" where
  "grp_eq a b = (grp_type a = grp_type b \<and> grp_len a = grp_len b \<and> grp_base a = grp_base b)"

record 'w irq_os =
  eventfd_new :: "('w, errno, int) eff"
  eventfd_write :: "int \<Rightarrow> nat \<Rightarrow> ('w, errno, unit) eff"
  eventfd_read :: "int \<Rightarrow> ('w, errno, nat) eff"
  register_irqfd :: "int \<Rightarrow> nat \<Rightarrow> ('w, errno, unit) eff"
  unregister_irqfd :: "int \<Rightarrow> nat \<Rightarrow> ('w, errno, unit) eff"
  set_gsi_routing :: "(64 word \<rightharpoonup> routing_entry) \<Rightarrow> ('w, errno, unit) eff"

record 'w irq_state =
  irq_world :: 'w
  irq_store :: "nat \<rightharpoonup> irq_group"
  irq_next :: nat
  irq_groups :: "nat \<rightharpoonup> nat"
  irq_routes :: "64 word \<rightharpoonup> routing_entry"
  max_msi_irqs :: nat

definition KvmIrqManager_new :: "'w \<Rightarrow> 'w irq_state" where
  "KvmIrqManager_new w = \<lparr>irq_world = w, irq_store = Map.empty, irq_next = 0, irq_groups = Map.empty,
     irq_routes = Map.empty, max_msi_irqs = DEFAULT_MAX_MSI_IRQS_PER_DEVICE\<rparr>"

definition set_max_msi_irqs :: "nat \<Rightarrow> 'w irq_state \<Rightarrow> 'w irq_state" where
  "set_max_msi_irqs n s = s\<lparr>max_msi_irqs := n\<rparr>"

definition kvm :: "('w, 'e, 'a) eff \<Rightarrow> ('w irq_state, 'e, 'a) eff" where
  "kvm m = eff_zoom irq_world (\<lambda>w s. s\<lparr>irq_world := w\<rparr>) m"

section \<open>Routing table\<close>

definition set_routing :: "'w irq_os \<Rightarrow> ('w irq_state, errno, unit) eff" where
  "set_routing os = eff_bind eff_get (\<lambda>s. kvm (set_gsi_routing os (irq_routes s)))"

definition add_routes :: "routing_entry list \<Rightarrow> (64 word \<rightharpoonup> routing_entry) \<Rightarrow> (64 word \<rightharpoonup> routing_entry)" where
  "add_routes entries routes = fold (\<lambda>e r. r(hash_key e \<mapsto> e)) entries routes"

definition remove_routes :: "routing_entry list \<Rightarrow> (64 word \<rightharpoonup> routing_entry) \<Rightarrow> (64 word \<rightharpoonup> routing_entry)" where
  "remove_routes entries routes = fold (\<lambda>e r. r(hash_key e := None)) entries routes"

fun check_new :: "(64 word \<rightharpoonup> routing_entry) \<Rightarrow> routing_entry list \<Rightarrow> errno option" where
  "check_new routes [] = None"
| "check_new routes (e # es) =
     (if gsi e \<ge> MAX_IRQS then Some EINVAL
      else if routes (hash_key e) \<noteq> None then Some EEXIST
      else check_new routes es)"

definition routing_add :: "'w irq_os \<Rightarrow> routing_entry list \<Rightarrow> ('w irq_state, errno, unit) eff" where
  "routing_add os entries =
     eff_bind eff_get (\<lambda>s.
     case check_new (irq_routes s) entries of
       Some e \<Rightarrow> eff_fail e
     | None \<Rightarrow> eff_bind (eff_modify (\<lambda>s. s\<lparr>irq_routes := add_routes entries (irq_routes s)\<rparr>)) (\<lambda>_. set_routing os))"

definition routing_remove :: "'w irq_os \<Rightarrow> routing_entry list \<Rightarrow> ('w irq_state, errno, unit) eff" where
  "routing_remove os entries =
     eff_bind (eff_modify (\<lambda>s. s\<lparr>irq_routes := remove_routes entries (irq_routes s)\<rparr>)) (\<lambda>_. set_routing os)"

definition routing_modify :: "'w irq_os \<Rightarrow> routing_entry \<Rightarrow> ('w irq_state, errno, unit) eff" where
  "routing_modify os e =
     eff_bind eff_get (\<lambda>s.
     if irq_routes s (hash_key e) = None then eff_fail ENOENT
     else eff_bind (eff_modify (\<lambda>s. s\<lparr>irq_routes := (irq_routes s)(hash_key e \<mapsto> e)\<rparr>)) (\<lambda>_. set_routing os))"

text \<open>The routes of the two interrupt controllers and the I/O APIC.\<close>

definition add_legacy_entry :: "nat \<Rightarrow> nat \<Rightarrow> nat \<Rightarrow> (64 word \<rightharpoonup> routing_entry) \<Rightarrow> (64 word \<rightharpoonup> routing_entry)" where
  "add_legacy_entry g chip pin routes =
     (let e = \<lparr>gsi = g, target = Irqchip chip pin\<rparr> in routes(hash_key e \<mapsto> e))"

definition initialize_legacy :: "(64 word \<rightharpoonup> routing_entry) \<Rightarrow> (64 word \<rightharpoonup> routing_entry)" where
  "initialize_legacy routes =
     (let r1 = fold (\<lambda>i r. if i \<noteq> 2 then add_legacy_entry i 0 i r else r) [0 ..< 8] routes;
          r2 = fold (\<lambda>i r. add_legacy_entry i 1 (i - 8) r) [8 ..< 16] r1
      in fold (\<lambda>i r. if i = 0 then add_legacy_entry i 2 2 r else if i \<noteq> 2 then add_legacy_entry i 2 i r else r)
           [0 ..< MAX_LEGACY_IRQS] r2)"

definition irq_initialize :: "'w irq_os \<Rightarrow> ('w irq_state, errno, unit) eff" where
  "irq_initialize os = eff_bind (eff_modify (\<lambda>s. s\<lparr>irq_routes := initialize_legacy (irq_routes s)\<rparr>)) (\<lambda>_. set_routing os)"

section \<open>Interrupt source groups\<close>

definition the_group :: "nat \<Rightarrow> ('w irq_state, 'e, irq_group) eff" where
  "the_group g = (\<lambda>s. case irq_store s g of None \<Rightarrow> panic | Some grp \<Rightarrow> ret (Ok grp, s))"

definition new_group :: "irq_group \<Rightarrow> ('w irq_state, 'e, nat) eff" where
  "new_group grp = (\<lambda>s. ret (Ok (irq_next s), s\<lparr>irq_store := (irq_store s)(irq_next s \<mapsto> grp), irq_next := irq_next s + 1\<rparr>))"

definition LegacyIrq_new :: "'w irq_os \<Rightarrow> nat \<Rightarrow> nat \<Rightarrow> ('w irq_state, errno, irq_group) eff" where
  "LegacyIrq_new os base count =
     (if count \<noteq> 1 then eff_fail EINVAL
      else if base \<ge> MAX_LEGACY_IRQS then eff_fail EINVAL
      else eff_bind (kvm (eventfd_new os)) (\<lambda>fd.
        eff_ret \<lparr>grp_type = LegacySource, grp_base = base, grp_fds = [fd], grp_cfgs = []\<rparr>))"

text \<open>\<open>MsiConfig::new\<close> unwraps the creation of its event file descriptor.\<close>

fun new_irqfds :: "'w irq_os \<Rightarrow> nat \<Rightarrow> ('w irq_state, errno, int list) eff" where
  "new_irqfds os 0 = eff_ret []"
| "new_irqfds os (Suc n) = (\<lambda>s. case kvm (eventfd_new os) s of
       Some (Inr fd, s') \<Rightarrow> eff_bind (new_irqfds os n) (\<lambda>fds. eff_ret (fd # fds)) s'
     | _ \<Rightarrow> panic)"

definition MsiIrq_new :: "'w irq_os \<Rightarrow> nat \<Rightarrow> nat \<Rightarrow> ('w irq_state, errno, irq_group) eff" where
  "MsiIrq_new os base count =
     eff_bind eff_get (\<lambda>s.
     if count > max_msi_irqs s \<or> base \<ge> MAX_IRQS then eff_fail EINVAL
     else eff_bind (eff_total (checked_add u32_max base count)) (\<lambda>e.
       if e > MAX_IRQS then eff_fail EINVAL
       else eff_bind (new_irqfds os count) (\<lambda>fds.
         eff_ret \<lparr>grp_type = MsiSource, grp_base = base, grp_fds = fds, grp_cfgs = replicate count msi_cfg_default\<rparr>)))"

definition create_group :: "'w irq_os \<Rightarrow> InterruptSourceType \<Rightarrow> nat \<Rightarrow> nat \<Rightarrow> ('w irq_state, errno, nat) eff" where
  "create_group os ty base count =
     eff_bind (case ty of LegacySource \<Rightarrow> LegacyIrq_new os base count | MsiSource \<Rightarrow> MsiIrq_new os base count) (\<lambda>grp.
     eff_bind (new_group grp) (\<lambda>g.
     eff_bind (eff_modify (\<lambda>s. s\<lparr>irq_groups := (irq_groups s)(base \<mapsto> g)\<rparr>)) (\<lambda>_. eff_ret g)))"

definition destroy_group :: "nat \<Rightarrow> ('w irq_state, errno, unit) eff" where
  "destroy_group g = eff_bind (the_group g) (\<lambda>grp. eff_modify (\<lambda>s. s\<lparr>irq_groups := (irq_groups s)(grp_base grp := None)\<rparr>))"

definition new_msi_routing_entry :: "nat \<Rightarrow> MsiIrqSourceConfig \<Rightarrow> routing_entry" where
  "new_msi_routing_entry g c = \<lparr>gsi = g, target = Msi_msg (high_addr c) (low_addr c) (msi_data c) (msi_device_id c)\<rparr>"

fun msi_entries :: "nat \<Rightarrow> InterruptSourceConfig list \<Rightarrow> routing_entry list option" where
  "msi_entries base [] = Some []"
| "msi_entries base (MsiCfg c # cs) = map_option ((#) (new_msi_routing_entry base c)) (msi_entries (base + 1) cs)"
| "msi_entries base (LegacyCfg # cs) = None"

definition create_msi_routing_entries :: "nat \<Rightarrow> InterruptSourceConfig list \<Rightarrow> errno + routing_entry list" where
  "create_msi_routing_entries base configs =
     (if checked_add u32_max base (length configs) = None then Err EINVAL
      else case msi_entries base configs of None \<Rightarrow> Err EINVAL | Some es \<Rightarrow> Ok es)"

text \<open>Registering the file descriptors \<open>fds\<close> for consecutive interrupts; the first failure ends the loop.\<close>

fun register_fds :: "(int \<Rightarrow> nat \<Rightarrow> ('w, errno, unit) eff) \<Rightarrow> nat \<Rightarrow> int list \<Rightarrow> ('w irq_state, errno, unit) eff" where
  "register_fds f base [] = eff_ret ()"
| "register_fds f base (fd # fds) = eff_bind (kvm (f fd base)) (\<lambda>_. register_fds f (base + 1) fds)"

definition eff_of :: "'e + 'a \<Rightarrow> ('s, 'e, 'a) eff" where
  "eff_of r = (\<lambda>s. ret (r, s))"

definition add_unless_exists :: "'w irq_os \<Rightarrow> routing_entry list \<Rightarrow> ('w irq_state, errno, unit) eff" where
  "add_unless_exists os entries = (\<lambda>s. case routing_add os entries s of
       Some (Inl e, s') \<Rightarrow> if e = EEXIST then ret (Ok (), s') else ret (Err e, s')
     | r \<Rightarrow> r)"

definition grp_enable :: "'w irq_os \<Rightarrow> nat \<Rightarrow> InterruptSourceConfig list \<Rightarrow> ('w irq_state, errno, unit) eff" where
  "grp_enable os g configs =
     eff_bind (the_group g) (\<lambda>grp.
     case grp_type grp of
       LegacySource \<Rightarrow>
         if length configs \<noteq> 1 then eff_fail EINVAL
         else kvm (register_irqfd os (hd (grp_fds grp)) (grp_base grp))
     | MsiSource \<Rightarrow>
         if length configs \<noteq> grp_len grp then eff_fail EINVAL
         else eff_bind (eff_of (create_msi_routing_entries (grp_base grp) configs)) (\<lambda>entries.
              eff_bind (add_unless_exists os entries) (\<lambda>_.
              register_fds (register_irqfd os) (grp_base grp) (grp_fds grp))))"

definition own_entries :: "irq_group \<Rightarrow> routing_entry list" where
  "own_entries grp = map (\<lambda>i. new_msi_routing_entry (grp_base grp + i) (grp_cfgs grp ! i)) [0 ..< grp_len grp]"

definition grp_disable :: "'w irq_os \<Rightarrow> nat \<Rightarrow> ('w irq_state, errno, unit) eff" where
  "grp_disable os g =
     eff_bind (the_group g) (\<lambda>grp.
     case grp_type grp of
       LegacySource \<Rightarrow> kvm (unregister_irqfd os (hd (grp_fds grp)) (grp_base grp))
     | MsiSource \<Rightarrow>
         eff_bind (register_fds (unregister_irqfd os) (grp_base grp) (grp_fds grp)) (\<lambda>_.
         routing_remove os (own_entries grp)))"

definition grp_update :: "'w irq_os \<Rightarrow> nat \<Rightarrow> nat \<Rightarrow> InterruptSourceConfig \<Rightarrow> ('w irq_state, errno, unit) eff" where
  "grp_update os g index config =
     eff_bind (the_group g) (\<lambda>grp.
     case grp_type grp of
       LegacySource \<Rightarrow> if index \<noteq> 0 then eff_fail EINVAL else eff_ret ()
     | MsiSource \<Rightarrow>
         if index \<ge> grp_len grp then eff_fail EINVAL
         else case config of
           LegacyCfg \<Rightarrow> eff_fail EINVAL
         | MsiCfg cfg \<Rightarrow>
             let c = (grp_cfgs grp ! index)\<lparr>high_addr := high_addr cfg, low_addr := low_addr cfg, msi_data := msi_data cfg,
                       msi_device_id := msi_device_id cfg\<rparr>
             in eff_bind (eff_modify (\<lambda>s. s\<lparr>irq_store := (irq_store s)(g \<mapsto> grp\<lparr>grp_cfgs := (grp_cfgs grp)[index := c]\<rparr>)\<rparr>)) (\<lambda>_.
                routing_modify os (new_msi_routing_entry (grp_base grp + index) c)))"

definition grp_notifier :: "irq_group \<Rightarrow> nat \<Rightarrow> int option" where
  "grp_notifier grp index =
     (case grp_type grp of
        LegacySource \<Rightarrow> if index \<noteq> 0 then None else Some (hd (grp_fds grp))
      | MsiSource \<Rightarrow> if index \<ge> grp_len grp then None else Some (grp_fds grp ! index))"

definition grp_trigger :: "'w irq_os \<Rightarrow> nat \<Rightarrow> nat \<Rightarrow> ('w irq_state, errno, unit) eff" where
  "grp_trigger os g index =
     eff_bind (the_group g) (\<lambda>grp.
     case grp_type grp of
       LegacySource \<Rightarrow> if index \<noteq> 0 then eff_fail EINVAL else kvm (eventfd_write os (hd (grp_fds grp)) 1)
     | MsiSource \<Rightarrow> if index \<ge> grp_len grp then eff_fail EINVAL else kvm (eventfd_write os (grp_fds grp ! index) 1))"

text \<open>Masking: a legacy group accepts the indices 0 and 1.\<close>

definition with_irqfd :: "(int \<Rightarrow> nat \<Rightarrow> ('w, errno, unit) eff) \<Rightarrow> nat \<Rightarrow> nat \<Rightarrow> ('w irq_state, errno, unit) eff" where
  "with_irqfd f g index =
     eff_bind (the_group g) (\<lambda>grp.
     case grp_type grp of
       LegacySource \<Rightarrow> if index > 1 then eff_fail EINVAL else kvm (f (hd (grp_fds grp)) (grp_base grp + index))
     | MsiSource \<Rightarrow> if index \<ge> grp_len grp then eff_fail EINVAL else kvm (f (grp_fds grp ! index) (grp_base grp + index)))"

definition grp_mask :: "'w irq_os \<Rightarrow> nat \<Rightarrow> nat \<Rightarrow> ('w irq_state, errno, unit) eff" where
  "grp_mask os = with_irqfd (unregister_irqfd os)"

definition grp_unmask :: "'w irq_os \<Rightarrow> nat \<Rightarrow> nat \<Rightarrow> ('w irq_state, errno, unit) eff" where
  "grp_unmask os = with_irqfd (register_irqfd os)"

text \<open>Reading the counter of the event file descriptor and writing it back.\<close>

definition peek_pending :: "'w irq_os \<Rightarrow> int \<Rightarrow> ('w irq_state, errno, bool) eff" where
  "peek_pending os fd = (\<lambda>s. case kvm (eventfd_read os fd) s of
       None \<Rightarrow> panic
     | Some (Inl _, s') \<Rightarrow> ret (Ok False, s')
     | Some (Inr count, s') \<Rightarrow>
         if count \<noteq> 0 then eff_bind (eff_ignore (kvm (eventfd_write os fd count))) (\<lambda>_. eff_ret True) s' else ret (Ok False, s'))"

definition get_pending_state :: "'w irq_os \<Rightarrow> nat \<Rightarrow> nat \<Rightarrow> ('w irq_state, errno, bool) eff" where
  "get_pending_state os g index =
     eff_bind (the_group g) (\<lambda>grp.
     case grp_type grp of
       LegacySource \<Rightarrow> if index > 1 then eff_ret False else peek_pending os (hd (grp_fds grp))
     | MsiSource \<Rightarrow> if index \<ge> grp_len grp then eff_ret False else peek_pending os (grp_fds grp ! index))"

section \<open>The interrupt manager of a device\<close>

datatype DeviceInterruptMode = Disabled | LegacyIrqMode | GenericMsiIrq | PciMsiIrq | PciMsixIrq

fun mode_index :: "DeviceInterruptMode \<Rightarrow> nat" where
  "mode_index Disabled = 0"
| "mode_index LegacyIrqMode = 1"
| "mode_index GenericMsiIrq = 2"
| "mode_index PciMsiIrq = 3"
| "mode_index PciMsixIrq = 4"

definition MSI_INT_MASK :: "32 word" where "MSI_INT_MASK = push_bit 0 1"

text \<open>\<open>usize::MAX\<close> marks a mode without a group.\<close>

record DeviceInterruptManager =
  intr_mode :: DeviceInterruptMode
  activated :: bool
  current_idx :: nat
  mode2idx :: "nat list"
  intr_groups :: "nat list"
  msi_config :: "InterruptSourceConfig list"
  dev_id :: "nat option"

record 'w dim_state =
  dim :: DeviceInterruptManager
  irqs :: "'w irq_state"

definition d_irq :: "('w irq_state, 'e, 'a) eff \<Rightarrow> ('w dim_state, 'e, 'a) eff" where
  "d_irq m = eff_zoom irqs (\<lambda>t s. s\<lparr>irqs := t\<rparr>) m"

definition d_modify :: "(DeviceInterruptManager \<Rightarrow> DeviceInterruptManager) \<Rightarrow> ('w dim_state, 'e, unit) eff" where
  "d_modify f = eff_modify (\<lambda>s. s\<lparr>dim := f (dim s)\<rparr>)"

definition d_get :: "(DeviceInterruptManager \<Rightarrow> 'a) \<Rightarrow> ('w dim_state, 'e, 'a) eff" where
  "d_get f = (\<lambda>s. ret (Ok (f (dim s)), s))"

definition dim_init :: DeviceInterruptManager where
  "dim_init = \<lparr>intr_mode = Disabled, activated = False, current_idx = u64_max, mode2idx = replicate 5 u64_max,
     intr_groups = [], msi_config = [], dev_id = None\<rparr>"

definition resize_msi_config_space :: "nat \<Rightarrow> DeviceInterruptManager \<Rightarrow> DeviceInterruptManager" where
  "resize_msi_config_space n d = (if length (msi_config d) < n then d\<lparr>msi_config := replicate n (MsiCfg msi_cfg_default)\<rparr> else d)"

definition push_group :: "DeviceInterruptMode \<Rightarrow> nat \<Rightarrow> DeviceInterruptManager \<Rightarrow> DeviceInterruptManager" where
  "push_group mode g d = d\<lparr>mode2idx := (mode2idx d)[mode_index mode := length (intr_groups d)], intr_groups := intr_groups d @ [g]\<rparr>"

definition add_msi_group ::
  "'w irq_os \<Rightarrow> DeviceInterruptMode \<Rightarrow> (nat \<times> nat) option \<Rightarrow> ('w dim_state, errno, unit) eff" where
  "add_msi_group os mode msi =
     (case msi of
        None \<Rightarrow> eff_ret ()
      | Some (base, count) \<Rightarrow>
          eff_bind (d_irq (create_group os MsiSource base count)) (\<lambda>g.
          eff_bind (d_irq (the_group g)) (\<lambda>grp.
          eff_bind (d_modify (resize_msi_config_space (grp_len grp))) (\<lambda>_.
          d_modify (push_group mode g)))))"

definition DeviceInterruptManager_new :: "'w irq_os \<Rightarrow> DeviceResources \<Rightarrow> ('w dim_state, errno, unit) eff" where
  "DeviceInterruptManager_new os resources =
     eff_bind (d_modify (\<lambda>_. dim_init)) (\<lambda>_.
     eff_bind (case get_legacy_irq resources of
         None \<Rightarrow> eff_ret ()
       | Some irq \<Rightarrow> eff_bind (d_irq (create_group os LegacySource irq 1)) (\<lambda>g. d_modify (push_group LegacyIrqMode g))) (\<lambda>_.
     eff_bind (add_msi_group os GenericMsiIrq (get_generic_msi_irqs resources)) (\<lambda>_.
     eff_bind (add_msi_group os PciMsiIrq (get_pci_msi_irqs resources)) (\<lambda>_.
     add_msi_group os PciMsixIrq (get_pci_msix_irqs resources)))))"

definition set_device_id :: "nat option \<Rightarrow> DeviceInterruptManager \<Rightarrow> DeviceInterruptManager" where
  "set_device_id i d = d\<lparr>dev_id := i\<rparr>"

definition dim_is_enabled :: "DeviceInterruptManager \<Rightarrow> bool" where
  "dim_is_enabled d = activated d"

text \<open>An index out of range panics.\<close>

definition vec_at :: "'a list \<Rightarrow> nat \<Rightarrow> 'a may_panic" where
  "vec_at xs i = (if i < length xs then ret (xs ! i) else panic)"

definition reset_configs :: "DeviceInterruptMode \<Rightarrow> DeviceInterruptManager \<Rightarrow> DeviceInterruptManager" where
  "reset_configs mode d =
     (if mode \<in> {GenericMsiIrq, PciMsiIrq, PciMsixIrq}
      then d\<lparr>msi_config := replicate (length (msi_config d)) (MsiCfg msi_cfg_default)\<rparr> else d)"

definition set_working_mode :: "DeviceInterruptMode \<Rightarrow> ('w dim_state, errno, unit) eff" where
  "set_working_mode mode =
     eff_bind (d_get id) (\<lambda>d.
     if activated d then eff_fail EINVAL
     else if mode \<noteq> intr_mode d
     then (if intr_mode d \<noteq> Disabled \<and> intr_mode d \<noteq> LegacyIrqMode \<and> mode \<noteq> LegacyIrqMode \<and> mode \<noteq> Disabled
           then eff_fail EINVAL
           else eff_bind (if mode \<noteq> Disabled then d_modify (\<lambda>d. d\<lparr>current_idx := mode2idx d ! mode_index mode\<rparr>)
                          else d_modify (reset_configs mode)) (\<lambda>_.
                d_modify (\<lambda>d. d\<lparr>intr_mode := mode\<rparr>)))
     else eff_ret ())"

definition get_configs :: "DeviceInterruptMode \<Rightarrow> ('w dim_state, errno, InterruptSourceConfig list) eff" where
  "get_configs mode =
     (case mode of
        Disabled \<Rightarrow> \<lambda>s. panic
      | LegacyIrqMode \<Rightarrow> eff_ret [LegacyCfg]
      | _ \<Rightarrow>
          eff_bind (d_get id) (\<lambda>d.
          eff_bind (eff_total (vec_at (intr_groups d) (mode2idx d ! mode_index mode))) (\<lambda>g.
          eff_bind (d_irq (the_group g)) (\<lambda>grp.
          if grp_len grp \<le> length (msi_config d) then eff_ret (take (grp_len grp) (msi_config d)) else (\<lambda>s. panic)))))"

definition enable_current :: "'w irq_os \<Rightarrow> ('w dim_state, errno, unit) eff" where
  "enable_current os =
     eff_bind (d_get id) (\<lambda>d.
     if intr_mode d = Disabled then eff_fail EINVAL
     else eff_bind (eff_total (vec_at (intr_groups d) (current_idx d))) (\<lambda>g.
          eff_bind (get_configs (intr_mode d)) (\<lambda>cfgs.
          eff_bind (d_irq (grp_enable os g cfgs)) (\<lambda>_.
          d_modify (\<lambda>d. d\<lparr>activated := True\<rparr>)))))"

definition dim_enable :: "'w irq_os \<Rightarrow> ('w dim_state, errno, unit) eff" where
  "dim_enable os =
     eff_bind (d_get id) (\<lambda>d.
     if activated d then eff_ret ()
     else eff_bind (if intr_mode d = Disabled \<and> mode2idx d ! mode_index LegacyIrqMode \<noteq> u64_max
                    then set_working_mode LegacyIrqMode else eff_ret ()) (\<lambda>_.
          enable_current os))"

definition dim_reset :: "'w irq_os \<Rightarrow> ('w dim_state, errno, unit) eff" where
  "dim_reset os =
     eff_bind (d_get id) (\<lambda>d.
     eff_bind (if activated d
               then eff_bind (d_modify (\<lambda>d. d\<lparr>activated := False\<rparr>)) (\<lambda>_.
                    eff_bind (eff_total (vec_at (intr_groups d) (current_idx d))) (\<lambda>g. d_irq (grp_disable os g)))
               else eff_ret ()) (\<lambda>_.
     set_working_mode Disabled))"

definition get_group :: "DeviceInterruptManager \<Rightarrow> nat option may_panic" where
  "get_group d =
     (if \<not> activated d \<or> intr_mode d = Disabled then ret None
      else map_option Some (vec_at (intr_groups d) (current_idx d)))"

definition get_group_unchecked :: "DeviceInterruptManager \<Rightarrow> nat may_panic" where
  "get_group_unchecked d = vec_at (intr_groups d) (current_idx d)"

definition intr_update :: "'w irq_os \<Rightarrow> nat \<Rightarrow> ('w dim_state, errno, unit) eff" where
  "intr_update os index =
     eff_bind (d_get id) (\<lambda>d.
     if \<not> activated d then eff_fail EINVAL
     else if intr_mode d \<in> {GenericMsiIrq, PciMsiIrq, PciMsixIrq}
     then eff_bind (eff_total (vec_at (intr_groups d) (current_idx d))) (\<lambda>g.
          eff_bind (d_irq (the_group g)) (\<lambda>grp.
          if index \<ge> grp_len grp \<or> index \<ge> length (msi_config d) then eff_fail EINVAL
          else d_irq (grp_update os g index (msi_config d ! index))))
     else eff_fail EINVAL)"

text \<open>The setters share the bounds check and the match on the configuration.\<close>

definition with_msi :: "nat \<Rightarrow> (MsiIrqSourceConfig \<Rightarrow> MsiIrqSourceConfig) \<Rightarrow> ('w dim_state, errno, unit) eff" where
  "with_msi index f =
     eff_bind (d_get id) (\<lambda>d.
     if index < length (msi_config d)
     then (case msi_config d ! index of
             MsiCfg c \<Rightarrow> d_modify (\<lambda>d. d\<lparr>msi_config := (msi_config d)[index := MsiCfg (f c)]\<rparr>)
           | LegacyCfg \<Rightarrow> eff_fail EINVAL)
     else eff_fail EINVAL)"

definition set_msi_high_address :: "nat \<Rightarrow> 32 word \<Rightarrow> ('w dim_state, errno, unit) eff" where
  "set_msi_high_address index v = with_msi index (\<lambda>c. c\<lparr>high_addr := v\<rparr>)"

definition set_msi_low_address :: "nat \<Rightarrow> 32 word \<Rightarrow> ('w dim_state, errno, unit) eff" where
  "set_msi_low_address index v = with_msi index (\<lambda>c. c\<lparr>low_addr := v\<rparr>)"

definition set_msi_data :: "nat \<Rightarrow> 32 word \<Rightarrow> ('w dim_state, errno, unit) eff" where
  "set_msi_data index v = with_msi index (\<lambda>c. c\<lparr>msi_data := v\<rparr>)"

definition set_msi_mask :: "nat \<Rightarrow> bool \<Rightarrow> ('w dim_state, errno, unit) eff" where
  "set_msi_mask index masked = with_msi index (\<lambda>c.
     let ctl = msg_ctl c AND NOT MSI_INT_MASK in c\<lparr>msg_ctl := (if masked then ctl OR MSI_INT_MASK else ctl)\<rparr>)"

definition set_msi_device_id :: "nat \<Rightarrow> ('w dim_state, errno, unit) eff" where
  "set_msi_device_id index =
     eff_bind (d_get dev_id) (\<lambda>i. with_msi index (\<lambda>c. c\<lparr>msi_device_id := map_option (\<lambda>d. (d * 2 ^ 3) mod 2 ^ 32) i\<rparr>))"

definition get_msi_mask :: "nat \<Rightarrow> ('w dim_state, errno, bool) eff" where
  "get_msi_mask index =
     eff_bind (d_get id) (\<lambda>d.
     if index < length (msi_config d)
     then (case msi_config d ! index of
             MsiCfg c \<Rightarrow> eff_ret (msg_ctl c AND MSI_INT_MASK = MSI_INT_MASK)
           | LegacyCfg \<Rightarrow> eff_fail EINVAL)
     else eff_fail EINVAL)"

section \<open>Status register and notifiers\<close>

definition isr_read_and_clear :: "32 word \<Rightarrow> 32 word \<times> 32 word" where
  "isr_read_and_clear v = (v, 0)"

definition isr_set_bits :: "32 word \<Rightarrow> 32 word \<Rightarrow> 32 word" where
  "isr_set_bits b v = v OR b"

definition isr_clear_bits :: "32 word \<Rightarrow> 32 word \<Rightarrow> 32 word" where
  "isr_clear_bits b v = v AND NOT b"

datatype InterruptNotifier = Noop | Legacy_notifier nat "32 word" | Msi_notifier nat nat

text \<open>Notification sets the status bits of a legacy interrupt first; the result is the new register.\<close>

definition notifier_notify :: "'w irq_os \<Rightarrow> InterruptNotifier \<Rightarrow> 32 word \<Rightarrow> 'w irq_state \<Rightarrow> ((errno + unit) \<times> 32 word \<times> 'w irq_state) may_panic" where
  "notifier_notify os n isr s =
     (case n of
        Noop \<Rightarrow> ret (Ok (), isr, s)
      | Legacy_notifier g bits \<Rightarrow> map_option (\<lambda>(r, s'). (r, isr_set_bits bits isr, s')) (grp_trigger os g 0 s)
      | Msi_notifier g index \<Rightarrow> map_option (\<lambda>(r, s'). (r, isr, s')) (grp_trigger os g index s))"

end
