(* ===== verification/VirtioMmio.thy ===== *)
theory VirtioMmio
  imports IrqManager Bytes
begin

text \<open>
  The MMIO transport of virtio devices (\<open>dbs_virtio_devices/src/mmio\<close>): the registers a guest
  reads and writes, the status state machine of the driver, queue set-up, activation and reset.

  The virtio device behind the transport is a record of functions over the world (trait
  \<open>VirtioDevice\<close>); the queues of the crate \<open>virtio_queue\<close> are values of a type \<open>'q\<close> with a record of
  operations, as are the KVM calls for I/O events.  The world of the interrupt manager holds them
  all.  A register access holds the lock of the state, so it is one state transition.
\<close>

section \<open>Constants\<close>

definition DEVICE_INIT :: "32 word" where "DEVICE_INIT = 0x0"
definition DEVICE_ACKNOWLEDGE :: "32 word" where "DEVICE_ACKNOWLEDGE = 0x01"
definition DEVICE_DRIVER :: "32 word" where "DEVICE_DRIVER = 0x02"
definition DEVICE_DRIVER_OK :: "32 word" where "DEVICE_DRIVER_OK = 0x04"
definition DEVICE_FEATURES_OK :: "32 word" where "DEVICE_FEATURES_OK = 0x08"
definition DEVICE_FAILED :: "32 word" where "DEVICE_FAILED = 0x80"

definition DEVICE_STATUS_INIT :: "32 word" where "DEVICE_STATUS_INIT = DEVICE_INIT"
definition DEVICE_STATUS_ACKNOWLEDE :: "32 word" where "DEVICE_STATUS_ACKNOWLEDE = DEVICE_STATUS_INIT OR DEVICE_ACKNOWLEDGE"
definition DEVICE_STATUS_DRIVER :: "32 word" where "DEVICE_STATUS_DRIVER = DEVICE_STATUS_ACKNOWLEDE OR DEVICE_DRIVER"
definition DEVICE_STATUS_FEATURE_OK :: "32 word" where "DEVICE_STATUS_FEATURE_OK = DEVICE_STATUS_DRIVER OR DEVICE_FEATURES_OK"
definition DEVICE_STATUS_DRIVER_OK :: "32 word" where "DEVICE_STATUS_DRIVER_OK = DEVICE_STATUS_FEATURE_OK OR DEVICE_DRIVER_OK"

lemma status_vals:
  "DEVICE_STATUS_INIT = 0" "DEVICE_STATUS_ACKNOWLEDE = 1" "DEVICE_STATUS_DRIVER = 3"
  "DEVICE_STATUS_FEATURE_OK = 11" "DEVICE_STATUS_DRIVER_OK = 15"
  by (simp_all add: DEVICE_STATUS_INIT_def DEVICE_STATUS_ACKNOWLEDE_def DEVICE_STATUS_DRIVER_def DEVICE_STATUS_FEATURE_OK_def
      DEVICE_STATUS_DRIVER_OK_def DEVICE_INIT_def DEVICE_ACKNOWLEDGE_def DEVICE_DRIVER_def DEVICE_FEATURES_OK_def DEVICE_DRIVER_OK_def)

abbreviation (input) VIRTIO_INTR_VRING :: "32 word" where "VIRTIO_INTR_VRING \<equiv> 0x01"
abbreviation (input) VIRTIO_INTR_CONFIG :: "32 word" where "VIRTIO_INTR_CONFIG \<equiv> 0x02"

abbreviation (input) MMIO_MAGIC_VALUE :: "32 word" where "MMIO_MAGIC_VALUE \<equiv> 0x74726976"
abbreviation (input) MMIO_VERSION_2 :: "32 word" where "MMIO_VERSION_2 \<equiv> 2"
abbreviation (input) MMIO_NOTIFY_REG_OFFSET :: nat where "MMIO_NOTIFY_REG_OFFSET \<equiv> 0x50"
abbreviation (input) MMIO_DEFAULT_CFG_SIZE :: nat where "MMIO_DEFAULT_CFG_SIZE \<equiv> 0x1000"

abbreviation (input) REG_MMIO_MAGIC_VALUE :: nat where "REG_MMIO_MAGIC_VALUE \<equiv> 0x000"
abbreviation (input) REG_MMIO_VERSION :: nat where "REG_MMIO_VERSION \<equiv> 0x004"
abbreviation (input) REG_MMIO_DEVICE_ID :: nat where "REG_MMIO_DEVICE_ID \<equiv> 0x008"
abbreviation (input) REG_MMIO_VENDOR_ID :: nat where "REG_MMIO_VENDOR_ID \<equiv> 0x00c"
abbreviation (input) REG_MMIO_DEVICE_FEATURE :: nat where "REG_MMIO_DEVICE_FEATURE \<equiv> 0x010"
abbreviation (input) REG_MMIO_DEVICE_FEATURES_S :: nat where "REG_MMIO_DEVICE_FEATURES_S \<equiv> 0x014"
abbreviation (input) REG_MMIO_DRIVER_FEATURE :: nat where "REG_MMIO_DRIVER_FEATURE \<equiv> 0x020"
abbreviation (input) REG_MMIO_DRIVER_FEATURES_S :: nat where "REG_MMIO_DRIVER_FEATURES_S \<equiv> 0x024"
abbreviation (input) REG_MMIO_QUEUE_SEL :: nat where "REG_MMIO_QUEUE_SEL \<equiv> 0x030"
abbreviation (input) REG_MMIO_QUEUE_NUM_MA :: nat where "REG_MMIO_QUEUE_NUM_MA \<equiv> 0x034"
abbreviation (input) REG_MMIO_QUEUE_NUM :: nat where "REG_MMIO_QUEUE_NUM \<equiv> 0x038"
abbreviation (input) REG_MMIO_QUEUE_READY :: nat where "REG_MMIO_QUEUE_READY \<equiv> 0x044"
abbreviation (input) REG_MMIO_QUEUE_NOTIF :: nat where "REG_MMIO_QUEUE_NOTIF \<equiv> 0x050"
abbreviation (input) REG_MMIO_INTERRUPT_STAT :: nat where "REG_MMIO_INTERRUPT_STAT \<equiv> 0x060"
abbreviation (input) REG_MMIO_INTERRUPT_AC :: nat where "REG_MMIO_INTERRUPT_AC \<equiv> 0x064"
abbreviation (input) REG_MMIO_STATUS :: nat where "REG_MMIO_STATUS \<equiv> 0x070"
abbreviation (input) REG_MMIO_QUEUE_DESC_LOW :: nat where "REG_MMIO_QUEUE_DESC_LOW \<equiv> 0x080"
abbreviation (input) REG_MMIO_QUEUE_DESC_HIGH :: nat where "REG_MMIO_QUEUE_DESC_HIGH \<equiv> 0x084"
abbreviation (input) REG_MMIO_QUEUE_AVAIL_LOW :: nat where "REG_MMIO_QUEUE_AVAIL_LOW \<equiv> 0x090"
abbreviation (input) REG_MMIO_QUEUE_AVAIL_HIGH :: nat where "REG_MMIO_QUEUE_AVAIL_HIGH \<equiv> 0x094"
abbreviation (input) REG_MMIO_QUEUE_USED_LOW :: nat where "REG_MMIO_QUEUE_USED_LOW \<equiv> 0x0a0"
abbreviation (input) REG_MMIO_QUEUE_USED_HIGH :: nat where "REG_MMIO_QUEUE_USED_HIGH \<equiv> 0x0a4"
abbreviation (input) REG_MMIO_SHM_SEL :: nat where "REG_MMIO_SHM_SEL \<equiv> 0x0ac"
abbreviation (input) REG_MMIO_SHM_LEN_LOW :: nat where "REG_MMIO_SHM_LEN_LOW \<equiv> 0x0b0"
abbreviation (input) REG_MMIO_SHM_LEN_HIGH :: nat where "REG_MMIO_SHM_LEN_HIGH \<equiv> 0x0b4"
abbreviation (input) REG_MMIO_SHM_BASE_LOW :: nat where "REG_MMIO_SHM_BASE_LOW \<equiv> 0x0b8"
abbreviation (input) REG_MMIO_SHM_BASE_HIGH :: nat where "REG_MMIO_SHM_BASE_HIGH \<equiv> 0x0bc"
abbreviation (input) REG_MMIO_CONFIG_GENERATI :: nat where "REG_MMIO_CONFIG_GENERATI \<equiv> 0x0fc"

abbreviation (input) MMIO_VENDOR_ID_DRAGONBALL :: "32 word" where "MMIO_VENDOR_ID_DRAGONBALL \<equiv> 0xdbfcdb00"
abbreviation (input) DRAGONBALL_FEATURE_MASK :: "32 word" where "DRAGONBALL_FEATURE_MASK \<equiv> 0xff"
abbreviation (input) DRAGONBALL_FEATURE_INTR_USED :: "32 word" where "DRAGONBALL_FEATURE_INTR_USED \<equiv> 0x1"
abbreviation (input) DRAGONBALL_FEATURE_MSI_INTR :: "32 word" where "DRAGONBALL_FEATURE_MSI_INTR \<equiv> 0x2"
abbreviation (input) DRAGONBALL_FEATURE_PER_QUEUE_NOTIFY :: "32 word" where "DRAGONBALL_FEATURE_PER_QUEUE_NOTIFY \<equiv> 0x4"
abbreviation (input) DRAGONBALL_MMIO_DOORBELL_SIZE :: nat where "DRAGONBALL_MMIO_DOORBELL_SIZE \<equiv> 0x1000"
abbreviation (input) DRAGONBALL_MMIO_DOORBELL_OFFSET :: nat where "DRAGONBALL_MMIO_DOORBELL_OFFSET \<equiv> 0x1000"
abbreviation (input) DRAGONBALL_MMIO_DOORBELL_SCALE :: nat where "DRAGONBALL_MMIO_DOORBELL_SCALE \<equiv> 0x04"
abbreviation (input) MMIO_CFG_SPACE_OFF :: nat where "MMIO_CFG_SPACE_OFF \<equiv> 0x100"
abbreviation (input) MMIO_MSI_CSR_SUPPORTED :: "16 word" where "MMIO_MSI_CSR_SUPPORTED \<equiv> 0x8000"
abbreviation (input) MMIO_MSI_CSR_ENABLED :: "16 word" where "MMIO_MSI_CSR_ENABLED \<equiv> 0x8000"
abbreviation (input) MMIO_MSI_CMD_CODE_MASK :: "16 word" where "MMIO_MSI_CMD_CODE_MASK \<equiv> 0xf000"
abbreviation (input) MMIO_MSI_CMD_ARG_MASK :: "16 word" where "MMIO_MSI_CMD_ARG_MASK \<equiv> 0x0fff"
abbreviation (input) MMIO_MSI_CMD_CODE_UPDATE :: "16 word" where "MMIO_MSI_CMD_CODE_UPDATE \<equiv> 0x1000"
abbreviation (input) MMIO_MSI_CMD_CODE_INT_MASK :: "16 word" where "MMIO_MSI_CMD_CODE_INT_MASK \<equiv> 0x2000"
abbreviation (input) MMIO_MSI_CMD_CODE_INT_UNMASK :: "16 word" where "MMIO_MSI_CMD_CODE_INT_UNMASK \<equiv> 0x3000"
abbreviation (input) REG_MMIO_MSI_CSR :: nat where "REG_MMIO_MSI_CSR \<equiv> 0x0c0"
abbreviation (input) REG_MMIO_MSI_COMMAND :: nat where "REG_MMIO_MSI_COMMAND \<equiv> 0x0c2"
abbreviation (input) REG_MMIO_MSI_ADDRESS_L :: nat where "REG_MMIO_MSI_ADDRESS_L \<equiv> 0x0c4"
abbreviation (input) REG_MMIO_MSI_ADDRESS_H :: nat where "REG_MMIO_MSI_ADDRESS_H \<equiv> 0x0c8"
abbreviation (input) REG_MMIO_MSI_DATA :: nat where "REG_MMIO_MSI_DATA \<equiv> 0x0cc"

section \<open>Doorbell and MSI registers\<close>

record DoorBell =
  db_offset :: nat
  db_scale :: nat

definition queue_offset :: "DoorBell \<Rightarrow> nat \<Rightarrow> nat" where
  "queue_offset d i = db_offset d + db_scale d * i"

definition register_data :: "DoorBell \<Rightarrow> 32 word" where
  "register_data d = of_nat (db_offset d) OR push_bit 16 (of_nat (db_scale d))"

record Msi =
  index_select :: "32 word"
  address_low :: "32 word"
  address_high :: "32 word"
  mdata :: "32 word"

definition Msi_default :: Msi where
  "Msi_default = \<lparr>index_select = 0, address_low = 0, address_high = 0, mdata = 0\<rparr>"

section \<open>Interfaces\<close>

datatype ActivateError = InvalidQueueConfig | InternalError | OtherActivateError nat

datatype virtio_error =
    InvalidInput
  | IOError errno
  | VirtioQueueError nat
  | ActivateFailed ActivateError
  | InterruptError errno
  | OtherVirtioError nat

datatype ConfigError = InvalidOffset nat | PlusOverflow nat nat | InvalidOffsetPlusDataLen nat

text \<open>The value an I/O event is matched with; its type decides the width of the access.\<close>

datatype datamatch = NoDatamatch | DataU32 nat | DataU64 nat

record ('q, 'w) QueueT =
  q_new :: "nat \<Rightarrow> nat + 'q"
  q_max_size :: "'q \<Rightarrow> nat"
  q_ready :: "'q \<Rightarrow> bool"
  q_set_size :: "'q \<Rightarrow> 16 word \<Rightarrow> 'q"
  q_set_ready :: "'q \<Rightarrow> bool \<Rightarrow> 'q"
  q_set_desc_table_address :: "'q \<Rightarrow> 32 word option \<Rightarrow> 32 word option \<Rightarrow> 'q"
  q_set_avail_ring_address :: "'q \<Rightarrow> 32 word option \<Rightarrow> 32 word option \<Rightarrow> 'q"
  q_set_used_ring_address :: "'q \<Rightarrow> 32 word option \<Rightarrow> 32 word option \<Rightarrow> 'q"
  q_is_valid :: "'q \<Rightarrow> 'w \<Rightarrow> bool"

record 'q VirtioQueueConfig =
  queue :: 'q
  eventfd :: int
  notifier :: InterruptNotifier
  qindex :: nat

record VirtioSharedMemory =
  shm_offset :: nat
  shm_len :: nat

record VirtioSharedMemoryList =
  host_addr :: nat
  guest_addr :: nat
  region_list :: "VirtioSharedMemory list"

record 'q VirtioDeviceConfig =
  cfg_resources :: DeviceResources
  cfg_queues :: "'q VirtioQueueConfig list"
  cfg_ctrl_queue :: "'q VirtioQueueConfig option"
  cfg_notifier :: InterruptNotifier
  cfg_shm_regions :: "VirtioSharedMemoryList option"

record ('q, 'w) VirtioDevice =
  device_type :: "32 word"
  queue_max_sizes :: "nat list"
  ctrl_queue_max_sizes :: nat
  get_avail_features :: "32 word \<Rightarrow> 'w \<Rightarrow> 32 word"
  vd_set_acked_features :: "32 word \<Rightarrow> 32 word \<Rightarrow> 'w \<Rightarrow> 'w"
  vd_read_config :: "nat \<Rightarrow> byte list \<Rightarrow> 'w \<Rightarrow> byte list \<times> 'w"
  vd_write_config :: "nat \<Rightarrow> byte list \<Rightarrow> 'w \<Rightarrow> 'w"
  vd_activate :: "'q VirtioDeviceConfig \<Rightarrow> ('w, ActivateError, unit) eff"
  vd_reset :: "('w, ActivateError, unit) eff"
  vd_remove :: "'w \<Rightarrow> 'w"
  get_resource_requirements :: "ResourceConstraint list \<Rightarrow> bool \<Rightarrow> ResourceConstraint list"
  vd_set_resource :: "DeviceResources \<Rightarrow> ('w, virtio_error, VirtioSharedMemoryList option) eff"

record 'w mmio_os =
  irq_sys :: "'w irq_os"
  has_ioeventfd_no_length :: "'w \<Rightarrow> bool"
  register_ioevent :: "int \<Rightarrow> nat \<Rightarrow> datamatch \<Rightarrow> ('w, errno, unit) eff"
  unregister_ioevent :: "int \<Rightarrow> nat \<Rightarrow> datamatch \<Rightarrow> ('w, errno, unit) eff"
  drop_memory_slot :: "nat \<Rightarrow> nat \<Rightarrow> nat \<Rightarrow> ('w, errno, unit) eff"

text \<open>
  \<open>vd_read_config\<close> returns the buffer as the device left it; the result of reading and writing the
  configuration is only logged.
\<close>

section \<open>State\<close>

record 'q MmioV2DeviceState =
  intr_mgr :: DeviceInterruptManager
  device_resources :: DeviceResources
  queues :: "'q VirtioQueueConfig list"
  mmio_base :: nat
  has_ctrl_queue :: bool
  device_activated :: bool
  ioevent_registered :: bool
  features_select :: "32 word"
  acked_features_select :: "32 word"
  queue_select :: "32 word"
  msi :: "Msi option"
  doorbell :: "DoorBell option"
  shm_region_id :: "32 word"
  shm_regions :: "VirtioSharedMemoryList option"

record 'q MmioV2Device =
  dstate :: "'q MmioV2DeviceState"
  assigned_resources :: DeviceResources
  mmio_cfg_res :: Resource
  device_vendor :: "32 word"
  driver_status :: "32 word"
  config_generation :: "32 word"
  interrupt_status :: "32 word"

record ('q, 'w) mmio_sys =
  mdev :: "'q MmioV2Device"
  mirqs :: "'w irq_state"

definition x_dev :: "('q MmioV2Device \<Rightarrow> 'q MmioV2Device) \<Rightarrow> (('q, 'w) mmio_sys, 'e, unit) eff" where
  "x_dev f = eff_modify (\<lambda>s. s\<lparr>mdev := f (mdev s)\<rparr>)"

definition x_st :: "('q MmioV2DeviceState \<Rightarrow> 'q MmioV2DeviceState) \<Rightarrow> (('q, 'w) mmio_sys, 'e, unit) eff" where
  "x_st f = x_dev (\<lambda>d. d\<lparr>dstate := f (dstate d)\<rparr>)"

definition x_get :: "('q MmioV2DeviceState \<Rightarrow> 'a) \<Rightarrow> (('q, 'w) mmio_sys, 'e, 'a) eff" where
  "x_get f = (\<lambda>s. ret (Ok (f (dstate (mdev s))), s))"

definition x_irq :: "('w irq_state, 'e, 'a) eff \<Rightarrow> (('q, 'w) mmio_sys, 'e, 'a) eff" where
  "x_irq m = eff_zoom mirqs (\<lambda>t s. s\<lparr>mirqs := t\<rparr>) m"

definition x_world :: "('w, 'e, 'a) eff \<Rightarrow> (('q, 'w) mmio_sys, 'e, 'a) eff" where
  "x_world m = x_irq (kvm m)"

definition x_intr :: "('w dim_state, 'e, 'a) eff \<Rightarrow> (('q, 'w) mmio_sys, 'e, 'a) eff" where
  "x_intr m = eff_zoom (\<lambda>s. \<lparr>dim = intr_mgr (dstate (mdev s)), irqs = mirqs s\<rparr>)
     (\<lambda>t s. s\<lparr>mdev := (mdev s)\<lparr>dstate := (dstate (mdev s))\<lparr>intr_mgr := dim t\<rparr>\<rparr>, mirqs := irqs t\<rparr>) m"

section \<open>I/O events\<close>

definition u64_add :: "nat \<Rightarrow> nat \<Rightarrow> (('q, 'w) mmio_sys, 'e, nat) eff" where
  "u64_add a b = eff_total (checked_add u64_max a b)"

definition doorbell_addr :: "DoorBell \<Rightarrow> nat \<Rightarrow> (('q, 'w) mmio_sys, 'e, nat) eff" where
  "doorbell_addr d i = eff_bind (x_get mmio_base) (\<lambda>b. u64_add b (queue_offset d i))"

fun unregister_doorbells ::
  "'w mmio_os \<Rightarrow> DoorBell \<Rightarrow> nat \<Rightarrow> 'q VirtioQueueConfig list \<Rightarrow> (('q, 'w) mmio_sys, 'e, unit) eff" where
  "unregister_doorbells os d i [] = eff_ret ()"
| "unregister_doorbells os d i (q # qs) =
     eff_bind (doorbell_addr d i) (\<lambda>a.
     eff_bind (eff_ignore (x_world (unregister_ioevent os (eventfd q) a NoDatamatch))) (\<lambda>_.
     unregister_doorbells os d (i + 1) qs))"

definition unregister_ioevent_doorbell :: "'w mmio_os \<Rightarrow> (('q, 'w) mmio_sys, 'e, unit) eff" where
  "unregister_ioevent_doorbell os =
     eff_bind (x_get doorbell) (\<lambda>db. case db of
       None \<Rightarrow> eff_ret ()
     | Some d \<Rightarrow> eff_bind (x_get queues) (\<lambda>qs. unregister_doorbells os d 0 qs))"

fun unregister_notify ::
  "'w mmio_os \<Rightarrow> nat \<Rightarrow> nat \<Rightarrow> 'q VirtioQueueConfig list \<Rightarrow> (('q, 'w) mmio_sys, 'e, unit) eff" where
  "unregister_notify os a i [] = eff_ret ()"
| "unregister_notify os a i (q # qs) =
     eff_bind (eff_ignore (x_world (unregister_ioevent os (eventfd q) a (DataU32 i)))) (\<lambda>_.
     eff_bind (x_st (\<lambda>st. st\<lparr>ioevent_registered := False\<rparr>)) (\<lambda>_.
     unregister_notify os a (i + 1) qs))"

definition unregister_ioevents :: "'w mmio_os \<Rightarrow> (('q, 'w) mmio_sys, 'e, unit) eff" where
  "unregister_ioevents os =
     eff_bind (x_get ioevent_registered) (\<lambda>reg.
     if reg
     then eff_bind (x_get mmio_base) (\<lambda>b.
          eff_bind (u64_add b MMIO_NOTIFY_REG_OFFSET) (\<lambda>a.
          eff_bind (x_get queues) (\<lambda>qs. unregister_notify os a 0 qs)))
     else eff_ret ())"

text \<open>The loop of \<open>revert_ioevent\<close> goes from \<open>num\<close> down; the value to match is taken before the decrement.\<close>

fun revert_loop ::
  "'w mmio_os \<Rightarrow> 'q VirtioQueueConfig list \<Rightarrow> nat \<Rightarrow> bool \<Rightarrow> nat \<Rightarrow> (('q, 'w) mmio_sys, 'e, unit) eff" where
  "revert_loop os qs a wildcard 0 = eff_ret ()"
| "revert_loop os qs a wildcard (Suc idx) =
     eff_bind (eff_ignore (x_world (unregister_ioevent os (eventfd (qs ! idx)) a
        (if wildcard then DataU64 0 else DataU64 (Suc idx))))) (\<lambda>_.
     revert_loop os qs a wildcard idx)"

definition revert_ioevent :: "'w mmio_os \<Rightarrow> nat \<Rightarrow> nat \<Rightarrow> bool \<Rightarrow> (('q, 'w) mmio_sys, 'e, unit) eff" where
  "revert_ioevent os num a wildcard =
     eff_bind (x_get queues) (\<lambda>qs. if num < length qs then revert_loop os qs a wildcard num else (\<lambda>s. panic))"

definition on_err :: "(('q, 'w) mmio_sys, errno, unit) eff \<Rightarrow> (('q, 'w) mmio_sys, virtio_error, unit) eff \<Rightarrow> (('q, 'w) mmio_sys, virtio_error, unit) eff" where
  "on_err m h = (\<lambda>s. case m s of
       None \<Rightarrow> panic
     | Some (Inl e, s') \<Rightarrow> eff_bind h (\<lambda>_. eff_fail (IOError e)) s'
     | Some (Inr u, s') \<Rightarrow> ret (Ok u, s'))"

fun register_loop_ioevent ::
  "'w mmio_os \<Rightarrow> nat \<Rightarrow> 'q VirtioQueueConfig list \<Rightarrow> (('q, 'w) mmio_sys, virtio_error, unit) eff" where
  "register_loop_ioevent os i [] = eff_ret ()"
| "register_loop_ioevent os i (q # qs) =
     eff_bind (eff_bind (x_get doorbell) (\<lambda>db. case db of
         None \<Rightarrow> eff_ret ()
       | Some d \<Rightarrow>
           eff_bind (doorbell_addr d i) (\<lambda>a.
           on_err (x_world (register_ioevent os (eventfd q) a NoDatamatch)) (revert_ioevent os i a True)))) (\<lambda>_.
     eff_bind (x_get mmio_base) (\<lambda>b.
     eff_bind (u64_add b MMIO_NOTIFY_REG_OFFSET) (\<lambda>a.
     eff_bind (on_err (x_world (register_ioevent os (eventfd q) a (DataU32 i)))
                 (eff_bind (unregister_ioevent_doorbell os) (\<lambda>_. revert_ioevent os i a False))) (\<lambda>_.
     register_loop_ioevent os (i + 1) qs))))"

definition register_ioevents :: "'w mmio_os \<Rightarrow> (('q, 'w) mmio_sys, virtio_error, unit) eff" where
  "register_ioevents os =
     eff_bind (x_get queues) (\<lambda>qs.
     eff_bind (register_loop_ioevent os 0 qs) (\<lambda>_.
     x_st (\<lambda>st. st\<lparr>ioevent_registered := True\<rparr>)))"

section \<open>Creation\<close>

definition new_queue_config :: "'w mmio_os \<Rightarrow> ('q, 'w) QueueT \<Rightarrow> nat \<Rightarrow> nat \<Rightarrow> ('w irq_state, virtio_error, 'q VirtioQueueConfig) eff" where
  "new_queue_config os qt sz i =
     eff_bind (eff_map_err IOError (kvm (eventfd_new (irq_sys os)))) (\<lambda>fd.
     case q_new qt sz of
       Inl e \<Rightarrow> eff_fail (VirtioQueueError e)
     | Inr q \<Rightarrow> eff_ret \<lparr>queue = q, eventfd = fd, notifier = Noop, qindex = i mod 2 ^ 16\<rparr>)"

fun create_queue_list ::
  "'w mmio_os \<Rightarrow> ('q, 'w) QueueT \<Rightarrow> nat \<Rightarrow> nat list \<Rightarrow> ('w irq_state, virtio_error, 'q VirtioQueueConfig list) eff" where
  "create_queue_list os qt i [] = eff_ret []"
| "create_queue_list os qt i (sz # szs) =
     eff_bind (new_queue_config os qt sz i) (\<lambda>q.
     eff_bind (create_queue_list os qt (i + 1) szs) (\<lambda>qs. eff_ret (q # qs)))"

definition create_queues ::
  "'w mmio_os \<Rightarrow> ('q, 'w) QueueT \<Rightarrow> ('q, 'w) VirtioDevice \<Rightarrow> ('w irq_state, virtio_error, 'q VirtioQueueConfig list \<times> bool) eff" where
  "create_queues os qt vd =
     eff_bind (create_queue_list os qt 0 (queue_max_sizes vd)) (\<lambda>qs.
     if ctrl_queue_max_sizes vd > 0
     then eff_bind (new_queue_config os qt (ctrl_queue_max_sizes vd) (length qs)) (\<lambda>q. eff_ret (qs @ [q], True))
     else eff_ret (qs, False))"

definition run_dim :: "('w dim_state, 'e, unit) eff \<Rightarrow> ('w irq_state, 'e, DeviceInterruptManager) eff" where
  "run_dim m = (\<lambda>t. case m \<lparr>dim = dim_init, irqs = t\<rparr> of
       None \<Rightarrow> panic
     | Some (Inl e, d) \<Rightarrow> ret (Err e, irqs d)
     | Some (Inr _, d) \<Rightarrow> ret (Ok (dim d), irqs d))"

definition MmioV2DeviceState_new ::
  "'w mmio_os \<Rightarrow> ('q, 'w) QueueT \<Rightarrow> ('q, 'w) VirtioDevice \<Rightarrow> DeviceResources \<Rightarrow> nat \<Rightarrow> bool \<Rightarrow>
     ('w irq_state, virtio_error, 'q MmioV2DeviceState) eff" where
  "MmioV2DeviceState_new os qt vd resources base doorbell_enabled =
     eff_bind (eff_map_err IOError (run_dim (DeviceInterruptManager_new (irq_sys os) resources))) (\<lambda>im.
     eff_bind (create_queues os qt vd) (\<lambda>(qs, ctrl).
     eff_bind (kvm (vd_set_resource vd resources)) (\<lambda>shm.
     eff_ret \<lparr>intr_mgr = im, device_resources = resources, queues = qs, mmio_base = base, has_ctrl_queue = ctrl,
       device_activated = False, ioevent_registered = False, features_select = 0, acked_features_select = 0,
       queue_select = 0, msi = None,
       doorbell = (if doorbell_enabled
                   then Some \<lparr>db_offset = DRAGONBALL_MMIO_DOORBELL_OFFSET, db_scale = DRAGONBALL_MMIO_DOORBELL_SCALE\<rparr> else None),
       shm_region_id = 0, shm_regions = shm\<rparr>)))"

text \<open>The first range of the size of the register window is the transport's; the device gets the others.\<close>

fun split_cfg :: "DeviceResources \<Rightarrow> Resource option \<Rightarrow> DeviceResources \<Rightarrow> Resource option \<times> DeviceResources" where
  "split_cfg [] found rest = (found, rest)"
| "split_cfg (res # rs) found rest =
     (case res of
        MmioAddressRange base sz \<Rightarrow>
          if found = None \<and> sz = MMIO_DEFAULT_CFG_SIZE + DRAGONBALL_MMIO_DOORBELL_SIZE
          then split_cfg rs (Some res) rest else split_cfg rs found (dr_append rest res)
      | _ \<Rightarrow> split_cfg rs found (dr_append rest res))"

definition res_base :: "Resource \<Rightarrow> nat" where
  "res_base res = (case res of MmioAddressRange base _ \<Rightarrow> base | _ \<Rightarrow> 0)"

definition MmioV2Device_new ::
  "'w mmio_os \<Rightarrow> ('q, 'w) QueueT \<Rightarrow> ('q, 'w) VirtioDevice \<Rightarrow> DeviceResources \<Rightarrow> 32 word option \<Rightarrow>
     ('w irq_state, virtio_error, 'q MmioV2Device) eff" where
  "MmioV2Device_new os qt vd resources features =
     (case split_cfg resources None dr_new of
        (None, _) \<Rightarrow> eff_fail InvalidInput
      | (Some cfg, dev_resources) \<Rightarrow>
          let msi_feature = (if get_generic_msi_irqs resources \<noteq> None then DRAGONBALL_FEATURE_MSI_INTR else 0) in
          eff_bind eff_get (\<lambda>t.
          let (doorbell_enabled, features') =
                (case features of
                   None \<Rightarrow> (False, None)
                 | Some ft \<Rightarrow>
                     if ft AND DRAGONBALL_FEATURE_PER_QUEUE_NOTIFY \<noteq> 0 \<and> has_ioeventfd_no_length os (irq_world t)
                     then (True, Some ft) else (False, Some (ft AND NOT DRAGONBALL_FEATURE_PER_QUEUE_NOTIFY))) in
          eff_bind (MmioV2DeviceState_new os qt vd dev_resources (res_base cfg) doorbell_enabled) (\<lambda>st.
          eff_ret \<lparr>dstate = st, assigned_resources = resources, mmio_cfg_res = cfg,
            device_vendor = (MMIO_VENDOR_ID_DRAGONBALL OR msi_feature) OR
              (case features' of None \<Rightarrow> 0 | Some ft \<Rightarrow> ft AND DRAGONBALL_FEATURE_MASK),
            driver_status = DEVICE_INIT, config_generation = 0, interrupt_status = 0\<rparr>)))"

section \<open>Activation and reset\<close>

definition create_notifier :: "irq_group \<Rightarrow> nat \<Rightarrow> 32 word \<Rightarrow> nat \<Rightarrow> InterruptNotifier" where
  "create_notifier grp g bits i =
     (case grp_type grp of LegacySource \<Rightarrow> Legacy_notifier g bits | MsiSource \<Rightarrow> Msi_notifier g i)"

text \<open>\<open>get_group().unwrap()\<close>\<close>

definition active_group :: "(('q, 'w) mmio_sys, 'e, nat) eff" where
  "active_group = eff_bind (x_get intr_mgr) (\<lambda>d. case get_group d of Some (Some g) \<Rightarrow> eff_ret g | _ \<Rightarrow> (\<lambda>s. panic))"

definition create_queue_config :: "(('q, 'w) mmio_sys, virtio_error, 'q VirtioQueueConfig list) eff" where
  "create_queue_config =
     eff_bind active_group (\<lambda>g.
     eff_bind (x_irq (the_group g)) (\<lambda>grp.
     eff_bind (x_get queues) (\<lambda>qs.
     eff_ret (map (\<lambda>q. \<lparr>queue = queue q, eventfd = eventfd q,
                notifier = create_notifier grp g VIRTIO_INTR_VRING (qindex q + 1), qindex = qindex q\<rparr>) qs))))"

definition create_device_config :: "(('q, 'w) mmio_sys, virtio_error, 'q VirtioDeviceConfig) eff" where
  "create_device_config =
     eff_bind create_queue_config (\<lambda>qs.
     eff_bind (x_get has_ctrl_queue) (\<lambda>ctrl.
     eff_bind active_group (\<lambda>g.
     eff_bind (x_irq (the_group g)) (\<lambda>grp.
     eff_bind (x_get device_resources) (\<lambda>res.
     eff_bind (x_get shm_regions) (\<lambda>shm.
     eff_ret \<lparr>cfg_resources = res, cfg_queues = (if ctrl then butlast qs else qs),
       cfg_ctrl_queue = (if ctrl \<and> qs \<noteq> [] then Some (last qs) else None),
       cfg_notifier = create_notifier grp g VIRTIO_INTR_CONFIG 0, cfg_shm_regions = shm\<rparr>))))))"

definition check_queues_valid :: "('q, 'w) QueueT \<Rightarrow> (('q, 'w) mmio_sys, 'e, bool) eff" where
  "check_queues_valid qt = (\<lambda>s. ret (Ok (list_all (\<lambda>c. q_is_valid qt (queue c) (irq_world (mirqs s))) (queues (dstate (mdev s)))), s))"

definition mmio_activate ::
  "'w mmio_os \<Rightarrow> ('q, 'w) QueueT \<Rightarrow> ('q, 'w) VirtioDevice \<Rightarrow> (('q, 'w) mmio_sys, virtio_error, unit) eff" where
  "mmio_activate os qt vd =
     eff_bind (x_get device_activated) (\<lambda>act.
     if act then eff_ret ()
     else eff_bind (check_queues_valid qt) (\<lambda>ok.
       if \<not> ok then eff_fail (ActivateFailed InvalidQueueConfig)
       else
         eff_bind (register_ioevents os) (\<lambda>_.
         eff_bind (eff_map_err IOError (x_intr (dim_enable (irq_sys os)))) (\<lambda>_.
         eff_bind create_device_config (\<lambda>cfg.
         eff_bind (eff_map_err ActivateFailed (x_world (vd_activate vd cfg))) (\<lambda>_.
         x_st (\<lambda>st. st\<lparr>device_activated := True\<rparr>)))))))"

definition deactivate :: "(('q, 'w) mmio_sys, 'e, unit) eff" where
  "deactivate = x_st (\<lambda>st. if device_activated st then st\<lparr>device_activated := False\<rparr> else st)"

text \<open>New queues one by one; a queue that cannot be created ends the loop with the earlier ones replaced.\<close>

fun reset_queues :: "('q, 'w) QueueT \<Rightarrow> 'q VirtioQueueConfig list \<Rightarrow> nat option \<times> 'q VirtioQueueConfig list" where
  "reset_queues qt [] = (None, [])"
| "reset_queues qt (c # cs) =
     (case q_new qt (q_max_size qt (queue c)) of
        Inl e \<Rightarrow> (Some e, c # cs)
      | Inr q \<Rightarrow> (let (r, cs') = reset_queues qt cs in (r, c\<lparr>queue := q\<rparr> # cs')))"

definition mmio_reset :: "'w mmio_os \<Rightarrow> ('q, 'w) QueueT \<Rightarrow> (('q, 'w) mmio_sys, virtio_error, unit) eff" where
  "mmio_reset os qt =
     eff_bind (x_get id) (\<lambda>st.
     if device_activated st then eff_ret ()
     else
       let (failed, qs) = reset_queues qt (queues st) in
       eff_bind (x_st (\<lambda>st. st\<lparr>queues := qs\<rparr>)) (\<lambda>_.
       case failed of
         Some e \<Rightarrow> eff_fail (VirtioQueueError e)
       | None \<Rightarrow>
           eff_bind (eff_ignore (x_intr (dim_reset (irq_sys os)))) (\<lambda>_.
           eff_bind (unregister_ioevent_doorbell os) (\<lambda>_.
           eff_bind (unregister_ioevents os) (\<lambda>_.
           x_st (\<lambda>st. st\<lparr>features_select := 0, acked_features_select := 0, queue_select := 0, msi := None, doorbell := None\<rparr>))))))"

section \<open>Driver status\<close>

definition set_driver_failed :: "(('q, 'w) mmio_sys, 'e, unit) eff" where
  "set_driver_failed = x_dev (\<lambda>d. d\<lparr>driver_status := driver_status d OR DEVICE_FAILED\<rparr>)"

definition check_driver_status :: "32 word \<Rightarrow> 32 word \<Rightarrow> 'q MmioV2Device \<Rightarrow> bool" where
  "check_driver_status set_bits clr d = (driver_status d AND (set_bits OR clr) = set_bits)"

text \<open>\<open>compare_exchange\<close>: the result tells whether the exchange was made.\<close>

definition exchange_driver_status :: "32 word \<Rightarrow> 32 word \<Rightarrow> (('q, 'w) mmio_sys, 'e, bool) eff" where
  "exchange_driver_status old new = (\<lambda>s.
     if driver_status (mdev s) = old then ret (Ok True, s\<lparr>mdev := (mdev s)\<lparr>driver_status := new\<rparr>\<rparr>) else ret (Ok False, s))"

definition succeeds :: "(('q, 'w) mmio_sys, 'e, unit) eff \<Rightarrow> (('q, 'w) mmio_sys, 'f, bool) eff" where
  "succeeds m = (\<lambda>s. case m s of None \<Rightarrow> panic | Some (Inl _, s') \<Rightarrow> ret (Ok False, s') | Some (Inr _, s') \<Rightarrow> ret (Ok True, s'))"

definition go_driver_ok ::
  "'w mmio_os \<Rightarrow> ('q, 'w) QueueT \<Rightarrow> ('q, 'w) VirtioDevice \<Rightarrow> (('q, 'w) mmio_sys, 'e, bool) eff" where
  "go_driver_ok os qt vd =
     eff_bind (exchange_driver_status DEVICE_STATUS_FEATURE_OK DEVICE_STATUS_DRIVER_OK) (\<lambda>ok.
     if ok
     then eff_bind (succeeds (mmio_activate os qt vd)) (\<lambda>active.
          if active then eff_ret True else eff_bind (eff_ignore (mmio_reset os qt)) (\<lambda>_. eff_ret False))
     else eff_ret False)"

definition go_reset ::
  "'w mmio_os \<Rightarrow> ('q, 'w) QueueT \<Rightarrow> ('q, 'w) VirtioDevice \<Rightarrow> (('q, 'w) mmio_sys, 'e, bool) eff" where
  "go_reset os qt vd =
     eff_bind eff_get (\<lambda>s.
     if driver_status (mdev s) = DEVICE_INIT then eff_ret True
     else if device_activated (dstate (mdev s))
     then eff_bind (succeeds (x_world (vd_reset vd))) (\<lambda>ok.
          if \<not> ok then eff_ret False
          else eff_bind deactivate (\<lambda>_.
               eff_bind (succeeds (mmio_reset os qt)) (\<lambda>ok.
               if ok then exchange_driver_status DEVICE_STATUS_DRIVER_OK DEVICE_STATUS_INIT else eff_ret False)))
     else eff_ret False)"

definition update_driver_status ::
  "'w mmio_os \<Rightarrow> ('q, 'w) QueueT \<Rightarrow> ('q, 'w) VirtioDevice \<Rightarrow> 32 word \<Rightarrow> (('q, 'w) mmio_sys, 'e, unit) eff" where
  "update_driver_status os qt vd v =
     eff_bind
       (if v = DEVICE_STATUS_ACKNOWLEDE then exchange_driver_status DEVICE_STATUS_INIT DEVICE_STATUS_ACKNOWLEDE
        else if v = DEVICE_STATUS_DRIVER then exchange_driver_status DEVICE_STATUS_ACKNOWLEDE DEVICE_STATUS_DRIVER
        else if v = DEVICE_STATUS_FEATURE_OK then exchange_driver_status DEVICE_STATUS_DRIVER DEVICE_STATUS_FEATURE_OK
        else if v = DEVICE_STATUS_DRIVER_OK then go_driver_ok os qt vd
        else if v = 0 then go_reset os qt vd
        else eff_bind eff_get (\<lambda>s.
          if v = driver_status (mdev s) then eff_ret True
          else if v AND DEVICE_FAILED \<noteq> 0 then eff_bind set_driver_failed (\<lambda>_. eff_ret True)
          else eff_ret False)) (\<lambda>ok.
     if ok then eff_ret () else set_driver_failed)"

section \<open>Queues, features and configuration\<close>

definition with_queue :: "32 word \<Rightarrow> ('q \<Rightarrow> 32 word) \<Rightarrow> 'q MmioV2DeviceState \<Rightarrow> 32 word" where
  "with_queue d f st = (if unat (queue_select st) < length (queues st) then f (queue (queues st ! unat (queue_select st))) else d)"

definition with_queue_mut :: "('q \<Rightarrow> 'q) \<Rightarrow> 'q MmioV2DeviceState \<Rightarrow> 'q MmioV2DeviceState" where
  "with_queue_mut f st =
     (let i = unat (queue_select st) in
      if i < length (queues st) then st\<lparr>queues := (queues st)[i := (queues st ! i)\<lparr>queue := f (queue (queues st ! i))\<rparr>]\<rparr> else st)"

definition update_queue_field :: "('q \<Rightarrow> 'q) \<Rightarrow> (('q, 'w) mmio_sys, 'e, unit) eff" where
  "update_queue_field f =
     eff_bind eff_get (\<lambda>s.
     if check_driver_status DEVICE_FEATURES_OK (DEVICE_DRIVER_OK OR DEVICE_FAILED) (mdev s)
     then x_st (with_queue_mut f) else eff_ret ())"

definition tweak_intr_flags :: "'q MmioV2Device \<Rightarrow> 32 word \<Rightarrow> 32 word" where
  "tweak_intr_flags d flags =
     (if device_vendor d AND DRAGONBALL_FEATURE_INTR_USED \<noteq> 0 then flags OR VIRTIO_INTR_VRING else flags)"

definition device_features :: "('q, 'w) VirtioDevice \<Rightarrow> ('q, 'w) mmio_sys \<Rightarrow> 32 word" where
  "device_features vd s =
     (let sel = features_select (dstate (mdev s)); f = get_avail_features vd sel (irq_world (mirqs s)) in
      if sel = 1 then f OR 1 else f)"

definition set_acked_features :: "('q, 'w) VirtioDevice \<Rightarrow> 32 word \<Rightarrow> (('q, 'w) mmio_sys, 'e, unit) eff" where
  "set_acked_features vd v =
     eff_bind eff_get (\<lambda>s.
     if check_driver_status DEVICE_DRIVER (DEVICE_FEATURES_OK OR DEVICE_FAILED) (mdev s)
     then x_world (eff_modify (vd_set_acked_features vd (acked_features_select (dstate (mdev s))) v)) else eff_ret ())"

definition get_device_config :: "('q, 'w) VirtioDevice \<Rightarrow> nat \<Rightarrow> byte list \<Rightarrow> (('q, 'w) mmio_sys, 'e, byte list) eff" where
  "get_device_config vd offset data =
     eff_bind eff_get (\<lambda>s.
     if check_driver_status DEVICE_DRIVER DEVICE_FAILED (mdev s)
     then x_world (\<lambda>w. case vd_read_config vd offset data w of (data', w') \<Rightarrow> ret (Ok data', w')) else eff_ret data)"

definition set_device_config :: "('q, 'w) VirtioDevice \<Rightarrow> nat \<Rightarrow> byte list \<Rightarrow> (('q, 'w) mmio_sys, 'e, unit) eff" where
  "set_device_config vd offset data =
     eff_bind eff_get (\<lambda>s.
     if check_driver_status DEVICE_DRIVER DEVICE_FAILED (mdev s)
     then x_world (eff_modify (vd_write_config vd offset data)) else eff_ret ())"

text \<open>A field of the selected shared memory region.\<close>

definition get_shm_field :: "(VirtioSharedMemory \<Rightarrow> 32 word may_panic) \<Rightarrow> 'q MmioV2DeviceState \<Rightarrow> 32 word may_panic" where
  "get_shm_field f st =
     (case shm_regions st of
        None \<Rightarrow> ret 0xffffffff
      | Some l \<Rightarrow>
          if unat (shm_region_id st) < length (region_list l) then f (region_list l ! unat (shm_region_id st)) else ret 0xffffffff)"

definition shm_base :: "'q MmioV2DeviceState \<Rightarrow> VirtioSharedMemory \<Rightarrow> nat may_panic" where
  "shm_base st r = checked_add u64_max (shm_offset r) (case shm_regions st of None \<Rightarrow> 0 | Some l \<Rightarrow> guest_addr l)"

definition get_shm_base_low :: "'q MmioV2DeviceState \<Rightarrow> 32 word may_panic" where
  "get_shm_base_low st = get_shm_field (\<lambda>r. map_option of_nat (shm_base st r)) st"

definition get_shm_base_high :: "'q MmioV2DeviceState \<Rightarrow> 32 word may_panic" where
  "get_shm_base_high st = get_shm_field (\<lambda>r. map_option (\<lambda>b. of_nat (b div 2 ^ 32)) (shm_base st r)) st"

section \<open>MSI\<close>

definition update_msi_enable :: "16 word \<Rightarrow> (('q, 'w) mmio_sys, 'e, unit) eff" where
  "update_msi_enable v =
     eff_bind eff_get (\<lambda>s.
     if driver_status (mdev s) AND DEVICE_DRIVER_OK \<noteq> 0
     then (if driver_status (mdev s) AND DEVICE_FAILED = 0 then set_driver_failed else eff_ret ())
     else if v AND MMIO_MSI_CSR_ENABLED \<noteq> 0
     then (if msi (dstate (mdev s)) = None
           then eff_bind (succeeds (x_intr (set_working_mode GenericMsiIrq))) (\<lambda>ok.
                if ok then x_st (\<lambda>st. st\<lparr>msi := Some Msi_default\<rparr>) else set_driver_failed)
           else eff_ret ())
     else if msi (dstate (mdev s)) \<noteq> None
     then eff_bind (succeeds (x_intr (set_working_mode LegacyIrqMode))) (\<lambda>ok.
          if ok then x_st (\<lambda>st. st\<lparr>msi := None\<rparr>) else set_driver_failed)
     else eff_ret ())"

definition update_msi_cfg :: "'w mmio_os \<Rightarrow> 16 word \<Rightarrow> (('q, 'w) mmio_sys, virtio_error, unit) eff" where
  "update_msi_cfg os v =
     eff_bind (x_get msi) (\<lambda>old. case old of
       None \<Rightarrow> eff_ret ()
     | Some m \<Rightarrow>
         let i = unat v in
         eff_bind (x_st (\<lambda>st. st\<lparr>msi := Some (m\<lparr>index_select := ucast v\<rparr>)\<rparr>)) (\<lambda>_.
         eff_bind (eff_map_err InterruptError (x_intr (set_msi_low_address i (address_low m)))) (\<lambda>_.
         eff_bind (eff_map_err InterruptError (x_intr (set_msi_high_address i (address_high m)))) (\<lambda>_.
         eff_bind (eff_map_err InterruptError (x_intr (set_msi_data i (mdata m)))) (\<lambda>_.
         eff_bind (x_get intr_mgr) (\<lambda>d.
         if dim_is_enabled d then eff_map_err InterruptError (x_intr (intr_update (irq_sys os) i)) else eff_ret ()))))))"

definition mask_msi_int :: "'w mmio_os \<Rightarrow> nat \<Rightarrow> bool \<Rightarrow> (('q, 'w) mmio_sys, virtio_error, unit) eff" where
  "mask_msi_int os index masked =
     eff_bind (x_get intr_mgr) (\<lambda>d.
     if \<not> dim_is_enabled d then eff_ret ()
     else eff_bind (eff_total (get_group d)) (\<lambda>group. case group of
         None \<Rightarrow> eff_ret ()
       | Some g \<Rightarrow>
           eff_bind (eff_map_err InterruptError (x_intr (get_msi_mask index))) (\<lambda>old.
           if \<not> old \<and> masked
           then eff_bind (eff_map_err IOError (x_irq (grp_mask (irq_sys os) g index))) (\<lambda>_.
                eff_map_err InterruptError (x_intr (set_msi_mask index True)))
           else if old \<and> \<not> masked
           then eff_bind (eff_map_err IOError (x_irq (grp_unmask (irq_sys os) g index))) (\<lambda>_.
                eff_map_err InterruptError (x_intr (set_msi_mask index False)))
           else eff_ret ())))"

text \<open>Errors of a command are only logged.\<close>

definition handle_msi_cmd ::
  "'w mmio_os \<Rightarrow> ('q, 'w) VirtioDevice \<Rightarrow> 16 word \<Rightarrow> (('q, 'w) mmio_sys, 'e, unit) eff" where
  "handle_msi_cmd os vd v =
     (let arg = v AND MMIO_MSI_CMD_ARG_MASK; code = v AND MMIO_MSI_CMD_CODE_MASK in
      if code = MMIO_MSI_CMD_CODE_UPDATE
      then (if arg > of_nat (length (queue_max_sizes vd)) then eff_ret () else eff_ignore (update_msi_cfg os arg))
      else if code = MMIO_MSI_CMD_CODE_INT_MASK then eff_ignore (mask_msi_int os (unat arg) True)
      else if code = MMIO_MSI_CMD_CODE_INT_UNMASK then eff_ignore (mask_msi_int os (unat arg) False)
      else set_driver_failed)"

section \<open>Register access\<close>

definition x_pure :: "(('q, 'w) mmio_sys \<Rightarrow> 'a may_panic) \<Rightarrow> (('q, 'w) mmio_sys, 'e, 'a) eff" where
  "x_pure f = (\<lambda>s. map_option (\<lambda>v. (Ok v, s)) (f s))"

text \<open>The value of a 32-bit register; \<open>None\<close> for an unknown one, which leaves the buffer alone.\<close>

definition read_reg :: "('q, 'w) QueueT \<Rightarrow> ('q, 'w) VirtioDevice \<Rightarrow> nat \<Rightarrow> ('q, 'w) mmio_sys \<Rightarrow> 32 word option may_panic" where
  "read_reg qt vd offset s =
     (let d = mdev s; st = dstate d; val = (\<lambda>v :: 32 word. ret (Some v)) in
      if offset = REG_MMIO_MAGIC_VALUE then val MMIO_MAGIC_VALUE
      else if offset = REG_MMIO_VERSION then val MMIO_VERSION_2
      else if offset = REG_MMIO_DEVICE_ID then val (device_type vd)
      else if offset = REG_MMIO_VENDOR_ID then val (device_vendor d)
      else if offset = REG_MMIO_DEVICE_FEATURE then val (device_features vd s)
      else if offset = REG_MMIO_QUEUE_NUM_MA then val (with_queue 0 (\<lambda>q. of_nat (q_max_size qt q)) st)
      else if offset = REG_MMIO_QUEUE_READY then val (with_queue 0 (\<lambda>q. if q_ready qt q then 1 else 0) st)
      else if offset = REG_MMIO_QUEUE_NOTIF \<and> doorbell st \<noteq> None then val (register_data (the (doorbell st)))
      else if offset = REG_MMIO_INTERRUPT_STAT then val (tweak_intr_flags d (interrupt_status d))
      else if offset = REG_MMIO_STATUS then val (driver_status d)
      else if offset = REG_MMIO_SHM_LEN_LOW then map_option Some (get_shm_field (\<lambda>r. ret (of_nat (shm_len r))) st)
      else if offset = REG_MMIO_SHM_LEN_HIGH then map_option Some (get_shm_field (\<lambda>r. ret (of_nat (shm_len r div 2 ^ 32))) st)
      else if offset = REG_MMIO_SHM_BASE_LOW then map_option Some (get_shm_base_low st)
      else if offset = REG_MMIO_SHM_BASE_HIGH then map_option Some (get_shm_base_high st)
      else if offset = REG_MMIO_CONFIG_GENERATI then val (config_generation d)
      else ret None)"

definition mmio_dev_read ::
  "('q, 'w) QueueT \<Rightarrow> ('q, 'w) VirtioDevice \<Rightarrow> nat \<Rightarrow> byte list \<Rightarrow> (('q, 'w) mmio_sys, 'e, byte list) eff" where
  "mmio_dev_read qt vd offset data =
     (if offset \<ge> MMIO_CFG_SPACE_OFF then get_device_config vd (offset - MMIO_CFG_SPACE_OFF) data
      else if length data = 4
      then eff_bind (x_pure (read_reg qt vd offset)) (\<lambda>v. eff_ret (case v of None \<Rightarrow> data | Some x \<Rightarrow> le_bytes 4 x))
      else if length data = 2
      then (if offset = REG_MMIO_MSI_CSR
            then eff_bind eff_get (\<lambda>s.
              eff_ret (le_bytes 2 (if device_vendor (mdev s) AND DRAGONBALL_FEATURE_MSI_INTR \<noteq> 0 then MMIO_MSI_CSR_SUPPORTED else 0)))
            else eff_ret data)
      else eff_ret data)"

definition on_msi :: "(Msi \<Rightarrow> Msi) \<Rightarrow> (('q, 'w) mmio_sys, 'e, unit) eff" where
  "on_msi f = x_st (\<lambda>st. st\<lparr>msi := map_option f (msi st)\<rparr>)"

definition write_reg ::
  "'w mmio_os \<Rightarrow> ('q, 'w) QueueT \<Rightarrow> ('q, 'w) VirtioDevice \<Rightarrow> nat \<Rightarrow> 32 word \<Rightarrow> (('q, 'w) mmio_sys, 'e, unit) eff" where
  "write_reg os qt vd offset v =
     (if offset = REG_MMIO_DEVICE_FEATURES_S then x_st (\<lambda>st. st\<lparr>features_select := v\<rparr>)
      else if offset = REG_MMIO_DRIVER_FEATURE then set_acked_features vd v
      else if offset = REG_MMIO_DRIVER_FEATURES_S then x_st (\<lambda>st. st\<lparr>acked_features_select := v\<rparr>)
      else if offset = REG_MMIO_QUEUE_SEL then x_st (\<lambda>st. st\<lparr>queue_select := v\<rparr>)
      else if offset = REG_MMIO_QUEUE_NUM then update_queue_field (\<lambda>q. q_set_size qt q (ucast v))
      else if offset = REG_MMIO_QUEUE_READY then update_queue_field (\<lambda>q. q_set_ready qt q (v = 1))
      else if offset = REG_MMIO_INTERRUPT_AC then x_dev (\<lambda>d. d\<lparr>interrupt_status := isr_clear_bits v (interrupt_status d)\<rparr>)
      else if offset = REG_MMIO_STATUS then update_driver_status os qt vd v
      else if offset = REG_MMIO_QUEUE_DESC_LOW then update_queue_field (\<lambda>q. q_set_desc_table_address qt q (Some v) None)
      else if offset = REG_MMIO_QUEUE_DESC_HIGH then update_queue_field (\<lambda>q. q_set_desc_table_address qt q None (Some v))
      else if offset = REG_MMIO_QUEUE_AVAIL_LOW then update_queue_field (\<lambda>q. q_set_avail_ring_address qt q (Some v) None)
      else if offset = REG_MMIO_QUEUE_AVAIL_HIGH then update_queue_field (\<lambda>q. q_set_avail_ring_address qt q None (Some v))
      else if offset = REG_MMIO_QUEUE_USED_LOW then update_queue_field (\<lambda>q. q_set_used_ring_address qt q (Some v) None)
      else if offset = REG_MMIO_QUEUE_USED_HIGH then update_queue_field (\<lambda>q. q_set_used_ring_address qt q None (Some v))
      else if offset = REG_MMIO_SHM_SEL then x_st (\<lambda>st. st\<lparr>shm_region_id := v\<rparr>)
      else if offset = REG_MMIO_MSI_ADDRESS_L then on_msi (\<lambda>m. m\<lparr>address_low := v\<rparr>)
      else if offset = REG_MMIO_MSI_ADDRESS_H then on_msi (\<lambda>m. m\<lparr>address_high := v\<rparr>)
      else if offset = REG_MMIO_MSI_DATA then on_msi (\<lambda>m. m\<lparr>mdata := v\<rparr>)
      else eff_ret ())"

definition mmio_dev_write ::
  "'w mmio_os \<Rightarrow> ('q, 'w) QueueT \<Rightarrow> ('q, 'w) VirtioDevice \<Rightarrow> nat \<Rightarrow> byte list \<Rightarrow> (('q, 'w) mmio_sys, 'e, unit) eff" where
  "mmio_dev_write os qt vd offset data =
     (if MMIO_CFG_SPACE_OFF \<le> offset \<and> offset < DRAGONBALL_MMIO_DOORBELL_OFFSET
      then set_device_config vd (offset - MMIO_CFG_SPACE_OFF) data
      else if length data = 4 then write_reg os qt vd offset (of_le data)
      else if length data = 2
      then (if offset = REG_MMIO_MSI_CSR then update_msi_enable (of_le data)
            else if offset = REG_MMIO_MSI_COMMAND then handle_msi_cmd os vd (of_le data)
            else eff_ret ())
      else eff_ret ())"

definition mmio_get_trapped_io_resources :: "'q MmioV2Device \<Rightarrow> DeviceResources" where
  "mmio_get_trapped_io_resources d = dr_append dr_new (mmio_cfg_res d)"

definition mmio_remove :: "('q, 'w) VirtioDevice \<Rightarrow> 'w irq_state \<Rightarrow> 'w irq_state" where
  "mmio_remove vd t = t\<lparr>irq_world := vd_remove vd (irq_world t)\<rparr>"

text \<open>Dropping the state takes a shared memory slot out of the virtual machine.\<close>

definition mmio_state_drop :: "'w mmio_os \<Rightarrow> 'q MmioV2DeviceState \<Rightarrow> 'w irq_state \<Rightarrow> 'w irq_state may_panic" where
  "mmio_state_drop os st t =
     (case shm_regions st of
        None \<Rightarrow> ret t
      | Some l \<Rightarrow>
          if length (get_mmio_address_ranges (device_resources st)) = 1 \<and> length (get_kvm_mem_slots (device_resources st)) = 1
          then (case kvm (drop_memory_slot os (hd (get_kvm_mem_slots (device_resources st))) (guest_addr l) (host_addr l)) t of
                  Some (Inr _, t') \<Rightarrow> ret t'
                | _ \<Rightarrow> panic)
          else panic)"

end
