(* ===== verification/DeviceManager.thy ===== *)
theory DeviceManager
  imports VirtioMmio ResourceManager IoManager
begin

text \<open>
  The part of the device manager that brings the other components together
  (\<open>dragonball/src/device_manager/mod.rs\<close>): creating a virtio MMIO device allocates its resources,
  builds the transport and publishes it on the I/O manager; destroying it undoes this.

  Devices are shared objects, so the buses hold references into a store.  The published I/O manager
  is replaced as a whole by a transaction; the lock held by the transaction makes an operation one
  state transition.
\<close>

datatype DeviceMgrError =
    InvalidOperation
  | GetDeviceResource
  | IoManagerError io_error
  | Virtio virtio_error
  | ResourceMgrError ResourceError

record ('q, 'w) device_obj =
  obj_dev :: "'q MmioV2Device"
  obj_backend :: "('q, 'w) VirtioDevice"

record ('q, 'w) DeviceOpContext =
  ctx_io :: "nat IoManager"
  ctx_res :: ResourceManager
  ctx_irqs :: "'w irq_state"
  ctx_devs :: "nat \<rightharpoonup> ('q, 'w) device_obj"
  ctx_next :: nat
  virtio_devices :: "nat list"
  vm_as :: "unit option"
  address_space :: "unit option"

definition the_device :: "nat \<Rightarrow> (('q, 'w) DeviceOpContext, 'e, ('q, 'w) device_obj) eff" where
  "the_device d = (\<lambda>c. case ctx_devs c d of None \<Rightarrow> panic | Some ob \<Rightarrow> ret (Ok ob, c))"

definition new_device :: "('q, 'w) device_obj \<Rightarrow> (('q, 'w) DeviceOpContext, 'e, nat) eff" where
  "new_device ob = (\<lambda>c. ret (Ok (ctx_next c), c\<lparr>ctx_devs := (ctx_devs c)(ctx_next c \<mapsto> ob), ctx_next := ctx_next c + 1\<rparr>))"

text \<open>Dropping the last reference.\<close>

definition drop_device :: "'w mmio_os \<Rightarrow> nat \<Rightarrow> (('q, 'w) DeviceOpContext, 'e, unit) eff" where
  "drop_device os d = eff_bind (the_device d) (\<lambda>ob c.
     map_option (\<lambda>t. (Ok (), c\<lparr>ctx_irqs := t, ctx_devs := (ctx_devs c)(d := None)\<rparr>)) (mmio_state_drop os (dstate (obj_dev ob)) (ctx_irqs c)))"

section \<open>Transactions\<close>

definition begin_tx :: "('q, 'w) DeviceOpContext \<Rightarrow> nat IoManager" where
  "begin_tx c = ctx_io c"

definition commit_tx :: "nat IoManager \<Rightarrow> ('q, 'w) DeviceOpContext \<Rightarrow> ('q, 'w) DeviceOpContext" where
  "commit_tx tx c = c\<lparr>ctx_io := tx\<rparr>"

definition cancel_tx :: "nat IoManager \<Rightarrow> ('q, 'w) DeviceOpContext \<Rightarrow> ('q, 'w) DeviceOpContext" where
  "cancel_tx tx c = c"

section \<open>Registration\<close>

definition get_virtio_device_info :: "'q MmioV2Device \<Rightarrow> DeviceMgrError + (nat \<times> nat \<times> nat)" where
  "get_virtio_device_info dev =
     (case get_legacy_irq (assigned_resources dev) of
        None \<Rightarrow> Err GetDeviceResource
      | Some irq \<Rightarrow>
          (case get_mmio_address_ranges (mmio_get_trapped_io_resources dev) of
             (base, sz) # _ \<Rightarrow> Ok (base, sz, irq)
           | [] \<Rightarrow> Err GetDeviceResource))"

definition register_mmio_virtio_device :: "nat \<Rightarrow> (('q, 'w) DeviceOpContext, DeviceMgrError, nat) eff" where
  "register_mmio_virtio_device d =
     eff_bind (the_device d) (\<lambda>ob.
     eff_bind (eff_of (get_virtio_device_info (obj_dev ob))) (\<lambda>_ c.
     let resources = mmio_get_trapped_io_resources (obj_dev ob) in
     case register_device_io (begin_tx c) d resources of
       None \<Rightarrow> panic
     | Some (Inl e, tx) \<Rightarrow> ret (Err (IoManagerError e), cancel_tx tx c)
     | Some (Inr _, tx) \<Rightarrow> ret (Ok d, commit_tx tx (c\<lparr>virtio_devices := virtio_devices c @ [d]\<rparr>))))"

definition deregister_mmio_virtio_device :: "nat \<Rightarrow> (('q, 'w) DeviceOpContext, DeviceMgrError, unit) eff" where
  "deregister_mmio_virtio_device d =
     eff_bind (the_device d) (\<lambda>ob c.
     let resources = mmio_get_trapped_io_resources (obj_dev ob) in
     case unregister_device_io (begin_tx c) resources of
       (Inl e, tx) \<Rightarrow> ret (Err (IoManagerError e), cancel_tx tx c)
     | (Inr _, tx) \<Rightarrow> ret (Ok (), commit_tx tx c))"

text \<open>\<open>deregister_virtio_device\<close> has the same body.\<close>

definition deregister_virtio_device :: "nat \<Rightarrow> (('q, 'w) DeviceOpContext, DeviceMgrError, unit) eff" where
  "deregister_virtio_device d = deregister_mmio_virtio_device d"

section \<open>Creation and destruction\<close>

definition get_vm_as :: "(('q, 'w) DeviceOpContext, DeviceMgrError, unit) eff" where
  "get_vm_as = (\<lambda>c. case vm_as c of Some v \<Rightarrow> ret (Ok v, c) | None \<Rightarrow> ret (Err InvalidOperation, c))"

definition get_address_space :: "(('q, 'w) DeviceOpContext, DeviceMgrError, unit) eff" where
  "get_address_space = (\<lambda>c. case address_space c of Some v \<Rightarrow> ret (Ok v, c) | None \<Rightarrow> ret (Err InvalidOperation, c))"

definition c_allocate :: "nat \<Rightarrow> ResourceConstraint list \<Rightarrow> bool \<Rightarrow> (('q, 'w) DeviceOpContext, DeviceMgrError, DeviceResources) eff" where
  "c_allocate mem_end requests shared = eff_map_err (\<lambda>_. GetDeviceResource)
     (eff_zoom ctx_res (\<lambda>rm c. c\<lparr>ctx_res := rm\<rparr>) (\<lambda>rm. allocate_device_resources mem_end rm requests shared))"

definition c_free :: "nat \<Rightarrow> DeviceResources \<Rightarrow> (('q, 'w) DeviceOpContext, DeviceMgrError, unit) eff" where
  "c_free mem_end resources = eff_map_err ResourceMgrError
     (eff_zoom ctx_res (\<lambda>rm c. c\<lparr>ctx_res := rm\<rparr>) (\<lambda>rm. free_device_resources mem_end rm resources))"

text \<open>A device that cannot be registered is dropped; its resources stay allocated.\<close>

definition register_or_drop :: "'w mmio_os \<Rightarrow> nat \<Rightarrow> (('q, 'w) DeviceOpContext, DeviceMgrError, nat) eff" where
  "register_or_drop os d = (\<lambda>c. case register_mmio_virtio_device d c of
       Some (Inl e, c') \<Rightarrow> eff_bind (drop_device os d) (\<lambda>_. eff_fail e) c'
     | r \<Rightarrow> r)"

definition mmio_requests :: "('q, 'w) VirtioDevice \<Rightarrow> bool \<Rightarrow> ResourceConstraint list" where
  "mmio_requests vd use_generic_irq =
     get_resource_requirements vd [CMmioAddress None 0 (MMIO_DEFAULT_CFG_SIZE + DRAGONBALL_MMIO_DOORBELL_SIZE)] use_generic_irq"

definition create_mmio_virtio_device_with_features ::
  "nat \<Rightarrow> 'w mmio_os \<Rightarrow> ('q, 'w) QueueT \<Rightarrow> ('q, 'w) VirtioDevice \<Rightarrow> 32 word option \<Rightarrow> bool \<Rightarrow> bool \<Rightarrow>
     (('q, 'w) DeviceOpContext, DeviceMgrError, nat) eff" where
  "create_mmio_virtio_device_with_features mem_end os qt vd features use_shared_irq use_generic_irq =
     eff_bind (c_allocate mem_end (mmio_requests vd use_generic_irq) use_shared_irq) (\<lambda>resources.
     eff_bind get_vm_as (\<lambda>_.
     eff_bind get_address_space (\<lambda>_.
     eff_bind (eff_map_err Virtio (eff_zoom ctx_irqs (\<lambda>t c. c\<lparr>ctx_irqs := t\<rparr>) (MmioV2Device_new os qt vd resources features))) (\<lambda>dev.
     eff_bind (new_device \<lparr>obj_dev = dev, obj_backend = vd\<rparr>) (\<lambda>d.
     register_or_drop os d)))))"

definition create_mmio_virtio_device ::
  "nat \<Rightarrow> 'w mmio_os \<Rightarrow> ('q, 'w) QueueT \<Rightarrow> ('q, 'w) VirtioDevice \<Rightarrow> bool \<Rightarrow> bool \<Rightarrow> (('q, 'w) DeviceOpContext, DeviceMgrError, nat) eff" where
  "create_mmio_virtio_device mem_end os qt vd use_shared_irq use_generic_irq =
     create_mmio_virtio_device_with_features mem_end os qt vd (Some (DRAGONBALL_FEATURE_INTR_USED OR DRAGONBALL_FEATURE_PER_QUEUE_NOTIFY))
       use_shared_irq use_generic_irq"

definition create_mmio_virtio_device_with_device_change_notification ::
  "nat \<Rightarrow> 'w mmio_os \<Rightarrow> ('q, 'w) QueueT \<Rightarrow> ('q, 'w) VirtioDevice \<Rightarrow> bool \<Rightarrow> bool \<Rightarrow> (('q, 'w) DeviceOpContext, DeviceMgrError, nat) eff" where
  "create_mmio_virtio_device_with_device_change_notification mem_end os qt vd use_shared_irq use_generic_irq =
     create_mmio_virtio_device_with_features mem_end os qt vd (Some DRAGONBALL_FEATURE_PER_QUEUE_NOTIFY) use_shared_irq use_generic_irq"

definition remove_backend :: "('q, 'w) device_obj \<Rightarrow> (('q, 'w) DeviceOpContext, 'e, unit) eff" where
  "remove_backend ob = eff_modify (\<lambda>c. c\<lparr>ctx_irqs := mmio_remove (obj_backend ob) (ctx_irqs c)\<rparr>)"

definition destroy_mmio_device :: "nat \<Rightarrow> nat \<Rightarrow> (('q, 'w) DeviceOpContext, DeviceMgrError, unit) eff" where
  "destroy_mmio_device mem_end d =
     eff_bind (deregister_virtio_device d) (\<lambda>_.
     eff_bind (the_device d) (\<lambda>ob.
     eff_bind (c_free mem_end (assigned_resources (obj_dev ob))) (\<lambda>_.
     remove_backend ob)))"

definition destroy_virtio_device :: "nat \<Rightarrow> nat \<Rightarrow> (('q, 'w) DeviceOpContext, DeviceMgrError, unit) eff" where
  "destroy_virtio_device mem_end d =
     eff_bind (destroy_mmio_device mem_end d) (\<lambda>_.
     eff_bind (the_device d) (\<lambda>ob. remove_backend ob))"

section \<open>The devices on the bus\<close>

text \<open>
  The methods of \<open>MmioV2Device\<close> that the I/O manager calls, on the context that holds the devices.
  A panic in a device is the world \<open>None\<close>.  The port methods are the default ones of the trait.
\<close>

definition device_access ::
  "(('q, 'w) VirtioDevice \<Rightarrow> (('q, 'w) mmio_sys, unit, 'a) eff) \<Rightarrow> nat \<Rightarrow> ('q, 'w) DeviceOpContext \<Rightarrow> ('a \<times> ('q, 'w) DeviceOpContext) may_panic" where
  "device_access m d c =
     (case ctx_devs c d of
        None \<Rightarrow> panic
      | Some ob \<Rightarrow>
          (case m (obj_backend ob) \<lparr>mdev = obj_dev ob, mirqs = ctx_irqs c\<rparr> of
             Some (Inr x, s) \<Rightarrow> ret (x, c\<lparr>ctx_irqs := mirqs s, ctx_devs := (ctx_devs c)(d \<mapsto> ob\<lparr>obj_dev := mdev s\<rparr>)\<rparr>)
           | _ \<Rightarrow> panic))"

definition virtio_bus :: "'w mmio_os \<Rightarrow> ('q, 'w) QueueT \<Rightarrow> ('q, 'w) DeviceOpContext \<Rightarrow> (nat, ('q, 'w) DeviceOpContext may_panic) DeviceIo" where
  "virtio_bus os qt c0 =
     \<lparr>dev_read = \<lambda>d base off data w.
        (case Option.bind w (device_access (\<lambda>vd. mmio_dev_read qt vd off data) d) of None \<Rightarrow> (data, panic) | Some (data', c) \<Rightarrow> (data', ret c)),
      dev_write = \<lambda>d base off data w. map_option snd (Option.bind w (device_access (\<lambda>vd. mmio_dev_write os qt vd off data) d)),
      dev_pio_read = \<lambda>d base off data w. (data, w),
      dev_pio_write = \<lambda>d base off data w. w,
      get_trapped_io_resources = \<lambda>d. case ctx_devs c0 d of None \<Rightarrow> dr_new | Some ob \<Rightarrow> mmio_get_trapped_io_resources (obj_dev ob)\<rparr>"

end
