(* ===== verification/IrqLogic.thy ===== *)
theory IrqLogic
  imports IrqManager
begin

text \<open>
  Total correctness of the interrupt managers: which groups exist, that every operation returns,
  and the one case in which enabling the interrupts of a device panics.
\<close>

section \<open>KVM calls that return\<close>

definition irq_os_ok :: "'w irq_os \<Rightarrow> bool" where
  "irq_os_ok os \<longleftrightarrow> (\<forall>w. eventfd_new os w \<noteq> None) \<and> (\<forall>fd n w. eventfd_write os fd n w \<noteq> None) \<and> (\<forall>fd w. eventfd_read os fd w \<noteq> None) \<and>
     (\<forall>fd n w. register_irqfd os fd n w \<noteq> None) \<and> (\<forall>fd n w. unregister_irqfd os fd n w \<noteq> None) \<and> (\<forall>m w. set_gsi_routing os m w \<noteq> None)"

lemma irq_os_okD:
  assumes "irq_os_ok os"
  shows "eventfd_new os w \<noteq> None" "eventfd_write os fd n w \<noteq> None" "eventfd_read os fd w \<noteq> None" "register_irqfd os fd n w \<noteq> None"
    "unregister_irqfd os fd n w \<noteq> None" "set_gsi_routing os m w \<noteq> None"
  using assms by (simp_all add: irq_os_ok_def)

lemma wp_total: "m s \<noteq> None \<Longrightarrow> (\<And>x s'. Q x s') \<Longrightarrow> (\<And>e s'. E e s') \<Longrightarrow> wp m Q E s"
  by (cases "m s") (auto simp: wp_def split: sum.splits prod.splits)

lemma wp_eff_total [wp_simps]: "wp (eff_total v) Q E s \<longleftrightarrow> (case v of None \<Rightarrow> False | Some x \<Rightarrow> Q x s)"
  by (cases v) (simp_all add: wp_def)

lemma wp_panic [wp_simps]: "wp (\<lambda>s. None) Q E s \<longleftrightarrow> False"
  by (simp add: wp_def)

lemma wp_eff_of [wp_simps]: "wp (eff_of r) Q E s \<longleftrightarrow> (case r of Inl e \<Rightarrow> E e s | Inr x \<Rightarrow> Q x s)"
  by (simp add: wp_def eff_of_def)

lemma wp_kvm [wp_simps]: "wp (kvm m) Q E s \<longleftrightarrow> wp m (\<lambda>x w. Q x (s\<lparr>irq_world := w\<rparr>)) (\<lambda>e w. E e (s\<lparr>irq_world := w\<rparr>)) (irq_world s)"
  by (simp add: kvm_def wp_zoom)

lemma wp_the_group [wp_simps]: "wp (the_group g) Q E s \<longleftrightarrow> (\<exists>grp. irq_store s g = Some grp \<and> Q grp s)"
  by (auto simp: wp_def the_group_def split: option.splits)

lemma wp_new_group [wp_simps]:
  "wp (new_group grp) Q E s \<longleftrightarrow> Q (irq_next s) (s\<lparr>irq_store := (irq_store s)(irq_next s \<mapsto> grp), irq_next := irq_next s + 1\<rparr>)"
  by (simp add: wp_def new_group_def)

text \<open>A change of the world and of the routes only.\<close>

definition same_groups :: "'w irq_state \<Rightarrow> 'w irq_state \<Rightarrow> bool" where
  "same_groups s s' \<longleftrightarrow> irq_store s' = irq_store s \<and> irq_next s' = irq_next s \<and> irq_groups s' = irq_groups s \<and> max_msi_irqs s' = max_msi_irqs s"

lemma same_groups_simps [simp]:
  "same_groups s s" "same_groups s (s'\<lparr>irq_world := w\<rparr>) = same_groups s s'" "same_groups s (s'\<lparr>irq_routes := r\<rparr>) = same_groups s s'"
  by (simp_all add: same_groups_def)

lemma same_groups_trans: "same_groups s t \<Longrightarrow> same_groups t u \<Longrightarrow> same_groups s u"
  by (simp add: same_groups_def)

abbreviation keeps :: "('w irq_state, 'e, 'a) eff \<Rightarrow> 'w irq_state \<Rightarrow> bool" where
  "keeps m s \<equiv> wp m (\<lambda>_. same_groups s) (\<lambda>_. same_groups s) s"

lemma keeps_kvm: "(\<And>w. m w \<noteq> None) \<Longrightarrow> keeps (kvm m) s"
  unfolding wp_kvm by (rule wp_total) simp_all

lemma keeps_seq:
  assumes "keeps m s" "\<And>x s'. same_groups s s' \<Longrightarrow> keeps (f x) s'"
  shows "keeps (eff_bind m f) s"
  unfolding wp_bind
  by (rule wp_mono [OF assms(1)], rule wp_mono [OF assms(2)]) (auto intro: same_groups_trans)

lemma keeps_set_routing: "irq_os_ok os \<Longrightarrow> keeps (set_routing os) s"
  unfolding set_routing_def by (simp add: wp_bind wp_get keeps_kvm irq_os_okD(6))

lemma keeps_modify_routes: "keeps (eff_modify (\<lambda>s. s\<lparr>irq_routes := f s\<rparr>)) s"
  by (simp add: wp_modify)

lemma keeps_routing:
  assumes "irq_os_ok os"
  shows "keeps (routing_add os es) s" "keeps (routing_remove os es) s" "keeps (routing_modify os e) s"
proof -
  have m: "keeps (eff_bind (eff_modify (\<lambda>s. s\<lparr>irq_routes := f s\<rparr>)) (\<lambda>_. set_routing os)) t" for t f
    by (intro keeps_seq keeps_modify_routes keeps_set_routing assms)
  show "keeps (routing_add os es) s" "keeps (routing_remove os es) s" "keeps (routing_modify os e) s"
    using m by (auto simp: routing_add_def routing_remove_def routing_modify_def wp_bind [of eff_get] wp_get wp_ret split: option.splits)
qed

lemma keeps_add_unless_exists: "irq_os_ok os \<Longrightarrow> keeps (add_unless_exists os es) s"
  using keeps_routing(1) [of os es s] by (auto simp: wp_def add_unless_exists_def split: option.splits sum.splits prod.splits)

lemma keeps_register_fds: "(\<And>fd n w. f fd n w \<noteq> None) \<Longrightarrow> keeps (register_fds f base fds) s"
  by (induction fds arbitrary: base s) (auto simp: wp_ret intro!: keeps_seq keeps_kvm)

section \<open>Groups\<close>

definition grp_ok :: "irq_group \<Rightarrow> bool" where
  "grp_ok grp \<longleftrightarrow> (case grp_type grp of
     LegacySource \<Rightarrow> grp_len grp = 1 \<and> grp_base grp < MAX_LEGACY_IRQS
   | MsiSource \<Rightarrow> length (grp_cfgs grp) = grp_len grp \<and> grp_base grp + grp_len grp \<le> MAX_IRQS)"

definition irq_ok :: "'w irq_state \<Rightarrow> bool" where
  "irq_ok s \<longleftrightarrow> (\<forall>g grp. irq_store s g = Some grp \<longrightarrow> g < irq_next s \<and> grp_ok grp)"

lemma irq_okD: "irq_ok s \<Longrightarrow> irq_store s g = Some grp \<Longrightarrow> grp_ok grp"
  by (auto simp: irq_ok_def)

lemma irq_ok_same: "same_groups s s' \<Longrightarrow> irq_ok s' = irq_ok s"
  by (simp add: irq_ok_def same_groups_def)

lemma keeps_grp_enable:
  assumes "irq_os_ok os" "irq_store s g = Some grp"
  shows "keeps (grp_enable os g cfgs) s"
proof -
  have "keeps (eff_bind (eff_of (create_msi_routing_entries b cfgs)) (\<lambda>entries.
      eff_bind (add_unless_exists os entries) (\<lambda>_. register_fds (register_irqfd os) b fds))) s" for b fds
    by (intro keeps_seq keeps_add_unless_exists keeps_register_fds irq_os_okD assms) (simp add: wp_eff_of split: sum.splits)
  then show ?thesis using assms
    by (auto simp: grp_enable_def wp_bind [of "the_group g"] wp_the_group wp_ret keeps_kvm irq_os_okD split: InterruptSourceType.splits)
qed

lemma keeps_grp_disable:
  assumes "irq_os_ok os" "irq_store s g = Some grp"
  shows "keeps (grp_disable os g) s"
proof -
  have "keeps (eff_bind (register_fds (unregister_irqfd os) b fds) (\<lambda>_. routing_remove os es)) s" for b fds es
    by (intro keeps_seq keeps_register_fds keeps_routing irq_os_okD assms)
  then show ?thesis using assms
    by (auto simp: grp_disable_def wp_bind [of "the_group g"] wp_the_group wp_ret keeps_kvm irq_os_okD split: InterruptSourceType.splits)
qed

lemma keeps_grp_mask:
  assumes "irq_os_ok os" "irq_store s g = Some grp"
  shows "keeps (grp_mask os g i) s" "keeps (grp_unmask os g i) s"
  using assms by (auto simp: grp_mask_def grp_unmask_def with_irqfd_def wp_bind wp_the_group wp_ret keeps_kvm irq_os_okD
      split: InterruptSourceType.splits)

text \<open>Updating an MSI group changes its own configuration only; \<open>stable\<close> is what other users of the store rely on.\<close>

definition same_shape :: "irq_group \<Rightarrow> irq_group \<Rightarrow> bool" where
  "same_shape a b \<longleftrightarrow> grp_type b = grp_type a \<and> grp_base b = grp_base a \<and> grp_fds b = grp_fds a \<and> length (grp_cfgs b) = length (grp_cfgs a)"

definition stable :: "'w irq_state \<Rightarrow> 'w irq_state \<Rightarrow> bool" where
  "stable s s' \<longleftrightarrow> max_msi_irqs s' = max_msi_irqs s \<and> (\<forall>g grp. irq_store s g = Some grp \<longrightarrow> (\<exists>grp'. irq_store s' g = Some grp' \<and> same_shape grp grp'))"

lemma same_shape_refl [simp]: "same_shape g g"
  by (simp add: same_shape_def)

lemma same_shape_trans: "same_shape a b \<Longrightarrow> same_shape b c \<Longrightarrow> same_shape a c"
  by (simp add: same_shape_def)

lemma stable_same: "same_groups s s' \<Longrightarrow> stable s s'"
  by (simp add: stable_def same_groups_def)

lemma stable_refl [simp]: "stable s s"
  by (simp add: stable_def)

lemma stable_trans: "stable s t \<Longrightarrow> stable t u \<Longrightarrow> stable s u"
  unfolding stable_def by (metis same_shape_trans)

lemma stable_irq_ok: "irq_ok s \<Longrightarrow> stable s s' \<Longrightarrow> dom (irq_store s') = dom (irq_store s) \<Longrightarrow> irq_next s' = irq_next s \<Longrightarrow> irq_ok s'"
  unfolding irq_ok_def stable_def dom_def same_shape_def grp_ok_def grp_len_def
  by (auto simp: set_eq_iff) (metis option.inject option.distinct(1))+

lemma wp_grp_update:
  assumes os: "irq_os_ok os" and g: "irq_store s g = Some grp" and ok: "irq_ok s"
  shows "wp (grp_update os g i cfg) (\<lambda>_ s'. stable s s' \<and> irq_ok s') (\<lambda>_ s'. stable s s' \<and> irq_ok s') s"
proof -
  have "wp (routing_modify os e) (\<lambda>_ s'. stable s s' \<and> irq_ok s') (\<lambda>_ s'. stable s s' \<and> irq_ok s')
      (s\<lparr>irq_store := (irq_store s)(g \<mapsto> grp\<lparr>grp_cfgs := (grp_cfgs grp)[i := c]\<rparr>)\<rparr>)" (is "wp _ ?Q ?E ?t") for e c
  proof -
    have st: "stable s ?t" using g by (auto simp: stable_def same_shape_def)
    have "irq_ok ?t" using ok irq_okD [OF ok g] g by (auto simp: irq_ok_def grp_ok_def grp_len_def split: InterruptSourceType.splits)
    then show ?thesis using st
      by (intro wp_mono [OF keeps_routing(3) [OF os]]) (auto simp: irq_ok_same intro: stable_trans stable_same)
  qed
  then show ?thesis using ok g
    by (auto simp: grp_update_def wp_bind wp_the_group wp_ret wp_modify Let_def split: InterruptSourceType.splits InterruptSourceConfig.splits)
qed

section \<open>The manager of a device\<close>

lemma wp_d_irq [wp_simps]: "wp (d_irq m) Q E s \<longleftrightarrow> wp m (\<lambda>x t. Q x (s\<lparr>irqs := t\<rparr>)) (\<lambda>e t. E e (s\<lparr>irqs := t\<rparr>)) (irqs s)"
  by (simp add: d_irq_def wp_zoom)

lemma wp_d_modify [wp_simps]: "wp (d_modify f) Q E s \<longleftrightarrow> Q () (s\<lparr>dim := f (dim s)\<rparr>)"
  by (simp add: d_modify_def wp_modify)

lemma wp_d_get [wp_simps]: "wp (d_get f) Q E s \<longleftrightarrow> Q (f (dim s)) s"
  by (simp add: wp_def d_get_def)

definition mode_source :: "DeviceInterruptMode \<Rightarrow> InterruptSourceType" where
  "mode_source m = (if m = LegacyIrqMode then LegacySource else MsiSource)"

definition has_mode :: "DeviceInterruptManager \<Rightarrow> DeviceInterruptMode \<Rightarrow> bool" where
  "has_mode d m \<longleftrightarrow> m \<noteq> Disabled \<and> mode2idx d ! mode_index m \<noteq> u64_max"

definition mode_group :: "DeviceInterruptManager \<Rightarrow> 'w irq_state \<Rightarrow> DeviceInterruptMode \<Rightarrow> bool" where
  "mode_group d t m \<longleftrightarrow> mode2idx d ! mode_index m < length (intr_groups d) \<and>
     (\<exists>grp. irq_store t (intr_groups d ! (mode2idx d ! mode_index m)) = Some grp \<and> grp_type grp = mode_source m \<and>
        (m \<noteq> LegacyIrqMode \<longrightarrow> grp_len grp \<le> length (msi_config d)))"

definition dim_ok :: "DeviceInterruptManager \<Rightarrow> 'w irq_state \<Rightarrow> bool" where
  "dim_ok d t \<longleftrightarrow> length (mode2idx d) = 5 \<and> length (intr_groups d) < u64_max \<and> (\<forall>m. has_mode d m \<longrightarrow> mode_group d t m) \<and>
     (\<forall>c \<in> set (msi_config d). c \<noteq> LegacyCfg) \<and>
     (intr_mode d \<noteq> Disabled \<longrightarrow> current_idx d = mode2idx d ! mode_index (intr_mode d)) \<and>
     (activated d \<longrightarrow> has_mode d (intr_mode d))"

definition d_ok :: "'w dim_state \<Rightarrow> bool" where
  "d_ok s \<longleftrightarrow> dim_ok (dim s) (irqs s) \<and> irq_ok (irqs s)"

lemma mode_group_stable: "mode_group d t m \<Longrightarrow> stable t t' \<Longrightarrow> mode_group d t' m"
  unfolding mode_group_def stable_def same_shape_def grp_len_def by fastforce

lemma dim_ok_stable: "dim_ok d t \<Longrightarrow> stable t t' \<Longrightarrow> dim_ok d t'"
  unfolding dim_ok_def using mode_group_stable by blast

lemma dim_ok_cong:
  assumes "mode2idx d' = mode2idx d" "intr_groups d' = intr_groups d" "length (msi_config d') = length (msi_config d)"
    "\<forall>c \<in> set (msi_config d'). c \<noteq> LegacyCfg" "dim_ok d t"
    "intr_mode d' \<noteq> Disabled \<longrightarrow> current_idx d' = mode2idx d ! mode_index (intr_mode d')" "activated d' \<longrightarrow> has_mode d (intr_mode d')"
  shows "dim_ok d' t"
  using assms by (simp add: dim_ok_def has_mode_def mode_group_def)

lemma mode_index_lt: "mode_index m < 5"
  by (cases m) simp_all

text \<open>What no operation on a device's manager changes.\<close>

definition same_dev :: "DeviceInterruptManager \<Rightarrow> DeviceInterruptManager \<Rightarrow> bool" where
  "same_dev d d' \<longleftrightarrow> mode2idx d' = mode2idx d \<and> intr_groups d' = intr_groups d \<and> length (msi_config d') = length (msi_config d) \<and> dev_id d' = dev_id d"

lemma same_dev_refl [simp]: "same_dev d d"
  by (simp add: same_dev_def)

definition d_step :: "'w dim_state \<Rightarrow> 'w dim_state \<Rightarrow> bool" where
  "d_step s s' \<longleftrightarrow> d_ok s' \<and> stable (irqs s) (irqs s') \<and> same_dev (dim s) (dim s')"

lemma d_step_refl: "d_ok s \<Longrightarrow> d_step s s"
  by (simp add: d_step_def)

lemma set_working_mode_step:
  assumes "d_ok s"
  shows "wp (set_working_mode m) (\<lambda>_ s'. d_step s s' \<and> intr_mode (dim s') = m \<and> \<not> activated (dim s') \<and> irqs s' = irqs s)
    (\<lambda>e s'. s' = s \<and> e = EINVAL) s"
proof -
  have "dim_ok ((dim s)\<lparr>current_idx := mode2idx (dim s) ! mode_index m, intr_mode := m\<rparr>) (irqs s)" if "\<not> activated (dim s)"
    by (rule dim_ok_cong [where d = "dim s"]) (use assms that in \<open>auto simp: d_ok_def dim_ok_def\<close>)
  moreover have "dim_ok ((reset_configs Disabled (dim s))\<lparr>intr_mode := Disabled\<rparr>) (irqs s)" if "\<not> activated (dim s)"
    by (rule dim_ok_cong [where d = "dim s"]) (use assms that in \<open>auto simp: d_ok_def dim_ok_def reset_configs_def\<close>)
  ultimately show ?thesis using assms
    by (auto simp: set_working_mode_def wp_simps d_step_def d_ok_def same_dev_def reset_configs_def)
qed

lemma get_configs_returns:
  assumes ok: "d_ok s" and m: "has_mode (dim s) m"
  shows "wp (get_configs m) (\<lambda>_ s'. s' = s) (\<lambda>_ _. False) s"
proof -
  have "mode_group (dim s) (irqs s) m" using ok m by (simp add: d_ok_def dim_ok_def)
  then show ?thesis using m
    by (cases m) (auto simp: get_configs_def wp_simps vec_at_def mode_group_def has_mode_def)
qed

lemma has_mode_idx: "dim_ok d t \<Longrightarrow> m \<noteq> Disabled \<Longrightarrow> has_mode d m \<longleftrightarrow> mode2idx d ! mode_index m < length (intr_groups d)"
  unfolding dim_ok_def has_mode_def mode_group_def by auto

definition mode_served :: "DeviceInterruptManager \<Rightarrow> bool" where
  "mode_served d \<longleftrightarrow> intr_mode d = Disabled \<or> has_mode d (intr_mode d)"

text \<open>Enabling returns unless the working mode was set to one the device has no interrupts for.\<close>

abbreviation enabled_post :: "'w dim_state \<Rightarrow> unit \<Rightarrow> 'w dim_state \<Rightarrow> bool" where
  "enabled_post s \<equiv> \<lambda>_ s'. d_step s s' \<and> activated (dim s')"

abbreviation not_enabled_post :: "'w dim_state \<Rightarrow> errno \<Rightarrow> 'w dim_state \<Rightarrow> bool" where
  "not_enabled_post s \<equiv> \<lambda>_ s'. d_step s s' \<and> \<not> activated (dim s') \<and> mode_served (dim s')"

lemma d_step_same_groups:
  assumes "d_ok t" "same_groups (irqs t) u"
  shows "d_step t (t\<lparr>irqs := u\<rparr>)"
  using assms dim_ok_stable [OF _ stable_same, of "dim t" "irqs t" u]
  by (simp add: d_step_def d_ok_def stable_same irq_ok_same)

lemma d_step_activate:
  assumes "d_ok t" "has_mode (dim t) (intr_mode (dim t))"
  shows "d_step t (t\<lparr>dim := (dim t)\<lparr>activated := True\<rparr>\<rparr>)"
proof -
  have "dim_ok ((dim t)\<lparr>activated := True\<rparr>) (irqs t)"
    by (rule dim_ok_cong [where d = "dim t"]) (use assms in \<open>auto simp: d_ok_def dim_ok_def\<close>)
  then show ?thesis using assms by (simp add: d_step_def d_ok_def same_dev_def)
qed

lemma d_step_trans: "d_step s t \<Longrightarrow> d_step t u \<Longrightarrow> d_step s u"
  by (auto simp: d_step_def same_dev_def intro: stable_trans)

lemma enable_current_step:
  assumes os: "irq_os_ok os" and ok: "d_ok t" and inact: "\<not> activated (dim t)" and served: "mode_served (dim t)"
  shows "wp (enable_current os) (enabled_post t) (not_enabled_post t) t"
proof (cases "intr_mode (dim t) = Disabled")
  case True
  then show ?thesis using assms by (simp add: enable_current_def wp_simps d_step_refl mode_served_def)
next
  case False
  let ?d = "dim t"
  have m: "has_mode ?d (intr_mode ?d)" using served False by (simp add: mode_served_def)
  obtain grp where i: "current_idx ?d < length (intr_groups ?d)" "irq_store (irqs t) (intr_groups ?d ! current_idx ?d) = Some grp"
    using ok m False by (auto simp: d_ok_def dim_ok_def mode_group_def)
  have act: "d_step t (t\<lparr>irqs := u, dim := ?d\<lparr>activated := True\<rparr>\<rparr>)" if "same_groups (irqs t) u" for u
    using d_step_trans [OF d_step_same_groups [OF ok that] d_step_activate] d_step_same_groups [OF ok that] m
    by (simp add: d_step_def)
  have "wp (eff_bind (d_irq (grp_enable os (intr_groups ?d ! current_idx ?d) cfgs)) (\<lambda>_. d_modify (\<lambda>d. d\<lparr>activated := True\<rparr>)))
      (enabled_post t) (not_enabled_post t) t" for cfgs
    unfolding wp_bind wp_d_irq wp_d_modify
    by (rule wp_mono [OF keeps_grp_enable [OF os i(2)]])
       (use act d_step_same_groups [OF ok] inact served in \<open>auto simp: mode_served_def\<close>)
  then have "wp (eff_bind (get_configs (intr_mode ?d)) (\<lambda>cfgs. eff_bind (d_irq (grp_enable os (intr_groups ?d ! current_idx ?d) cfgs))
      (\<lambda>_. d_modify (\<lambda>d. d\<lparr>activated := True\<rparr>)))) (enabled_post t) (not_enabled_post t) t"
    unfolding wp_bind [of "get_configs _"] by (intro wp_mono [OF get_configs_returns [OF ok m]]) auto
  then show ?thesis using False i by (simp add: enable_current_def wp_bind [of "d_get _"] wp_bind [of "eff_total _"] wp_simps vec_at_def)
qed

lemma dim_enable_step:
  assumes os: "irq_os_ok os" and ok: "d_ok s" and served: "mode_served (dim s)"
  shows "wp (dim_enable os) (enabled_post s) (not_enabled_post s) s"
proof (cases "activated (dim s)")
  case True
  then show ?thesis using ok by (simp add: dim_enable_def wp_simps d_step_refl)
next
  case inactive: False
  have "wp (eff_bind (set_working_mode LegacyIrqMode) (\<lambda>_. enable_current os)) (enabled_post s) (not_enabled_post s) s"
    if leg: "has_mode (dim s) LegacyIrqMode"
    unfolding wp_bind
  proof (rule wp_mono [OF set_working_mode_step [OF ok]])
    fix x :: unit and u
    assume u: "d_step s u \<and> intr_mode (dim u) = LegacyIrqMode \<and> \<not> activated (dim u) \<and> irqs u = irqs s"
    then have "mode_served (dim u)" using leg by (simp add: d_step_def same_dev_def has_mode_def mode_served_def)
    then show "wp (enable_current os) (enabled_post s) (not_enabled_post s) u"
      using u by (intro wp_mono [OF enable_current_step [OF os]]) (auto simp: d_step_def same_dev_def)
  qed (use ok inactive served in \<open>simp add: d_step_refl\<close>)
  then show ?thesis
    using inactive enable_current_step [OF os ok inactive served] by (auto simp: dim_enable_def wp_bind wp_d_get wp_if wp_ret has_mode_def)
qed

lemma enable_unserved_panics:
  assumes "d_ok s" "\<not> activated (dim s)" "\<not> mode_served (dim s)"
  shows "dim_enable os s = None"
proof -
  have m: "intr_mode (dim s) \<noteq> Disabled" "mode2idx (dim s) ! mode_index (intr_mode (dim s)) = u64_max"
    using assms(3) by (auto simp: mode_served_def has_mode_def)
  then have "vec_at (intr_groups (dim s)) (current_idx (dim s)) = None"
    using assms(1) by (auto simp: d_ok_def dim_ok_def vec_at_def)
  then show ?thesis using assms(2) m(1)
    by (simp add: dim_enable_def enable_current_def eff_bind_def d_get_def)
qed

lemma dim_reset_step:
  assumes os: "irq_os_ok os" and ok: "d_ok s"
  shows "wp (dim_reset os) (\<lambda>_ s'. d_step s s' \<and> \<not> activated (dim s') \<and> intr_mode (dim s') = Disabled)
    (\<lambda>_ s'. d_step s s' \<and> \<not> activated (dim s') \<and> intr_mode (dim s') = intr_mode (dim s)) s"
proof (cases "activated (dim s)")
  case False
  then show ?thesis unfolding dim_reset_def
    by (simp add: wp_bind wp_d_get wp_ret)
       (rule wp_mono [OF set_working_mode_step [OF ok]], auto simp: d_step_refl ok)
next
  case True
  let ?d = "dim s" and ?s1 = "s\<lparr>dim := (dim s)\<lparr>activated := False\<rparr>\<rparr>"
  have m: "has_mode ?d (intr_mode ?d)" using True ok by (simp add: d_ok_def dim_ok_def)
  then have "intr_mode ?d \<noteq> Disabled" by (simp add: has_mode_def)
  then obtain grp where i: "current_idx ?d < length (intr_groups ?d)" "irq_store (irqs s) (intr_groups ?d ! current_idx ?d) = Some grp"
    using ok m by (auto simp: d_ok_def dim_ok_def mode_group_def)
  have "dim_ok (dim ?s1) (irqs s)" by (rule dim_ok_cong [where d = ?d]) (use ok in \<open>auto simp: d_ok_def dim_ok_def\<close>)
  then have s1: "d_step s ?s1" using ok by (simp add: d_step_def d_ok_def same_dev_def)
  have st: "d_step s (?s1\<lparr>irqs := u\<rparr>)" "d_ok (?s1\<lparr>irqs := u\<rparr>)" if "same_groups (irqs s) u" for u
    using d_step_trans [OF s1 d_step_same_groups, of u] s1 that by (simp_all add: d_step_def)
  have "wp (d_irq (grp_disable os (intr_groups ?d ! current_idx ?d)))
      (\<lambda>_. wp (set_working_mode Disabled) (\<lambda>_ s'. d_step s s' \<and> \<not> activated (dim s') \<and> intr_mode (dim s') = Disabled)
        (\<lambda>_ s'. d_step s s' \<and> \<not> activated (dim s') \<and> intr_mode (dim s') = intr_mode (dim s)))
      (\<lambda>_ s'. d_step s s' \<and> \<not> activated (dim s') \<and> intr_mode (dim s') = intr_mode (dim s)) ?s1"
    unfolding wp_d_irq
  proof (rule wp_mono [where s = "irqs ?s1", OF keeps_grp_disable [where s = "irqs ?s1", OF os]])
    show "irq_store (irqs ?s1) (intr_groups ?d ! current_idx ?d) = Some grp" using i by simp
    fix x :: unit and u assume "same_groups (irqs ?s1) u"
    then have u: "same_groups (irqs s) u" by simp
    show "wp (set_working_mode Disabled) (\<lambda>_ s'. d_step s s' \<and> \<not> activated (dim s') \<and> intr_mode (dim s') = Disabled)
        (\<lambda>_ s'. d_step s s' \<and> \<not> activated (dim s') \<and> intr_mode (dim s') = intr_mode (dim s)) (?s1\<lparr>irqs := u\<rparr>)"
      by (rule wp_mono [OF set_working_mode_step [OF st(2) [OF u]]]) (use st [OF u] d_step_trans in auto)
  qed (use st in auto)
  then show ?thesis using True i unfolding dim_reset_def
    by (simp add: wp_bind wp_d_get wp_if wp_d_modify wp_eff_total vec_at_def)
qed

lemma intr_update_step:
  assumes os: "irq_os_ok os" and ok: "d_ok s"
  shows "wp (intr_update os i) (\<lambda>_ s'. d_step s s' \<and> dim s' = dim s) (\<lambda>_ s'. d_step s s' \<and> dim s' = dim s) s"
proof (cases "activated (dim s) \<and> intr_mode (dim s) \<in> {GenericMsiIrq, PciMsiIrq, PciMsixIrq}")
  case False
  then show ?thesis using ok by (auto simp: intr_update_def wp_simps d_step_refl)
next
  case True
  let ?d = "dim s"
  have "has_mode ?d (intr_mode ?d)" using True ok by (simp add: d_ok_def dim_ok_def)
  then obtain grp where g: "current_idx ?d < length (intr_groups ?d)" "irq_store (irqs s) (intr_groups ?d ! current_idx ?d) = Some grp"
    using ok by (auto simp: d_ok_def dim_ok_def mode_group_def has_mode_def)
  have "wp (grp_update os (intr_groups ?d ! current_idx ?d) i c) (\<lambda>_ t. d_step s (s\<lparr>irqs := t\<rparr>)) (\<lambda>_ t. d_step s (s\<lparr>irqs := t\<rparr>)) (irqs s)" for c
    by (rule wp_mono [OF wp_grp_update [OF os g(2)]]) (use ok dim_ok_stable in \<open>auto simp: d_ok_def d_step_def\<close>)
  then show ?thesis using True g ok
    by (auto simp: intr_update_def wp_simps vec_at_def d_step_refl)
qed

lemma with_msi_step:
  assumes "d_ok s"
  shows "wp (with_msi i f) (\<lambda>_ s'. d_step s s' \<and> irqs s' = irqs s \<and> activated (dim s') = activated (dim s) \<and> intr_mode (dim s') = intr_mode (dim s))
    (\<lambda>_ s'. s' = s) s"
proof -
  have "dim_ok ((dim s)\<lparr>msi_config := (msi_config (dim s))[i := MsiCfg c]\<rparr>) (irqs s)" for c
    by (rule dim_ok_cong [where d = "dim s"]) (use assms set_update_subset_insert in \<open>fastforce simp: d_ok_def dim_ok_def\<close>)+
  then show ?thesis using assms
    by (auto simp: with_msi_def wp_simps d_step_def d_ok_def same_dev_def split: InterruptSourceConfig.splits)
qed

section \<open>Creation\<close>

definition fds_available :: "'w irq_os \<Rightarrow> bool" where
  "fds_available os \<longleftrightarrow> (\<forall>w. \<exists>fd w'. eventfd_new os w = Some (Inr fd, w'))"

definition msi_limit_ok :: "'w irq_state \<Rightarrow> bool" where
  "msi_limit_ok t \<longleftrightarrow> MAX_IRQS + max_msi_irqs t \<le> u32_max"

lemma new_irqfds_step:
  assumes "fds_available os"
  shows "wp (new_irqfds os n) (\<lambda>fds t'. length fds = n \<and> same_groups t t') (\<lambda>_ _. False) t"
proof (induction n arbitrary: t)
  case (Suc n)
  obtain fd w where e: "eventfd_new os (irq_world t) = Some (Inr fd, w)" using assms unfolding fds_available_def by blast
  then have "kvm (eventfd_new os) t = Some (Inr fd, t\<lparr>irq_world := w\<rparr>)" by (simp add: kvm_def)
  then have "new_irqfds os (Suc n) t = eff_bind (new_irqfds os n) (\<lambda>fds. eff_ret (fd # fds)) (t\<lparr>irq_world := w\<rparr>)" by simp
  moreover have "wp (eff_bind (new_irqfds os n) (\<lambda>fds. eff_ret (fd # fds))) (\<lambda>fds t'. length fds = Suc n \<and> same_groups t t') (\<lambda>_ _. False) (t\<lparr>irq_world := w\<rparr>)"
    unfolding wp_bind wp_ret by (rule wp_mono [OF Suc]) (auto simp: same_groups_def)
  ultimately show ?case by (simp add: wp_def)
qed (simp add: wp_ret)

definition created :: "'w irq_state \<Rightarrow> 'w irq_state \<Rightarrow> bool" where
  "created t t' \<longleftrightarrow> stable t t' \<and> irq_ok t'"

lemma created_trans: "created s t \<Longrightarrow> created t u \<Longrightarrow> created s u"
  by (auto simp: created_def intro: stable_trans)

lemma created_same: "irq_ok t \<Longrightarrow> same_groups t t' \<Longrightarrow> created t t'"
  by (auto simp: created_def stable_same irq_ok_same)

definition fresh_group :: "InterruptSourceType \<Rightarrow> nat \<Rightarrow> nat \<Rightarrow> irq_group \<Rightarrow> bool" where
  "fresh_group ty base count grp \<longleftrightarrow> grp_ok grp \<and> grp_type grp = ty \<and> grp_base grp = base \<and> grp_len grp = count"

lemma LegacyIrq_new_step:
  assumes "irq_os_ok os"
  shows "wp (LegacyIrq_new os base count) (\<lambda>grp t'. same_groups t t' \<and> fresh_group LegacySource base count grp) (\<lambda>_. same_groups t) t"
  unfolding LegacyIrq_new_def
  using irq_os_okD(1) [OF assms, of "irq_world t"]
  by (auto simp: wp_simps fresh_group_def grp_ok_def grp_len_def intro!: wp_total)

lemma MsiIrq_new_step:
  assumes "fds_available os" "msi_limit_ok t"
  shows "wp (MsiIrq_new os base count) (\<lambda>grp t'. same_groups t t' \<and> fresh_group MsiSource base count grp) (\<lambda>_. same_groups t) t"
proof (cases "count > max_msi_irqs t \<or> base \<ge> MAX_IRQS")
  case True
  then show ?thesis by (auto simp: MsiIrq_new_def wp_simps)
next
  case False
  then have "checked_add u32_max base count = Some (base + count)" using assms(2) by (simp add: checked_add_def msi_limit_ok_def)
  moreover have "wp (new_irqfds os count) (\<lambda>fds t'. same_groups t t' \<and> fresh_group MsiSource base count
      \<lparr>grp_type = MsiSource, grp_base = base, grp_fds = fds, grp_cfgs = replicate count msi_cfg_default\<rparr>) (\<lambda>_. same_groups t) t"
    if "base + count \<le> MAX_IRQS"
    by (rule wp_mono [OF new_irqfds_step [OF assms(1)]]) (use that in \<open>auto simp: fresh_group_def grp_ok_def grp_len_def\<close>)
  ultimately show ?thesis using False by (auto simp: MsiIrq_new_def wp_simps)
qed

lemma create_group_step:
  assumes "irq_os_ok os" "fds_available os" "irq_ok t" "msi_limit_ok t"
  shows "wp (create_group os ty base count)
    (\<lambda>g t'. created t t' \<and> (\<exists>grp. irq_store t' g = Some grp \<and> fresh_group ty base count grp)) (\<lambda>_. created t) t"
proof -
  have new: "created t u \<and> (\<exists>grp. irq_store u g = Some grp \<and> fresh_group ty base count grp)"
    if "same_groups t t1" "fresh_group ty base count grp"
      "u = t1\<lparr>irq_store := (irq_store t1)(irq_next t1 \<mapsto> grp), irq_next := irq_next t1 + 1, irq_groups := m\<rparr>" "g = irq_next t1" for t1 grp u m g
    using that assms(3) by (fastforce simp: created_def stable_def irq_ok_def same_groups_def fresh_group_def)
  have "wp (case ty of LegacySource \<Rightarrow> LegacyIrq_new os base count | MsiSource \<Rightarrow> MsiIrq_new os base count)
      (\<lambda>grp t'. same_groups t t' \<and> fresh_group ty base count grp) (\<lambda>_. same_groups t) t"
    using LegacyIrq_new_step [OF assms(1)] MsiIrq_new_step [OF assms(2,4)] by (cases ty) auto
  then have "wp (case ty of LegacySource \<Rightarrow> LegacyIrq_new os base count | MsiSource \<Rightarrow> MsiIrq_new os base count)
      (\<lambda>grp. wp (eff_bind (new_group grp) (\<lambda>g. eff_bind (eff_modify (\<lambda>s. s\<lparr>irq_groups := (irq_groups s)(base \<mapsto> g)\<rparr>)) (\<lambda>_. eff_ret g)))
        (\<lambda>g t'. created t t' \<and> (\<exists>grp. irq_store t' g = Some grp \<and> fresh_group ty base count grp)) (\<lambda>_. created t)) (\<lambda>_. created t) t"
    by (rule wp_mono) (use new created_same [OF assms(3)] in \<open>auto simp: wp_simps\<close>)
  then show ?thesis by (simp add: create_group_def wp_bind)
qed

definition building :: "nat \<Rightarrow> DeviceInterruptMode set \<Rightarrow> 'w dim_state \<Rightarrow> bool" where
  "building n modes s \<longleftrightarrow> d_ok s \<and> intr_mode (dim s) = Disabled \<and> \<not> activated (dim s) \<and> length (intr_groups (dim s)) \<le> n \<and>
     (\<forall>m. has_mode (dim s) m \<longleftrightarrow> m \<in> modes) \<and> msi_limit_ok (irqs s)"

lemma building_init:
  assumes "irq_ok (irqs s)" "msi_limit_ok (irqs s)"
  shows "building 0 {} (s\<lparr>dim := dim_init\<rparr>)"
proof -
  have "mode2idx dim_init ! mode_index m = u64_max" for m by (cases m) (simp_all add: dim_init_def)
  then have "\<not> has_mode dim_init m" for m by (simp add: has_mode_def)
  then show ?thesis using assms by (simp add: building_def d_ok_def dim_ok_def) (simp add: dim_init_def u64_max_def)
qed

lemma mode_index_inj: "mode_index m = mode_index m' \<longleftrightarrow> m = m'"
  by (cases m; cases m') simp_all

lemma building_push:
  assumes b: "building n modes s" and n: "n < 10" and g: "irq_store (irqs s) g = Some grp" "grp_type grp = mode_source m" "m \<noteq> Disabled"
    and len: "m \<noteq> LegacyIrqMode \<longrightarrow> grp_len grp \<le> length (msi_config (dim s))"
  shows "building (Suc n) (insert m modes) (s\<lparr>dim := push_group m g (dim s)\<rparr>)"
proof -
  let ?d = "dim s" and ?d' = "push_group m g (dim s)"
  have l: "length (mode2idx ?d) = 5" "length (intr_groups ?d) \<le> n" using b by (simp_all add: building_def d_ok_def dim_ok_def)
  have idx: "mode2idx ?d' ! mode_index x = (if x = m then length (intr_groups ?d) else mode2idx ?d ! mode_index x)" for x
    using l mode_index_lt [of m] mode_index_inj [of x m] by (auto simp: push_group_def nth_list_update)
  have small: "length (intr_groups ?d) < u64_max" using l n by (simp add: u64_max_def)
  have hm: "has_mode ?d' x \<longleftrightarrow> x = m \<or> has_mode ?d x" for x
    using g(3) small by (auto simp: has_mode_def idx)
  have "mode_group ?d' (irqs s) x" if "has_mode ?d' x" for x
  proof (cases "x = m")
    case True
    then show ?thesis using g len by (simp add: mode_group_def idx) (simp add: push_group_def)
  next
    case False
    then have "mode_group ?d (irqs s) x" using that hm b by (simp add: building_def d_ok_def dim_ok_def)
    then show ?thesis using False by (auto simp: mode_group_def idx) (auto simp: push_group_def nth_append)
  qed
  then have "dim_ok ?d' (irqs s)" using b l n by (simp add: dim_ok_def building_def d_ok_def) (simp add: push_group_def u64_max_def)
  then show ?thesis using b hm by (auto simp: building_def d_ok_def) (simp_all add: push_group_def)
qed

lemma building_resize: "building n modes s \<Longrightarrow> building n modes (s\<lparr>dim := resize_msi_config_space k (dim s)\<rparr>) \<and> k \<le> length (msi_config (resize_msi_config_space k (dim s)))"
  by (auto simp: building_def d_ok_def dim_ok_def resize_msi_config_space_def has_mode_def mode_group_def)

lemma building_created: "building n modes s \<Longrightarrow> created (irqs s) t \<Longrightarrow> building n modes (s\<lparr>irqs := t\<rparr>)"
  by (auto simp: building_def d_ok_def created_def msi_limit_ok_def stable_def intro: dim_ok_stable)

lemma create_for_building:
  assumes "irq_os_ok os" "fds_available os" "building n modes s"
  shows "wp (d_irq (create_group os ty base count))
    (\<lambda>g s'. building n modes s' \<and> created (irqs s) (irqs s') \<and> (\<exists>grp. irq_store (irqs s') g = Some grp \<and> fresh_group ty base count grp))
    (\<lambda>_ s'. created (irqs s) (irqs s')) s"
  unfolding wp_d_irq
  by (rule wp_mono [OF create_group_step [OF assms(1,2)]]) (use assms(3) building_created in \<open>auto simp: building_def d_ok_def\<close>)

lemma add_msi_group_step:
  assumes os: "irq_os_ok os" "fds_available os" and b: "building n modes s" and n: "n < 10" and m: "m \<noteq> Disabled" "m \<noteq> LegacyIrqMode"
  shows "wp (add_msi_group os m res) (\<lambda>_ s'. building (Suc n) (if res = None then modes else insert m modes) s' \<and> created (irqs s) (irqs s'))
    (\<lambda>_ s'. created (irqs s) (irqs s')) s"
proof (cases res)
  case None
  then show ?thesis using b by (auto simp: add_msi_group_def wp_ret building_def created_def d_ok_def)
next
  case (Some bc)
  obtain base count where bc: "bc = (base, count)" by (cases bc)
  have push: "building (Suc n) (insert m modes) (t\<lparr>dim := push_group m g (resize_msi_config_space (grp_len grp) (dim t))\<rparr>)"
    if "building n modes t" "irq_store (irqs t) g = Some grp" "fresh_group MsiSource base count grp" for t :: "'a dim_state" and g grp
    using building_push [OF conjunct1 [OF building_resize [OF that(1), of "grp_len grp"]] n, of g grp m] building_resize [OF that(1), of "grp_len grp"] that m
    by (simp add: fresh_group_def mode_source_def)
  have "wp (d_irq (create_group os MsiSource base count))
      (\<lambda>g. wp (eff_bind (d_irq (the_group g)) (\<lambda>grp. eff_bind (d_modify (resize_msi_config_space (grp_len grp))) (\<lambda>_. d_modify (push_group m g))))
         (\<lambda>_ s'. building (Suc n) (insert m modes) s' \<and> created (irqs s) (irqs s')) (\<lambda>_ s'. created (irqs s) (irqs s')))
      (\<lambda>_ s'. created (irqs s) (irqs s')) s"
    by (rule wp_mono [OF create_for_building [OF os b]]) (use push in \<open>auto simp: wp_simps\<close>)
  then show ?thesis by (simp add: add_msi_group_def Some bc wp_bind)
qed

definition offered :: "DeviceResources \<Rightarrow> DeviceInterruptMode set" where
  "offered res = (if get_legacy_irq res = None then {} else {LegacyIrqMode}) \<union> (if get_generic_msi_irqs res = None then {} else {GenericMsiIrq}) \<union>
     (if get_pci_msi_irqs res = None then {} else {PciMsiIrq}) \<union> (if get_pci_msix_irqs res = None then {} else {PciMsixIrq})"

lemma add_legacy_step:
  assumes os: "irq_os_ok os" "fds_available os" and b: "building 0 {} s"
  shows "wp (case r of None \<Rightarrow> eff_ret () | Some irq \<Rightarrow> eff_bind (d_irq (create_group os LegacySource irq 1)) (\<lambda>g. d_modify (push_group LegacyIrqMode g)))
    (\<lambda>_ s'. building 1 (if r = None then {} else {LegacyIrqMode}) s' \<and> created (irqs s) (irqs s')) (\<lambda>_ s'. created (irqs s) (irqs s')) s"
proof (cases r)
  case None
  then show ?thesis using b by (auto simp: wp_ret building_def created_def d_ok_def)
next
  case (Some irq)
  have push: "building 1 {LegacyIrqMode} (t\<lparr>dim := push_group LegacyIrqMode g (dim t)\<rparr>)"
    if "building 0 {} t" "irq_store (irqs t) g = Some grp" "fresh_group LegacySource irq 1 grp" for t :: "'a dim_state" and g grp
    using building_push [OF that(1) _ that(2), of LegacyIrqMode] that(3) by (simp add: fresh_group_def mode_source_def)
  have "wp (d_irq (create_group os LegacySource irq 1))
      (\<lambda>g. wp (d_modify (push_group LegacyIrqMode g)) (\<lambda>_ s'. building 1 {LegacyIrqMode} s' \<and> created (irqs s) (irqs s')) (\<lambda>_ s'. created (irqs s) (irqs s')))
      (\<lambda>_ s'. created (irqs s) (irqs s')) s"
    by (rule wp_mono [OF create_for_building [OF os b]]) (use push in \<open>auto simp: wp_simps\<close>)
  then show ?thesis by (simp add: Some wp_bind)
qed

lemma wp_seq_created:
  assumes m: "wp m (\<lambda>_ s'. P s' \<and> created (irqs s) (irqs s')) (\<lambda>_ s'. created (irqs s) (irqs s')) s"
    and n: "\<And>s'. P s' \<Longrightarrow> wp n (\<lambda>_ s''. Q s'' \<and> created (irqs s') (irqs s'')) (\<lambda>_ s''. created (irqs s') (irqs s'')) s'"
  shows "wp (eff_bind m (\<lambda>_. n)) (\<lambda>_ s'. Q s' \<and> created (irqs s) (irqs s')) (\<lambda>_ s'. created (irqs s) (irqs s')) s"
  unfolding wp_bind
proof (rule wp_mono [OF m])
  fix a s' assume "P s' \<and> created (irqs s) (irqs s')"
  then show "wp n (\<lambda>_ s'. Q s' \<and> created (irqs s) (irqs s')) (\<lambda>_ s'. created (irqs s) (irqs s')) s'"
    by (intro wp_mono [OF n [of s']]) (auto intro: created_trans)
qed auto

lemma DeviceInterruptManager_new_step:
  assumes os: "irq_os_ok os" "fds_available os" and s: "irq_ok (irqs s)" "msi_limit_ok (irqs s)"
  shows "wp (DeviceInterruptManager_new os res) (\<lambda>_ s'. building 4 (offered res) s' \<and> created (irqs s) (irqs s'))
    (\<lambda>_ s'. created (irqs s) (irqs s')) s"
proof -
  let ?A = "if get_legacy_irq res = None then {} else {LegacyIrqMode}"
  let ?B = "if get_generic_msi_irqs res = None then ?A else insert GenericMsiIrq ?A"
  let ?C = "if get_pci_msi_irqs res = None then ?B else insert PciMsiIrq ?B"
  have off: "(if get_pci_msix_irqs res = None then ?C else insert PciMsixIrq ?C) = offered res" by (auto simp: offered_def)
  let ?s = "s\<lparr>dim := dim_init\<rparr>"
  have "wp (eff_bind (case get_legacy_irq res of None \<Rightarrow> eff_ret ()
       | Some irq \<Rightarrow> eff_bind (d_irq (create_group os LegacySource irq 1)) (\<lambda>g. d_modify (push_group LegacyIrqMode g))) (\<lambda>_.
     eff_bind (add_msi_group os GenericMsiIrq (get_generic_msi_irqs res)) (\<lambda>_.
     eff_bind (add_msi_group os PciMsiIrq (get_pci_msi_irqs res)) (\<lambda>_.
     add_msi_group os PciMsixIrq (get_pci_msix_irqs res)))))
     (\<lambda>_ s'. building 4 (offered res) s' \<and> created (irqs ?s) (irqs s')) (\<lambda>_ s'. created (irqs ?s) (irqs s')) ?s"
    apply (rule wp_seq_created [OF add_legacy_step [OF os building_init [OF s]]])
    apply (rule wp_seq_created [OF add_msi_group_step [OF os, where n = 1 and modes = ?A]], assumption, simp, simp, simp)
    apply (rule wp_seq_created [OF add_msi_group_step [OF os, where n = 2 and modes = ?B]], simp add: numeral_2_eq_2, simp, simp, simp)
    apply (rule wp_mono [OF add_msi_group_step [OF os, where n = 3 and modes = ?C]])
    by (simp_all add: numeral_3_eq_3 numeral_2_eq_2 numeral_eq_Suc off del: if_image_distrib split del: if_split)
  then show ?thesis by (simp add: DeviceInterruptManager_new_def wp_bind wp_d_modify)
qed

end
