(* ===== verification/MmioLogic.thy ===== *)
theory MmioLogic
  imports IrqLogic VirtioMmio
begin

text \<open>
  What every access to the registers of an MMIO device keeps: weakest preconditions of the
  operations of \<open>VirtioMmio\<close>, the invariant of the transport, and the relation between the states
  before and after an access.  Calls to KVM and to the backend may fail at any time, but they return.
\<close>

section \<open>Weakest preconditions\<close>

lemma wp_x_dev [wp_simps]: "wp (x_dev f) Q E s \<longleftrightarrow> Q () (s\<lparr>mdev := f (mdev s)\<rparr>)"
  by (simp add: x_dev_def wp_modify)

lemma wp_x_st [wp_simps]: "wp (x_st f) Q E s \<longleftrightarrow> Q () (s\<lparr>mdev := (mdev s)\<lparr>dstate := f (dstate (mdev s))\<rparr>\<rparr>)"
  by (simp add: x_st_def wp_x_dev)

lemma wp_x_get [wp_simps]: "wp (x_get f) Q E s \<longleftrightarrow> Q (f (dstate (mdev s))) s"
  by (simp add: x_get_def wp_def)

lemma wp_x_irq [wp_simps]: "wp (x_irq m) Q E s \<longleftrightarrow> wp m (\<lambda>x t. Q x (s\<lparr>mirqs := t\<rparr>)) (\<lambda>e t. E e (s\<lparr>mirqs := t\<rparr>)) (mirqs s)"
  by (simp add: x_irq_def wp_zoom)

lemma wp_x_world [wp_simps]:
  "wp (x_world m) Q E s \<longleftrightarrow> wp m (\<lambda>x w. Q x (s\<lparr>mirqs := (mirqs s)\<lparr>irq_world := w\<rparr>\<rparr>)) (\<lambda>e w. E e (s\<lparr>mirqs := (mirqs s)\<lparr>irq_world := w\<rparr>\<rparr>))
     (irq_world (mirqs s))"
  by (simp add: x_world_def wp_x_irq wp_kvm)

abbreviation intr_of :: "('q, 'w) mmio_sys \<Rightarrow> 'w dim_state" where
  "intr_of s \<equiv> \<lparr>dim = intr_mgr (dstate (mdev s)), irqs = mirqs s\<rparr>"

abbreviation put_intr :: "'w dim_state \<Rightarrow> ('q, 'w) mmio_sys \<Rightarrow> ('q, 'w) mmio_sys" where
  "put_intr t s \<equiv> s\<lparr>mdev := (mdev s)\<lparr>dstate := (dstate (mdev s))\<lparr>intr_mgr := dim t\<rparr>\<rparr>, mirqs := irqs t\<rparr>"

lemma wp_x_intr [wp_simps]:
  "wp (x_intr m) Q E s \<longleftrightarrow> wp m (\<lambda>x t. Q x (put_intr t s)) (\<lambda>e t. E e (put_intr t s)) (intr_of s)"
  by (simp add: x_intr_def wp_zoom)

lemma wp_u64_add [wp_simps]: "wp (u64_add a b) Q E s \<longleftrightarrow> a + b \<le> u64_max \<and> Q (a + b) s"
  by (simp add: u64_add_def wp_eff_total checked_add_def)

lemma wp_succeeds [wp_simps]: "wp (succeeds m) Q E s \<longleftrightarrow> wp m (\<lambda>_. Q True) (\<lambda>_. Q False) s"
  by (simp add: succeeds_def wp_def split: option.splits prod.splits sum.splits)

lemma wp_on_err [wp_simps]: "wp (on_err m h) Q E s \<longleftrightarrow> wp m Q (\<lambda>e. wp h (\<lambda>_. E (IOError e)) E) s"
  by (simp add: on_err_def wp_def eff_bind_def split: option.splits prod.splits sum.splits)

lemma wp_exchange [wp_simps]:
  "wp (exchange_driver_status old new) Q E s \<longleftrightarrow>
     (if driver_status (mdev s) = old then Q True (s\<lparr>mdev := (mdev s)\<lparr>driver_status := new\<rparr>\<rparr>) else Q False s)"
  by (simp add: exchange_driver_status_def wp_def)

lemma wp_x_pure [wp_simps]: "wp (x_pure f) Q E s \<longleftrightarrow> (\<exists>v. f s = Some v \<and> Q v s)"
  by (simp add: x_pure_def wp_def split: option.splits)

lemma wp_check_queues [wp_simps]:
  "wp (check_queues_valid qt) Q E s \<longleftrightarrow>
     Q (list_all (\<lambda>c. q_is_valid qt (queue c) (irq_world (mirqs s))) (queues (dstate (mdev s)))) s"
  by (simp add: check_queues_valid_def wp_def)

section \<open>Invariant\<close>

definition mmio_os_ok :: "'w mmio_os \<Rightarrow> bool" where
  "mmio_os_ok os \<longleftrightarrow> irq_os_ok (irq_sys os) \<and> (\<forall>fd a m w. register_ioevent os fd a m w \<noteq> None) \<and>
     (\<forall>fd a m w. unregister_ioevent os fd a m w \<noteq> None)"

definition backend_ok :: "('q, 'w) VirtioDevice \<Rightarrow> bool" where
  "backend_ok vd \<longleftrightarrow> (\<forall>cfg w. vd_activate vd cfg w \<noteq> None) \<and> (\<forall>w. vd_reset vd w \<noteq> None)"

text \<open>A queue reports the maximal size it was made with, and no setter changes it.\<close>

definition queue_laws :: "('q, 'w) QueueT \<Rightarrow> bool" where
  "queue_laws qt \<longleftrightarrow> (\<forall>n q. q_new qt n = Inr q \<longrightarrow> q_max_size qt q = n) \<and>
     (\<forall>q n. q_max_size qt (q_set_size qt q n) = q_max_size qt q) \<and>
     (\<forall>q b. q_max_size qt (q_set_ready qt q b) = q_max_size qt q) \<and>
     (\<forall>q l h. q_max_size qt (q_set_desc_table_address qt q l h) = q_max_size qt q) \<and>
     (\<forall>q l h. q_max_size qt (q_set_avail_ring_address qt q l h) = q_max_size qt q) \<and>
     (\<forall>q l h. q_max_size qt (q_set_used_ring_address qt q l h) = q_max_size qt q)"

definition renewable :: "('q, 'w) QueueT \<Rightarrow> 'q \<Rightarrow> bool" where
  "renewable qt q \<longleftrightarrow> (\<exists>q'. q_new qt (q_max_size qt q) = Inr q')"

definition addresses_ok :: "'q MmioV2DeviceState \<Rightarrow> bool" where
  "addresses_ok st \<longleftrightarrow> mmio_base st + MMIO_NOTIFY_REG_OFFSET \<le> u64_max \<and>
     (\<forall>d i. doorbell st = Some d \<longrightarrow> i < length (queues st) \<longrightarrow> mmio_base st + queue_offset d i \<le> u64_max) \<and>
     (\<forall>l. shm_regions st = Some l \<longrightarrow> (\<forall>r \<in> set (region_list l). shm_offset r + guest_addr l \<le> u64_max))"

definition queues_ok :: "('q, 'w) QueueT \<Rightarrow> 'q MmioV2DeviceState \<Rightarrow> bool" where
  "queues_ok qt st \<longleftrightarrow> queues st \<noteq> [] \<and> (\<forall>c \<in> set (queues st). renewable qt (queue c))"

definition modes_ok :: "DeviceInterruptManager \<Rightarrow> bool" where
  "modes_ok d \<longleftrightarrow> has_mode d LegacyIrqMode \<and> has_mode d GenericMsiIrq \<and> mode_served d"

text \<open>\<open>z\<close> is an earlier state: the device keeps the resources it was created with, and other devices find their interrupt groups as they were.\<close>

definition descends :: "('q, 'w) mmio_sys \<Rightarrow> ('q, 'w) mmio_sys \<Rightarrow> bool" where
  "descends z s \<longleftrightarrow> stable (mirqs z) (mirqs s) \<and> assigned_resources (mdev s) = assigned_resources (mdev z) \<and> mmio_cfg_res (mdev s) = mmio_cfg_res (mdev z)"

lemma stable_parts [simp]: "stable r (t\<lparr>irq_world := w\<rparr>) = stable r t" "stable r (t\<lparr>irq_routes := m\<rparr>) = stable r t"
  by (simp_all add: stable_def)

lemma descends_refl [simp]: "descends z z"
  by (simp add: descends_def)

definition x_ok :: "('q, 'w) mmio_sys \<Rightarrow> ('q, 'w) QueueT \<Rightarrow> ('q, 'w) mmio_sys \<Rightarrow> bool" where
  "x_ok z qt s \<longleftrightarrow> d_ok (intr_of s) \<and> modes_ok (intr_mgr (dstate (mdev s))) \<and> queues_ok qt (dstate (mdev s)) \<and> addresses_ok (dstate (mdev s)) \<and>
     descends z s"

text \<open>States that agree on everything a driver relies on while the device is active.\<close>

definition keep :: "('q, 'w) mmio_sys \<Rightarrow> ('q, 'w) QueueT \<Rightarrow> ('q, 'w) mmio_sys \<Rightarrow> ('q, 'w) mmio_sys \<Rightarrow> bool" where
  "keep z qt s s' \<longleftrightarrow> x_ok z qt s' \<and> driver_status (mdev s') = driver_status (mdev s) \<and>
     device_activated (dstate (mdev s')) = device_activated (dstate (mdev s)) \<and>
     ioevent_registered (dstate (mdev s')) = ioevent_registered (dstate (mdev s)) \<and> queues (dstate (mdev s')) = queues (dstate (mdev s)) \<and>
     activated (intr_mgr (dstate (mdev s'))) = activated (intr_mgr (dstate (mdev s))) \<and>
     intr_mode (intr_mgr (dstate (mdev s'))) = intr_mode (intr_mgr (dstate (mdev s)))"

lemma keep_refl: "x_ok z qt s \<Longrightarrow> keep z qt s s"
  by (simp add: keep_def)

lemma keep_trans: "keep z qt s t \<Longrightarrow> keep z qt t u \<Longrightarrow> keep z qt s u"
  by (simp add: keep_def)

lemma keep_x_ok: "keep z qt s s' \<Longrightarrow> x_ok z qt s'"
  by (simp add: keep_def)

abbreviation keeps_x :: "('q, 'w) mmio_sys \<Rightarrow> ('q, 'w) QueueT \<Rightarrow> (('q, 'w) mmio_sys, 'e, 'a) eff \<Rightarrow> ('q, 'w) mmio_sys \<Rightarrow> bool" where
  "keeps_x z qt m s \<equiv> wp m (\<lambda>_. keep z qt s) (\<lambda>_ _. False) s"

abbreviation tries_x :: "('q, 'w) mmio_sys \<Rightarrow> ('q, 'w) QueueT \<Rightarrow> (('q, 'w) mmio_sys, 'e, 'a) eff \<Rightarrow> ('q, 'w) mmio_sys \<Rightarrow> bool" where
  "tries_x z qt m s \<equiv> wp m (\<lambda>_. keep z qt s) (\<lambda>_. keep z qt s) s"

lemma keeps_tries: "keeps_x z qt m s \<Longrightarrow> tries_x z qt m s"
  by (erule wp_mono) auto

lemma keeps_x_seq:
  assumes "keeps_x z qt m s" "\<And>x t. keep z qt s t \<Longrightarrow> keeps_x z qt (f x) t"
  shows "keeps_x z qt (eff_bind m f) s"
  unfolding wp_bind by (rule wp_mono [OF assms(1)]) (auto intro: wp_mono [OF assms(2)] keep_trans)

lemma tries_x_seq:
  assumes "tries_x z qt m s" "\<And>x t. keep z qt s t \<Longrightarrow> tries_x z qt (f x) t"
  shows "tries_x z qt (eff_bind m f) s"
  unfolding wp_bind by (rule wp_mono [OF assms(1)]) (auto intro: wp_mono [OF assms(2)] keep_trans)

lemma keeps_x_ignore: "tries_x z qt m s \<Longrightarrow> keeps_x z qt (eff_ignore m) s"
  by (simp add: wp_ignore)

lemma same_world [simp]:
  "dim_ok d (t\<lparr>irq_world := w\<rparr>) = dim_ok d t" "irq_ok (t\<lparr>irq_world := w\<rparr>) = irq_ok t"
  by (simp_all add: dim_ok_def mode_group_def irq_ok_def)

lemma x_ok_world [simp]: "x_ok z qt (s\<lparr>mirqs := (mirqs s)\<lparr>irq_world := w\<rparr>\<rparr>) = x_ok z qt s"
  by (simp add: x_ok_def d_ok_def descends_def)

lemma keep_world: "x_ok z qt s \<Longrightarrow> keep z qt s (s\<lparr>mirqs := (mirqs s)\<lparr>irq_world := w\<rparr>\<rparr>)"
  by (simp add: keep_def)

lemma tries_world: "x_ok z qt s \<Longrightarrow> (\<And>w. m w \<noteq> None) \<Longrightarrow> tries_x z qt (x_world m) s"
  by (simp add: wp_x_world) (rule wp_total, auto intro: keep_world)

lemma keeps_get: "x_ok z qt s \<Longrightarrow> keeps_x z qt (x_get f) s"
  by (simp add: wp_x_get keep_refl)

section \<open>I/O events\<close>

lemma mmio_os_okD:
  assumes "mmio_os_ok os"
  shows "irq_os_ok (irq_sys os)" "register_ioevent os fd a m w \<noteq> None" "unregister_ioevent os fd a m w \<noteq> None"
  using assms by (simp_all add: mmio_os_ok_def)

text \<open>Registering I/O events changes nothing but the world.\<close>

definition only_world :: "('q, 'w) mmio_sys \<Rightarrow> ('q, 'w) mmio_sys \<Rightarrow> bool" where
  "only_world s s' \<longleftrightarrow> (\<exists>w. s' = s\<lparr>mirqs := (mirqs s)\<lparr>irq_world := w\<rparr>\<rparr>)"

lemma only_worldI: "only_world s (s\<lparr>mirqs := (mirqs s)\<lparr>irq_world := w\<rparr>\<rparr>)"
  by (auto simp: only_world_def)

lemma only_world_refl: "only_world s s"
  unfolding only_world_def by (rule exI [of _ "irq_world (mirqs s)"]) simp

lemma only_world_trans: "only_world s t \<Longrightarrow> only_world t u \<Longrightarrow> only_world s u"
  by (auto simp: only_world_def)

lemma only_world_mdev: "only_world s t \<Longrightarrow> mdev t = mdev s"
  by (auto simp: only_world_def)

lemma only_world_keep: "only_world s t \<Longrightarrow> x_ok z qt s \<Longrightarrow> keep z qt s t"
  by (auto simp: only_world_def keep_world)

lemma world_seq:
  assumes "wp m (\<lambda>_. only_world s) (\<lambda>_. only_world s) s" "\<And>x t. only_world s t \<Longrightarrow> wp (f x) (\<lambda>_. only_world t) (\<lambda>_. only_world t) t"
  shows "wp (eff_bind m f) (\<lambda>_. only_world s) (\<lambda>_. only_world s) s"
  unfolding wp_bind by (rule wp_mono [OF assms(1)]) (auto intro: wp_mono [OF assms(2)] only_world_trans)

lemma world_seq_ok:
  assumes "wp m (\<lambda>_. only_world s) E s" "\<And>x t. only_world s t \<Longrightarrow> wp (f x) (\<lambda>_. only_world t) E t"
  shows "wp (eff_bind m f) (\<lambda>_. only_world s) E s"
  unfolding wp_bind by (rule wp_mono [OF assms(1)]) (auto intro: wp_mono [OF assms(2)] only_world_trans)

lemma world_call: "(\<And>w. m w \<noteq> None) \<Longrightarrow> wp (x_world m) (\<lambda>_. only_world s) (\<lambda>_. only_world s) s"
  by (simp add: wp_x_world) (rule wp_total, auto intro: only_worldI)

lemma world_ignore: "wp m (\<lambda>_. only_world s) (\<lambda>_. only_world s) s \<Longrightarrow> wp (eff_ignore m) (\<lambda>_. only_world s) E s"
  by (simp add: wp_ignore)

lemma world_on_err:
  assumes "wp m (\<lambda>_. only_world s) (\<lambda>_. only_world s) s" "\<And>t. only_world s t \<Longrightarrow> wp h (\<lambda>_. only_world t) (\<lambda>_. only_world t) t"
  shows "wp (on_err m h) (\<lambda>_. only_world s) (\<lambda>_. only_world s) s"
  unfolding wp_on_err by (rule wp_mono [OF assms(1)]) (auto intro: wp_mono [OF assms(2)] only_world_trans)

lemma world_addr: "mmio_base (dstate (mdev s)) + n \<le> u64_max \<Longrightarrow> (\<And>a. wp (f a) Q E s) \<Longrightarrow>
    wp (eff_bind (x_get mmio_base) (\<lambda>b. eff_bind (u64_add b n) f)) Q E s"
  by (simp add: wp_simps)

lemma world_unregister: "mmio_os_ok os \<Longrightarrow> wp (eff_ignore (x_world (unregister_ioevent os fd a m))) (\<lambda>_. only_world s) E s"
  by (rule world_ignore [OF world_call [OF mmio_os_okD(3)]])

lemma doorbell_addr_ok:
  assumes "addresses_ok (dstate (mdev s))" "doorbell (dstate (mdev s)) = Some d" "i < length (queues (dstate (mdev s)))"
  shows "wp (eff_bind (doorbell_addr d i) f) Q E s \<longleftrightarrow> wp (f (mmio_base (dstate (mdev s)) + queue_offset d i)) Q E s"
  using assms by (simp add: doorbell_addr_def wp_simps addresses_ok_def)

lemma unregister_doorbells_world:
  assumes "mmio_os_ok os" "addresses_ok (dstate (mdev s))" "doorbell (dstate (mdev s)) = Some d" "i + length qs \<le> length (queues (dstate (mdev s)))"
  shows "wp (unregister_doorbells os d i qs) (\<lambda>_. only_world s) E s"
  using assms(2-)
proof (induction qs arbitrary: i s)
  case Nil
  then show ?case by (simp add: wp_def only_world_refl)
next
  case (Cons q qs)
  have i: "i < length (queues (dstate (mdev s)))" using Cons.prems(3) by simp
  show ?case
    unfolding unregister_doorbells.simps doorbell_addr_ok [OF Cons.prems(1,2) i]
    by (rule world_seq_ok [OF world_unregister [OF assms(1)]], rule Cons.IH) (use Cons.prems in \<open>auto dest!: only_world_mdev\<close>)
qed

lemma unregister_doorbell_world:
  assumes "mmio_os_ok os" "addresses_ok (dstate (mdev s))"
  shows "wp (unregister_ioevent_doorbell os) (\<lambda>_. only_world s) E s"
  using unregister_doorbells_world [OF assms, of _ 0 "queues (dstate (mdev s))"]
  by (auto simp: unregister_ioevent_doorbell_def wp_simps only_world_refl split: option.splits)

lemma revert_loop_world:
  assumes "mmio_os_ok os"
  shows "wp (revert_loop os qs a wc n) (\<lambda>_. only_world s) (\<lambda>_. only_world s) s"
proof (induction n arbitrary: s)
  case 0
  then show ?case by (simp add: wp_def only_world_refl)
next
  case (Suc n)
  show ?case unfolding revert_loop.simps by (rule world_seq [OF world_unregister [OF assms] Suc])
qed

lemma revert_ioevent_world:
  assumes "mmio_os_ok os" "n < length (queues (dstate (mdev s)))"
  shows "wp (revert_ioevent os n a wc) (\<lambda>_. only_world s) (\<lambda>_. only_world s) s"
  using revert_loop_world [OF assms(1)] assms(2) by (simp add: revert_ioevent_def wp_simps)

lemma register_loop_world:
  fixes s :: "('q, 'w) mmio_sys"
  assumes os: "mmio_os_ok os" and "addresses_ok (dstate (mdev s))" "i + length qs \<le> length (queues (dstate (mdev s)))"
  shows "wp (register_loop_ioevent os i qs) (\<lambda>_. only_world s) (\<lambda>_. only_world s) s"
  using assms(2-)
proof (induction qs arbitrary: i s)
  case Nil
  then show ?case by (simp add: wp_def only_world_refl)
next
  case (Cons q qs)
  have bell: "wp (on_err (x_world (register_ioevent os (eventfd q) a NoDatamatch)) (revert_ioevent os i a True)) (\<lambda>_. only_world s) (\<lambda>_. only_world s) s" for a
    by (rule world_on_err [OF world_call [OF mmio_os_okD(2) [OF os]] revert_ioevent_world [OF os]]) (use Cons.prems only_world_mdev in fastforce)
  have notify: "wp (on_err (x_world (register_ioevent os (eventfd q) a (DataU32 i)))
      (eff_bind (unregister_ioevent_doorbell os) (\<lambda>_. revert_ioevent os i a False))) (\<lambda>_. only_world t) (\<lambda>_. only_world t) t"
    if "only_world s t" for a and t :: "('q, 'w) mmio_sys"
    by (rule world_on_err [OF world_call [OF mmio_os_okD(2) [OF os]] world_seq [OF unregister_doorbell_world [OF os] revert_ioevent_world [OF os]]])
      (use Cons.prems that in \<open>auto dest!: only_world_mdev\<close>)
  show ?case
    unfolding register_loop_ioevent.simps
  proof (rule world_seq)
    show "wp (eff_bind (x_get doorbell) (\<lambda>db. case db of None \<Rightarrow> eff_ret () | Some d \<Rightarrow> eff_bind (doorbell_addr d i)
        (\<lambda>a. on_err (x_world (register_ioevent os (eventfd q) a NoDatamatch)) (revert_ioevent os i a True)))) (\<lambda>_. only_world s) (\<lambda>_. only_world s) s"
      using bell Cons.prems by (auto simp: wp_bind wp_x_get wp_option wp_ret only_world_refl doorbell_addr_ok [unfolded wp_bind] split: option.splits)
  next
    fix t :: "('q, 'w) mmio_sys"
    assume t: "only_world s t"
    show "wp (eff_bind (x_get mmio_base) (\<lambda>b. eff_bind (u64_add b MMIO_NOTIFY_REG_OFFSET) (\<lambda>a.
        eff_bind (on_err (x_world (register_ioevent os (eventfd q) a (DataU32 i)))
          (eff_bind (unregister_ioevent_doorbell os) (\<lambda>_. revert_ioevent os i a False))) (\<lambda>_. register_loop_ioevent os (i + 1) qs))))
        (\<lambda>_. only_world t) (\<lambda>_. only_world t) t"
    proof (rule world_addr)
      show "mmio_base (dstate (mdev t)) + MMIO_NOTIFY_REG_OFFSET \<le> u64_max"
        using Cons.prems only_world_mdev [OF t] by (simp add: addresses_ok_def)
    next
      fix a
      show "wp (eff_bind (on_err (x_world (register_ioevent os (eventfd q) a (DataU32 i)))
          (eff_bind (unregister_ioevent_doorbell os) (\<lambda>_. revert_ioevent os i a False))) (\<lambda>_. register_loop_ioevent os (i + 1) qs))
        (\<lambda>_. only_world t) (\<lambda>_. only_world t) t"
        by (rule world_seq [OF notify [OF t]], rule Cons.IH) (use Cons.prems t in \<open>auto dest!: only_world_mdev\<close>)
    qed
  qed
qed

definition set_registered :: "bool \<Rightarrow> ('q, 'w) mmio_sys \<Rightarrow> ('q, 'w) mmio_sys" where
  "set_registered b s = s\<lparr>mdev := (mdev s)\<lparr>dstate := (dstate (mdev s))\<lparr>ioevent_registered := b\<rparr>\<rparr>\<rparr>"

lemma set_registered_simps [simp]:
  "mirqs (set_registered b s) = mirqs s" "mdev (set_registered b s) = (mdev s)\<lparr>dstate := (dstate (mdev s))\<lparr>ioevent_registered := b\<rparr>\<rparr>"
  "x_ok z qt (set_registered b s) = x_ok z qt s" "set_registered b (set_registered c s) = set_registered b s"
  by (simp_all add: set_registered_def x_ok_def queues_ok_def addresses_ok_def descends_def)

lemma set_registered_same: "ioevent_registered (dstate (mdev s)) = b \<Longrightarrow> set_registered b s = s"
  by (auto simp: set_registered_def)

lemma only_world_set_registered: "only_world s t \<Longrightarrow> only_world (set_registered b s) (set_registered b t)"
  unfolding only_world_def by (elim exE, rename_tac w, rule_tac x = w in exI) (simp add: set_registered_def)

lemma unregister_notify_wp:
  assumes "mmio_os_ok os"
  shows "wp (unregister_notify os a i qs) (\<lambda>_ s'. only_world (if qs = [] then s else set_registered False s) s') (\<lambda>_ _. False) s"
proof (induction qs arbitrary: i s)
  case Nil
  then show ?case by (simp add: wp_def only_world_refl)
next
  case (Cons q qs)
  show ?case
    unfolding unregister_notify.simps wp_bind
    by (rule wp_mono [OF world_unregister [OF assms]], unfold wp_x_st set_registered_def [symmetric], rule wp_mono [OF Cons.IH])
      (auto dest: only_world_set_registered [where b = False] intro: only_world_trans split: if_splits)
qed

lemma unregister_ioevents_wp:
  assumes os: "mmio_os_ok os" and ok: "x_ok z qt s"
  shows "wp (unregister_ioevents os) (\<lambda>_. only_world (set_registered False s)) (\<lambda>_ _. False) s"
proof -
  have "queues (dstate (mdev s)) \<noteq> []" "mmio_base (dstate (mdev s)) + MMIO_NOTIFY_REG_OFFSET \<le> u64_max"
    using ok by (simp_all add: x_ok_def queues_ok_def addresses_ok_def descends_def)
  then show ?thesis
    using unregister_notify_wp [OF os, of _ 0 "queues (dstate (mdev s))" s]
    by (auto simp: unregister_ioevents_def wp_simps set_registered_same only_world_refl)
qed

lemma register_ioevents_wp:
  assumes os: "mmio_os_ok os" and ok: "x_ok z qt s"
  shows "wp (register_ioevents os) (\<lambda>_. only_world (set_registered True s)) (\<lambda>_. only_world s) s"
proof -
  have "addresses_ok (dstate (mdev s))" using ok by (simp add: x_ok_def)
  then have "wp (register_loop_ioevent os 0 (queues (dstate (mdev s)))) (\<lambda>_. only_world s) (\<lambda>_. only_world s) s"
    using register_loop_world [OF os, of s 0] by simp
  then show ?thesis
    unfolding register_ioevents_def wp_bind wp_x_get
    by (rule wp_mono) (auto simp: wp_x_st set_registered_def [symmetric] intro: only_world_set_registered)
qed

section \<open>Activation and reset\<close>

lemma has_mode_same: "same_dev d d' \<Longrightarrow> has_mode d' m = has_mode d m"
  by (simp add: same_dev_def has_mode_def)

lemma x_ok_intr: "x_ok z qt s \<Longrightarrow> d_step (intr_of s) t \<Longrightarrow> mode_served (dim t) \<Longrightarrow> x_ok z qt (put_intr t s)"
  by (auto simp: x_ok_def d_step_def d_ok_def modes_ok_def has_mode_same queues_ok_def addresses_ok_def descends_def intro: stable_trans)

lemma active_served: "d_ok t \<Longrightarrow> activated (dim t) \<Longrightarrow> mode_served (dim t)"
  by (simp add: d_ok_def dim_ok_def mode_served_def)

lemma active_group_wp:
  assumes ok: "d_ok (intr_of s)" and act: "activated (intr_mgr (dstate (mdev s)))"
  shows "wp active_group (\<lambda>g s'. s' = s \<and> (\<exists>grp. irq_store (mirqs s) g = Some grp)) (\<lambda>_ _. False) s"
proof -
  let ?d = "intr_mgr (dstate (mdev s))"
  have m: "has_mode ?d (intr_mode ?d)" using ok act by (simp add: d_ok_def dim_ok_def)
  then have "intr_mode ?d \<noteq> Disabled" by (simp add: has_mode_def)
  moreover have "mode_group ?d (mirqs s) (intr_mode ?d)" "current_idx ?d = mode2idx ?d ! mode_index (intr_mode ?d)"
    using ok m calculation by (simp_all add: d_ok_def dim_ok_def)
  ultimately show ?thesis using act
    by (auto simp: active_group_def wp_simps get_group_def vec_at_def mode_group_def)
qed

lemma create_device_config_wp:
  assumes "d_ok (intr_of s)" "activated (intr_mgr (dstate (mdev s)))"
  shows "wp create_device_config (\<lambda>_ s'. s' = s) (\<lambda>_ _. False) s"
proof -
  have g: "wp (eff_bind active_group f) Q E s" if "\<And>g grp. irq_store (mirqs s) g = Some grp \<Longrightarrow> wp (f g) Q E s" for f Q E
    unfolding wp_bind by (rule wp_mono [OF active_group_wp [OF assms]]) (use that in auto)
  have q: "wp create_queue_config (\<lambda>_ s'. s' = s) (\<lambda>_ _. False) s"
    unfolding create_queue_config_def by (rule g) (simp add: wp_simps)
  show ?thesis
    unfolding create_device_config_def wp_bind [of create_queue_config]
    by (rule wp_mono [OF q], clarify, unfold wp_bind [of "x_get has_ctrl_queue"] wp_x_get, rule g) (simp_all add: wp_simps)
qed

text \<open>The parts of the state that say how far activation went.\<close>

definition all_idle :: "('q, 'w) mmio_sys \<Rightarrow> bool" where
  "all_idle s \<longleftrightarrow> \<not> device_activated (dstate (mdev s)) \<and> \<not> ioevent_registered (dstate (mdev s)) \<and> \<not> activated (intr_mgr (dstate (mdev s)))"

definition all_active :: "('q, 'w) mmio_sys \<Rightarrow> bool" where
  "all_active s \<longleftrightarrow> device_activated (dstate (mdev s)) \<and> ioevent_registered (dstate (mdev s)) \<and> activated (intr_mgr (dstate (mdev s)))"

lemma only_world_x_ok: "only_world s t \<Longrightarrow> x_ok z qt t = x_ok z qt s"
  by (auto simp: only_world_def)

lemma activate_wp:
  assumes os: "mmio_os_ok os" and vd: "backend_ok vd" and ok: "x_ok z qt s" and rest: "\<not> device_activated (dstate (mdev s))"
  shows "wp (mmio_activate os qt vd)
    (\<lambda>_ s'. x_ok z qt s' \<and> driver_status (mdev s') = driver_status (mdev s) \<and> all_active s' \<and> queues (dstate (mdev s')) = queues (dstate (mdev s)))
    (\<lambda>_ s'. x_ok z qt s' \<and> driver_status (mdev s') = driver_status (mdev s) \<and> \<not> device_activated (dstate (mdev s'))) s" (is "wp _ ?Q ?E _")
proof -
  have last: "wp (eff_map_err ActivateFailed (x_world (vd_activate vd cfg))) (\<lambda>_. wp (x_st (device_activated_update (\<lambda>_. True))) ?Q ?E) ?E t"
    if "x_ok z qt t" "activated (intr_mgr (dstate (mdev t)))" "ioevent_registered (dstate (mdev t))" "\<not> device_activated (dstate (mdev t))"
      "driver_status (mdev t) = driver_status (mdev s)" "queues (dstate (mdev t)) = queues (dstate (mdev s))" for t cfg
    unfolding wp_map_err wp_x_world
    by (rule wp_total) (use that vd in \<open>simp_all add: backend_ok_def wp_x_st x_ok_def all_active_def d_ok_def queues_ok_def addresses_ok_def descends_def\<close>)
  have enabled: "wp (eff_map_err IOError (x_intr (dim_enable (irq_sys os)))) (\<lambda>_. wp (eff_bind create_device_config
      (\<lambda>cfg. eff_bind (eff_map_err ActivateFailed (x_world (vd_activate vd cfg))) (\<lambda>_. x_st (device_activated_update (\<lambda>_. True))))) ?Q ?E) ?E t"
    if t: "x_ok z qt t" "ioevent_registered (dstate (mdev t))" "\<not> device_activated (dstate (mdev t))"
      "driver_status (mdev t) = driver_status (mdev s)" "queues (dstate (mdev t)) = queues (dstate (mdev s))" for t
    unfolding wp_map_err wp_x_intr
  proof (rule wp_mono [OF dim_enable_step])
    show "irq_os_ok (irq_sys os)" "d_ok (intr_of t)" "mode_served (dim (intr_of t))"
      using os t(1) by (simp_all add: mmio_os_ok_def x_ok_def modes_ok_def)
  next
    fix u assume u: "d_step (intr_of t) u \<and> activated (dim u)"
    then have x: "x_ok z qt (put_intr u t)" using t(1) by (auto intro!: x_ok_intr active_served simp: d_step_def)
    have ok': "d_ok (intr_of (put_intr u t))" "activated (intr_mgr (dstate (mdev (put_intr u t))))" using x u by (simp_all add: x_ok_def)
    show "wp (eff_bind create_device_config (\<lambda>cfg. eff_bind (eff_map_err ActivateFailed (x_world (vd_activate vd cfg)))
        (\<lambda>_. x_st (device_activated_update (\<lambda>_. True))))) ?Q ?E (put_intr u t)"
      unfolding wp_bind by (rule wp_mono [OF create_device_config_wp [OF ok']], clarify, rule last) (use x u t in simp_all)
  next
    fix u assume "d_step (intr_of t) u \<and> \<not> activated (dim u) \<and> mode_served (dim u)"
    then show "?E e (put_intr u t)" for e using t by (simp add: x_ok_intr)
  qed
  have reg: "wp (register_ioevents os) (\<lambda>_ t. x_ok z qt t \<and> ioevent_registered (dstate (mdev t)) \<and> \<not> device_activated (dstate (mdev t)) \<and>
      driver_status (mdev t) = driver_status (mdev s) \<and> queues (dstate (mdev t)) = queues (dstate (mdev s))) ?E s"
    by (rule wp_mono [OF register_ioevents_wp [OF os ok]]) (use ok rest in \<open>auto simp: only_world_x_ok only_world_mdev\<close>)
  have "wp (register_ioevents os) (\<lambda>_. wp (eff_bind (eff_map_err IOError (x_intr (dim_enable (irq_sys os)))) (\<lambda>_. eff_bind create_device_config
      (\<lambda>cfg. eff_bind (eff_map_err ActivateFailed (x_world (vd_activate vd cfg))) (\<lambda>_. x_st (device_activated_update (\<lambda>_. True)))))) ?Q ?E) ?E s"
    unfolding wp_bind [of "eff_map_err IOError _"] by (rule wp_mono [OF reg]) (use enabled in auto)
  then show ?thesis using ok rest by (simp add: mmio_activate_def wp_simps)
qed

lemma reset_queues_ok:
  assumes "queue_laws qt" "\<forall>c \<in> set qs. renewable qt (queue c)"
  shows "fst (reset_queues qt qs) = None \<and> length (snd (reset_queues qt qs)) = length qs \<and> (\<forall>c \<in> set (snd (reset_queues qt qs)). renewable qt (queue c))"
  using assms(2)
proof (induction qs)
  case (Cons c cs)
  then obtain q where q: "q_new qt (q_max_size qt (queue c)) = Inr q" by (auto simp: renewable_def)
  then have "q_max_size qt q = q_max_size qt (queue c)" using assms(1) by (simp add: queue_laws_def)
  then have "renewable qt q" using q by (simp add: renewable_def)
  then show ?case using Cons q by (simp add: case_prod_beta)
qed simp

definition with_queues :: "'q VirtioQueueConfig list \<Rightarrow> ('q, 'w) mmio_sys \<Rightarrow> ('q, 'w) mmio_sys" where
  "with_queues qs s = s\<lparr>mdev := (mdev s)\<lparr>dstate := (dstate (mdev s))\<lparr>queues := qs\<rparr>\<rparr>\<rparr>"

lemma x_ok_with_queues:
  "x_ok z qt s \<Longrightarrow> length qs = length (queues (dstate (mdev s))) \<Longrightarrow> \<forall>c \<in> set qs. renewable qt (queue c) \<Longrightarrow> x_ok z qt (with_queues qs s)"
  by (auto simp: x_ok_def with_queues_def queues_ok_def addresses_ok_def descends_def)

lemma dim_reset_wp:
  assumes os: "mmio_os_ok os" and ok: "x_ok z qt s"
  shows "wp (eff_ignore (x_intr (dim_reset (irq_sys os)))) (\<lambda>_ s'. x_ok z qt s' \<and> driver_status (mdev s') = driver_status (mdev s) \<and>
      \<not> activated (intr_mgr (dstate (mdev s'))) \<and> device_activated (dstate (mdev s')) = device_activated (dstate (mdev s))) E s"
proof -
  have d: "d_ok (intr_of s)" "mode_served (intr_mgr (dstate (mdev s)))" using ok by (simp_all add: x_ok_def modes_ok_def)
  have m: "mode_served (dim t)" if "d_step (intr_of s) t" "intr_mode (dim t) = Disabled \<or> intr_mode (dim t) = intr_mode (intr_mgr (dstate (mdev s)))" for t
    using that d(2) by (auto simp: mode_served_def d_step_def has_mode_same)
  show ?thesis
    unfolding wp_ignore wp_x_intr
    by (rule wp_mono [OF dim_reset_step [OF mmio_os_okD(1) [OF os] d(1)]]) (use ok m in \<open>auto intro: x_ok_intr\<close>)
qed

lemma reset_wp:
  assumes os: "mmio_os_ok os" and laws: "queue_laws qt" and ok: "x_ok z qt s" and inactive: "\<not> device_activated (dstate (mdev s))"
  shows "wp (mmio_reset os qt) (\<lambda>_ s'. x_ok z qt s' \<and> driver_status (mdev s') = driver_status (mdev s) \<and> all_idle s') (\<lambda>_ _. False) s"
proof -
  let ?r = "reset_queues qt (queues (dstate (mdev s)))"
  have r: "fst ?r = None" "x_ok z qt (with_queues (snd ?r) s)"
    using reset_queues_ok [OF laws, of "queues (dstate (mdev s))"] ok x_ok_with_queues [OF ok, of "snd ?r"] by (auto simp: x_ok_def queues_ok_def)
  have final: "wp (unregister_ioevents os) (\<lambda>_. wp (x_st (\<lambda>st. st\<lparr>features_select := 0, acked_features_select := 0, queue_select := 0, msi := None, doorbell := None\<rparr>))
      (\<lambda>_ s'. x_ok z qt s' \<and> driver_status (mdev s') = driver_status (mdev s) \<and> all_idle s') (\<lambda>_ _. False)) (\<lambda>_ _. False) t"
    if "x_ok z qt t" "driver_status (mdev t) = driver_status (mdev s)" "\<not> activated (intr_mgr (dstate (mdev t)))" "\<not> device_activated (dstate (mdev t))" for t
    by (rule wp_mono [OF unregister_ioevents_wp [OF os that(1)]])
      (use that in \<open>auto simp: only_world_def wp_x_st all_idle_def x_ok_def d_ok_def queues_ok_def addresses_ok_def descends_def\<close>)
  have bells: "wp (unregister_ioevent_doorbell os) (\<lambda>_. wp (eff_bind (unregister_ioevents os) (\<lambda>_. x_st (\<lambda>st. st\<lparr>features_select := 0,
      acked_features_select := 0, queue_select := 0, msi := None, doorbell := None\<rparr>)))
      (\<lambda>_ s'. x_ok z qt s' \<and> driver_status (mdev s') = driver_status (mdev s) \<and> all_idle s') (\<lambda>_ _. False)) E t"
    if "x_ok z qt t" "driver_status (mdev t) = driver_status (mdev s)" "\<not> activated (intr_mgr (dstate (mdev t)))" "\<not> device_activated (dstate (mdev t))" for t E
    unfolding wp_bind [of "unregister_ioevents os"]
    by (rule wp_mono [OF unregister_doorbell_world [OF os, where E = E]], use that in \<open>simp add: x_ok_def\<close>, rule final)
      (use that in \<open>auto simp: only_world_x_ok only_world_mdev\<close>)
  have intr: "wp (eff_ignore (x_intr (dim_reset (irq_sys os)))) (\<lambda>_. wp (eff_bind (unregister_ioevent_doorbell os) (\<lambda>_. eff_bind (unregister_ioevents os)
      (\<lambda>_. x_st (\<lambda>st. st\<lparr>features_select := 0, acked_features_select := 0, queue_select := 0, msi := None, doorbell := None\<rparr>))))
      (\<lambda>_ s'. x_ok z qt s' \<and> driver_status (mdev s') = driver_status (mdev s) \<and> all_idle s') (\<lambda>_ _. False)) (\<lambda>_ _. False) (with_queues (snd ?r) s)"
    unfolding wp_bind [of "unregister_ioevent_doorbell os"]
    by (rule wp_mono [OF dim_reset_wp [OF os r(2)]]) (use inactive in \<open>auto simp: with_queues_def intro: bells\<close>)
  show ?thesis
    using r(1) inactive intr [unfolded with_queues_def]
    by (simp add: mmio_reset_def wp_bind [of "x_get id"] wp_x_get wp_let wp_prod wp_bind [of "x_st _"] wp_x_st wp_bind [of "eff_ignore _"])
qed

section \<open>Driver status\<close>

definition status_ok :: "32 word \<Rightarrow> bool" where
  "status_ok v \<longleftrightarrow> v \<in> {0, 1, 3, 11, 15} \<or> v \<in> {0x80, 0x81, 0x83, 0x8b, 0x8f}"

text \<open>
  One access takes the status one step along the protocol, back to 0 from an active device, or adds
  the bit FAILED; the step to DRIVER_OK may also fail.
\<close>

definition status_next :: "32 word \<Rightarrow> 32 word \<Rightarrow> bool" where
  "status_next v v' \<longleftrightarrow> v' = v \<or> v' = v OR DEVICE_FAILED \<or> (v, v') \<in> {(0, 1), (1, 3), (3, 11), (11, 15), (11, 0x8f), (15, 0)}"

definition mmio_inv :: "('q, 'w) mmio_sys \<Rightarrow> ('q, 'w) QueueT \<Rightarrow> ('q, 'w) mmio_sys \<Rightarrow> bool" where
  "mmio_inv z qt s \<longleftrightarrow> x_ok z qt s \<and> status_ok (driver_status (mdev s)) \<and> (all_idle s \<or> all_active s \<and> driver_status (mdev s) \<in> {15, 0x8f}) \<and>
     (driver_status (mdev s) = 15 \<longrightarrow> all_active s)"

definition mmio_access :: "('q, 'w) mmio_sys \<Rightarrow> ('q, 'w) QueueT \<Rightarrow> ('q, 'w) mmio_sys \<Rightarrow> ('q, 'w) mmio_sys \<Rightarrow> bool" where
  "mmio_access z qt s s' \<longleftrightarrow> mmio_inv z qt s' \<and> status_next (driver_status (mdev s)) (driver_status (mdev s')) \<and>
     (all_active s \<and> all_active s' \<longrightarrow> queues (dstate (mdev s')) = queues (dstate (mdev s)) \<and>
        intr_mode (intr_mgr (dstate (mdev s'))) = intr_mode (intr_mgr (dstate (mdev s))))"

definition mark_failed :: "('q, 'w) mmio_sys \<Rightarrow> ('q, 'w) mmio_sys" where
  "mark_failed s = s\<lparr>mdev := (mdev s)\<lparr>driver_status := driver_status (mdev s) OR DEVICE_FAILED\<rparr>\<rparr>"

lemma mark_failed_simps [simp]:
  "x_ok z qt (mark_failed s) = x_ok z qt s" "all_idle (mark_failed s) = all_idle s" "all_active (mark_failed s) = all_active s"
  "driver_status (mdev (mark_failed s)) = driver_status (mdev s) OR DEVICE_FAILED" "dstate (mdev (mark_failed s)) = dstate (mdev s)"
  by (simp_all add: mark_failed_def x_ok_def descends_def all_idle_def all_active_def)

lemma wp_set_driver_failed [wp_simps]: "wp set_driver_failed Q E s \<longleftrightarrow> Q () (mark_failed s)"
  by (simp add: set_driver_failed_def wp_x_dev mark_failed_def)

lemma status_failed: "status_ok v \<Longrightarrow> status_ok (v OR DEVICE_FAILED) \<and> (v OR DEVICE_FAILED = 0x8f \<longleftrightarrow> v \<in> {15, 0x8f}) \<and> v OR DEVICE_FAILED \<noteq> 15"
  by (auto simp: status_ok_def DEVICE_FAILED_def)

lemma not_both: "all_idle s \<Longrightarrow> \<not> all_active s"
  by (simp add: all_idle_def all_active_def)

lemma keep_access: "mmio_inv z qt s \<Longrightarrow> keep z qt s s' \<Longrightarrow> mmio_access z qt s s'"
  by (auto simp: mmio_inv_def mmio_access_def keep_def all_idle_def all_active_def status_next_def)

lemma failed_access: "mmio_inv z qt s \<Longrightarrow> mmio_access z qt s (mark_failed s)"
  using status_failed [of "driver_status (mdev s)"] by (auto simp: mmio_inv_def mmio_access_def status_next_def)

definition verdict :: "('q, 'w) mmio_sys \<Rightarrow> ('q, 'w) QueueT \<Rightarrow> ('q, 'w) mmio_sys \<Rightarrow> bool \<Rightarrow> ('q, 'w) mmio_sys \<Rightarrow> bool" where
  "verdict z qt s ok s' \<longleftrightarrow> mmio_access z qt s (if ok then s' else mark_failed s')"

lemma exchange_verdict:
  assumes "mmio_inv z qt s" "(v, v') \<in> {(0, 1), (1, 3), (3, 11)}"
  shows "wp (exchange_driver_status v v') (verdict z qt s) (\<lambda>_ _. False) s"
proof (cases "driver_status (mdev s) = v")
  case True
  have rest: "all_idle s" "x_ok z qt s" "v \<noteq> 15" "v' \<noteq> 15" "status_ok v'" "status_next v v'"
    using assms True by (auto simp: mmio_inv_def status_ok_def status_next_def)
  then have "all_idle (s\<lparr>mdev := (mdev s)\<lparr>driver_status := v'\<rparr>\<rparr>)" "x_ok z qt (s\<lparr>mdev := (mdev s)\<lparr>driver_status := v'\<rparr>\<rparr>)"
    by (simp_all add: all_idle_def x_ok_def descends_def)
  then show ?thesis using True rest not_both by (simp add: wp_exchange verdict_def mmio_access_def mmio_inv_def)
next
  case False
  then show ?thesis using failed_access [OF assms(1)] by (simp add: wp_exchange verdict_def)
qed

lemma go_driver_ok_verdict:
  assumes os: "mmio_os_ok os" and vd: "backend_ok vd" and laws: "queue_laws qt" and inv: "mmio_inv z qt s"
  shows "wp (go_driver_ok os qt vd) (verdict z qt s) (\<lambda>_ _. False) s"
proof (cases "driver_status (mdev s) = 11")
  case True
  let ?s = "s\<lparr>mdev := (mdev s)\<lparr>driver_status := 15\<rparr>\<rparr>"
  have rest: "all_idle s" "x_ok z qt s" using inv True by (auto simp: mmio_inv_def)
  then have x: "x_ok z qt ?s" "\<not> device_activated (dstate (mdev ?s))" by (simp_all add: x_ok_def descends_def all_idle_def)
  have good: "verdict z qt s True t"
    if "x_ok z qt t" "driver_status (mdev t) = 15" "all_active t" for t
    using that rest True not_both by (auto simp: verdict_def mmio_access_def mmio_inv_def status_next_def status_ok_def)
  have bad: "verdict z qt s False t"
    if "x_ok z qt t" "driver_status (mdev t) = 15" "all_idle t" for t
    using that rest True not_both by (auto simp: verdict_def mmio_access_def mmio_inv_def status_next_def status_ok_def DEVICE_FAILED_def)
  have undo: "wp (eff_ignore (mmio_reset os qt)) (\<lambda>_. verdict z qt s False) E t"
    if "x_ok z qt t" "driver_status (mdev t) = 15" "\<not> device_activated (dstate (mdev t))" for t E
    unfolding wp_ignore by (rule wp_mono [OF reset_wp [OF os laws that(1,3)]]) (use that bad in auto)
  have "wp (mmio_activate os qt vd) (\<lambda>_. verdict z qt s True) (\<lambda>_. wp (eff_bind (eff_ignore (mmio_reset os qt)) (\<lambda>_. eff_ret False)) (verdict z qt s) (\<lambda>_ _. False)) ?s"
    by (rule wp_mono [OF activate_wp [OF os vd x]]) (auto simp: wp_bind wp_ret intro: good undo)
  then show ?thesis using True
    by (simp add: go_driver_ok_def status_vals wp_bind [of "exchange_driver_status _ _"] wp_exchange wp_bind [of "succeeds _"] wp_succeeds wp_ret wp_if)
next
  case False
  then show ?thesis using failed_access [OF inv] by (simp add: go_driver_ok_def status_vals wp_simps verdict_def)
qed

lemma go_reset_verdict:
  assumes os: "mmio_os_ok os" and vd: "backend_ok vd" and laws: "queue_laws qt" and inv: "mmio_inv z qt s"
  shows "wp (go_reset os qt vd) (verdict z qt s) (\<lambda>_ _. False) s"
proof (cases "driver_status (mdev s) = 0 \<or> \<not> device_activated (dstate (mdev s))")
  case True
  then show ?thesis
    using failed_access [OF inv] keep_access [OF inv keep_refl] inv
    by (auto simp: go_reset_def DEVICE_INIT_def wp_simps verdict_def mmio_inv_def)
next
  case False
  then have use: "all_active s" "driver_status (mdev s) \<in> {15, 0x8f}" and x: "x_ok z qt s" using inv by (auto simp: mmio_inv_def all_idle_def)
  have good: "verdict z qt s True (t\<lparr>mdev := (mdev t)\<lparr>driver_status := 0\<rparr>\<rparr>)"
    if "x_ok z qt t" "driver_status (mdev t) = driver_status (mdev s)" "all_idle t" "driver_status (mdev s) = 15" for t
    using that not_both by (auto simp: verdict_def mmio_access_def mmio_inv_def status_next_def status_ok_def x_ok_def descends_def all_idle_def all_active_def)
  have bad: "verdict z qt s False t"
    if "x_ok z qt t" "driver_status (mdev t) = driver_status (mdev s)" "all_idle t" for t
    using that use not_both by (auto simp: verdict_def mmio_access_def mmio_inv_def status_next_def status_ok_def DEVICE_FAILED_def)
  have same: "verdict z qt s False (s\<lparr>mirqs := (mirqs s)\<lparr>irq_world := w\<rparr>\<rparr>)" for w
    using failed_access [of z qt "s\<lparr>mirqs := (mirqs s)\<lparr>irq_world := w\<rparr>\<rparr>"] inv x
    by (simp add: verdict_def mmio_access_def mmio_inv_def all_idle_def all_active_def)
  have stopped: "wp (mmio_reset os qt) (\<lambda>_. wp (exchange_driver_status 15 0) (verdict z qt s) (\<lambda>_ _. False)) (\<lambda>_. verdict z qt s False)
      (s\<lparr>mirqs := (mirqs s)\<lparr>irq_world := w\<rparr>, mdev := (mdev s)\<lparr>dstate := (dstate (mdev s))\<lparr>device_activated := False\<rparr>\<rparr>\<rparr>)" for w
    by (rule wp_mono [OF reset_wp [OF os laws]])
      (use x good bad in \<open>auto simp: x_ok_def d_ok_def queues_ok_def addresses_ok_def descends_def wp_exchange\<close>)
  have "wp (vd_reset vd) (\<lambda>_ w. wp (eff_bind deactivate (\<lambda>_. eff_bind (succeeds (mmio_reset os qt))
      (\<lambda>ok. if ok then exchange_driver_status 15 0 else eff_ret False))) (verdict z qt s) (\<lambda>_ _. False) (s\<lparr>mirqs := (mirqs s)\<lparr>irq_world := w\<rparr>\<rparr>))
      (\<lambda>_ w. verdict z qt s False (s\<lparr>mirqs := (mirqs s)\<lparr>irq_world := w\<rparr>\<rparr>)) (irq_world (mirqs s))"
    by (rule wp_total) (use vd stopped same use in \<open>simp_all add: backend_ok_def wp_bind [of "x_st _"] deactivate_def wp_x_st wp_bind [of "succeeds _"] wp_succeeds
      wp_if wp_ret all_active_def\<close>)
  then show ?thesis using False
    by (simp add: go_reset_def [unfolded DEVICE_INIT_def status_vals] wp_bind [of eff_get] wp_get wp_bind [of "succeeds _"] wp_succeeds wp_x_world wp_if wp_ret)
qed

lemma verdict_access:
  assumes "wp m (verdict z qt s) (\<lambda>_ _. False) s"
  shows "wp (eff_bind m (\<lambda>ok. if ok then eff_ret () else set_driver_failed)) (\<lambda>_. mmio_access z qt s) (\<lambda>_ _. False) s"
  unfolding wp_bind by (rule wp_mono [OF assms]) (auto simp: wp_simps verdict_def)

lemma wp_ifI: "(b \<Longrightarrow> wp m Q E s) \<Longrightarrow> (\<not> b \<Longrightarrow> wp n Q E s) \<Longrightarrow> wp (if b then m else n) Q E s"
  by simp

lemma other_verdict:
  assumes "mmio_inv z qt s"
  shows "wp (eff_bind eff_get (\<lambda>s. if v = driver_status (mdev s) then eff_ret True
      else if v AND DEVICE_FAILED \<noteq> 0 then eff_bind set_driver_failed (\<lambda>_. eff_ret True) else eff_ret False)) (verdict z qt s) (\<lambda>_ _. False) s"
  using keep_access [OF assms keep_refl] assms failed_access [OF assms] by (simp add: wp_simps verdict_def mmio_inv_def)

lemma update_driver_status_wp:
  assumes "mmio_os_ok os" "backend_ok vd" "queue_laws qt" "mmio_inv z qt s"
  shows "wp (update_driver_status os qt vd v) (\<lambda>_. mmio_access z qt s) (\<lambda>_ _. False) s"
  unfolding update_driver_status_def status_vals
  by (rule verdict_access)
    (intro wp_ifI exchange_verdict [OF assms(4)] go_driver_ok_verdict [OF assms] go_reset_verdict [OF assms] other_verdict [OF assms(4)]; simp)

section \<open>Register accesses\<close>

lemma keep_st:
  assumes "x_ok z qt s" "intr_mgr st = intr_mgr (dstate (mdev s))" "queues st = queues (dstate (mdev s))" "mmio_base st = mmio_base (dstate (mdev s))"
    "device_activated st = device_activated (dstate (mdev s))" "ioevent_registered st = ioevent_registered (dstate (mdev s))"
    "doorbell st = doorbell (dstate (mdev s))" "shm_regions st = shm_regions (dstate (mdev s))"
  shows "keep z qt s (s\<lparr>mdev := (mdev s)\<lparr>dstate := st\<rparr>\<rparr>)"
  using assms by (simp add: keep_def x_ok_def queues_ok_def addresses_ok_def descends_def)

lemma keep_intr:
  assumes "x_ok z qt s" "d_step (intr_of s) t" "activated (dim t) = activated (intr_mgr (dstate (mdev s)))"
    "intr_mode (dim t) = intr_mode (intr_mgr (dstate (mdev s)))"
  shows "keep z qt s (put_intr t s)"
proof -
  have "mode_served (dim t)" using assms by (auto simp: x_ok_def modes_ok_def mode_served_def d_step_def has_mode_same)
  then show ?thesis using assms x_ok_intr [OF assms(1,2)] by (simp add: keep_def)
qed

lemma tries_map_err: "tries_x z qt m s \<Longrightarrow> tries_x z qt (eff_map_err g m) s"
  by (simp add: wp_map_err)

abbreviation intr_kept :: "('q, 'w) mmio_sys \<Rightarrow> 'w dim_state \<Rightarrow> bool" where
  "intr_kept s t \<equiv> d_step (intr_of s) t \<and> activated (dim t) = activated (intr_mgr (dstate (mdev s))) \<and>
     intr_mode (dim t) = intr_mode (intr_mgr (dstate (mdev s)))"

lemma tries_intr:
  assumes "x_ok z qt s" "wp m (\<lambda>_. intr_kept s) (\<lambda>_. intr_kept s) (intr_of s)"
  shows "tries_x z qt (x_intr m) s"
  unfolding wp_x_intr by (rule wp_mono [OF assms(2)]) (use keep_intr [OF assms(1)] in blast)+

lemma tries_with_msi:
  assumes "x_ok z qt s"
  shows "tries_x z qt (x_intr (with_msi i f)) s"
proof -
  have d: "d_ok (intr_of s)" using assms by (simp add: x_ok_def)
  show ?thesis by (rule tries_intr [OF assms wp_mono [OF with_msi_step [OF d]]]) (auto simp: d_step_refl [OF d])
qed

lemma tries_intr_update:
  assumes "mmio_os_ok os" "x_ok z qt s"
  shows "tries_x z qt (x_intr (intr_update (irq_sys os) i)) s"
proof -
  have d: "d_ok (intr_of s)" using assms(2) by (simp add: x_ok_def)
  show ?thesis by (rule tries_intr [OF assms(2) wp_mono [OF intr_update_step [OF mmio_os_okD(1) [OF assms(1)] d]]]) auto
qed

lemma tries_irq: "x_ok z qt s \<Longrightarrow> keeps m (mirqs s) \<Longrightarrow> tries_x z qt (x_irq m) s"
  unfolding wp_x_irq
  by (erule wp_mono)
    (auto simp: keep_def x_ok_def descends_def d_ok_def irq_ok_same intro: dim_ok_stable stable_same stable_trans)

lemma update_msi_cfg_tries:
  assumes "mmio_os_ok os" "x_ok z qt s"
  shows "tries_x z qt (update_msi_cfg os v) s"
proof -
  have msi: "tries_x z qt (x_st (\<lambda>st. st\<lparr>msi := x\<rparr>)) t" if "x_ok z qt t" for x t
    using that by (simp add: wp_x_st keep_st)
  have rest: "tries_x z qt (eff_bind (eff_map_err InterruptError (x_intr (set_msi_low_address i a))) (\<lambda>_.
      eff_bind (eff_map_err InterruptError (x_intr (set_msi_high_address i b))) (\<lambda>_.
      eff_bind (eff_map_err InterruptError (x_intr (set_msi_data i c))) (\<lambda>_.
      eff_bind (x_get intr_mgr) (\<lambda>d.
      if dim_is_enabled d then eff_map_err InterruptError (x_intr (intr_update (irq_sys os) i)) else eff_ret ()))))) t" if "x_ok z qt t" for i a b c t
    unfolding set_msi_low_address_def set_msi_high_address_def set_msi_data_def
    by (intro tries_x_seq tries_map_err tries_with_msi keeps_tries [OF keeps_get])
      (auto simp: wp_if wp_ret that keep_refl dest: keep_x_ok intro: tries_map_err tries_intr_update [OF assms(1)])
  show ?thesis
  proof (cases "msi (dstate (mdev s))")
    case None
    then show ?thesis using assms(2) by (simp add: update_msi_cfg_def wp_simps keep_refl)
  next
    case (Some m)
    show ?thesis
      unfolding update_msi_cfg_def wp_bind [of "x_get msi"] wp_x_get Some option.case Let_def
      by (rule tries_x_seq [OF msi [OF assms(2)] rest [OF keep_x_ok]])
  qed
qed

lemma get_msi_mask_wp:
  assumes "d_ok t"
  shows "wp (get_msi_mask i) (\<lambda>_ t'. t' = t) (\<lambda>_ t'. t' = t) t"
  by (auto simp: get_msi_mask_def wp_simps split: InterruptSourceConfig.splits)

lemma tries_get_msi_mask:
  assumes "x_ok z qt s"
  shows "tries_x z qt (x_intr (get_msi_mask i)) s"
proof -
  have d: "d_ok (intr_of s)" using assms by (simp add: x_ok_def)
  show ?thesis by (rule tries_intr [OF assms wp_mono [OF get_msi_mask_wp [OF d]]]) (auto simp: d_step_refl [OF d])
qed

lemma active_group_store:
  assumes "d_ok (intr_of s)" "activated (intr_mgr (dstate (mdev s)))"
  obtains g grp where "get_group (intr_mgr (dstate (mdev s))) = Some (Some g)" "irq_store (mirqs s) g = Some grp"
  using active_group_wp [OF assms] that
  by (auto simp: active_group_def wp_simps split: option.splits)

lemma set_mask_tries:
  assumes os: "mmio_os_ok os" and ok: "x_ok z qt s" and g: "irq_store (mirqs s) g = Some grp" and f: "f = grp_mask (irq_sys os) \<or> f = grp_unmask (irq_sys os)"
  shows "tries_x z qt (eff_bind (eff_map_err IOError (x_irq (f g i))) (\<lambda>_. eff_map_err InterruptError (x_intr (set_msi_mask i b)))) s"
proof (rule tries_x_seq)
  have "keeps (f g i) (mirqs s)" using keeps_grp_mask [OF mmio_os_okD(1) [OF os] g] f by auto
  then show "tries_x z qt (eff_map_err IOError (x_irq (f g i))) s" by (intro tries_map_err tries_irq [OF ok])
  show "tries_x z qt (eff_map_err InterruptError (x_intr (set_msi_mask i b))) t" if "keep z qt s t" for t
    unfolding set_msi_mask_def by (intro tries_map_err tries_with_msi keep_x_ok [OF that])
qed

lemma mask_msi_int_tries:
  assumes os: "mmio_os_ok os" and ok: "x_ok z qt s"
  shows "tries_x z qt (mask_msi_int os i b) s"
proof (cases "activated (intr_mgr (dstate (mdev s)))")
  case False
  then show ?thesis using ok by (simp add: mask_msi_int_def wp_simps dim_is_enabled_def keep_refl)
next
  case True
  have d: "d_ok (intr_of s)" using ok by (simp add: x_ok_def)
  obtain g grp where g: "get_group (intr_mgr (dstate (mdev s))) = Some (Some g)" "irq_store (mirqs s) g = Some grp"
    by (rule active_group_store [OF d True])
  have "wp (get_msi_mask i) (\<lambda>old t. t = intr_of s) (\<lambda>_ t. t = intr_of s) (intr_of s)" by (rule get_msi_mask_wp [OF d])
  then have "wp (x_intr (get_msi_mask i)) (\<lambda>old t. t = s) (\<lambda>_ t. t = s) s" unfolding wp_x_intr by (rule wp_mono) simp_all
  then have "wp (x_intr (get_msi_mask i)) (\<lambda>old. wp (if \<not> old \<and> b
       then eff_bind (eff_map_err IOError (x_irq (grp_mask (irq_sys os) g i))) (\<lambda>_. eff_map_err InterruptError (x_intr (set_msi_mask i True)))
       else if old \<and> \<not> b
       then eff_bind (eff_map_err IOError (x_irq (grp_unmask (irq_sys os) g i))) (\<lambda>_. eff_map_err InterruptError (x_intr (set_msi_mask i False)))
       else eff_ret ()) (\<lambda>_. keep z qt s) (\<lambda>_. keep z qt s)) (\<lambda>_. keep z qt s) s"
    by (rule wp_mono) (auto simp: wp_if wp_ret keep_refl [OF ok] intro: set_mask_tries [OF os ok g(2)])
  then show ?thesis
    using True g(1) by (simp add: mask_msi_int_def wp_bind [of "x_get _"] wp_x_get dim_is_enabled_def wp_bind [of "eff_total _"] wp_eff_total
      wp_bind [of "eff_map_err InterruptError (x_intr (get_msi_mask i))"] wp_map_err)
qed

lemma handle_msi_cmd_wp:
  assumes os: "mmio_os_ok os" and inv: "mmio_inv z qt s"
  shows "wp (handle_msi_cmd os vd v) (\<lambda>_. mmio_access z qt s) (\<lambda>_ _. False) s"
proof -
  have ok: "x_ok z qt s" using inv by (simp add: mmio_inv_def)
  have acc: "wp (eff_ignore m) (\<lambda>_. mmio_access z qt s) (\<lambda>_ _. False) s" if "tries_x z qt m s" for m
    unfolding wp_ignore by (rule wp_mono [OF that]) (auto intro: keep_access [OF inv])
  show ?thesis
    unfolding handle_msi_cmd_def Let_def
    by (intro wp_ifI acc update_msi_cfg_tries [OF os ok] mask_msi_int_tries [OF os ok])
      (simp_all add: wp_simps keep_access [OF inv keep_refl [OF ok]] failed_access [OF inv])
qed

lemma status_bits:
  assumes "status_ok v"
  shows "v AND DEVICE_DRIVER_OK \<noteq> 0 \<longleftrightarrow> v \<in> {15, 0x8f}" "v AND (DEVICE_FEATURES_OK OR (DEVICE_DRIVER_OK OR DEVICE_FAILED)) = DEVICE_FEATURES_OK \<longleftrightarrow> v = 11"
  using assms by (auto simp: status_ok_def DEVICE_DRIVER_OK_def DEVICE_FEATURES_OK_def DEVICE_FAILED_def)

lemma mode_switch_access:
  assumes inv: "mmio_inv z qt s" and rest: "all_idle s" and m: "m = GenericMsiIrq \<or> m = LegacyIrqMode"
  shows "wp (succeeds (x_intr (set_working_mode m))) (\<lambda>ok. wp (if ok then x_st (\<lambda>st. st\<lparr>msi := x\<rparr>) else set_driver_failed) (\<lambda>_. mmio_access z qt s) (\<lambda>_ _. False))
    (\<lambda>_ _. False) s"
proof -
  have ok: "x_ok z qt s" "d_ok (intr_of s)" using inv by (simp_all add: mmio_inv_def x_ok_def)
  have good: "mmio_access z qt s (s\<lparr>mdev := (mdev s)\<lparr>dstate := (dstate (mdev s))\<lparr>intr_mgr := dim t, msi := x\<rparr>\<rparr>\<rparr>)"
    if t: "d_step (intr_of s) t" "intr_mode (dim t) = m" "\<not> activated (dim t)" "irqs t = mirqs s" for t
  proof -
    have "mode_served (dim t)" using m ok(1) t by (auto simp: mode_served_def x_ok_def modes_ok_def d_step_def has_mode_same)
    then have "x_ok z qt (put_intr t s)" by (rule x_ok_intr [OF ok(1) t(1)])
    then show ?thesis using t inv rest not_both [OF rest]
      by (auto simp: mmio_access_def mmio_inv_def x_ok_def queues_ok_def addresses_ok_def descends_def all_idle_def all_active_def status_next_def)
  qed
  show ?thesis
    unfolding wp_succeeds wp_x_intr
    by (rule wp_mono [OF set_working_mode_step [OF ok(2)]]) (auto simp: wp_simps good failed_access [OF inv])
qed

lemma update_msi_enable_wp:
  assumes inv: "mmio_inv z qt s"
  shows "wp (update_msi_enable v) (\<lambda>_. mmio_access z qt s) (\<lambda>_ _. False) s"
proof -
  have ok: "x_ok z qt s" using inv by (simp add: mmio_inv_def)
  have same: "mmio_access z qt s s" by (rule keep_access [OF inv keep_refl [OF ok]])
  show ?thesis
  proof (cases "driver_status (mdev s) \<in> {15, 0x8f}")
    case True
    then show ?thesis using status_bits(1) [of "driver_status (mdev s)"] inv same failed_access [OF inv]
      by (simp add: update_msi_enable_def wp_simps mmio_inv_def)
  next
    case False
    then have r: "all_idle s" "\<not> (driver_status (mdev s) AND DEVICE_DRIVER_OK \<noteq> 0)" using inv status_bits(1) [of "driver_status (mdev s)"]
      by (auto simp: mmio_inv_def)
    show ?thesis
      using r(2) same
      by (simp add: mode_switch_access [OF inv r(1), of GenericMsiIrq] mode_switch_access [OF inv r(1), of LegacyIrqMode] update_msi_enable_def wp_bind [of eff_get] wp_get wp_if wp_bind [of "succeeds _"] wp_ret)
  qed
qed

lemma with_queue_mut_ok:
  assumes "x_ok z qt s" "\<And>q. q_max_size qt (f q) = q_max_size qt q"
  shows "x_ok z qt (s\<lparr>mdev := (mdev s)\<lparr>dstate := with_queue_mut f (dstate (mdev s))\<rparr>\<rparr>)"
proof -
  let ?st = "dstate (mdev s)"
  let ?i = "unat (queue_select ?st)"
  let ?q = "(queues ?st ! ?i)\<lparr>queue := f (queue (queues ?st ! ?i))\<rparr>"
  have "\<forall>c \<in> set ((queues ?st)[?i := ?q]). renewable qt (queue c)" if "?i < length (queues ?st)"
  proof
    fix c assume "c \<in> set ((queues ?st)[?i := ?q])"
    then have "c = ?q \<or> c \<in> set (queues ?st)" using set_update_subset_insert [of "queues ?st" ?i ?q] by auto
    moreover have "queues ?st ! ?i \<in> set (queues ?st)" using that by simp
    ultimately show "renewable qt (queue c)" using assms by (auto simp: x_ok_def queues_ok_def renewable_def)
  qed
  then show ?thesis using assms(1) by (auto simp: with_queue_mut_def Let_def x_ok_def queues_ok_def addresses_ok_def descends_def)
qed

lemma with_queue_mut_same [simp]:
  "intr_mgr (with_queue_mut f st) = intr_mgr st" "device_activated (with_queue_mut f st) = device_activated st"
  "ioevent_registered (with_queue_mut f st) = ioevent_registered st"
  by (simp_all add: with_queue_mut_def Let_def)

lemma update_queue_field_wp:
  assumes inv: "mmio_inv z qt s" and f: "\<And>q. q_max_size qt (f q) = q_max_size qt q"
  shows "wp (update_queue_field f) (\<lambda>_. mmio_access z qt s) (\<lambda>_ _. False) s"
proof -
  have ok: "x_ok z qt s" "status_ok (driver_status (mdev s))" using inv by (simp_all add: mmio_inv_def)
  have "mmio_access z qt s (s\<lparr>mdev := (mdev s)\<lparr>dstate := with_queue_mut f (dstate (mdev s))\<rparr>\<rparr>)" if "driver_status (mdev s) = 11"
    using that inv with_queue_mut_ok [OF ok(1) f] by (auto simp: mmio_access_def mmio_inv_def all_idle_def all_active_def status_next_def)
  then show ?thesis using status_bits(2) [OF ok(2)] keep_access [OF inv keep_refl [OF ok(1)]]
    by (simp add: update_queue_field_def check_driver_status_def wp_simps)
qed

lemma wp_on_msi [wp_simps]: "wp (on_msi f) Q E s \<longleftrightarrow> Q () (s\<lparr>mdev := (mdev s)\<lparr>dstate := (dstate (mdev s))\<lparr>msi := map_option f (msi (dstate (mdev s)))\<rparr>\<rparr>\<rparr>)"
  by (simp add: on_msi_def wp_x_st)

lemma keep_isr: "x_ok z qt s \<Longrightarrow> keep z qt s (s\<lparr>mdev := (mdev s)\<lparr>interrupt_status := v\<rparr>\<rparr>)"
  by (simp add: keep_def x_ok_def descends_def)

lemma write_reg_wp:
  assumes os: "mmio_os_ok os" "backend_ok vd" and laws: "queue_laws qt" and inv: "mmio_inv z qt s"
  shows "wp (write_reg os qt vd off v) (\<lambda>_. mmio_access z qt s) (\<lambda>_ _. False) s"
proof -
  have ok: "x_ok z qt s" using inv by (simp add: mmio_inv_def)
  note keeps = keep_access [OF inv keep_st [OF ok]] keep_access [OF inv keep_isr [OF ok]] keep_access [OF inv keep_world [OF ok]]
    keep_access [OF inv keep_refl [OF ok]]
  show ?thesis
    unfolding write_reg_def set_acked_features_def
    by (intro wp_ifI update_driver_status_wp [OF os laws inv] update_queue_field_wp [OF inv])
      (use laws in \<open>simp_all add: wp_simps keeps queue_laws_def\<close>)
qed

text \<open>Every write and every read of a device in a good state returns and is an access.\<close>

lemma write_wp:
  assumes os: "mmio_os_ok os" "backend_ok vd" and laws: "queue_laws qt" and inv: "mmio_inv z qt s"
  shows "wp (mmio_dev_write os qt vd off data) (\<lambda>_. mmio_access z qt s) (\<lambda>_ _. False) s"
proof -
  have ok: "x_ok z qt s" using inv by (simp add: mmio_inv_def)
  note keeps = keep_access [OF inv keep_world [OF ok]] keep_access [OF inv keep_refl [OF ok]]
  show ?thesis
    unfolding mmio_dev_write_def set_device_config_def
    by (intro wp_ifI write_reg_wp [OF os laws inv] update_msi_enable_wp [OF inv] handle_msi_cmd_wp [OF os(1) inv]) (simp_all add: wp_simps keeps)
qed

lemma shm_field_returns:
  assumes "addresses_ok st" "\<And>l r. shm_regions st = Some l \<Longrightarrow> r \<in> set (region_list l) \<Longrightarrow> f r \<noteq> None"
  shows "\<exists>v. get_shm_field f st = Some v"
  using assms by (auto simp: get_shm_field_def split: option.splits)

lemma shm_base_returns: "addresses_ok st \<Longrightarrow> shm_regions st = Some l \<Longrightarrow> r \<in> set (region_list l) \<Longrightarrow> shm_base st r \<noteq> None"
  by (auto simp: shm_base_def checked_add_def addresses_ok_def)

lemma read_reg_returns:
  assumes "x_ok z qt s"
  shows "\<exists>v. read_reg qt' vd off s = Some v"
proof -
  let ?st = "dstate (mdev s)"
  have a: "addresses_ok ?st" using assms by (simp add: x_ok_def)
  have "\<exists>v. get_shm_field (\<lambda>r. ret (of_nat (shm_len r) :: 32 word)) ?st = Some v" "\<exists>v. get_shm_field (\<lambda>r. ret (of_nat (shm_len r div 2 ^ 32) :: 32 word)) ?st = Some v"
    "\<exists>v. get_shm_base_low ?st = Some v" "\<exists>v. get_shm_base_high ?st = Some v"
    unfolding get_shm_base_low_def get_shm_base_high_def by (rule shm_field_returns [OF a]; use shm_base_returns [OF a] in simp)+
  then show ?thesis by (auto simp: read_reg_def Let_def)
qed

lemma wp_state_fun: "wp (\<lambda>w. case f w of (x, w') \<Rightarrow> Some (Inr x, w')) Q E w \<longleftrightarrow> Q (fst (f w)) (snd (f w))"
  by (simp add: wp_def split: prod.splits)

lemma read_wp:
  assumes inv: "mmio_inv z qt s"
  shows "wp (mmio_dev_read qt vd off data) (\<lambda>_ s'. mmio_access z qt s s') (\<lambda>_ _. False) s"
proof -
  have ok: "x_ok z qt s" using inv by (simp add: mmio_inv_def)
  note keeps = keep_access [OF inv keep_world [OF ok]] keep_access [OF inv keep_refl [OF ok]]
  show ?thesis
    unfolding mmio_dev_read_def get_device_config_def
    by (intro wp_ifI) (use keeps read_reg_returns [OF ok, of qt vd off] in \<open>auto simp: wp_simps wp_state_fun\<close>)
qed

end
