(* ===== verification/Systems.thy ===== *)
theory Systems
  imports Prelude
begin

text \<open>
  Guarded transition systems.  An operation of a component returns the next state, or \<open>None\<close> when it
  panics; its environment may perform it only when the guard holds.  A component whose invariant makes
  every allowed operation return never gets stuck, however long it runs.
\<close>

fun run_ops :: "('a \<Rightarrow> 's \<Rightarrow> 's may_panic) \<Rightarrow> 'a list \<Rightarrow> 's \<Rightarrow> 's may_panic" where
  "run_ops step [] s = Some s"
| "run_ops step (a # as) s = (case step a s of None \<Rightarrow> None | Some s' \<Rightarrow> run_ops step as s')"

inductive reachable :: "('a \<Rightarrow> 's \<Rightarrow> bool) \<Rightarrow> ('a \<Rightarrow> 's \<Rightarrow> 's may_panic) \<Rightarrow> 's \<Rightarrow> 's \<Rightarrow> bool" for may step s0 where
  start: "reachable may step s0 s0"
| step: "reachable may step s0 s \<Longrightarrow> may a s \<Longrightarrow> step a s = Some s' \<Longrightarrow> reachable may step s0 s'"

lemma run_reachable:
  assumes "run_ops step as s = Some s'" "reachable may step s0 s" "\<And>a s. a \<in> set as \<Longrightarrow> may a s"
  shows "reachable may step s0 s'"
  using assms
proof (induction as arbitrary: s)
  case (Cons a as)
  then obtain s1 where s1: "step a s = Some s1" "run_ops step as s1 = Some s'" by (auto split: option.splits)
  show ?case
  proof (rule Cons.IH [OF s1(2)])
    show "reachable may step s0 s1" by (rule reachable.step [OF Cons.prems(2) _ s1(1)]) (simp add: Cons.prems(3))
  qed (simp add: Cons.prems(3))
qed simp

locale guarded_system =
  fixes may :: "'a \<Rightarrow> 's \<Rightarrow> bool"
    and step :: "'a \<Rightarrow> 's \<Rightarrow> 's may_panic"
    and inv :: "'s \<Rightarrow> bool"
  assumes progress: "inv s \<Longrightarrow> may a s \<Longrightarrow> \<exists>s'. step a s = Some s' \<and> inv s'"
begin

lemma reachable_inv: "reachable may step s0 s \<Longrightarrow> inv s0 \<Longrightarrow> inv s"
proof (induction rule: reachable.induct)
  case (step s a s')
  from progress [OF step.IH [OF step.prems] step.hyps(2)] step.hyps(3) show ?case by auto
qed

lemma never_stuck: "reachable may step s0 s \<Longrightarrow> inv s0 \<Longrightarrow> may a s \<Longrightarrow> \<exists>s'. step a s = Some s'"
  using progress reachable_inv by blast

lemma run_total:
  assumes "inv s" "\<And>a s. a \<in> set as \<Longrightarrow> may a s"
  shows "\<exists>s'. run_ops step as s = Some s' \<and> inv s'"
  using assms
proof (induction as arbitrary: s)
  case (Cons a as)
  obtain s1 where "step a s = Some s1" "inv s1" using progress Cons.prems by (meson list.set_intros(1))
  then show ?case using Cons.IH [of s1] Cons.prems(2) by simp
qed simp

end

end
