(* ===== verification/MmioClaims.thy ===== *)
theory MmioClaims
  imports MmioLogic Systems
begin

text \<open>
  A device made by \<open>MmioV2Device_new\<close> starts in a good state, and the properties of the MMIO transport
  for every sequence of guest accesses.
\<close>

section \<open>Creation\<close>

lemma split_getters:
  assumes "split_cfg rs found rest = (c, out)"
  shows "get_legacy_irq out = get_legacy_irq (rest @ rs)" "get_msi_irqs out ty = get_msi_irqs (rest @ rs) ty"
proof -
  have "get_legacy_irq out = get_legacy_irq (rest @ rs) \<and> get_msi_irqs out ty = get_msi_irqs (rest @ rs) ty"
    using assms
    by (induction rs arbitrary: found rest) (auto simp: dr_append_def option_getters_append split: Resource.splits if_splits option.splits)
  then show "get_legacy_irq out = get_legacy_irq (rest @ rs)" "get_msi_irqs out ty = get_msi_irqs (rest @ rs) ty" by simp_all
qed

lemma split_offered: "split_cfg rs None dr_new = (c, out) \<Longrightarrow> offered out = offered rs"
  by (simp add: offered_def get_generic_msi_irqs_def get_pci_msi_irqs_def get_pci_msix_irqs_def split_getters dr_new_def)

lemma split_found:
  assumes "split_cfg rs found rest = (Some c, out)"
  shows "found = Some c \<or> (\<exists>base. c = MmioAddressRange base (MMIO_DEFAULT_CFG_SIZE + DRAGONBALL_MMIO_DOORBELL_SIZE) \<and> c \<in> set rs)"
  using assms by (induction rs arbitrary: found rest) (auto split: Resource.splits if_splits)

definition world_irq :: "'w irq_state \<Rightarrow> 'w irq_state \<Rightarrow> bool" where
  "world_irq t t' \<longleftrightarrow> (\<exists>w. t' = t\<lparr>irq_world := w\<rparr>)"

lemma world_irq_intros: "world_irq t t" "world_irq t u \<Longrightarrow> world_irq u v \<Longrightarrow> world_irq t v" "world_irq t (t\<lparr>irq_world := w\<rparr>)"
  by (auto simp: world_irq_def intro: exI [of _ "irq_world t"])

lemma new_queue_config_wp:
  assumes "irq_os_ok (irq_sys os)" "queue_laws qt"
  shows "wp (new_queue_config os qt sz i) (\<lambda>c t'. world_irq t t' \<and> renewable qt (queue c)) (\<lambda>_. world_irq t) t"
proof -
  have "wp (eventfd_new (irq_sys os)) (\<lambda>fd w. wp (case q_new qt sz of Inl e \<Rightarrow> eff_fail (VirtioQueueError e)
      | Inr q \<Rightarrow> eff_ret \<lparr>queue = q, eventfd = fd, notifier = Noop, qindex = i mod 2 ^ 16\<rparr>)
      (\<lambda>c t'. world_irq t t' \<and> renewable qt (queue c)) (\<lambda>_. world_irq t) (t\<lparr>irq_world := w\<rparr>)) (\<lambda>_ w. world_irq t (t\<lparr>irq_world := w\<rparr>)) (irq_world t)"
    by (rule wp_total) (use irq_os_okD(1) [OF assms(1)] assms(2) in \<open>auto simp: wp_ret renewable_def queue_laws_def world_irq_intros split: sum.splits\<close>)
  then show ?thesis by (simp add: new_queue_config_def wp_bind wp_map_err wp_kvm)
qed

lemma create_queue_list_wp:
  assumes "irq_os_ok (irq_sys os)" "queue_laws qt"
  shows "wp (create_queue_list os qt i szs) (\<lambda>qs t'. world_irq t t' \<and> length qs = length szs \<and> (\<forall>c \<in> set qs. renewable qt (queue c))) (\<lambda>_. world_irq t) t"
proof (induction szs arbitrary: i t)
  case Nil
  then show ?case by (simp add: wp_def world_irq_intros)
next
  case (Cons sz szs)
  have step: "wp (eff_bind (create_queue_list os qt (i + 1) szs) (\<lambda>qs. eff_ret (c # qs)))
      (\<lambda>qs t'. world_irq t t' \<and> length qs = length (sz # szs) \<and> (\<forall>c \<in> set qs. renewable qt (queue c))) (\<lambda>_. world_irq t) u"
    if "world_irq t u" "renewable qt (queue c)" for c u
    unfolding wp_bind by (rule wp_mono [OF Cons.IH]) (use that in \<open>auto simp: wp_ret intro: world_irq_intros(2)\<close>)
  show ?case
    unfolding create_queue_list.simps wp_bind [of "new_queue_config _ _ _ _"]
    by (rule wp_mono [OF new_queue_config_wp [OF assms]], rule step) simp_all
qed

lemma create_queues_wp:
  assumes "irq_os_ok (irq_sys os)" "queue_laws qt"
  shows "wp (create_queues os qt vd) (\<lambda>(qs, ctrl) t'. world_irq t t' \<and> (\<forall>c \<in> set qs. renewable qt (queue c)) \<and>
    length (queue_max_sizes vd) \<le> length qs \<and> length qs \<le> length (queue_max_sizes vd) + 1) (\<lambda>_. world_irq t) t"
proof -
  have step: "wp (if 0 < ctrl_queue_max_sizes vd then eff_bind (new_queue_config os qt (ctrl_queue_max_sizes vd) (length qs)) (\<lambda>q. eff_ret (qs @ [q], True))
      else eff_ret (qs, False)) (\<lambda>(qs, ctrl) t'. world_irq t t' \<and> (\<forall>c \<in> set qs. renewable qt (queue c)) \<and>
        length (queue_max_sizes vd) \<le> length qs \<and> length qs \<le> length (queue_max_sizes vd) + 1) (\<lambda>_. world_irq t) u"
    if "world_irq t u" "length qs = length (queue_max_sizes vd)" "\<forall>c \<in> set qs. renewable qt (queue c)" for qs u
    unfolding wp_bind
    by (rule wp_ifI, unfold wp_bind, rule wp_mono [OF new_queue_config_wp [OF assms]])
      (use that in \<open>auto simp: wp_ret intro: world_irq_intros(2)\<close>)
  show ?thesis
    unfolding create_queues_def wp_bind [of "create_queue_list _ _ _ _"]
    by (rule wp_mono [OF create_queue_list_wp [OF assms]], rule step) simp_all
qed

text \<open>A backend that reports shared memory inside the address space.\<close>

definition resource_ok :: "('q, 'w) VirtioDevice \<Rightarrow> bool" where
  "resource_ok vd \<longleftrightarrow> queue_max_sizes vd \<noteq> [] \<and> length (queue_max_sizes vd) < 1024 \<and>
     (\<forall>res w. \<exists>r w'. vd_set_resource vd res w = Some (r, w') \<and>
        (\<forall>l. r = Inr (Some l) \<longrightarrow> (\<forall>x \<in> set (region_list l). shm_offset x + guest_addr l \<le> u64_max)))"

definition fresh_dev :: "('q, 'w) QueueT \<Rightarrow> DeviceResources \<Rightarrow> ('q, 'w) mmio_sys \<Rightarrow> bool" where
  "fresh_dev qt res s \<longleftrightarrow> d_ok (intr_of s) \<and> intr_mode (intr_mgr (dstate (mdev s))) = Disabled \<and>
     (\<forall>m. has_mode (intr_mgr (dstate (mdev s))) m \<longleftrightarrow> m \<in> offered res) \<and> queues_ok qt (dstate (mdev s)) \<and> addresses_ok (dstate (mdev s)) \<and>
     all_idle s \<and> driver_status (mdev s) = 0 \<and> msi (dstate (mdev s)) = None \<and> assigned_resources (mdev s) = res \<and>
     (\<exists>base. mmio_cfg_res (mdev s) = MmioAddressRange base (MMIO_DEFAULT_CFG_SIZE + DRAGONBALL_MMIO_DOORBELL_SIZE)) \<and> mmio_cfg_res (mdev s) \<in> set res"

lemma fresh_inv: "fresh_dev qt res s \<Longrightarrow> {LegacyIrqMode, GenericMsiIrq} \<subseteq> offered res \<Longrightarrow> mmio_inv s qt s"
  by (simp add: fresh_dev_def mmio_inv_def x_ok_def modes_ok_def mode_served_def status_ok_def)

lemma addresses_ok_new:
  assumes "base + 0x1fff \<le> u64_max" "length (queues st) \<le> 1024" "mmio_base st = base"
    "doorbell st = None \<or> doorbell st = Some \<lparr>db_offset = DRAGONBALL_MMIO_DOORBELL_OFFSET, db_scale = DRAGONBALL_MMIO_DOORBELL_SCALE\<rparr>"
    "\<And>l. shm_regions st = Some l \<Longrightarrow> \<forall>r \<in> set (region_list l). shm_offset r + guest_addr l \<le> u64_max"
  shows "addresses_ok st"
  using assms by (auto simp: addresses_ok_def queue_offset_def)

lemma run_dim_new:
  assumes "irq_os_ok os" "fds_available os" "irq_ok t" "msi_limit_ok t"
  shows "wp (run_dim (DeviceInterruptManager_new os res)) (\<lambda>d t'. building 4 (offered res) \<lparr>dim = d, irqs = t'\<rparr> \<and> created t t') (\<lambda>_. created t) t"
proof -
  have "wp (DeviceInterruptManager_new os res) (\<lambda>_ s'. building 4 (offered res) s' \<and> created t (irqs s')) (\<lambda>_ s'. created t (irqs s')) \<lparr>dim = dim_init, irqs = t\<rparr>"
    using DeviceInterruptManager_new_step [OF assms(1,2), of "\<lparr>dim = dim_init, irqs = t\<rparr>" res] assms(3,4) by simp
  then show ?thesis by (auto simp: wp_def run_dim_def building_def d_ok_def split: option.splits prod.splits sum.splits)
qed

lemma building_world: "building n modes \<lparr>dim = d, irqs = t\<rparr> \<Longrightarrow> world_irq t t' \<Longrightarrow> building n modes \<lparr>dim = d, irqs = t'\<rparr>"
  by (auto simp: building_def world_irq_def d_ok_def msi_limit_ok_def)

lemma created_world: "created t u \<Longrightarrow> world_irq u v \<Longrightarrow> created t v"
  by (rule created_trans) (auto simp: created_def world_irq_def stable_def)

definition blank_state :: "DeviceInterruptManager \<Rightarrow> DeviceResources \<Rightarrow> 'q VirtioQueueConfig list \<Rightarrow> nat \<Rightarrow> bool \<Rightarrow> bool \<Rightarrow>
    VirtioSharedMemoryList option \<Rightarrow> 'q MmioV2DeviceState" where
  "blank_state d res qs base ctrl bell shm = \<lparr>intr_mgr = d, device_resources = res, queues = qs, mmio_base = base, has_ctrl_queue = ctrl,
     device_activated = False, ioevent_registered = False, features_select = 0, acked_features_select = 0, queue_select = 0, msi = None,
     doorbell = (if bell then Some \<lparr>db_offset = DRAGONBALL_MMIO_DOORBELL_OFFSET, db_scale = DRAGONBALL_MMIO_DOORBELL_SCALE\<rparr> else None),
     shm_region_id = 0, shm_regions = shm\<rparr>"

lemma MmioV2DeviceState_new_wp:
  assumes os: "irq_os_ok (irq_sys os)" "fds_available (irq_sys os)" and laws: "queue_laws qt" and vd: "resource_ok vd"
    and t: "irq_ok t" "msi_limit_ok t" and base: "base + 0x1fff \<le> u64_max"
  shows "wp (MmioV2DeviceState_new os qt vd res base bell)
    (\<lambda>st t'. created t t' \<and> building 4 (offered res) \<lparr>dim = intr_mgr st, irqs = t'\<rparr> \<and> queues_ok qt st \<and> addresses_ok st \<and>
       \<not> device_activated st \<and> \<not> ioevent_registered st \<and> msi st = None) (\<lambda>_. created t) t" (is "wp _ ?Q ?E _")
proof -
  have res: "wp (kvm (vd_set_resource vd res)) (\<lambda>shm. wp (eff_ret (blank_state d res qs base ctrl bell shm)) ?Q ?E) ?E u"
    if b: "building 4 (offered res) \<lparr>dim = d, irqs = u\<rparr>" and c: "created t u" and q: "\<forall>c \<in> set qs. renewable qt (queue c)"
      and l: "length (queue_max_sizes vd) \<le> length qs" "length qs \<le> length (queue_max_sizes vd) + 1" for d qs ctrl u
  proof -
    obtain r w where r: "vd_set_resource vd res (irq_world u) = Some (r, w)"
        "\<forall>l. r = Inr (Some l) \<longrightarrow> (\<forall>x \<in> set (region_list l). shm_offset x + guest_addr l \<le> u64_max)"
      using vd unfolding resource_ok_def by blast
    have w: "world_irq u (u\<lparr>irq_world := w\<rparr>)" by (rule world_irq_intros)
    have qs: "qs \<noteq> []" "length qs \<le> 1024" using vd l by (auto simp: resource_ok_def)
    show ?thesis
    proof (cases r)
      case (Inl e)
      then show ?thesis using r created_world [OF c w] by (simp add: wp_kvm) (simp add: wp_def)
    next
      case (Inr shm)
      have "addresses_ok (blank_state d res qs base ctrl bell shm)"
        by (rule addresses_ok_new [OF base]) (use qs r Inr in \<open>auto simp: blank_state_def\<close>)
      then show ?thesis using r Inr created_world [OF c w] building_world [OF b w] q qs
        by (simp add: wp_kvm) (simp add: wp_def queues_ok_def blank_state_def split del: if_split)
    qed
  qed
  have queues: "wp (create_queues os qt vd) (\<lambda>p. wp (eff_bind (kvm (vd_set_resource vd res))
      (\<lambda>shm. eff_ret (blank_state d res (fst p) base (snd p) bell shm))) ?Q ?E) ?E u"
    if b: "building 4 (offered res) \<lparr>dim = d, irqs = u\<rparr>" and c: "created t u" for d u
    unfolding wp_bind [of "kvm _"]
    by (rule wp_mono [OF create_queues_wp [OF os(1) laws]]) (use b c in \<open>auto intro: res building_world created_world simp del: One_nat_def\<close>)
  show ?thesis
    unfolding MmioV2DeviceState_new_def blank_state_def [symmetric] wp_bind [of "eff_map_err _ _"] wp_map_err
    by (rule wp_mono [OF run_dim_new [OF os t]]) (use queues in \<open>auto simp: wp_bind [of "create_queues os qt vd"] case_prod_beta\<close>)
qed

definition ranges_fit :: "DeviceResources \<Rightarrow> bool" where
  "ranges_fit rs \<longleftrightarrow> (\<forall>r \<in> set rs. case r of MmioAddressRange base sz \<Rightarrow> base + sz \<le> u64_max + 1 | _ \<Rightarrow> True)"

lemma MmioV2Device_new_wp:
  assumes os: "irq_os_ok (irq_sys os)" "fds_available (irq_sys os)" and laws: "queue_laws qt" and vd: "resource_ok vd"
    and t: "irq_ok t" "msi_limit_ok t" and fit: "ranges_fit res"
  shows "wp (MmioV2Device_new os qt vd res ft) (\<lambda>d t'. created t t' \<and> fresh_dev qt res \<lparr>mdev = d, mirqs = t'\<rparr>) (\<lambda>_. created t) t"
proof -
  obtain c rest where s: "split_cfg res None dr_new = (c, rest)" by fastforce
  show ?thesis
  proof (cases c)
    case None
    then show ?thesis using s t(1) by (simp add: MmioV2Device_new_def wp_ret created_def)
  next
    case (Some cfg)
    obtain base where c: "cfg = MmioAddressRange base 0x2000" "cfg \<in> set res" using split_found [OF s [unfolded Some]] by auto
    then have base: "res_base cfg + 0x1fff \<le> u64_max" using fit by (auto simp: ranges_fit_def res_base_def)
    have new: "wp (eff_bind (MmioV2DeviceState_new os qt vd rest (res_base cfg) bell) (\<lambda>st. eff_ret \<lparr>dstate = st, assigned_resources = res,
        mmio_cfg_res = cfg, device_vendor = v, driver_status = DEVICE_INIT, config_generation = 0, interrupt_status = 0\<rparr>))
        (\<lambda>d t'. created t t' \<and> fresh_dev qt res \<lparr>mdev = d, mirqs = t'\<rparr>) (\<lambda>_. created t) t" for bell v
      unfolding wp_bind
      by (rule wp_mono [OF MmioV2DeviceState_new_wp [OF os laws vd t base]])
        (use c in \<open>auto simp: wp_ret fresh_dev_def building_def split_offered [OF s] all_idle_def DEVICE_INIT_def\<close>)
    show ?thesis
      unfolding MmioV2Device_new_def s Some Let_def case_prod_beta fst_conv snd_conv option.case(2) wp_bind [of eff_get] wp_get by (rule new)
  qed
qed

section \<open>Guest accesses\<close>

datatype guest_op = GuestRead nat "byte list" | GuestWrite nat "byte list"

definition guest_access :: "'w mmio_os \<Rightarrow> ('q, 'w) QueueT \<Rightarrow> ('q, 'w) VirtioDevice \<Rightarrow> guest_op \<Rightarrow> ('q, 'w) mmio_sys \<Rightarrow> ('q, 'w) mmio_sys may_panic" where
  "guest_access os qt vd a s =
     (case a of
        GuestRead off data \<Rightarrow> map_option snd ((mmio_dev_read qt vd off data :: (('q, 'w) mmio_sys, unit, byte list) eff) s)
      | GuestWrite off data \<Rightarrow> map_option snd ((mmio_dev_write os qt vd off data :: (('q, 'w) mmio_sys, unit, unit) eff) s))"

abbreviation guest_run :: "'w mmio_os \<Rightarrow> ('q, 'w) QueueT \<Rightarrow> ('q, 'w) VirtioDevice \<Rightarrow> guest_op list \<Rightarrow> ('q, 'w) mmio_sys \<Rightarrow> ('q, 'w) mmio_sys may_panic" where
  "guest_run os qt vd \<equiv> run_ops (guest_access os qt vd)"

lemma guest_access_ok:
  fixes s :: "('q, 'w) mmio_sys"
  assumes "mmio_os_ok os" "backend_ok vd" "queue_laws qt" "mmio_inv z qt s"
  shows "\<exists>s'. guest_access os qt vd a s = Some s' \<and> mmio_access z qt s s'"
proof (cases a)
  case (GuestRead off data)
  have "wp (mmio_dev_read qt vd off data :: (('q, 'w) mmio_sys, unit, byte list) eff) (\<lambda>_. mmio_access z qt s) (\<lambda>_ _. False) s"
    by (rule read_wp [OF assms(4)])
  then show ?thesis by (rule wp_resultE) (auto simp: guest_access_def GuestRead)
next
  case (GuestWrite off data)
  have "wp (mmio_dev_write os qt vd off data :: (('q, 'w) mmio_sys, unit, unit) eff) (\<lambda>_. mmio_access z qt s) (\<lambda>_ _. False) s"
    by (rule write_wp [OF assms])
  then show ?thesis by (rule wp_resultE) (auto simp: guest_access_def GuestWrite)
qed

interpretation guest: guarded_system "\<lambda>_ _. True" "guest_access os qt vd"
  "\<lambda>s. mmio_os_ok os \<and> backend_ok vd \<and> queue_laws qt \<and> mmio_inv z qt s" for os qt vd z
  by unfold_locales (use guest_access_ok mmio_access_def in blast)

lemma guest_run_ok:
  assumes "mmio_os_ok os" "backend_ok vd" "queue_laws qt" "mmio_inv z qt s"
  shows "\<exists>s'. guest_run os qt vd as s = Some s' \<and> mmio_inv z qt s'"
  using guest.run_total [of os vd qt z s as] assms by blast

lemma failed_forever:
  assumes "status_next v v'" "v AND DEVICE_FAILED \<noteq> 0" "status_ok v"
  shows "v' AND DEVICE_FAILED \<noteq> 0"
  using assms by (auto simp: status_next_def status_ok_def DEVICE_FAILED_def)

section \<open>Example device\<close>

definition demo_irq_os :: "unit irq_os" where
  "demo_irq_os = \<lparr>eventfd_new = eff_ret 7, eventfd_write = \<lambda>fd n. eff_ret (), eventfd_read = \<lambda>fd. eff_ret 0,
     register_irqfd = \<lambda>fd n. eff_ret (), unregister_irqfd = \<lambda>fd n. eff_ret (), set_gsi_routing = \<lambda>m. eff_ret ()\<rparr>"

definition demo_mmio_os :: "unit mmio_os" where
  "demo_mmio_os = \<lparr>irq_sys = demo_irq_os, has_ioeventfd_no_length = \<lambda>w. True, register_ioevent = \<lambda>fd a m. eff_ret (),
     unregister_ioevent = \<lambda>fd a m. eff_ret (), drop_memory_slot = \<lambda>a b c. eff_ret ()\<rparr>"

text \<open>A queue is its maximal size and its ready flag.\<close>

definition demo_qt :: "(nat \<times> bool, unit) QueueT" where
  "demo_qt = \<lparr>q_new = \<lambda>n. Inr (n, False), q_max_size = fst, q_ready = snd, q_set_size = \<lambda>q n. q, q_set_ready = \<lambda>q b. (fst q, b),
     q_set_desc_table_address = \<lambda>q l h. q, q_set_avail_ring_address = \<lambda>q l h. q, q_set_used_ring_address = \<lambda>q l h. q,
     q_is_valid = \<lambda>q w. snd q\<rparr>"

definition demo_vd :: "(nat \<times> bool, unit) VirtioDevice" where
  "demo_vd = \<lparr>device_type = 2, queue_max_sizes = [128], ctrl_queue_max_sizes = 0, get_avail_features = \<lambda>p w. 0,
     vd_set_acked_features = \<lambda>p v w. w, vd_read_config = \<lambda>off data w. (data, w), vd_write_config = \<lambda>off data w. w,
     vd_activate = \<lambda>cfg. eff_ret (), vd_reset = eff_ret (), vd_remove = id, get_resource_requirements = \<lambda>cs b. cs,
     vd_set_resource = \<lambda>res. eff_ret None\<rparr>"

definition demo_res :: DeviceResources where
  "demo_res = [MmioAddressRange 0xd0000000 0x2000, LegacyIrq 5, MsiIrq GenericMsi 24 3]"

lemmas demo_defs = demo_irq_os_def demo_mmio_os_def demo_qt_def demo_vd_def

lemma demo_ok:
  "mmio_os_ok demo_mmio_os" "irq_os_ok (irq_sys demo_mmio_os)" "fds_available (irq_sys demo_mmio_os)" "backend_ok demo_vd" "queue_laws demo_qt"
  "resource_ok demo_vd" "ranges_fit demo_res" "{LegacyIrqMode, GenericMsiIrq} \<subseteq> offered demo_res"
  by (simp_all add: demo_defs mmio_os_ok_def irq_os_ok_def fds_available_def backend_ok_def queue_laws_def resource_ok_def ranges_fit_def demo_res_def
      offered_def get_generic_msi_irqs_def u64_max_def)

lemma manager_new_ok: "irq_ok (KvmIrqManager_new w)" "msi_limit_ok (KvmIrqManager_new w)"
  by (simp_all add: irq_ok_def msi_limit_ok_def KvmIrqManager_new_def MAX_IRQS_def DEFAULT_MAX_MSI_IRQS_PER_DEVICE_def u32_max_def)

lemmas eff_eval = eff_bind_def eff_zoom_def eff_map_err_def eff_ignore_def kvm_def d_irq_def d_modify_def d_get_def x_irq_def x_world_def x_intr_def x_st_def x_dev_def
  x_get_def x_pure_def u64_add_def checked_add_def on_err_def succeeds_def eff_of_def the_group_def new_group_def vec_at_def

lemmas new_eval = MmioV2Device_new_def MmioV2DeviceState_new_def run_dim_def DeviceInterruptManager_new_def create_group_def LegacyIrq_new_def MsiIrq_new_def
  add_msi_group_def push_group_def resize_msi_config_space_def dim_init_def create_queues_def new_queue_config_def KvmIrqManager_new_def dr_new_def dr_append_def
  get_generic_msi_irqs_def get_pci_msi_irqs_def get_pci_msix_irqs_def MAX_LEGACY_IRQS_def MAX_IRQS_def DEFAULT_MAX_MSI_IRQS_PER_DEVICE_def u32_max_def
  msi_cfg_default_def res_base_def

lemma demo_new: "\<exists>d t. MmioV2Device_new demo_mmio_os demo_qt demo_vd demo_res (Some 4) (KvmIrqManager_new ()) = Some (Inr d, t)"
  by (simp add: new_eval eff_eval demo_defs demo_res_def numeral_3_eq_3 del: eff_bind_Ok eff_zoom_Ok eff_map_err_Ok)

section \<open>A mode without interrupts\<close>

lemma register_loop_succeeds:
  assumes reg: "\<And>fd a m w. \<exists>w'. register_ioevent os fd a m w = Some (Inr (), w')"
    and "addresses_ok (dstate (mdev s))" "i + length qs \<le> length (queues (dstate (mdev s)))"
  shows "wp (register_loop_ioevent os i qs) (\<lambda>_. only_world s) (\<lambda>_ _. False) s"
  using assms(2,3)
proof (induction qs arbitrary: i s)
  case Nil
  then show ?case by (simp add: wp_def only_world_refl)
next
  case (Cons q qs)
  have call: "wp (on_err (x_world (register_ioevent os fd a m)) h) (\<lambda>_. only_world t) (\<lambda>_ _. False) t" for fd a m h t
    unfolding wp_on_err wp_x_world using reg [of fd a m "irq_world (mirqs t)"] by (auto simp: wp_def only_worldI)
  have first: "wp (eff_bind (x_get doorbell) (\<lambda>db. case db of None \<Rightarrow> eff_ret () | Some d \<Rightarrow> eff_bind (doorbell_addr d i)
        (\<lambda>a. on_err (x_world (register_ioevent os (eventfd q) a NoDatamatch)) (revert_ioevent os i a True)))) (\<lambda>_. only_world s) (\<lambda>_ _. False) s"
    using call Cons.prems by (auto simp: wp_bind wp_x_get wp_option wp_ret only_world_refl doorbell_addr_ok [unfolded wp_bind] split: option.splits)
  show ?case
    unfolding register_loop_ioevent.simps
    by (rule world_seq_ok [OF first], rule world_addr, use Cons.prems in \<open>auto simp: addresses_ok_def dest!: only_world_mdev\<close>)
      (rule world_seq_ok [OF call], rule Cons.IH, use Cons.prems in \<open>auto dest!: only_world_mdev\<close>)
qed

lemma register_succeeds:
  assumes "\<And>fd a m w. \<exists>w'. register_ioevent os fd a m w = Some (Inr (), w')" "addresses_ok (dstate (mdev s))"
  obtains t where "register_ioevents os s = Some (Inr (), t)" "only_world (set_registered True s) t"
proof -
  have "wp (register_ioevents os) (\<lambda>_. only_world (set_registered True s)) (\<lambda>_ _. False) s"
    unfolding register_ioevents_def wp_bind wp_x_get
    by (rule wp_mono [OF register_loop_succeeds [OF assms(1)]]) (use assms(2) in \<open>auto simp: wp_x_st set_registered_def [symmetric] intro: only_world_set_registered\<close>)
  then show ?thesis by (rule wp_resultE) (auto intro: that)
qed

lemma le_bytes_of: "of_le (le_bytes 4 (v :: 32 word)) = v" "of_le (le_bytes 2 (u :: 16 word)) = u"
  by (simp_all add: of_le_le_bytes)

lemma msi_enable_eval:
  assumes "driver_status (mdev s) = 11" "msi (dstate (mdev s)) = None" "\<not> activated (intr_mgr (dstate (mdev s)))"
    "intr_mode (intr_mgr (dstate (mdev s))) \<in> {Disabled, LegacyIrqMode}"
  shows "guest_access os qt vd (GuestWrite REG_MMIO_MSI_CSR (le_bytes 2 (MMIO_MSI_CSR_ENABLED :: 16 word))) s =
    Some (s\<lparr>mdev := (mdev s)\<lparr>dstate := (dstate (mdev s))\<lparr>intr_mgr := (intr_mgr (dstate (mdev s)))\<lparr>current_idx :=
      mode2idx (intr_mgr (dstate (mdev s))) ! mode_index GenericMsiIrq, intr_mode := GenericMsiIrq\<rparr>, msi := Some Msi_default\<rparr>\<rparr>\<rparr>)"
  using assms
  by (auto simp: guest_access_def mmio_dev_write_def le_bytes_of update_msi_enable_def DEVICE_DRIVER_OK_def eff_eval set_working_mode_def)

lemma unserved_activation_panics:
  assumes reg: "\<And>fd a m w. \<exists>w'. register_ioevent os fd a m w = Some (Inr (), w')" and a: "addresses_ok (dstate (mdev s))"
    and d: "d_ok (intr_of s)" "\<not> activated (intr_mgr (dstate (mdev s)))" "\<not> mode_served (intr_mgr (dstate (mdev s)))"
    and s: "driver_status (mdev s) = 11" "\<not> device_activated (dstate (mdev s))"
    and q: "\<And>c. c \<in> set (queues (dstate (mdev s))) \<Longrightarrow> q_is_valid qt (queue c) (irq_world (mirqs s))"
  shows "guest_access os qt vd (GuestWrite REG_MMIO_STATUS (le_bytes 4 (15 :: 32 word))) s = None"
proof -
  let ?s = "s\<lparr>mdev := (mdev s)\<lparr>driver_status := 15\<rparr>\<rparr>"
  obtain t where t: "register_ioevents os ?s = Some (Inr (), t)" "only_world (set_registered True ?s) t"
    by (rule register_succeeds [OF reg, of "?s"]) (use a in auto)
  have "dim_enable (irq_sys os) (intr_of t) = None"
    by (rule enable_unserved_panics) (use d t(2) in \<open>auto simp: only_world_def d_ok_def\<close>)
  then have "x_intr (dim_enable (irq_sys os)) t = None" by (simp add: x_intr_def eff_zoom_def)
  moreover have "list_all (\<lambda>c. q_is_valid qt (queue c) (irq_world (mirqs s))) (queues (dstate (mdev s)))" using q by (simp add: list_all_iff)
  ultimately have "mmio_activate os qt vd ?s = None"
    using s t(1) by (simp add: mmio_activate_def eff_bind_def x_get_def check_queues_valid_def eff_map_err_def)
  then show ?thesis
    using s by (simp add: guest_access_def mmio_dev_write_def le_bytes_of write_reg_def update_driver_status_def status_vals go_driver_ok_def
        eff_bind_def exchange_driver_status_def succeeds_def)
qed

lemma new_device_inv:
  assumes "mmio_os_ok os" "fds_available (irq_sys os)" "resource_ok vd" "queue_laws qt"
    and "irq_ok t" "msi_limit_ok t" "ranges_fit res" "get_legacy_irq res \<noteq> None" "get_generic_msi_irqs res \<noteq> None"
    and "MmioV2Device_new os qt vd res features t = Some (Inr d, t')"
  shows "mmio_inv \<lparr>mdev = d, mirqs = t'\<rparr> qt \<lparr>mdev = d, mirqs = t'\<rparr>"
proof -
  have "fresh_dev qt res \<lparr>mdev = d, mirqs = t'\<rparr>"
    using wp_result(1) [OF MmioV2Device_new_wp [OF mmio_os_okD(1) [OF assms(1)] assms(2,4,3,5,6,7)] assms(10)] by simp
  then show ?thesis using assms(8,9) by (auto intro!: fresh_inv simp: offered_def)
qed

section \<open>Properties\<close>





text \<open>C36: A guest can crash the monitor through a device that has no message-signalled interrupts: enabling them in the control register is accepted
  without a check, and the write of DRIVER_OK that follows panics when it looks up the missing interrupt group.\<close>

theorem guest_enables_missing_msi:
  assumes "\<And>fd a m w. \<exists>w'. register_ioevent os fd a m w = Some (Inr (), w')"
    and "d_ok (intr_of s)" "addresses_ok (dstate (mdev s))" "all_idle s" "driver_status (mdev s) = DEVICE_STATUS_FEATURE_OK" "msi (dstate (mdev s)) = None"
    and "\<And>c. c \<in> set (queues (dstate (mdev s))) \<Longrightarrow> q_is_valid qt (queue c) (irq_world (mirqs s))"
    and "intr_mode (intr_mgr (dstate (mdev s))) \<in> {Disabled, LegacyIrqMode}" "\<not> has_mode (intr_mgr (dstate (mdev s))) GenericMsiIrq"
  shows "\<exists>s'. guest_access os qt vd (GuestWrite REG_MMIO_MSI_CSR (le_bytes 2 (MMIO_MSI_CSR_ENABLED :: 16 word))) s = Some s' \<and>
    guest_access os qt vd (GuestWrite REG_MMIO_STATUS (le_bytes 4 DEVICE_STATUS_DRIVER_OK)) s' = None"
proof -
  let ?d = "intr_mgr (dstate (mdev s))"
  let ?d' = "?d\<lparr>current_idx := mode2idx ?d ! mode_index GenericMsiIrq, intr_mode := GenericMsiIrq\<rparr>"
  let ?s = "s\<lparr>mdev := (mdev s)\<lparr>dstate := (dstate (mdev s))\<lparr>intr_mgr := ?d', msi := Some Msi_default\<rparr>\<rparr>\<rparr>"
  have act: "\<not> activated ?d" using assms(4) by (simp add: all_idle_def)
  have d: "dim_ok ?d' (mirqs s)" by (rule dim_ok_cong [of ?d' ?d]) (use assms(2) act in \<open>simp_all add: d_ok_def dim_ok_def\<close>)
  have "guest_access os qt vd (GuestWrite REG_MMIO_STATUS (le_bytes 4 (15 :: 32 word))) ?s = None"
    by (rule unserved_activation_panics [OF assms(1)])
      (use assms d act in \<open>simp_all add: d_ok_def mode_served_def has_mode_def addresses_ok_def status_vals all_idle_def\<close>)
  then show ?thesis using msi_enable_eval [of s os qt vd] assms(5,6,8) act by (simp add: status_vals)
qed

definition demo_plain :: "(nat \<times> bool, unit) mmio_sys" where
  "demo_plain =
     \<lparr>mdev = \<lparr>dstate = \<lparr>intr_mgr = \<lparr>intr_mode = Disabled, activated = False, current_idx = u64_max, mode2idx = [u64_max, 0, u64_max, u64_max, u64_max],
          intr_groups = [0], msi_config = [], dev_id = None\<rparr>, device_resources = [LegacyIrq 5],
          queues = [\<lparr>queue = (128, True), eventfd = 7, notifier = Noop, qindex = 0\<rparr>], mmio_base = 0xd0000000, has_ctrl_queue = False,
          device_activated = False, ioevent_registered = False, features_select = 0, acked_features_select = 0, queue_select = 0, msi = None,
          doorbell = None, shm_region_id = 0, shm_regions = None\<rparr>,
        assigned_resources = [MmioAddressRange 0xd0000000 0x2000, LegacyIrq 5], mmio_cfg_res = MmioAddressRange 0xd0000000 0x2000,
        device_vendor = MMIO_VENDOR_ID_DRAGONBALL, driver_status = 11, config_generation = 0, interrupt_status = 0\<rparr>,
      mirqs = \<lparr>irq_world = (), irq_store = [0 \<mapsto> \<lparr>grp_type = LegacySource, grp_base = 5, grp_fds = [7], grp_cfgs = []\<rparr>], irq_next = 1,
        irq_groups = [5 \<mapsto> 0], irq_routes = Map.empty, max_msi_irqs = 256\<rparr>\<rparr>"

lemma demo_plain_modes: "has_mode (intr_mgr (dstate (mdev demo_plain))) m \<longleftrightarrow> m = LegacyIrqMode"
proof -
  have "0 < u64_max" by (simp add: u64_max_def)
  then show ?thesis by (cases m) (simp_all add: demo_plain_def has_mode_def)
qed

lemma demo_plain_ok: "d_ok (intr_of demo_plain)"
  by (simp add: d_ok_def dim_ok_def demo_plain_modes)
    (simp add: demo_plain_def u64_max_def mode_group_def mode_source_def irq_ok_def grp_ok_def grp_len_def MAX_LEGACY_IRQS_def)

theorem guest_enables_missing_msi_witness:
  "\<exists>s'. guest_access demo_mmio_os demo_qt demo_vd (GuestWrite REG_MMIO_MSI_CSR (le_bytes 2 (MMIO_MSI_CSR_ENABLED :: 16 word))) demo_plain = Some s' \<and>
    guest_access demo_mmio_os demo_qt demo_vd (GuestWrite REG_MMIO_STATUS (le_bytes 4 DEVICE_STATUS_DRIVER_OK)) s' = None"
  by (rule guest_enables_missing_msi [OF _ demo_plain_ok])
    (simp_all add: demo_plain_modes, simp_all add: demo_defs demo_plain_def addresses_ok_def all_idle_def status_vals u64_max_def)

end
