(* ===== verification/DeviceLogic.thy ===== *)
theory DeviceLogic
  imports DeviceManager MmioClaims ResourceClaims IoClaims
begin

text \<open>
  The device manager keeps its parts in step: every range on the memory bus is a range its device
  holds in the resource manager.  So a new device never meets an old one, every access reaches the
  device that owns the address, and destroying a device restores both managers.
\<close>

section \<open>Requests of virtio devices\<close>

fun virtio_request :: "ResourceConstraint \<Rightarrow> bool" where
  "virtio_request (CMmioAddress _ _ _) = True"
| "virtio_request (CLegacyIrq _) = True"
| "virtio_request (CGenericIrq _) = True"
| "virtio_request (CKvmMemSlot _ sz) = (sz = 1)"
| "virtio_request _ = False"

lemma virtio_releasable: "answers req res h \<Longrightarrow> virtio_request req \<Longrightarrow> releasable mem_end h"
  by (cases h; cases req) (auto simp: releasable_def meets_def)

lemma served_releasable: "served shared reqs rs hs \<Longrightarrow> list_all virtio_request reqs \<Longrightarrow> \<forall>h \<in> set hs. releasable mem_end h"
  by (induction rule: served.induct) (auto intro: virtio_releasable)

lemma virtio_loop_returns:
  assumes "tracked mem_end rm0 hs rm" "served shared prev rs hs" "list_all virtio_request (prev @ reqs)"
  shows "\<exists>out rm'. allocate_loop mem_end rm shared rs reqs = Some (out, rm') \<and> (out = Err NoAvailResource \<or> (\<exists>rs'. out = Ok rs'))"
  using assms
proof (induction reqs arbitrary: prev rs hs rm)
  case (Cons req reqs)
  have inv: "rm_inv mem_end rm" and sub: "set hs \<subseteq> rm_used rm" using Cons.prems(1) by (auto simp: tracked_def)
  have rel: "\<forall>h \<in> set hs. releasable mem_end h" using served_releasable [OF Cons.prems(2)] Cons.prems(3) by simp
  have reqs: "list_all virtio_request ((prev @ [req]) @ reqs)" using Cons.prems(3) by simp
  from allocate_resource_outcome [OF inv, of shared req] show ?case
    unfolding allocation_outcome_def
  proof (elim disjE exE conjE)
    assume "allocate_resource rm shared req = Some (None, rm)"
    then show ?thesis using free_device_resources_total [OF served_owns [OF Cons.prems(2)] inv sub rel] by auto
  next
    fix irq assume a: "shared" "req = CLegacyIrq irq" "allocate_resource rm shared req = Some (Some (LegacyIrq SHARED_IRQ), rm)"
    show ?thesis
      using Cons.IH [OF Cons.prems(1) served_append_shared [OF Cons.prems(2) a(1), of irq]] reqs a by (simp add: dr_append_def)
  next
    fix res h rm1
    assume a: "allocate_resource rm shared req = Some (Some res, rm1)" and b: "answers req res h" "grants mem_end rm h rm1"
    note t = tracked_grant [OF Cons.prems(1) b(2)]
    show ?thesis using Cons.IH [OF t(1) served_append_own [OF Cons.prems(2) b(1) t(2)] reqs] a by (simp add: dr_append_def)
  qed
qed simp

text \<open>Allocation for a virtio device returns, with its resources or with the pools as before.\<close>

lemma virtio_allocate:
  assumes "rm_inv mem_end rm" "list_all virtio_request reqs"
  shows "(\<exists>rm'. allocate_device_resources mem_end rm reqs shared = Some (Err NoAvailResource, rm') \<and> tracked mem_end rm [] rm') \<or>
    (\<exists>rs hs rm'. allocate_device_resources mem_end rm reqs shared = Some (Ok rs, rm') \<and> served shared reqs rs hs \<and> tracked mem_end rm hs rm')"
proof -
  obtain out rm' where r: "allocate_loop mem_end rm shared [] reqs = Some (out, rm')" "out = Err NoAvailResource \<or> (\<exists>rs'. out = Ok rs')"
    using virtio_loop_returns [OF tracked_nil [OF assms(1)] served_nil, where reqs = reqs and shared = shared] assms(2) by auto
  have "loop_post mem_end shared ([] @ reqs) rm out rm'" by (rule allocate_loop_post [OF tracked_nil [OF assms(1)] served_nil r(1)])
  then show ?thesis using r by (auto simp: loop_post_def allocate_device_resources_def dr_new_def tracked_def same_view_def holdings_pts_def)
qed

lemma owns_mem: "owns rs hs \<Longrightarrow> res \<in> set rs \<Longrightarrow> \<not> inert res \<Longrightarrow> \<exists>h \<in> set hs. belongs res h"
  by (induction rule: owns.induct) auto

lemma served_legacy: "served shared reqs rs hs \<Longrightarrow> CLegacyIrq irq \<in> set reqs \<Longrightarrow> \<exists>i. get_legacy_irq rs = Some i"
proof (induction rule: served.induct)
  case (served_own req res h hs reqs rs)
  then show ?case by (cases h; cases req) (auto split: Resource.splits)
qed auto

lemma served_generic: "served shared reqs rs hs \<Longrightarrow> CGenericIrq sz \<in> set reqs \<Longrightarrow> \<exists>i. get_generic_msi_irqs rs = Some i"
  unfolding get_generic_msi_irqs_def
proof (induction rule: served.induct)
  case (served_own req res h hs reqs rs)
  then show ?case by (cases h; cases req) (auto split: Resource.splits)
qed auto

lemma served_fit:
  assumes "served shared reqs rs hs" "rm_inv mem_end rm" "set hs \<subseteq> rm_used rm"
  shows "ranges_fit rs"
  unfolding ranges_fit_def
proof
  fix res assume res: "res \<in> set rs"
  show "case res of MmioAddressRange base sz \<Rightarrow> base + sz \<le> u64_max + 1 | _ \<Rightarrow> True"
  proof (cases res)
    case (MmioAddressRange base sz)
    then obtain k r s where h: "(k, r, s) \<in> set hs" "belongs res (k, r, s)" using owns_mem [OF served_owns [OF assms(1)] res] by auto
    have "rmax r < u64_max" by (rule holding_range(4) [OF assms(2)]) (use h assms(3) in auto)
    then show ?thesis using h(2) MmioAddressRange by simp
  qed simp_all
qed

section \<open>The invariant\<close>

text \<open>\<open>H d\<close> are the holdings of device \<open>d\<close>.\<close>

definition held :: "nat \<Rightarrow> (nat \<Rightarrow> holding list) \<Rightarrow> ('q, 'w) DeviceOpContext \<Rightarrow> bool" where
  "held mem_end H c \<longleftrightarrow>
     (\<forall>r d. (r, d) \<in> set (mmio_bus (ctx_io c)) \<longrightarrow> d < ctx_next c \<and> set (H d) \<subseteq> rm_used (ctx_res c) \<and>
        (\<exists>h \<in> set (H d). belongs (MmioAddressRange (iobase r) (iosize r)) h) \<and>
        (\<forall>ob. ctx_devs c d = Some ob \<longrightarrow> mmio_cfg_res (obj_dev ob) = MmioAddressRange (iobase r) (iosize r) \<and>
           owns (assigned_resources (obj_dev ob)) (H d) \<and> (\<forall>h \<in> set (H d). releasable mem_end h))) \<and>
     (\<forall>r d r' d'. (r, d) \<in> set (mmio_bus (ctx_io c)) \<longrightarrow> (r', d') \<in> set (mmio_bus (ctx_io c)) \<longrightarrow> d \<noteq> d' \<longrightarrow> set (H d) \<inter> set (H d') = {})"

definition ctx_inv :: "nat \<Rightarrow> ('q, 'w) DeviceOpContext \<Rightarrow> bool" where
  "ctx_inv mem_end c \<longleftrightarrow> rm_inv mem_end (ctx_res c) \<and> io_inv (ctx_io c) \<and> irq_ok (ctx_irqs c) \<and> msi_limit_ok (ctx_irqs c) \<and> (\<exists>H. held mem_end H c)"

lemma heldD:
  assumes "held mem_end H c" "(r, d) \<in> set (mmio_bus (ctx_io c))"
  shows "d < ctx_next c" "set (H d) \<subseteq> rm_used (ctx_res c)" "\<exists>h \<in> set (H d). belongs (MmioAddressRange (iobase r) (iosize r)) h"
    "ctx_devs c d = Some ob \<Longrightarrow> mmio_cfg_res (obj_dev ob) = MmioAddressRange (iobase r) (iosize r) \<and>
       owns (assigned_resources (obj_dev ob)) (H d) \<and> (\<forall>h \<in> set (H d). releasable mem_end h)"
    "(r', d') \<in> set (mmio_bus (ctx_io c)) \<Longrightarrow> d \<noteq> d' \<Longrightarrow> set (H d) \<inter> set (H d') = {}"
  using assms unfolding held_def by meson+

lemma belongs_pts: "belongs (MmioAddressRange (iobase r) (iosize r)) (k, q, s) \<Longrightarrow> rmin q \<le> rmax q \<Longrightarrow> k = KMmio \<and> io_pts r = range_pts q \<and> 0 < iosize r"
  by (auto simp: io_pts_def range_pts_def)

lemma ctx_bus_wf:
  assumes "ctx_inv mem_end c"
  shows "bus_wf (mmio_bus (ctx_io c))"
proof -
  obtain H where H: "held mem_end H c" and rm: "rm_inv mem_end (ctx_res c)" and io: "bt_sorted iobase (mmio_bus (ctx_io c))"
    using assms by (auto simp: ctx_inv_def io_inv_iff)
  have hold: "\<exists>q s. (KMmio, q, s) \<in> rm_used (ctx_res c) \<and> rmin q = iobase r \<and> io_pts r = range_pts q \<and> 0 < iosize r"
    if m: "(r, d) \<in> set (mmio_bus (ctx_io c))" for r d
  proof -
    obtain h where "h \<in> set (H d)" "belongs (MmioAddressRange (iobase r) (iosize r)) h" using heldD(3) [OF H m] by auto
    moreover obtain k q s where "h = (k, q, s)" by (cases h)
    ultimately have h: "(k, q, s) \<in> set (H d)" "belongs (MmioAddressRange (iobase r) (iosize r)) (k, q, s)" "set (H d) \<subseteq> rm_used (ctx_res c)"
      using heldD(2) [OF H m] by simp_all
    have "rmin q \<le> rmax q" by (rule holding_range(1) [OF rm]) (use h in auto)
    then show ?thesis using belongs_pts [OF h(2)] h by auto
  qed
  have "io_pts (fst e) \<inter> io_pts (fst e') = {}" if e: "e \<in> set (mmio_bus (ctx_io c))" "e' \<in> set (mmio_bus (ctx_io c))" "e \<noteq> e'" for e e'
  proof -
    obtain r d r' d' where p: "e = (r, d)" "e' = (r', d')" by fastforce
    obtain q s q' s' where q: "(KMmio, q, s) \<in> rm_used (ctx_res c)" "rmin q = iobase r" "io_pts r = range_pts q"
        "(KMmio, q', s') \<in> rm_used (ctx_res c)" "rmin q' = iobase r'" "io_pts r' = range_pts q'"
      using hold [of r d] hold [of r' d'] e(1,2) p by auto
    have "iobase r \<noteq> iobase r'"
    proof
      assume "iobase r = iobase r'"
      then have "bt_find iobase (mmio_bus (ctx_io c)) (iobase r) = Some e" "bt_find iobase (mmio_bus (ctx_io c)) (iobase r) = Some e'"
        unfolding bt_find_set [OF io] using e p by simp_all
      then show False using e(3) by simp
    qed
    then have "(KMmio, q, s) \<noteq> (KMmio, q', s')" using q by auto
    from used_holdings_disjoint [OF rm q(1,4) this] show ?thesis using q p by (auto simp: holding_pts_def)
  qed
  moreover have "0 < iosize (fst e)" if "e \<in> set (mmio_bus (ctx_io c))" for e using hold [of "fst e" "snd e"] that by auto
  ultimately show ?thesis using io by (simp add: bus_wf_def)
qed

lemma bus_find: "io_inv m \<Longrightarrow> (r, d) \<in> set (mmio_bus m) \<longleftrightarrow> io_find m (Mmio, iobase r) = Some (r, d)"
  by (simp add: io_inv_iff bt_find_set)

lemma created_msi: "created t t' \<Longrightarrow> msi_limit_ok t' = msi_limit_ok t" "created t t' \<Longrightarrow> irq_ok t'"
  by (simp_all add: created_def stable_def msi_limit_ok_def)

text \<open>Resources taken but not published.\<close>

lemma inv_grow:
  assumes "ctx_inv mem_end c" "tracked mem_end (ctx_res c) hs rm" "created (ctx_irqs c) t"
  shows "ctx_inv mem_end (c\<lparr>ctx_res := rm, ctx_irqs := t\<rparr>)"
proof -
  obtain H where H: "held mem_end H c" using assms(1) by (auto simp: ctx_inv_def)
  have "rm_used (ctx_res c) \<subseteq> rm_used rm" using assms(2) by (auto simp: tracked_def)
  then have "held mem_end H (c\<lparr>ctx_res := rm, ctx_irqs := t\<rparr>)" using H unfolding held_def by simp blast
  then show ?thesis using assms created_msi [OF assms(3)] by (auto simp: ctx_inv_def tracked_def)
qed

lemma new_range_free:
  assumes c: "ctx_inv mem_end c" and t: "tracked mem_end (ctx_res c) hs rm" and h: "h \<in> set hs" "belongs (MmioAddressRange base sz) h"
  shows "io_find (ctx_io c) (Mmio, base) = None"
proof (rule ccontr)
  assume "io_find (ctx_io c) (Mmio, base) \<noteq> None"
  then obtain r d where f: "io_find (ctx_io c) (Mmio, base) = Some (r, d)" by auto
  obtain H where H: "held mem_end H c" and io: "io_inv (ctx_io c)" using c by (auto simp: ctx_inv_def)
  have rd: "(r, d) \<in> set (mmio_bus (ctx_io c))" "iobase r = base" using f io by (auto simp: io_inv_iff bt_find_set)
  obtain h' where h': "h' \<in> set (H d)" "belongs (MmioAddressRange (iobase r) (iosize r)) h'" using heldD(3) [OF H rd(1)] by auto
  have rm: "rm_inv mem_end rm" and used: "h \<in> rm_used rm" "h' \<in> rm_used rm" "h \<noteq> h'"
    using t h(1) h'(1) heldD(2) [OF H rd(1)] by (auto simp: tracked_def)
  obtain k q s k' q' s' where e: "h = (k, q, s)" "h' = (k', q', s')" by (metis prod_cases3)
  have "rmin q \<le> rmax q" "rmin q' \<le> rmax q'" using holding_range(1) [OF rm] used e by blast+
  then have "(KMmio, base) \<in> holding_pts h \<inter> holding_pts h'" using h(2) h'(2) rd(2) e by (auto simp: holding_pts_def range_pts_def)
  then show False using used_holdings_disjoint [OF rm used] by blast
qed

lemma inv_created:
  assumes c: "ctx_inv mem_end c" and t: "tracked mem_end (ctx_res c) hs rm" and irq: "created (ctx_irqs c) t'"
    and own: "owns (assigned_resources dev) hs" "\<forall>h \<in> set hs. releasable mem_end h"
    and cfg: "mmio_cfg_res dev = MmioAddressRange base sz" "MmioAddressRange base sz \<in> set (assigned_resources dev)"
    and reg: "reg_state (ctx_io c) (ctx_next c) [MmioAddressRange base sz] io"
  shows "ctx_inv mem_end (c\<lparr>ctx_io := io, ctx_res := rm, ctx_irqs := t', ctx_devs := (ctx_devs c)(ctx_next c \<mapsto> \<lparr>obj_dev = dev, obj_backend = vd\<rparr>),
    ctx_next := ctx_next c + 1, virtio_devices := vs\<rparr>)" (is "ctx_inv mem_end ?c")
proof -
  obtain H where H: "held mem_end H c" and io: "io_inv (ctx_io c)" using c by (auto simp: ctx_inv_def)
  let ?d = "ctx_next c" and ?r = "\<lparr>iobase = base, iosize = sz\<rparr>"
  let ?H = "H(?d := hs)"
  have io': "io_inv io" using reg by (simp add: reg_state_def)
  have slots: "slots [MmioAddressRange base sz] = {(Mmio, base)}" by (simp add: res_slot_def)
  have find: "io_find io (Mmio, x) = (if x = base then Some (?r, ?d) else io_find (ctx_io c) (Mmio, x))" for x
    using reg unfolding reg_state_def slots by (cases "x = base") (fastforce, simp del: io_find_simps)
  have mem: "(r, d) \<in> set (mmio_bus io) \<longleftrightarrow> (r = ?r \<and> d = ?d) \<or> (r, d) \<in> set (mmio_bus (ctx_io c)) \<and> iobase r \<noteq> base" for r d
    unfolding bus_find [OF io'] bus_find [OF io] find by auto
  have old: "d \<noteq> ?d" if "(r, d) \<in> set (mmio_bus (ctx_io c))" for r d using heldD(1) [OF H that] by auto
  have new: "\<exists>h \<in> set hs. belongs (MmioAddressRange base sz) h" using owns_mem [OF own(1) cfg(2)] by simp
  have used: "set hs \<subseteq> rm_used rm" "rm_used (ctx_res c) \<subseteq> rm_used rm" "set hs \<inter> rm_used (ctx_res c) = {}" using t by (auto simp: tracked_def)
  have "held mem_end ?H ?c"
    unfolding held_def
  proof (intro conjI allI impI)
    fix r d assume m: "(r, d) \<in> set (mmio_bus (ctx_io ?c))"
    consider "r = ?r" "d = ?d" | "(r, d) \<in> set (mmio_bus (ctx_io c))" "d \<noteq> ?d" using m mem old by auto
    then have "d < ctx_next ?c \<and> set (?H d) \<subseteq> rm_used rm \<and> (\<exists>h \<in> set (?H d). belongs (MmioAddressRange (iobase r) (iosize r)) h)"
    proof cases
      case 1
      then show ?thesis using new used(1) by simp
    next
      case 2
      then show ?thesis using heldD(1-3) [OF H 2(1)] used(2) by simp
    qed
    then show "d < ctx_next ?c" "set (?H d) \<subseteq> rm_used (ctx_res ?c)" "\<exists>h \<in> set (?H d). belongs (MmioAddressRange (iobase r) (iosize r)) h"
      by simp_all
    fix ob assume ob: "ctx_devs ?c d = Some ob"
    show "mmio_cfg_res (obj_dev ob) = MmioAddressRange (iobase r) (iosize r)" "owns (assigned_resources (obj_dev ob)) (?H d)"
      "\<forall>h \<in> set (?H d). releasable mem_end h"
      using m ob heldD(4) [OF H, of r d ob] old [of r d] own cfg by (auto simp: mem split: if_splits)
  next
    fix r d r' d' assume m: "(r, d) \<in> set (mmio_bus (ctx_io ?c))" "(r', d') \<in> set (mmio_bus (ctx_io ?c))" "d \<noteq> d'"
    consider "d = ?d" "(r', d') \<in> set (mmio_bus (ctx_io c))" "d' \<noteq> ?d" | "d' = ?d" "(r, d) \<in> set (mmio_bus (ctx_io c))" "d \<noteq> ?d"
      | "(r, d) \<in> set (mmio_bus (ctx_io c))" "(r', d') \<in> set (mmio_bus (ctx_io c))" "d \<noteq> ?d" "d' \<noteq> ?d"
      using m mem old by auto
    then show "set (?H d) \<inter> set (?H d') = {}"
    proof cases
      case 1
      then show ?thesis using heldD(2) [OF H 1(2)] used(3) by simp blast
    next
      case 2
      then show ?thesis using heldD(2) [OF H 2(2)] used(3) by simp blast
    next
      case 3
      then show ?thesis using heldD(5) [OF H 3(1,2) m(3)] by simp
    qed
  qed
  then show ?thesis using c t io' created_msi [OF irq] by (auto simp: ctx_inv_def tracked_def)
qed

section \<open>Creation\<close>

text \<open>What the manager relies on: calls to KVM return, file descriptors can be created, queues and backend keep their contracts.\<close>

definition plug_ok :: "'w mmio_os \<Rightarrow> ('q, 'w) QueueT \<Rightarrow> ('q, 'w) VirtioDevice \<Rightarrow> bool \<Rightarrow> bool" where
  "plug_ok os qt vd generic \<longleftrightarrow> mmio_os_ok os \<and> fds_available (irq_sys os) \<and> queue_laws qt \<and> resource_ok vd \<and>
     list_all virtio_request (mmio_requests vd generic) \<and> CLegacyIrq None \<in> set (mmio_requests vd generic)"

definition created_as :: "nat \<Rightarrow> ('q, 'w) QueueT \<Rightarrow> ('q, 'w) VirtioDevice \<Rightarrow> bool \<Rightarrow> bool \<Rightarrow> ('q, 'w) DeviceOpContext \<Rightarrow> nat \<Rightarrow> ('q, 'w) DeviceOpContext \<Rightarrow> bool" where
  "created_as mem_end qt vd shared generic c d c' \<longleftrightarrow> d = ctx_next c \<and>
     (\<exists>dev rs hs rm t base io. served shared (mmio_requests vd generic) rs hs \<and> tracked mem_end (ctx_res c) hs rm \<and>
        fresh_dev qt rs \<lparr>mdev = dev, mirqs = t\<rparr> \<and> created (ctx_irqs c) t \<and> mmio_cfg_res dev = MmioAddressRange base 0x2000 \<and>
        reg_state (ctx_io c) d [MmioAddressRange base 0x2000] io \<and>
        c' = c\<lparr>ctx_io := io, ctx_res := rm, ctx_irqs := t, ctx_devs := (ctx_devs c)(d \<mapsto> \<lparr>obj_dev = dev, obj_backend = vd\<rparr>),
               ctx_next := d + 1, virtio_devices := virtio_devices c @ [d]\<rparr>)"

definition refused_as :: "nat \<Rightarrow> ('q, 'w) DeviceOpContext \<Rightarrow> DeviceMgrError \<Rightarrow> ('q, 'w) DeviceOpContext \<Rightarrow> bool" where
  "refused_as mem_end c e c' \<longleftrightarrow> (\<forall>io. e \<noteq> IoManagerError io) \<and>
     (\<exists>hs rm t. tracked mem_end (ctx_res c) hs rm \<and> created (ctx_irqs c) t \<and> c' = c\<lparr>ctx_res := rm, ctx_irqs := t\<rparr>)"

lemma register_new:
  assumes c: "ctx_inv mem_end c" and s: "served shared (mmio_requests vd generic) rs hs" and t: "tracked mem_end (ctx_res c) hs rm"
    and f: "fresh_dev qt rs \<lparr>mdev = dev, mirqs = t'\<rparr>" and cr: "created (ctx_irqs c) t'" and irq: "CLegacyIrq None \<in> set (mmio_requests vd generic)"
  shows "wp (register_or_drop os (ctx_next c)) (created_as mem_end qt vd shared generic c) (\<lambda>_ _. False)
    (c\<lparr>ctx_res := rm, ctx_irqs := t', ctx_devs := (ctx_devs c)(ctx_next c \<mapsto> \<lparr>obj_dev = dev, obj_backend = vd\<rparr>), ctx_next := ctx_next c + 1\<rparr>)"
proof -
  let ?d = "ctx_next c"
  obtain base where cfg: "mmio_cfg_res dev = MmioAddressRange base 0x2000" "MmioAddressRange base 0x2000 \<in> set rs" and rs: "assigned_resources dev = rs"
    using f by (auto simp: fresh_dev_def)
  obtain i where i: "get_legacy_irq rs = Some i" using served_legacy [OF s irq] by blast
  obtain h where "h \<in> set hs" "belongs (MmioAddressRange base 0x2000) h" using owns_mem [OF served_owns [OF s] cfg(2)] by auto
  then have "io_find (ctx_io c) (Mmio, base) = None" by (rule new_range_free [OF c t])
  then have free: "no_conflict (ctx_io c) [MmioAddressRange base 0x2000]" by (simp add: res_slot_def)
  have io: "io_inv (ctx_io c)" using c by (simp add: ctx_inv_def)
  obtain io where reg: "register_device_io (ctx_io c) ?d [MmioAddressRange base 0x2000] = Some (Ok (), io)" "reg_state (ctx_io c) ?d [MmioAddressRange base 0x2000] io"
    using register_outcome [OF io, of ?d "[MmioAddressRange base 0x2000]"] free by (auto simp: reg_outcome_def)
  have trap: "mmio_get_trapped_io_resources dev = [MmioAddressRange base 0x2000]" by (simp add: mmio_get_trapped_io_resources_def dr_append_def dr_new_def cfg)
  let ?c = "c\<lparr>ctx_res := rm, ctx_irqs := t', ctx_devs := (ctx_devs c)(?d \<mapsto> \<lparr>obj_dev = dev, obj_backend = vd\<rparr>), ctx_next := ?d + 1\<rparr>"
  have "register_mmio_virtio_device ?d ?c = Some (Ok ?d, c\<lparr>ctx_io := io, ctx_res := rm, ctx_irqs := t', ctx_devs := (ctx_devs c)(?d \<mapsto> \<lparr>obj_dev = dev, obj_backend = vd\<rparr>),
      ctx_next := ?d + 1, virtio_devices := virtio_devices c @ [?d]\<rparr>)"
    using i rs trap reg(1)
    by (simp add: register_mmio_virtio_device_def the_device_def eff_bind_def eff_of_def get_virtio_device_info_def begin_tx_def commit_tx_def Let_def)
  moreover have "created_as mem_end qt vd shared generic c ?d (c\<lparr>ctx_io := io, ctx_res := rm, ctx_irqs := t',
      ctx_devs := (ctx_devs c)(?d \<mapsto> \<lparr>obj_dev = dev, obj_backend = vd\<rparr>), ctx_next := ?d + 1, virtio_devices := virtio_devices c @ [?d]\<rparr>)"
    unfolding created_as_def using s t f cr cfg(1) reg(2) by blast
  ultimately show ?thesis by (simp add: wp_def register_or_drop_def)
qed

lemma wp_new_device: "wp (new_device ob) Q E c \<longleftrightarrow> Q (ctx_next c) (c\<lparr>ctx_devs := (ctx_devs c)(ctx_next c \<mapsto> ob), ctx_next := ctx_next c + 1\<rparr>)"
  by (simp add: wp_def new_device_def)

lemma wp_ctx_parts:
  "wp get_vm_as Q E c \<longleftrightarrow> (case vm_as c of None \<Rightarrow> E InvalidOperation c | Some v \<Rightarrow> Q v c)"
  "wp get_address_space Q E c \<longleftrightarrow> (case address_space c of None \<Rightarrow> E InvalidOperation c | Some v \<Rightarrow> Q v c)"
  by (simp_all add: wp_def get_vm_as_def get_address_space_def split: option.splits)

lemma wp_c_allocate:
  "wp (c_allocate mem_end reqs shared) Q E c \<longleftrightarrow> (case allocate_device_resources mem_end (ctx_res c) reqs shared of None \<Rightarrow> False
     | Some (Inl e, rm) \<Rightarrow> E GetDeviceResource (c\<lparr>ctx_res := rm\<rparr>) | Some (Inr rs, rm) \<Rightarrow> Q rs (c\<lparr>ctx_res := rm\<rparr>))"
  by (simp add: c_allocate_def wp_map_err wp_zoom) (simp add: wp_def split: option.splits prod.splits sum.splits)

lemma create_wp:
  assumes ok: "plug_ok os qt vd generic" and c: "ctx_inv mem_end c"
  shows "wp (create_mmio_virtio_device_with_features mem_end os qt vd features shared generic) (created_as mem_end qt vd shared generic c) (refused_as mem_end c) c"
proof -
  have p: "mmio_os_ok os" "irq_os_ok (irq_sys os)" "fds_available (irq_sys os)" "queue_laws qt" "resource_ok vd"
      "list_all virtio_request (mmio_requests vd generic)" "CLegacyIrq None \<in> set (mmio_requests vd generic)"
    using ok by (auto simp: plug_ok_def mmio_os_ok_def)
  have inv: "rm_inv mem_end (ctx_res c)" "irq_ok (ctx_irqs c)" "msi_limit_ok (ctx_irqs c)" using c by (auto simp: ctx_inv_def)
  have same: "created (ctx_irqs c) (ctx_irqs c)" using inv(2) by (simp add: created_def)
  consider rm where "allocate_device_resources mem_end (ctx_res c) (mmio_requests vd generic) shared = Some (Err NoAvailResource, rm)" "tracked mem_end (ctx_res c) [] rm"
    | rs hs rm where "allocate_device_resources mem_end (ctx_res c) (mmio_requests vd generic) shared = Some (Ok rs, rm)"
        "served shared (mmio_requests vd generic) rs hs" "tracked mem_end (ctx_res c) hs rm"
    using virtio_allocate [OF inv(1) p(6)] by blast
  then show ?thesis
  proof cases
    case 1
    have "refused_as mem_end c GetDeviceResource (c\<lparr>ctx_res := rm\<rparr>)"
      unfolding refused_as_def using 1(2) same by (auto intro!: exI [of _ "[]"] exI [of _ rm] exI [of _ "ctx_irqs c"])
    then show ?thesis using 1(1) by (simp add: create_mmio_virtio_device_with_features_def c_allocate_def eff_bind_def eff_map_err_def eff_zoom_def wp_def)
  next
    case (2 rs hs rm)
    have fit: "ranges_fit rs" by (rule served_fit [OF 2(2)]) (use 2(3) in \<open>auto simp: tracked_def\<close>)
    have stop: "refused_as mem_end c e (c\<lparr>ctx_res := rm, ctx_irqs := t\<rparr>)" if "created (ctx_irqs c) t" "\<forall>io. e \<noteq> IoManagerError io" for e t
      unfolding refused_as_def using 2(3) that by blast
    have stop0: "refused_as mem_end c InvalidOperation (c\<lparr>ctx_res := rm\<rparr>)" using stop [OF same, of InvalidOperation] by simp
    have new: "wp (MmioV2Device_new os qt vd rs features)
        (\<lambda>dev t. wp (eff_bind (new_device \<lparr>obj_dev = dev, obj_backend = vd\<rparr>) (register_or_drop os)) (created_as mem_end qt vd shared generic c) (refused_as mem_end c)
           (c\<lparr>ctx_res := rm, ctx_irqs := t\<rparr>)) (\<lambda>e t. refused_as mem_end c (Virtio e) (c\<lparr>ctx_res := rm, ctx_irqs := t\<rparr>)) (ctx_irqs c)"
    proof (rule wp_mono [OF MmioV2Device_new_wp [OF p(2,3,4,5) inv(2,3) fit]])
      fix dev t assume a: "created (ctx_irqs c) t \<and> fresh_dev qt rs \<lparr>mdev = dev, mirqs = t\<rparr>"
      have "wp (register_or_drop os (ctx_next c)) (created_as mem_end qt vd shared generic c) (refused_as mem_end c)
          (c\<lparr>ctx_res := rm, ctx_irqs := t, ctx_devs := (ctx_devs c)(ctx_next c \<mapsto> \<lparr>obj_dev = dev, obj_backend = vd\<rparr>), ctx_next := ctx_next c + 1\<rparr>)"
        by (rule wp_mono [OF register_new [OF c 2(2,3) conjunct2 [OF a] conjunct1 [OF a] p(7)]]) simp_all
      then show "wp (eff_bind (new_device \<lparr>obj_dev = dev, obj_backend = vd\<rparr>) (register_or_drop os)) (created_as mem_end qt vd shared generic c) (refused_as mem_end c)
          (c\<lparr>ctx_res := rm, ctx_irqs := t\<rparr>)"
        by (simp add: wp_bind wp_new_device)
    qed (auto intro: stop)
    show ?thesis
      using 2(1) new stop0
      by (simp add: create_mmio_virtio_device_with_features_def wp_bind [of "c_allocate _ _ _"] wp_c_allocate wp_bind [of get_vm_as]
          wp_bind [of get_address_space] wp_ctx_parts wp_bind [of "eff_map_err _ _"] wp_map_err wp_zoom split: option.splits)
  qed
qed

lemma created_inv: "ctx_inv mem_end c \<Longrightarrow> plug_ok os qt vd generic \<Longrightarrow> created_as mem_end qt vd shared generic c d c' \<Longrightarrow> ctx_inv mem_end c'"
proof -
  assume c: "ctx_inv mem_end c" and ok: "plug_ok os qt vd generic" and a: "created_as mem_end qt vd shared generic c d c'"
  from a obtain dev rs hs rm t base io where x: "d = ctx_next c" "served shared (mmio_requests vd generic) rs hs" "tracked mem_end (ctx_res c) hs rm"
      "fresh_dev qt rs \<lparr>mdev = dev, mirqs = t\<rparr>" "created (ctx_irqs c) t" "mmio_cfg_res dev = MmioAddressRange base 0x2000"
      "reg_state (ctx_io c) d [MmioAddressRange base 0x2000] io"
      "c' = c\<lparr>ctx_io := io, ctx_res := rm, ctx_irqs := t, ctx_devs := (ctx_devs c)(d \<mapsto> \<lparr>obj_dev = dev, obj_backend = vd\<rparr>),
         ctx_next := d + 1, virtio_devices := virtio_devices c @ [d]\<rparr>"
    unfolding created_as_def by blast
  have rs: "assigned_resources dev = rs" "MmioAddressRange base 0x2000 \<in> set rs" using x(4,6) by (auto simp: fresh_dev_def)
  show ?thesis
    unfolding x(8) x(1)
    by (rule inv_created [OF c x(3,5) _ _ x(6) _ x(7) [unfolded x(1)]])
      (use rs served_owns [OF x(2)] served_releasable [OF x(2)] ok in \<open>auto simp: plug_ok_def\<close>)
qed

end
