(* ===== verification/DeviceClaims.thy ===== *)
theory DeviceClaims
  imports DeviceLogic
begin

text \<open>
  Unplugging a virtio MMIO device undoes plugging it, and what a failed creation leaves behind.
\<close>

section \<open>Destruction\<close>

definition unplugged :: "nat \<Rightarrow> ('q, 'w) DeviceOpContext \<Rightarrow> IoRange \<Rightarrow> holding list \<Rightarrow> ('q, 'w) DeviceOpContext \<Rightarrow> bool" where
  "unplugged mem_end c r hs c' \<longleftrightarrow> io_inv (ctx_io c') \<and> (\<forall>s. io_find (ctx_io c') s = (if s = (Mmio, iobase r) then None else io_find (ctx_io c) s)) \<and>
     rm_inv mem_end (ctx_res c') \<and> rm_used (ctx_res c') = rm_used (ctx_res c) - set hs \<and> rm_free (ctx_res c') = rm_free (ctx_res c) \<union> holdings_pts hs \<and>
     world_irq (ctx_irqs c) (ctx_irqs c') \<and> ctx_devs c' = ctx_devs c \<and> ctx_next c' = ctx_next c"

lemma mmio_remove_world: "world_irq t u \<Longrightarrow> world_irq t (mmio_remove vd u)"
  by (auto simp: mmio_remove_def world_irq_def)

lemma destroy_effect:
  assumes io: "io_inv (ctx_io c)" and rm: "rm_inv mem_end (ctx_res c)" and ob: "ctx_devs c d = Some ob"
    and cfg: "mmio_cfg_res (obj_dev ob) = MmioAddressRange (iobase r) (iosize r)"
    and own: "owns (assigned_resources (obj_dev ob)) hs" "set hs \<subseteq> rm_used (ctx_res c)" "\<forall>h \<in> set hs. releasable mem_end h"
  shows "\<exists>c'. destroy_virtio_device mem_end d c = Some (Ok (), c') \<and> unplugged mem_end c r hs c'"
proof -
  have trap: "mmio_get_trapped_io_resources (obj_dev ob) = [MmioAddressRange (iobase r) (iosize r)]"
    by (simp add: mmio_get_trapped_io_resources_def dr_append_def dr_new_def cfg)
  obtain io' where i: "unregister_device_io (ctx_io c) [MmioAddressRange (iobase r) (iosize r)] = (Ok (), io')" "io_inv io'"
      "\<forall>s. io_find io' s = (if s \<in> slots [MmioAddressRange (iobase r) (iosize r)] then None else io_find (ctx_io c) s)"
    using io_bus.detach_exact [OF io] by blast
  obtain rm' where f: "free_device_resources mem_end (ctx_res c) (assigned_resources (obj_dev ob)) = Some (Ok (), rm')"
    using free_device_resources_total [OF own(1) rm own(2,3)] by blast
  note e = free_device_resources_effect [OF own(1) rm own(2) f]
  let ?t = "mmio_remove (obj_backend ob) (mmio_remove (obj_backend ob) (ctx_irqs c))"
  have "destroy_virtio_device mem_end d c = Some (Ok (), c\<lparr>ctx_io := io', ctx_res := rm', ctx_irqs := ?t\<rparr>)"
    using ob trap i(1) f
    by (simp add: destroy_virtio_device_def destroy_mmio_device_def deregister_virtio_device_def deregister_mmio_virtio_device_def the_device_def eff_bind_def
        begin_tx_def commit_tx_def Let_def c_free_def eff_map_err_def eff_zoom_def remove_backend_def)
  moreover have "unplugged mem_end c r hs (c\<lparr>ctx_io := io', ctx_res := rm', ctx_irqs := ?t\<rparr>)"
    using i(2,3) e by (simp add: unplugged_def res_slot_def mmio_remove_world world_irq_intros)
  ultimately show ?thesis by blast
qed

lemma unplugged_inv:
  assumes c: "ctx_inv mem_end c" and H: "held mem_end H c" and m: "(r, d) \<in> set (mmio_bus (ctx_io c))" and ob: "ctx_devs c d = Some ob"
    and u: "unplugged mem_end c r (H d) c'"
  shows "ctx_inv mem_end c'"
proof -
  have io: "io_inv (ctx_io c)" "io_inv (ctx_io c')" using c u by (auto simp: ctx_inv_def unplugged_def)
  have mem: "(r', d') \<in> set (mmio_bus (ctx_io c')) \<longleftrightarrow> (r', d') \<in> set (mmio_bus (ctx_io c)) \<and> iobase r' \<noteq> iobase r" for r' d'
    unfolding bus_find [OF io(1)] bus_find [OF io(2)] using u by (simp add: unplugged_def del: io_find_simps)
  have other: "d' \<noteq> d" if "(r', d') \<in> set (mmio_bus (ctx_io c))" "iobase r' \<noteq> iobase r" for r' d'
    using heldD(4) [OF H that(1)] heldD(4) [OF H m ob] ob that(2) by auto
  have "held mem_end H c'"
    unfolding held_def
  proof (intro conjI allI impI)
    fix r' d' assume m': "(r', d') \<in> set (mmio_bus (ctx_io c'))"
    then have o: "(r', d') \<in> set (mmio_bus (ctx_io c))" "d' \<noteq> d" using mem other by auto
    show "d' < ctx_next c'" "\<exists>h \<in> set (H d'). belongs (MmioAddressRange (iobase r') (iosize r')) h" using heldD(1,3) [OF H o(1)] u by (simp_all add: unplugged_def)
    have "set (H d') \<inter> set (H d) = {}" by (rule heldD(5) [OF H o(1) m o(2)])
    then show "set (H d') \<subseteq> rm_used (ctx_res c')" using heldD(2) [OF H o(1)] u by (auto simp: unplugged_def)
    fix ob' assume "ctx_devs c' d' = Some ob'"
    then show "mmio_cfg_res (obj_dev ob') = MmioAddressRange (iobase r') (iosize r')" "owns (assigned_resources (obj_dev ob')) (H d')"
      "\<forall>h \<in> set (H d'). releasable mem_end h"
      using heldD(4) [OF H o(1), of ob'] u by (simp_all add: unplugged_def)
  next
    fix r1 d1 r2 d2 assume "(r1, d1) \<in> set (mmio_bus (ctx_io c'))" "(r2, d2) \<in> set (mmio_bus (ctx_io c'))" "d1 \<noteq> d2"
    then show "set (H d1) \<inter> set (H d2) = {}" using heldD(5) [OF H, of r1 d1 r2 d2] mem by blast
  qed
  moreover have "irq_ok (ctx_irqs c')" "msi_limit_ok (ctx_irqs c')"
    using c u by (auto simp: ctx_inv_def unplugged_def world_irq_def msi_limit_ok_def irq_ok_def)
  ultimately show ?thesis using io u unfolding ctx_inv_def unplugged_def by blast
qed

lemma destroy_inv:
  assumes c: "ctx_inv mem_end c" and m: "(r, d) \<in> set (mmio_bus (ctx_io c))" and ob: "ctx_devs c d = Some ob"
  shows "\<exists>hs c'. destroy_virtio_device mem_end d c = Some (Ok (), c') \<and> ctx_inv mem_end c' \<and> unplugged mem_end c r hs c'"
proof -
  obtain H where H: "held mem_end H c" and x: "io_inv (ctx_io c)" "rm_inv mem_end (ctx_res c)" using c by (auto simp: ctx_inv_def)
  note h = heldD(4) [OF H m ob]
  obtain c' where c': "destroy_virtio_device mem_end d c = Some (Ok (), c')" "unplugged mem_end c r (H d) c'"
    using destroy_effect [OF x ob, of r "H d"] h heldD(2) [OF H m] by blast
  have "ctx_inv mem_end c'" by (rule unplugged_inv [OF c H m ob c'(2)])
  then show ?thesis using c' by blast
qed

section \<open>Plugging and unplugging\<close>

lemma boot_inv:
  assumes "rm_inv mem_end (ctx_res c)" "irq_ok (ctx_irqs c)" "msi_limit_ok (ctx_irqs c)" "ctx_io c = IoManager_new"
  shows "ctx_inv mem_end c"
  using assms by (auto simp: ctx_inv_def held_def io_inv_iff IoManager_new_def)

lemma created_released:
  assumes c: "ctx_inv mem_end c" and ok: "plug_ok os qt vd generic" and a: "created_as mem_end qt vd shared generic c d c'"
  shows "\<exists>c''. destroy_virtio_device mem_end d c' = Some (Ok (), c'') \<and> ctx_io c'' = ctx_io c \<and>
    rm_used (ctx_res c'') = rm_used (ctx_res c) \<and> rm_free (ctx_res c'') = rm_free (ctx_res c)"
proof -
  from a obtain dev rs hs rm t base io where x: "d = ctx_next c" "served shared (mmio_requests vd generic) rs hs" "tracked mem_end (ctx_res c) hs rm"
      "fresh_dev qt rs \<lparr>mdev = dev, mirqs = t\<rparr>" "created (ctx_irqs c) t" "mmio_cfg_res dev = MmioAddressRange base 0x2000"
      "reg_state (ctx_io c) d [MmioAddressRange base 0x2000] io"
      "c' = c\<lparr>ctx_io := io, ctx_res := rm, ctx_irqs := t, ctx_devs := (ctx_devs c)(d \<mapsto> \<lparr>obj_dev = dev, obj_backend = vd\<rparr>),
         ctx_next := d + 1, virtio_devices := virtio_devices c @ [d]\<rparr>"
    unfolding created_as_def by blast
  let ?r = "\<lparr>iobase = base, iosize = 0x2000\<rparr>"
  have rs: "assigned_resources dev = rs" using x(4) by (simp add: fresh_dev_def)
  have "\<exists>c''. destroy_virtio_device mem_end d c' = Some (Ok (), c'') \<and> unplugged mem_end c' ?r hs c''"
    by (rule destroy_effect [where ob = "\<lparr>obj_dev = dev, obj_backend = vd\<rparr>"])
      (use x rs served_owns [OF x(2)] served_releasable [OF x(2)] ok in \<open>auto simp: reg_state_def tracked_def plug_ok_def\<close>)
  then obtain c'' where u: "destroy_virtio_device mem_end d c' = Some (Ok (), c'')" "unplugged mem_end c' ?r hs c''" by blast
  have slots: "slots [MmioAddressRange base 0x2000] = {(Mmio, base)}" by (simp add: res_slot_def)
  have "io_find (ctx_io c'') (b, k) = io_find (ctx_io c) (b, k)" for b k
    using u(2) x(7,8) unfolding unplugged_def reg_state_def slots by (cases "(b, k) = (Mmio, base)") (auto simp del: io_find_simps)
  then have "ctx_io c'' = ctx_io c" using u(2) c by (intro io_extensional ext) (auto simp: unplugged_def ctx_inv_def simp del: io_find_simps)
  moreover have "rm_used (ctx_res c'') = rm_used (ctx_res c)" "rm_free (ctx_res c'') = rm_free (ctx_res c)"
    using u(2) x(3,8) by (auto simp: unplugged_def tracked_def)
  ultimately show ?thesis using u(1) by blast
qed

lemma create_succeeds:
  assumes c: "ctx_inv mem_end c" and ok: "plug_ok os qt vd generic"
    and a: "allocate_device_resources mem_end (ctx_res c) (mmio_requests vd generic) shared = Some (Ok rs, rm)"
    and p: "vm_as c = Some v" "address_space c = Some w" and n: "MmioV2Device_new os qt vd rs features (ctx_irqs c) = Some (Inr dev, t)"
  shows "\<exists>d c'. create_mmio_virtio_device_with_features mem_end os qt vd features shared generic c = Some (Inr d, c')"
proof -
  have x: "rm_inv mem_end (ctx_res c)" "irq_ok (ctx_irqs c)" "msi_limit_ok (ctx_irqs c)" using c by (simp_all add: ctx_inv_def)
  have y: "irq_os_ok (irq_sys os)" "fds_available (irq_sys os)" "queue_laws qt" "resource_ok vd" "list_all virtio_request (mmio_requests vd generic)"
      "CLegacyIrq None \<in> set (mmio_requests vd generic)"
    using ok by (auto simp: plug_ok_def mmio_os_ok_def)
  obtain hs where h: "served shared (mmio_requests vd generic) rs hs" "tracked mem_end (ctx_res c) hs rm"
    using virtio_allocate [OF x(1) y(5), of shared] a by auto
  have fit: "ranges_fit rs" by (rule served_fit [OF h(1)]) (use h(2) in \<open>auto simp: tracked_def\<close>)
  have f: "created (ctx_irqs c) t \<and> fresh_dev qt rs \<lparr>mdev = dev, mirqs = t\<rparr>" using wp_result(1) [OF MmioV2Device_new_wp [OF y(1-4) x(2,3) fit] n] .
  let ?c = "c\<lparr>ctx_res := rm, ctx_irqs := t, ctx_devs := (ctx_devs c)(ctx_next c \<mapsto> \<lparr>obj_dev = dev, obj_backend = vd\<rparr>), ctx_next := ctx_next c + 1\<rparr>"
  have "wp (register_or_drop os (ctx_next c)) (created_as mem_end qt vd shared generic c) (\<lambda>_ _. False) ?c"
    by (rule register_new [OF c h conjunct2 [OF f] conjunct1 [OF f] y(6)])
  then obtain d c' where "register_or_drop os (ctx_next c) ?c = Some (Inr d, c')" by (rule wp_resultE) auto
  then show ?thesis
    using a p n by (simp add: create_mmio_virtio_device_with_features_def c_allocate_def eff_eval get_vm_as_def get_address_space_def new_device_def)
qed

lemma served_mmio: "served shared reqs rs hs \<Longrightarrow> CMmioAddress rg al sz \<in> set reqs \<Longrightarrow> \<exists>r s. (KMmio, r, s) \<in> set hs \<and> rmax r - rmin r + 1 = sz"
proof (induction rule: served.induct)
  case (served_own req res h hs reqs rs)
  then show ?case by (cases h; cases req) (auto simp: meets_def)
qed auto

text \<open>An error of the transport comes after the allocation, which is not undone.\<close>

lemma refused_by_transport:
  assumes c: "ctx_inv mem_end c" and ok: "plug_ok os qt vd generic"
    and r: "create_mmio_virtio_device_with_features mem_end os qt vd features shared generic c = Some (Inl (Virtio e), c')"
  shows "\<exists>rs hs. served shared (mmio_requests vd generic) rs hs \<and> tracked mem_end (ctx_res c) hs (ctx_res c')"
proof -
  have x: "rm_inv mem_end (ctx_res c)" "irq_ok (ctx_irqs c)" "msi_limit_ok (ctx_irqs c)" using c by (simp_all add: ctx_inv_def)
  have y: "irq_os_ok (irq_sys os)" "fds_available (irq_sys os)" "queue_laws qt" "resource_ok vd" "list_all virtio_request (mmio_requests vd generic)"
      "CLegacyIrq None \<in> set (mmio_requests vd generic)"
    using ok by (auto simp: plug_ok_def mmio_os_ok_def)
  note eval = create_mmio_virtio_device_with_features_def c_allocate_def eff_eval get_vm_as_def get_address_space_def new_device_def
  consider rm where "allocate_device_resources mem_end (ctx_res c) (mmio_requests vd generic) shared = Some (Err NoAvailResource, rm)"
    | rs hs rm where "allocate_device_resources mem_end (ctx_res c) (mmio_requests vd generic) shared = Some (Ok rs, rm)"
        "served shared (mmio_requests vd generic) rs hs" "tracked mem_end (ctx_res c) hs rm"
    using virtio_allocate [OF x(1) y(5)] by blast
  then show ?thesis
  proof cases
    case 1
    then show ?thesis using r by (simp add: eval)
  next
    case (2 rs hs rm)
    have fit: "ranges_fit rs" by (rule served_fit [OF 2(2)]) (use 2(3) in \<open>auto simp: tracked_def\<close>)
    from MmioV2Device_new_wp [OF y(1-4) x(2,3) fit, where ft = features] show ?thesis
    proof (cases rule: wp_resultE)
      case (ok dev t)
      then have "wp (register_or_drop os (ctx_next c)) (created_as mem_end qt vd shared generic c) (\<lambda>_ _. False)
          (c\<lparr>ctx_res := rm, ctx_irqs := t, ctx_devs := (ctx_devs c)(ctx_next c \<mapsto> \<lparr>obj_dev = dev, obj_backend = vd\<rparr>), ctx_next := ctx_next c + 1\<rparr>)"
        by (intro register_new [OF c 2(2,3) _ _ y(6)]) auto
      then obtain d c1 where "register_or_drop os (ctx_next c)
          (c\<lparr>ctx_res := rm, ctx_irqs := t, ctx_devs := (ctx_devs c)(ctx_next c \<mapsto> \<lparr>obj_dev = dev, obj_backend = vd\<rparr>), ctx_next := ctx_next c + 1\<rparr>) =
          Some (Inr d, c1)" by (rule wp_resultE) auto
      then show ?thesis using r ok(1) 2(1) by (cases "vm_as c"; cases "address_space c") (simp_all add: eval)
    next
      case (err e' t)
      then have "ctx_res c' = rm" using r 2(1) by (cases "vm_as c"; cases "address_space c") (auto simp: eval)
      then show ?thesis using 2 by blast
    qed
  qed
qed

section \<open>Example\<close>

definition demo_plug_vd :: "(nat \<times> bool, unit) VirtioDevice" where
  "demo_plug_vd = demo_vd\<lparr>get_resource_requirements := \<lambda>cs generic. cs @ [CLegacyIrq None] @ (if generic then [CGenericIrq 3] else [])\<rparr>"

definition demo_plug_rm :: ResourceManager where
  "demo_plug_rm = rm_default\<lparr>legacy_irq_pool := InnerNode_new \<lparr>rmin = 6, rmax = 15\<rparr> Free, msi_irq_pool := InnerNode_new \<lparr>rmin = 24, rmax = 1023\<rparr> Free,
     mmio_pool := InnerNode_new \<lparr>rmin = 0xd0000000, rmax = 0xd00fffff\<rparr> Free\<rparr>"

definition demo_plug_res :: DeviceResources where
  "demo_plug_res = [MmioAddressRange 0xd0000000 0x2000, LegacyIrq 6, MsiIrq GenericMsi 24 3]"

definition demo_ctx :: "(nat \<times> bool, unit) DeviceOpContext" where
  "demo_ctx = \<lparr>ctx_io = IoManager_new, ctx_res = demo_plug_rm, ctx_irqs = KvmIrqManager_new (), ctx_devs = Map.empty, ctx_next = 0,
     virtio_devices = [], vm_as = Some (), address_space = Some ()\<rparr>"

lemma demo_plug_rm_inv: "rm_inv 0x7fffffffff demo_plug_rm"
proof -
  have "merged_inv (pool_of demo_plug_rm k) \<and> covered (pool_of demo_plug_rm k) \<subseteq> pool_bounds 0x7fffffffff k" for k
    by (cases k)
      (auto simp: demo_plug_rm_def rm_default_def InnerNode_new_def it_new_def merged_inv_def pool_inv_def coalesced_def
        covered_def content_def it_inv_def separated_def range_pts_def rm_consts u_max_vals)
  then show ?thesis by (simp add: rm_inv_def)
qed

lemma demo_ctx_inv: "ctx_inv 0x7fffffffff demo_ctx"
  by (rule boot_inv) (simp_all add: demo_ctx_def demo_plug_rm_inv manager_new_ok)

lemma demo_plug_ok: "plug_ok demo_mmio_os demo_qt demo_plug_vd generic"
  using demo_ok by (simp add: plug_ok_def resource_ok_def demo_plug_vd_def mmio_requests_def)

lemma demo_allocated:
  "\<exists>rm. allocate_device_resources 0x7fffffffff demo_plug_rm (mmio_requests demo_plug_vd True) False = Some (Ok demo_plug_res, rm)"
  by (simp add: rm_eval itree_eval demo_plug_rm_def demo_plug_vd_def mmio_requests_def demo_vd_def demo_plug_res_def not64_def mask_eq_exp_minus_1)

lemma demo_plug_new:
  "\<exists>d t. MmioV2Device_new demo_mmio_os demo_qt demo_plug_vd demo_plug_res (Some 4) (KvmIrqManager_new ()) = Some (Inr d, t)"
  by (simp add: new_eval eff_eval demo_defs demo_plug_vd_def demo_plug_res_def numeral_3_eq_3 del: eff_bind_Ok eff_zoom_Ok eff_map_err_Ok)

lemma demo_created:
  "\<exists>d c. create_mmio_virtio_device_with_features 0x7fffffffff demo_mmio_os demo_qt demo_plug_vd (Some 4) False True demo_ctx = Some (Inr d, c)"
proof -
  obtain rm where a: "allocate_device_resources 0x7fffffffff demo_plug_rm (mmio_requests demo_plug_vd True) False = Some (Ok demo_plug_res, rm)"
    using demo_allocated by blast
  obtain d t where n: "MmioV2Device_new demo_mmio_os demo_qt demo_plug_vd demo_plug_res (Some 4) (KvmIrqManager_new ()) = Some (Inr d, t)" using demo_plug_new by blast
  show ?thesis by (rule create_succeeds [OF demo_ctx_inv demo_plug_ok]) (use a n in \<open>simp_all add: demo_ctx_def\<close>)
qed

section \<open>Properties\<close>

text \<open>C9: Destroying a virtio MMIO device that was just created returns the I/O manager and all pools of resources to what they were, whatever was plugged before.\<close>

theorem plug_unplug_round_trip:
  assumes "ctx_inv mem_end c" "plug_ok os qt vd generic"
    and "create_mmio_virtio_device_with_features mem_end os qt vd features shared generic c = Some (Inr d, c')"
  shows "\<exists>c''. destroy_virtio_device mem_end d c' = Some (Ok (), c'') \<and> ctx_io c'' = ctx_io c \<and>
    rm_used (ctx_res c'') = rm_used (ctx_res c) \<and> rm_free (ctx_res c'') = rm_free (ctx_res c)"
  by (rule created_released [OF assms(1,2) wp_result(1) [OF create_wp [OF assms(2,1)] assms(3)]])

theorem plug_unplug_round_trip_witness:
  "\<exists>d c c'. create_mmio_virtio_device_with_features 0x7fffffffff demo_mmio_os demo_qt demo_plug_vd (Some 4) False True demo_ctx = Some (Inr d, c) \<and>
     destroy_virtio_device 0x7fffffffff d c = Some (Ok (), c') \<and> ctx_io c' = IoManager_new \<and> rm_used (ctx_res c') = rm_used demo_plug_rm"
proof -
  obtain d c where a: "create_mmio_virtio_device_with_features 0x7fffffffff demo_mmio_os demo_qt demo_plug_vd (Some 4) False True demo_ctx = Some (Inr d, c)"
    using demo_created by blast
  from plug_unplug_round_trip [OF demo_ctx_inv demo_plug_ok a] a show ?thesis by (auto simp: demo_ctx_def)
qed

text \<open>C37: When the transport or the backend refuses a device whose resources were already allocated, the error is returned but the resources are not
  given back: the address range of the device stays in use for ever.\<close>

theorem refused_device_leaks:
  assumes "ctx_inv mem_end c" "plug_ok os qt vd generic" "CMmioAddress None 0 0x2000 \<in> set (mmio_requests vd generic)"
    and "create_mmio_virtio_device_with_features mem_end os qt vd features shared generic c = Some (Inl (Virtio e), c')"
  shows "\<exists>r s. (KMmio, r, s) \<in> rm_used (ctx_res c') - rm_used (ctx_res c) \<and> rmax r - rmin r + 1 = 0x2000"
proof -
  obtain rs hs where h: "served shared (mmio_requests vd generic) rs hs" "tracked mem_end (ctx_res c) hs (ctx_res c')"
    using refused_by_transport [OF assms(1,2,4)] by blast
  from served_mmio [OF h(1) assms(3)] show ?thesis using h(2) by (auto simp: tracked_def)
qed

definition demo_refusing_vd :: "(nat \<times> bool, unit) VirtioDevice" where
  "demo_refusing_vd = demo_plug_vd\<lparr>vd_set_resource := \<lambda>res. eff_fail InvalidInput\<rparr>"

lemma demo_refusing_ok: "plug_ok demo_mmio_os demo_qt demo_refusing_vd generic"
  using demo_ok by (simp add: plug_ok_def resource_ok_def demo_refusing_vd_def demo_plug_vd_def mmio_requests_def)

lemma demo_refused:
  "\<exists>e t. MmioV2Device_new demo_mmio_os demo_qt demo_refusing_vd demo_plug_res (Some 4) (KvmIrqManager_new ()) = Some (Inl e, t)"
  by (simp add: new_eval eff_eval demo_defs demo_refusing_vd_def demo_plug_vd_def demo_plug_res_def numeral_3_eq_3 del: eff_bind_Ok eff_zoom_Ok eff_map_err_Ok)

theorem refused_device_leaks_witness:
  "\<exists>e c r s. create_mmio_virtio_device_with_features 0x7fffffffff demo_mmio_os demo_qt demo_refusing_vd (Some 4) False True demo_ctx = Some (Inl (Virtio e), c) \<and>
     (KMmio, r, s) \<in> rm_used (ctx_res c) - rm_used demo_plug_rm"
proof -
  have same: "mmio_requests demo_refusing_vd True = mmio_requests demo_plug_vd True" by (simp add: mmio_requests_def demo_refusing_vd_def)
  obtain rm where a: "allocate_device_resources 0x7fffffffff demo_plug_rm (mmio_requests demo_refusing_vd True) False = Some (Ok demo_plug_res, rm)"
    unfolding same using demo_allocated by blast
  obtain e t where n: "MmioV2Device_new demo_mmio_os demo_qt demo_refusing_vd demo_plug_res (Some 4) (KvmIrqManager_new ()) = Some (Inl e, t)" using demo_refused by blast
  obtain c where c: "create_mmio_virtio_device_with_features 0x7fffffffff demo_mmio_os demo_qt demo_refusing_vd (Some 4) False True demo_ctx = Some (Inl (Virtio e), c)"
    using a n by (simp add: create_mmio_virtio_device_with_features_def c_allocate_def eff_eval get_vm_as_def get_address_space_def demo_ctx_def)
  have "CMmioAddress None 0 0x2000 \<in> set (mmio_requests demo_refusing_vd True)" by (simp add: mmio_requests_def demo_refusing_vd_def demo_plug_vd_def)
  from refused_device_leaks [OF demo_ctx_inv demo_refusing_ok this c] c show ?thesis by (auto simp: demo_ctx_def)
qed

end
