(* ===== verification/Vcpu.thy ===== *)
theory Vcpu
  imports IoManager
begin

text \<open>
  A vCPU thread (\<open>dragonball/src/vcpu/vcpu_impl.rs\<close>), the state machine that drives it
  (\<open>vcpu/sm.rs\<close>) and the cached I/O manager it dispatches through (\<open>dragonball/src/io_manager.rs\<close>).

  The thread shares \<open>vcpu_env\<close> with the threads that control it: the channel of events, the channel of
  responses (kept as the list of everything sent), the published I/O manager and the flag
  \<open>immediate_exit\<close> of the vCPU.  Other threads act on it while the guest runs (\<open>kvm_run\<close>) and while the
  thread waits for an event (\<open>park\<close>); what they do in between is as if done then.  Seccomp, the exit
  event and the thread identifier are calls of the system over a world \<open>'w\<close>, which the devices share.

  The result of a thread function is an option of an option: the outer \<open>None\<close> is a function that
  never returns, the inner one a panic.
\<close>

section \<open>Data\<close>

datatype VcpuError =
    SignalVcpu nat
  | VcpuFdError nat
  | VcpuSpawn nat
  | VcpuTlsInit
  | VcpuTlsNotPresent
  | VcpuUnhandledKvmExit
  | PauseFailed
  | VcpuConfigure nat

datatype VcpuEvent = Exit | Pause | Resume | Gettid | RevalidateCache

datatype VcpuResponse = Paused | Resumed | Tid nat nat | NotAllowed | VcpuErrorResponse VcpuError | CacheRevalidated

datatype VcpuEmulation = Handled | Interrupted | Stopped

datatype VcpuExit =
    IoIn nat "byte list"
  | IoOut nat "byte list"
  | MmioRead nat "byte list"
  | MmioWrite nat "byte list"
  | Hlt
  | Shutdown
  | FailEntry nat nat
  | InternalError
  | SystemEvent nat nat
  | OtherExit

record VcpuMetrics =
  exit_io_in :: nat
  exit_io_out :: nat
  exit_mmio_read :: nat
  exit_mmio_write :: nat
  failures :: nat

record ('d, 'w) vcpu_env =
  events :: "VcpuEvent list"
  events_open :: bool
  responses :: "VcpuResponse list"
  responses_open :: bool
  thread_alive :: bool
  immediate_exit :: bool
  tls_vcpu :: "nat option"
  metric_ids :: "nat set"
  shared_io :: "'d IoManager"
  run_data :: "byte list"
  env_world :: 'w

record ('d, 'w) Vcpu =
  vcpu_id :: nat
  io_mgr :: "'d IoManager"
  support_immediate_exit :: bool
  metrics :: VcpuMetrics
  venv :: "('d, 'w) vcpu_env"

datatype sec_error = EmptyFilter | SecError nat

record ('d, 'w) kvm_os =
  kvm_run :: "('d, 'w) vcpu_env \<Rightarrow> (nat + VcpuExit) \<times> ('d, 'w) vcpu_env"
  park :: "('d, 'w) vcpu_env \<Rightarrow> ('d, 'w) vcpu_env option"
  exit_evt_write :: "'w \<Rightarrow> (nat + unit) \<times> 'w"
  gettid :: "'w \<Rightarrow> nat"
  apply_filter :: "'w \<Rightarrow> (sec_error + unit) \<times> 'w"
  thread_kill :: "'w \<Rightarrow> (nat + unit) \<times> 'w"

type_synonym 'a thread_run = "'a may_panic option"

abbreviation (input) "EINTR \<equiv> 4 :: nat"
abbreviation (input) "EAGAIN \<equiv> 11 :: nat"
abbreviation (input) "KVM_SYSTEM_EVENT_SHUTDOWN \<equiv> 1 :: nat"
abbreviation (input) "KVM_SYSTEM_EVENT_RESET \<equiv> 2 :: nat"
abbreviation (input) "MAGIC_IOPORT_DEBUG_INFO \<equiv> 0xdbdb :: nat"

abbreviation upd_env :: "(('d, 'w) vcpu_env \<Rightarrow> ('d, 'w) vcpu_env) \<Rightarrow> ('d, 'w) Vcpu \<Rightarrow> ('d, 'w) Vcpu" where
  "upd_env f v \<equiv> v\<lparr>venv := f (venv v)\<rparr>"

section \<open>The cached I/O manager\<close>

text \<open>Loading through the cache of \<open>arc_swap\<close> gives the manager published last.\<close>

definition io_load :: "('d, 'w) Vcpu \<Rightarrow> ('d, 'w) Vcpu" where
  "io_load v = v\<lparr>io_mgr := shared_io (venv v)\<rparr>"

definition cached_mmio_read :: "('d, 'w) DeviceIo \<Rightarrow> nat \<Rightarrow> byte list \<Rightarrow> ('d, 'w) Vcpu \<Rightarrow> ('d, 'w) Vcpu may_panic" where
  "cached_mmio_read ops addr data v = (let v = io_load v in do {
     r \<leftarrow> mmio_read ops (io_mgr v) addr data (env_world (venv v));
     case r of (_, data', w) \<Rightarrow> ret (upd_env (\<lambda>e. e\<lparr>run_data := data', env_world := w\<rparr>) v) })"

definition cached_mmio_write :: "('d, 'w) DeviceIo \<Rightarrow> nat \<Rightarrow> byte list \<Rightarrow> ('d, 'w) Vcpu \<Rightarrow> ('d, 'w) Vcpu may_panic" where
  "cached_mmio_write ops addr data v = (let v = io_load v in do {
     r \<leftarrow> mmio_write ops (io_mgr v) addr data (env_world (venv v));
     case r of (_, w) \<Rightarrow> ret (upd_env (\<lambda>e. e\<lparr>env_world := w\<rparr>) v) })"

definition cached_pio_read :: "('d, 'w) DeviceIo \<Rightarrow> nat \<Rightarrow> byte list \<Rightarrow> ('d, 'w) Vcpu \<Rightarrow> ('d, 'w) Vcpu may_panic" where
  "cached_pio_read ops addr data v = (let v = io_load v in do {
     r \<leftarrow> pio_read ops (io_mgr v) addr data (env_world (venv v));
     case r of (_, data', w) \<Rightarrow> ret (upd_env (\<lambda>e. e\<lparr>run_data := data', env_world := w\<rparr>) v) })"

definition cached_pio_write :: "('d, 'w) DeviceIo \<Rightarrow> nat \<Rightarrow> byte list \<Rightarrow> ('d, 'w) Vcpu \<Rightarrow> ('d, 'w) Vcpu may_panic" where
  "cached_pio_write ops addr data v = (let v = io_load v in do {
     r \<leftarrow> pio_write ops (io_mgr v) addr data (env_world (venv v));
     case r of (_, w) \<Rightarrow> ret (upd_env (\<lambda>e. e\<lparr>env_world := w\<rparr>) v) })"

definition revalidate_cache :: "('d, 'w) Vcpu \<Rightarrow> ('d, 'w) Vcpu" where
  "revalidate_cache v = io_load v"

section \<open>Thread-local data and the kick\<close>

definition init_thread_local_data :: "('d, 'w) Vcpu \<Rightarrow> (VcpuError + unit) \<times> ('d, 'w) Vcpu" where
  "init_thread_local_data v =
     (if tls_vcpu (venv v) \<noteq> None then (Err VcpuTlsInit, v)
      else (Ok (), upd_env (\<lambda>e. e\<lparr>tls_vcpu := Some (vcpu_id v)\<rparr>) v))"

definition reset_thread_local_data :: "('d, 'w) Vcpu \<Rightarrow> (VcpuError + unit) \<times> ('d, 'w) Vcpu" where
  "reset_thread_local_data v =
     (if tls_vcpu (venv v) = Some (vcpu_id v) then (Ok (), upd_env (\<lambda>e. e\<lparr>tls_vcpu := None\<rparr>) v)
      else (Err VcpuTlsNotPresent, v))"

definition run_on_thread_local ::
  "(('d, 'w) vcpu_env \<Rightarrow> ('d, 'w) vcpu_env) \<Rightarrow> ('d, 'w) vcpu_env \<Rightarrow> (VcpuError + unit) \<times> ('d, 'w) vcpu_env" where
  "run_on_thread_local f e = (case tls_vcpu e of Some _ \<Rightarrow> (Ok (), f e) | None \<Rightarrow> (Err VcpuTlsNotPresent, e))"

definition handle_signal :: "('d, 'w) vcpu_env \<Rightarrow> ('d, 'w) vcpu_env" where
  "handle_signal e = snd (run_on_thread_local (\<lambda>e. e\<lparr>immediate_exit := True\<rparr>) e)"

definition send_event :: "('d, 'w) kvm_os \<Rightarrow> VcpuEvent \<Rightarrow> ('d, 'w) vcpu_env \<Rightarrow> ((VcpuError + unit) \<times> ('d, 'w) vcpu_env) may_panic" where
  "send_event os ev e =
     (if \<not> thread_alive e then panic
      else let e = e\<lparr>events := events e @ [ev]\<rparr> in
        (case thread_kill os (env_world e) of
           (Inl n, w) \<Rightarrow> ret (Err (SignalVcpu n), e\<lparr>env_world := w\<rparr>)
         | (Inr _, w) \<Rightarrow> ret (Ok (), handle_signal (e\<lparr>env_world := w\<rparr>))))"

section \<open>Emulation\<close>

definition check_io_port_info :: "nat \<Rightarrow> byte list \<Rightarrow> bool" where
  "check_io_port_info addr data = (addr = MAGIC_IOPORT_DEBUG_INFO \<and> length data = 4)"

definition fail_metric :: "('d, 'w) Vcpu \<Rightarrow> ('d, 'w) Vcpu" where
  "fail_metric v = v\<lparr>metrics := (metrics v)\<lparr>failures := failures (metrics v) + 1\<rparr>\<rparr>"

definition run_emulation :: "('d, 'w) kvm_os \<Rightarrow> ('d, 'w) DeviceIo \<Rightarrow> ('d, 'w) Vcpu \<Rightarrow> ((VcpuError + VcpuEmulation) \<times> ('d, 'w) Vcpu) may_panic" where
  "run_emulation os ops v0 =
     (case kvm_run os (venv v0) of (run, e) \<Rightarrow>
      let v = v0\<lparr>venv := e\<rparr> in
      case run of
        Inr (IoIn addr data) \<Rightarrow> do {
          v \<leftarrow> cached_pio_read ops addr data v;
          ret (Ok Handled, v\<lparr>metrics := (metrics v)\<lparr>exit_io_in := exit_io_in (metrics v) + 1\<rparr>\<rparr>) }
      | Inr (IoOut addr data) \<Rightarrow> do {
          v \<leftarrow> (if \<not> check_io_port_info addr data then cached_pio_write ops addr data v else ret v);
          ret (Ok Handled, v\<lparr>metrics := (metrics v)\<lparr>exit_io_out := exit_io_out (metrics v) + 1\<rparr>\<rparr>) }
      | Inr (MmioRead addr data) \<Rightarrow> do {
          v \<leftarrow> cached_mmio_read ops addr data v;
          ret (Ok Handled, v\<lparr>metrics := (metrics v)\<lparr>exit_mmio_read := exit_mmio_read (metrics v) + 1\<rparr>\<rparr>) }
      | Inr (MmioWrite addr data) \<Rightarrow> do {
          v \<leftarrow> cached_mmio_write ops addr data v;
          ret (Ok Handled, v\<lparr>metrics := (metrics v)\<lparr>exit_mmio_write := exit_mmio_write (metrics v) + 1\<rparr>\<rparr>) }
      | Inr Hlt \<Rightarrow> ret (Err VcpuUnhandledKvmExit, v)
      | Inr Shutdown \<Rightarrow> ret (Err VcpuUnhandledKvmExit, v)
      | Inr (FailEntry reason cpu) \<Rightarrow> ret (Err VcpuUnhandledKvmExit, fail_metric v)
      | Inr InternalError \<Rightarrow> ret (Err VcpuUnhandledKvmExit, fail_metric v)
      | Inr (SystemEvent event_type event_flags) \<Rightarrow>
          (if event_type = KVM_SYSTEM_EVENT_RESET \<or> event_type = KVM_SYSTEM_EVENT_SHUTDOWN then ret (Ok Stopped, v)
           else ret (Err VcpuUnhandledKvmExit, fail_metric v))
      | Inr OtherExit \<Rightarrow> ret (Err VcpuUnhandledKvmExit, fail_metric v)
      | Inl n \<Rightarrow>
          (if n = EAGAIN then ret (Ok Handled, v)
           else if n = EINTR then ret (Ok Interrupted, upd_env (\<lambda>e. e\<lparr>immediate_exit := False\<rparr>) v)
           else ret (Err VcpuUnhandledKvmExit, fail_metric v)))"

section \<open>The state machine\<close>

datatype state_fn = RunningFn | PausedFn | WaitingExitFn | ExitedFn

record StateMachine =
  sm_function :: state_fn
  end_state :: bool

definition StateMachine_new :: "state_fn \<Rightarrow> bool \<Rightarrow> StateMachine" where
  "StateMachine_new f e = \<lparr>sm_function = f, end_state = e\<rparr>"

definition sm_next :: "state_fn \<Rightarrow> StateMachine" where
  "sm_next f = StateMachine_new f False"

definition sm_finish :: "state_fn \<Rightarrow> StateMachine" where
  "sm_finish f = StateMachine_new f True"

text \<open>\<open>handler f\<close> is the function a state stands for.\<close>

partial_function (option) sm_loop :: "(state_fn \<Rightarrow> 't \<Rightarrow> (StateMachine \<times> 't) thread_run) \<Rightarrow> StateMachine \<Rightarrow> 't \<Rightarrow> 't thread_run" where
  [code]: "sm_loop handler sf machine =
     (if end_state sf then Some (ret machine)
      else case handler (sm_function sf) machine of
        None \<Rightarrow> None
      | Some None \<Rightarrow> Some panic
      | Some (Some (sf', machine')) \<Rightarrow> sm_loop handler sf' machine')"

definition StateMachine_run :: "(state_fn \<Rightarrow> 't \<Rightarrow> (StateMachine \<times> 't) thread_run) \<Rightarrow> 't \<Rightarrow> state_fn \<Rightarrow> 't thread_run" where
  "StateMachine_run handler machine starting_state_fn = sm_loop handler (StateMachine_new starting_state_fn False) machine"

section \<open>Channels\<close>

datatype TryRecvError = RecvEmpty | RecvDisconnected

definition try_recv :: "('d, 'w) Vcpu \<Rightarrow> (TryRecvError + VcpuEvent) \<times> ('d, 'w) Vcpu" where
  "try_recv v =
     (case events (venv v) of
        ev # evs \<Rightarrow> (Ok ev, upd_env (\<lambda>e. e\<lparr>events := evs\<rparr>) v)
      | [] \<Rightarrow> (Err (if events_open (venv v) then RecvEmpty else RecvDisconnected), v))"

text \<open>A blocking receive waits until an event is there or the sender is gone.\<close>

definition recv :: "('d, 'w) kvm_os \<Rightarrow> ('d, 'w) Vcpu \<Rightarrow> ((TryRecvError + VcpuEvent) \<times> ('d, 'w) Vcpu) option" where
  "recv os v =
     (if events (venv v) = [] \<and> events_open (venv v)
      then map_option (\<lambda>e. try_recv (v\<lparr>venv := e\<rparr>)) (park os (venv v))
      else Some (try_recv v))"

definition send_response :: "VcpuResponse \<Rightarrow> ('d, 'w) Vcpu \<Rightarrow> ('d, 'w) Vcpu may_panic" where
  "send_response r v = (if responses_open (venv v) then ret (upd_env (\<lambda>e. e\<lparr>responses := responses e @ [r]\<rparr>) v) else panic)"

section \<open>The states\<close>

text \<open>\<open>Some f\<close> leaves the state machine at \<open>f\<close>; \<open>None\<close> breaks out of the loop.\<close>

partial_function (option) emulation_loop ::
  "('d, 'w) kvm_os \<Rightarrow> ('d, 'w) DeviceIo \<Rightarrow> ('d, 'w) Vcpu \<Rightarrow> (state_fn option \<times> ('d, 'w) Vcpu) thread_run" where
  [code]: "emulation_loop os ops v =
     (case run_emulation os ops v of
        None \<Rightarrow> Some panic
      | Some (Inl e, v') \<Rightarrow> Some (ret (Some WaitingExitFn, v'))
      | Some (Inr r, v') \<Rightarrow>
          (if r = Handled then (if \<not> support_immediate_exit v' then Some (ret (None, v')) else emulation_loop os ops v')
           else if r = Interrupted then Some (ret (None, v'))
           else Some (ret (Some WaitingExitFn, v'))))"

definition running_event :: "('d, 'w) kvm_os \<Rightarrow> ('d, 'w) Vcpu \<Rightarrow> (StateMachine \<times> ('d, 'w) Vcpu) may_panic" where
  "running_event os v =
     (case try_recv v of
        (Inr Exit, v) \<Rightarrow> ret (sm_next ExitedFn, v)
      | (Inr Pause, v) \<Rightarrow> do { v \<leftarrow> send_response Paused v; ret (sm_next PausedFn, v) }
      | (Inr Resume, v) \<Rightarrow> do { v \<leftarrow> send_response Resumed v; ret (sm_next RunningFn, v) }
      | (Inr Gettid, v) \<Rightarrow> do { v \<leftarrow> send_response (Tid (vcpu_id v) (gettid os (env_world (venv v)))) v; ret (sm_next RunningFn, v) }
      | (Inr RevalidateCache, v) \<Rightarrow> do { v \<leftarrow> send_response CacheRevalidated (revalidate_cache v); ret (sm_next RunningFn, v) }
      | (Inl RecvDisconnected, v) \<Rightarrow> ret (sm_next ExitedFn, v)
      | (Inl RecvEmpty, v) \<Rightarrow> ret (sm_next RunningFn, v))"

definition running :: "('d, 'w) kvm_os \<Rightarrow> ('d, 'w) DeviceIo \<Rightarrow> ('d, 'w) Vcpu \<Rightarrow> (StateMachine \<times> ('d, 'w) Vcpu) thread_run" where
  "running os ops v =
     (case emulation_loop os ops v of
        None \<Rightarrow> None
      | Some None \<Rightarrow> Some panic
      | Some (Some (Some f, v')) \<Rightarrow> Some (ret (sm_next f, v'))
      | Some (Some (None, v')) \<Rightarrow> Some (running_event os v'))"

definition paused :: "('d, 'w) kvm_os \<Rightarrow> ('d, 'w) Vcpu \<Rightarrow> (StateMachine \<times> ('d, 'w) Vcpu) thread_run" where
  "paused os v = map_option (\<lambda>r.
     case r of
       (Inr Exit, v) \<Rightarrow> ret (sm_next ExitedFn, v)
     | (Inr Resume, v) \<Rightarrow> do { v \<leftarrow> send_response Resumed v; ret (sm_next RunningFn, v) }
     | (Inr Pause, v) \<Rightarrow> do { v \<leftarrow> send_response Paused v; ret (sm_next PausedFn, v) }
     | (Inr Gettid, v) \<Rightarrow> do { v \<leftarrow> send_response (Tid (vcpu_id v) (gettid os (env_world (venv v)))) v; ret (sm_next PausedFn, v) }
     | (Inr RevalidateCache, v) \<Rightarrow> do { v \<leftarrow> send_response CacheRevalidated (revalidate_cache v); ret (sm_next PausedFn, v) }
     | (Inl _, v) \<Rightarrow> ret (sm_next ExitedFn, v)) (recv os v)"

definition waiting_exit :: "('d, 'w) kvm_os \<Rightarrow> ('d, 'w) Vcpu \<Rightarrow> (StateMachine \<times> ('d, 'w) Vcpu) thread_run" where
  "waiting_exit os v =
     (let v = (case exit_evt_write os (env_world (venv v)) of
          (Inl n, w) \<Rightarrow> fail_metric (upd_env (\<lambda>e. e\<lparr>env_world := w\<rparr>) v)
        | (Inr _, w) \<Rightarrow> upd_env (\<lambda>e. e\<lparr>env_world := w\<rparr>) v) in
      map_option (\<lambda>r.
        case r of
          (Inr Exit, v) \<Rightarrow> ret (sm_next ExitedFn, v)
        | (Inr _, v) \<Rightarrow> ret (sm_next WaitingExitFn, v)
        | (Inl _, v) \<Rightarrow> ret (sm_next ExitedFn, v)) (recv os v))"

definition exited :: "('d, 'w) Vcpu \<Rightarrow> (StateMachine \<times> ('d, 'w) Vcpu) thread_run" where
  "exited v = Some (ret (sm_finish ExitedFn, v))"

definition vcpu_handler :: "('d, 'w) kvm_os \<Rightarrow> ('d, 'w) DeviceIo \<Rightarrow> state_fn \<Rightarrow> ('d, 'w) Vcpu \<Rightarrow> (StateMachine \<times> ('d, 'w) Vcpu) thread_run" where
  "vcpu_handler os ops f v =
     (case f of RunningFn \<Rightarrow> running os ops v | PausedFn \<Rightarrow> paused os v | WaitingExitFn \<Rightarrow> waiting_exit os v | ExitedFn \<Rightarrow> exited v)"

section \<open>The thread\<close>

definition vcpu_run :: "('d, 'w) kvm_os \<Rightarrow> ('d, 'w) DeviceIo \<Rightarrow> ('d, 'w) Vcpu \<Rightarrow> ('d, 'w) Vcpu thread_run" where
  "vcpu_run os ops v =
     (case apply_filter os (env_world (venv v)) of
        (Inl (SecError n), w) \<Rightarrow> Some panic
      | (_, w) \<Rightarrow> StateMachine_run (vcpu_handler os ops) (upd_env (\<lambda>e. e\<lparr>env_world := w\<rparr>) v) PausedFn)"

definition vcpu_drop :: "('d, 'w) Vcpu \<Rightarrow> ('d, 'w) vcpu_env" where
  "vcpu_drop v = (let v = snd (reset_thread_local_data v) in
     (venv v)\<lparr>metric_ids := metric_ids (venv v) - {vcpu_id v}, thread_alive := False\<rparr>)"

text \<open>The closure of \<open>start_threaded\<close>; the vCPU is dropped at its end.\<close>

definition vcpu_thread :: "('d, 'w) kvm_os \<Rightarrow> ('d, 'w) DeviceIo \<Rightarrow> ('d, 'w) Vcpu \<Rightarrow> ('d, 'w) vcpu_env thread_run" where
  "vcpu_thread os ops v =
     (case init_thread_local_data v of
        (Inl e, v) \<Rightarrow> Some panic
      | (Inr _, v) \<Rightarrow> map_option (map_option vcpu_drop) (vcpu_run os ops v))"

end
