(* ===== verification/VcpuLogic.thy ===== *)
theory VcpuLogic
  imports Vcpu IoClaims
begin

text \<open>
  How the environment of a vCPU thread may change while the guest runs or the thread waits, and what
  one step of the thread's state machine does to the channels.
\<close>

section \<open>The environment\<close>

definition evolves :: "('d, 'w) vcpu_env \<Rightarrow> ('d, 'w) vcpu_env \<Rightarrow> bool" where
  "evolves e e' \<longleftrightarrow> (\<exists>new. events e' = events e @ new) \<and> responses e' = responses e \<and> (\<not> events_open e \<longrightarrow> \<not> events_open e') \<and>
     (responses_open e \<longrightarrow> responses_open e') \<and> (io_inv (shared_io e) \<longrightarrow> io_inv (shared_io e'))"

lemma evolves_refl [simp]: "evolves e e"
  by (simp add: evolves_def)

lemma evolves_trans: "evolves a b \<Longrightarrow> evolves b c \<Longrightarrow> evolves a c"
  by (auto simp: evolves_def)

lemma evolves_local [simp]:
  "evolves e (e'\<lparr>run_data := d\<rparr>) = evolves e e'" "evolves e (e'\<lparr>env_world := w\<rparr>) = evolves e e'" "evolves e (e'\<lparr>immediate_exit := b\<rparr>) = evolves e e'"
  by (simp_all add: evolves_def)

text \<open>Other threads send events, drop the sender and publish I/O managers; waiting ends with an event or without a sender.\<close>

definition kvm_ok :: "('d, 'w) kvm_os \<Rightarrow> bool" where
  "kvm_ok os \<longleftrightarrow> (\<forall>e. evolves e (snd (kvm_run os e))) \<and> (\<forall>e e'. park os e = Some e' \<longrightarrow> evolves e e' \<and> (events e' \<noteq> [] \<or> \<not> events_open e'))"

lemma kvm_okD: "kvm_ok os \<Longrightarrow> evolves e (snd (kvm_run os e))" "kvm_ok os \<Longrightarrow> park os e = Some e' \<Longrightarrow> evolves e e' \<and> (events e' \<noteq> [] \<or> \<not> events_open e')"
  by (simp_all add: kvm_ok_def)

section \<open>Emulation\<close>

definition same_vcpu :: "('d, 'w) Vcpu \<Rightarrow> ('d, 'w) Vcpu \<Rightarrow> bool" where
  "same_vcpu v v' \<longleftrightarrow> vcpu_id v' = vcpu_id v \<and> support_immediate_exit v' = support_immediate_exit v"

text \<open>Access through the cache: the manager published last handles it, the channels stay as they are.\<close>

definition io_step :: "('d, 'w) Vcpu \<Rightarrow> ('d, 'w) Vcpu \<Rightarrow> bool" where
  "io_step v v' \<longleftrightarrow> (\<exists>d w m. v' = v\<lparr>io_mgr := m, venv := (venv v)\<lparr>run_data := d, env_world := w\<rparr>\<rparr>)"

lemma io_stepD: "io_step v v' \<Longrightarrow> same_vcpu v v' \<and> metrics v' = metrics v \<and> evolves (venv v) (venv v') \<and> events (venv v') = events (venv v) \<and>
    immediate_exit (venv v') = immediate_exit (venv v)"
  by (auto simp: io_step_def same_vcpu_def evolves_def)

lemma cached_step:
  "cached_mmio_read ops a d v = Some v' \<Longrightarrow> io_step v v'" "cached_mmio_write ops a d v = Some v' \<Longrightarrow> io_step v v'"
  "cached_pio_read ops a d v = Some v' \<Longrightarrow> io_step v v'" "cached_pio_write ops a d v = Some v' \<Longrightarrow> io_step v v'"
proof -
  have w: "\<exists>d w m. v\<lparr>io_mgr := n, venv := (venv v)\<lparr>env_world := x\<rparr>\<rparr> = v\<lparr>io_mgr := m, venv := (venv v)\<lparr>run_data := d, env_world := w\<rparr>\<rparr>" for n x
    by (intro exI [of _ "run_data (venv v)"] exI [of _ x] exI [of _ n]) simp
  show "cached_mmio_read ops a d v = Some v' \<Longrightarrow> io_step v v'" "cached_pio_read ops a d v = Some v' \<Longrightarrow> io_step v v'"
    "cached_mmio_write ops a d v = Some v' \<Longrightarrow> io_step v v'" "cached_pio_write ops a d v = Some v' \<Longrightarrow> io_step v v'"
    using w by (auto simp: cached_mmio_read_def cached_pio_read_def cached_mmio_write_def cached_pio_write_def io_load_def io_step_def split: bind_splits prod.splits)
qed

lemma cached_total:
  assumes "io_inv (shared_io (venv v))"
  shows "\<exists>v'. cached_mmio_read ops a d v = Some v'" "\<exists>v'. cached_mmio_write ops a d v = Some v'"
    "\<exists>v'. cached_pio_read ops a d v = Some v'" "\<exists>v'. cached_pio_write ops a d v = Some v'"
proof -
  have s: "bt_sorted iobase (mmio_bus (shared_io (venv v)))" "bt_sorted iobase (pio_bus (shared_io (venv v)))" using assms by (simp_all add: io_inv_iff)
  have le: "iobase r \<le> a" "iobase r mod 2 ^ 16 \<le> a" if "bt_floor iobase m a = Some (r, x)" "bt_sorted iobase m" for m :: "(IoRange, 'a) btree_map" and r x
    using bt_floor_Some(2) [OF that(2,1)] order.trans [OF mod_less_eq_dividend] by auto
  show "\<exists>v'. cached_mmio_read ops a d v = Some v'" "\<exists>v'. cached_mmio_write ops a d v = Some v'"
    "\<exists>v'. cached_pio_read ops a d v = Some v'" "\<exists>v'. cached_pio_write ops a d v = Some v'"
    using le s
    by (auto simp: cached_mmio_read_def cached_mmio_write_def cached_pio_read_def cached_pio_write_def io_load_def mmio_read_def mmio_write_def pio_read_def
        pio_write_def get_mmio_device_def get_pio_device_def new_mmio_range_def new_pio_range_def checked_sub_def split: option.splits prod.splits bind_splits)
qed

lemma fail_metric_simps [simp]: "venv (fail_metric v) = venv v" "vcpu_id (fail_metric v) = vcpu_id v"
  "support_immediate_exit (fail_metric v) = support_immediate_exit v"
  by (simp_all add: fail_metric_def same_vcpu_def)

text \<open>What the exits lead to.\<close>

fun is_io :: "VcpuExit \<Rightarrow> bool" where
  "is_io (IoIn _ _) = True"
| "is_io (IoOut _ _) = True"
| "is_io (MmioRead _ _) = True"
| "is_io (MmioWrite _ _) = True"
| "is_io _ = False"

fun exit_result :: "nat + VcpuExit \<Rightarrow> VcpuError + VcpuEmulation" where
  "exit_result (Inl n) = (if n = EAGAIN then Ok Handled else if n = EINTR then Ok Interrupted else Err VcpuUnhandledKvmExit)"
| "exit_result (Inr (SystemEvent ty flags)) = (if ty = KVM_SYSTEM_EVENT_RESET \<or> ty = KVM_SYSTEM_EVENT_SHUTDOWN then Ok Stopped else Err VcpuUnhandledKvmExit)"
| "exit_result (Inr x) = (if is_io x then Ok Handled else Err VcpuUnhandledKvmExit)"

lemma run_emulation_result:
  assumes "run_emulation os ops v = Some (r, v')"
  shows "r = exit_result (fst (kvm_run os (venv v))) \<and> same_vcpu v v' \<and> evolves (snd (kvm_run os (venv v))) (venv v') \<and>
    events (venv v') = events (snd (kvm_run os (venv v))) \<and>
    immediate_exit (venv v') = (fst (kvm_run os (venv v)) \<noteq> Inl EINTR \<and> immediate_exit (snd (kvm_run os (venv v))))"
proof -
  obtain run e where k: "kvm_run os (venv v) = (run, e)" by force
  have io: "same_vcpu v x \<and> evolves e (venv x) \<and> events (venv x) = events e \<and> immediate_exit (venv x) = immediate_exit e" if "io_step (v\<lparr>venv := e\<rparr>) x" for x
    using io_stepD [OF that] by (simp add: same_vcpu_def)
  show ?thesis
  proof (cases run)
    case (Inl n)
    then show ?thesis using assms k by (auto simp: run_emulation_def same_vcpu_def Let_def split: if_splits)
  next
    case (Inr x)
    show ?thesis
    proof (cases "is_io x")
      case True
      then obtain u m where u: "r = Ok Handled" "v' = u\<lparr>metrics := m\<rparr>" "io_step (v\<lparr>venv := e\<rparr>) u \<or> u = v\<lparr>venv := e\<rparr>"
        using assms k Inr cached_step [of ops _ _ "v\<lparr>venv := e\<rparr>"] by (cases x) (auto simp: run_emulation_def Let_def split: bind_splits if_splits)
      have "same_vcpu v u \<and> evolves e (venv u) \<and> events (venv u) = events e \<and> immediate_exit (venv u) = immediate_exit e"
        using u(3) io by (auto simp: same_vcpu_def)
      then show ?thesis using True u(1,2) k Inr by (cases x) (simp_all add: same_vcpu_def)
    next
      case False
      then show ?thesis using assms k Inr by (cases x) (auto simp: run_emulation_def Let_def same_vcpu_def split: if_splits)
    qed
  qed
qed

lemma run_emulation_total:
  assumes "kvm_ok os" "io_inv (shared_io (venv v))"
  shows "\<exists>r v'. run_emulation os ops v = Some (r, v')"
proof -
  obtain run e where k: "kvm_run os (venv v) = (run, e)" by force
  have "io_inv (shared_io (venv (v\<lparr>venv := e\<rparr>)))" using kvm_okD(1) [OF assms(1), of "venv v"] k assms(2) by (simp add: evolves_def)
  from cached_total [OF this] show ?thesis
    using k by (cases run; cases "projr run") (fastforce simp: run_emulation_def Let_def split: if_splits)+
qed

lemma run_emulation_evolves:
  assumes "kvm_ok os" "run_emulation os ops v = Some (r, v')"
  shows "same_vcpu v v' \<and> evolves (venv v) (venv v')"
  using run_emulation_result [OF assms(2)] kvm_okD(1) [OF assms(1), of "venv v"] evolves_trans by blast

lemma emulation_loop_result:
  "emulation_loop os ops v = Some y \<Longrightarrow> kvm_ok os \<longrightarrow> y = Some (f, v') \<longrightarrow> same_vcpu v v' \<and> evolves (venv v) (venv v') \<and> f \<in> {None, Some WaitingExitFn}"
proof (induction rule: emulation_loop.raw_induct [rotated, consumes 1])
  case (1 emu os ops v y)
  show ?case
  proof (intro impI)
    assume os: "kvm_ok os" and y: "y = Some (f, v')"
    from 1(2) y obtain r u where r: "run_emulation os ops v = Some (r, u)" by (auto split: option.splits)
    have u: "same_vcpu v u" "evolves (venv v) (venv u)" using run_emulation_evolves [OF os r] by auto
    show "same_vcpu v v' \<and> evolves (venv v) (venv v') \<and> f \<in> {None, Some WaitingExitFn}"
    proof (cases "r = Inr Handled \<and> support_immediate_exit u")
      case True
      then have "emu os ops u = Some y" using 1(2) r by simp
      from 1(1) [OF this] os y u show ?thesis by (auto simp: same_vcpu_def intro: evolves_trans)
    next
      case False
      then show ?thesis using 1(2) r u y by (auto split: sum.splits if_splits)
    qed
  qed
qed

lemma emulation_loop_once:
  assumes "kvm_ok os" "io_inv (shared_io (venv v))" "\<not> support_immediate_exit v"
  shows "\<exists>f v'. emulation_loop os ops v = Some (Some (f, v'))"
proof -
  obtain r u where r: "run_emulation os ops v = Some (r, u)" using run_emulation_total [OF assms(1,2)] by blast
  have "\<not> support_immediate_exit u" using run_emulation_result [OF r] assms(3) by (simp add: same_vcpu_def)
  then show ?thesis by (subst emulation_loop.simps) (simp add: r split: sum.splits)
qed

section \<open>The protocol\<close>

text \<open>What a controller of the vCPU can rely on: how the states answer events.\<close>

fun next_state :: "state_fn \<Rightarrow> VcpuEvent \<Rightarrow> state_fn" where
  "next_state f Exit = ExitedFn"
| "next_state RunningFn Pause = PausedFn"
| "next_state PausedFn Resume = RunningFn"
| "next_state f _ = f"

fun replies :: "nat \<Rightarrow> state_fn \<Rightarrow> VcpuEvent \<Rightarrow> VcpuResponse list \<Rightarrow> bool" where
  "replies i WaitingExitFn ev rs = (rs = [])"
| "replies i f Exit rs = (rs = [])"
| "replies i f Pause rs = (rs = [Paused])"
| "replies i f Resume rs = (rs = [Resumed])"
| "replies i f Gettid rs = (\<exists>t. rs = [Tid i t])"
| "replies i f RevalidateCache rs = (rs = [CacheRevalidated])"

inductive protocol :: "nat \<Rightarrow> bool \<Rightarrow> VcpuEvent list \<Rightarrow> VcpuResponse list \<Rightarrow> state_fn \<Rightarrow> bool" for i gone where
  start: "protocol i gone [] [] PausedFn"
| event: "protocol i gone evs rs f \<Longrightarrow> f \<noteq> ExitedFn \<Longrightarrow> replies i f ev r \<Longrightarrow> protocol i gone (evs @ [ev]) (rs @ r) (next_state f ev)"
| stopped: "protocol i gone evs rs RunningFn \<Longrightarrow> protocol i gone evs rs WaitingExitFn"
| closed: "protocol i gone evs rs f \<Longrightarrow> gone \<Longrightarrow> protocol i gone evs rs ExitedFn"

lemma protocol_gone: "protocol i gone evs rs f \<Longrightarrow> (gone \<Longrightarrow> gone') \<Longrightarrow> protocol i gone' evs rs f"
  by (induction rule: protocol.induct) (auto intro: protocol.intros)

end
