(* ===== verification/VcpuClaims.thy ===== *)
theory VcpuClaims
  imports VcpuLogic
begin

text \<open>
  The vCPU thread keeps the protocol of its events and responses, ends when it is told to, and can
  miss an event when two are sent at once.
\<close>

section \<open>Steps\<close>

text \<open>One step of the thread: quiet, or the answer to the oldest event.\<close>

definition quiet :: "state_fn \<Rightarrow> state_fn \<Rightarrow> ('d, 'w) vcpu_env \<Rightarrow> bool" where
  "quiet f f' e \<longleftrightarrow> f' = f \<and> (f = ExitedFn \<or> events e = []) \<or> f = RunningFn \<and> f' = WaitingExitFn \<or> f' = ExitedFn \<and> \<not> events_open e \<and> events e = []"

definition tick_of :: "state_fn \<Rightarrow> ('d, 'w) Vcpu \<Rightarrow> state_fn \<Rightarrow> ('d, 'w) Vcpu \<Rightarrow> bool" where
  "tick_of f v f' v' \<longleftrightarrow> same_vcpu v v' \<and> (\<not> events_open (venv v) \<longrightarrow> \<not> events_open (venv v')) \<and> (responses_open (venv v) \<longrightarrow> responses_open (venv v')) \<and>
     (io_inv (shared_io (venv v)) \<longrightarrow> io_inv (shared_io (venv v'))) \<and>
     (\<exists>new. events (venv v) @ new = events (venv v') \<and> responses (venv v') = responses (venv v) \<and> quiet f f' (venv v') \<or>
       (\<exists>ev r. events (venv v) @ new = ev # events (venv v') \<and> responses (venv v') = responses (venv v) @ r \<and> f \<noteq> ExitedFn \<and>
          replies (vcpu_id v) f ev r \<and> f' = next_state f ev))"

lemma try_recv_cases:
  obtains (event) ev evs where "events (venv v) = ev # evs" "try_recv v = (Inr ev, upd_env (\<lambda>e. e\<lparr>events := evs\<rparr>) v)"
  | (empty) "events (venv v) = []" "events_open (venv v)" "try_recv v = (Inl RecvEmpty, v)"
  | (closed) "events (venv v) = []" "\<not> events_open (venv v)" "try_recv v = (Inl RecvDisconnected, v)"
  by (cases "events (venv v)"; cases "events_open (venv v)") (auto simp: try_recv_def)

lemma recv_evolves:
  assumes os: "kvm_ok os" and r: "recv os v = Some r"
  obtains e where "evolves (venv v) e" "events e \<noteq> [] \<or> \<not> events_open e" "r = try_recv (v\<lparr>venv := e\<rparr>)"
proof (cases "events (venv v) = [] \<and> events_open (venv v)")
  case True
  then obtain e where "park os (venv v) = Some e" "r = try_recv (v\<lparr>venv := e\<rparr>)" using r by (auto simp: recv_def)
  then show ?thesis using that kvm_okD(2) [OF os] by blast
next
  case False
  then have "r = try_recv (v\<lparr>venv := venv v\<rparr>)" using r by (auto simp: recv_def)
  then show ?thesis using that [of "venv v"] False by simp
qed

lemma send_response_Some: "send_response r v = Some v' \<longleftrightarrow> responses_open (venv v) \<and> v' = upd_env (\<lambda>e. e\<lparr>responses := responses e @ [r]\<rparr>) v"
  by (auto simp: send_response_def)

text \<open>Events are answered on an environment that has evolved.\<close>

definition answered :: "state_fn \<Rightarrow> ('d, 'w) Vcpu \<Rightarrow> VcpuEvent \<Rightarrow> VcpuEvent list \<Rightarrow> ('d, 'w) Vcpu \<Rightarrow> bool" where
  "answered f u ev evs v' \<longleftrightarrow> (\<exists>r. replies (vcpu_id u) f ev r \<and> responses (venv v') = responses (venv u) @ r) \<and> same_vcpu u v' \<and> events (venv v') = evs \<and>
     events_open (venv v') = events_open (venv u) \<and> responses_open (venv v') = responses_open (venv u) \<and> shared_io (venv v') = shared_io (venv u)"

lemma tick_event:
  assumes "same_vcpu v u" "evolves (venv v) (venv u)" "events (venv u) = ev # evs" "f \<noteq> ExitedFn" "answered f u ev evs v'"
  shows "tick_of f v (next_state f ev) v'"
proof -
  obtain new where "events (venv v) @ new = ev # events (venv v')" using assms by (auto simp: answered_def evolves_def)
  moreover obtain r where "replies (vcpu_id v) f ev r" "responses (venv v') = responses (venv v) @ r"
    using assms by (auto simp: answered_def evolves_def same_vcpu_def)
  moreover have "same_vcpu v v'" "\<not> events_open (venv v) \<longrightarrow> \<not> events_open (venv v')" "responses_open (venv v) \<longrightarrow> responses_open (venv v')"
    "io_inv (shared_io (venv v)) \<longrightarrow> io_inv (shared_io (venv v'))"
    using assms by (auto simp: answered_def evolves_def same_vcpu_def)
  ultimately show ?thesis unfolding tick_of_def using assms(4) by blast
qed

lemmas answered_eval = answered_def send_response_Some revalidate_cache_def io_load_def same_vcpu_def sm_next_def StateMachine_new_def Let_def

lemma tick_quiet:
  assumes "same_vcpu v v'" "evolves (venv v) (venv v')" "quiet f f' (venv v')"
  shows "tick_of f v f' v'"
  unfolding tick_of_def using assms unfolding evolves_def by metis

lemma running_event_tick:
  assumes v: "same_vcpu v u" "evolves (venv v) (venv u)" and r: "running_event os u = Some (sf, v')"
  shows "tick_of RunningFn v (sm_function sf) v' \<and> \<not> end_state sf"
proof (cases u rule: try_recv_cases)
  case (event ev evs)
  have "sm_function sf = next_state RunningFn ev \<and> \<not> end_state sf" using event r
    by (cases ev) (auto simp: running_event_def sm_next_def StateMachine_new_def split: bind_splits)
  moreover have "answered RunningFn u ev evs v'" using event r by (cases ev) (auto simp: running_event_def answered_eval split: bind_splits)
  ultimately show ?thesis using tick_event [OF v event(1)] by simp
qed (use r v in \<open>auto simp: running_event_def sm_next_def StateMachine_new_def quiet_def intro!: tick_quiet\<close>)

lemma paused_tick:
  assumes os: "kvm_ok os" and r: "paused os v = Some (Some (sf, v'))"
  shows "tick_of PausedFn v (sm_function sf) v' \<and> \<not> end_state sf"
proof -
  obtain q where q: "recv os v = Some q" using r by (auto simp: paused_def)
  obtain e where e: "evolves (venv v) e" "events e \<noteq> [] \<or> \<not> events_open e" "q = try_recv (v\<lparr>venv := e\<rparr>)" by (rule recv_evolves [OF os q])
  have v: "same_vcpu v (v\<lparr>venv := e\<rparr>)" "evolves (venv v) (venv (v\<lparr>venv := e\<rparr>))" using e by (simp_all add: same_vcpu_def)
  show ?thesis
  proof (cases "v\<lparr>venv := e\<rparr>" rule: try_recv_cases)
    case (event ev evs)
    have "sm_function sf = next_state PausedFn ev \<and> \<not> end_state sf" using event r q e(3)
      by (cases ev) (auto simp: paused_def sm_next_def StateMachine_new_def split: bind_splits)
    moreover have "answered PausedFn (v\<lparr>venv := e\<rparr>) ev evs v'" using event r q e(3) by (cases ev) (auto simp: paused_def answered_eval split: bind_splits)
    ultimately show ?thesis using tick_event [OF v event(1)] by simp
  qed (use r q e v in \<open>auto simp: paused_def sm_next_def StateMachine_new_def quiet_def intro!: tick_quiet\<close>)
qed

lemma waiting_exit_tick:
  assumes os: "kvm_ok os" and r: "waiting_exit os v = Some (Some (sf, v'))"
  shows "tick_of WaitingExitFn v (sm_function sf) v' \<and> \<not> end_state sf"
proof -
  define u where "u = (case exit_evt_write os (env_world (venv v)) of
      (Inl n, w) \<Rightarrow> fail_metric (upd_env (\<lambda>e. e\<lparr>env_world := w\<rparr>) v) | (Inr _, w) \<Rightarrow> upd_env (\<lambda>e. e\<lparr>env_world := w\<rparr>) v)"
  have u: "same_vcpu v u" "evolves (venv v) (venv u)" by (auto simp: u_def same_vcpu_def split: prod.splits sum.splits)
  obtain q where q: "recv os u = Some q" using r by (auto simp: waiting_exit_def Let_def u_def [symmetric])
  obtain e where e: "evolves (venv u) e" "events e \<noteq> [] \<or> \<not> events_open e" "q = try_recv (u\<lparr>venv := e\<rparr>)" by (rule recv_evolves [OF os q])
  have v: "same_vcpu v (u\<lparr>venv := e\<rparr>)" "evolves (venv v) (venv (u\<lparr>venv := e\<rparr>))" using e u evolves_trans by (auto simp: same_vcpu_def)
  show ?thesis
  proof (cases "u\<lparr>venv := e\<rparr>" rule: try_recv_cases)
    case (event ev evs)
    have "sm_function sf = next_state WaitingExitFn ev \<and> \<not> end_state sf" using event r q e(3)
      by (cases ev) (auto simp: waiting_exit_def Let_def u_def [symmetric] sm_next_def StateMachine_new_def)
    moreover have "answered WaitingExitFn (u\<lparr>venv := e\<rparr>) ev evs v'" using event r q e(3)
      by (cases ev) (auto simp: waiting_exit_def u_def [symmetric] answered_eval)
    ultimately show ?thesis using tick_event [OF v event(1)] by simp
  qed (use r q e v in \<open>auto simp: waiting_exit_def Let_def u_def [symmetric] sm_next_def StateMachine_new_def quiet_def intro!: tick_quiet\<close>)
qed

lemma handler_tick:
  assumes os: "kvm_ok os" and r: "vcpu_handler os ops f v = Some (Some (sf, v'))"
  shows "tick_of f v (sm_function sf) v' \<and> (end_state sf \<longrightarrow> f = ExitedFn)"
proof (cases f)
  case RunningFn
  obtain g u where g: "emulation_loop os ops v = Some (Some (g, u))" using r RunningFn by (auto simp: vcpu_handler_def running_def split: option.splits)
  have u: "same_vcpu v u" "evolves (venv v) (venv u)" "g \<in> {None, Some WaitingExitFn}" using emulation_loop_result [OF g] os by auto
  show ?thesis
  proof (cases g)
    case None
    then show ?thesis using running_event_tick [OF u(1,2), of os sf v'] r g RunningFn by (simp add: vcpu_handler_def running_def)
  next
    case (Some h)
    then show ?thesis using r g RunningFn u
      by (auto simp: vcpu_handler_def running_def sm_next_def StateMachine_new_def quiet_def intro!: tick_quiet)
  qed
qed (use r paused_tick [OF os] waiting_exit_tick [OF os] in
  \<open>auto simp: vcpu_handler_def exited_def sm_finish_def StateMachine_new_def quiet_def same_vcpu_def intro!: tick_quiet\<close>)

section \<open>Runs\<close>

inductive vcpu_steps :: "('d, 'w) kvm_os \<Rightarrow> ('d, 'w) DeviceIo \<Rightarrow> ('d, 'w) Vcpu \<Rightarrow> StateMachine \<Rightarrow> ('d, 'w) Vcpu \<Rightarrow> bool" for os ops v0 where
  start: "vcpu_steps os ops v0 (StateMachine_new PausedFn False) v0"
| tick: "vcpu_steps os ops v0 sf v \<Longrightarrow> \<not> end_state sf \<Longrightarrow> vcpu_handler os ops (sm_function sf) v = Some (Some (sf', v')) \<Longrightarrow> vcpu_steps os ops v0 sf' v'"

definition kept :: "('d, 'w) Vcpu \<Rightarrow> state_fn \<Rightarrow> ('d, 'w) Vcpu \<Rightarrow> bool" where
  "kept v0 f v \<longleftrightarrow> vcpu_id v = vcpu_id v0 \<and> (\<exists>handled rs new. protocol (vcpu_id v0) (\<not> events_open (venv v)) handled rs f \<and>
     responses (venv v) = responses (venv v0) @ rs \<and> events (venv v0) @ new = handled @ events (venv v))"

lemma kept_tick:
  assumes k: "kept v0 f v" and t: "tick_of f v f' v'"
  shows "kept v0 f' v'"
proof -
  obtain handled rs new where p: "protocol (vcpu_id v0) (\<not> events_open (venv v)) handled rs f" "responses (venv v) = responses (venv v0) @ rs"
      "events (venv v0) @ new = handled @ events (venv v)" and i: "vcpu_id v = vcpu_id v0"
    using k by (auto simp: kept_def)
  have p': "protocol (vcpu_id v0) (\<not> events_open (venv v')) handled rs f" by (rule protocol_gone [OF p(1)]) (use t in \<open>auto simp: tick_of_def\<close>)
  have i': "vcpu_id v' = vcpu_id v0" using t i by (simp add: tick_of_def same_vcpu_def)
  from t consider (quiet) more where "events (venv v) @ more = events (venv v')" "responses (venv v') = responses (venv v)" "quiet f f' (venv v')"
    | (event) more ev r where "events (venv v) @ more = ev # events (venv v')" "responses (venv v') = responses (venv v) @ r" "f \<noteq> ExitedFn"
        "replies (vcpu_id v) f ev r" "f' = next_state f ev"
    unfolding tick_of_def by blast
  then show ?thesis
  proof cases
    case quiet
    have "protocol (vcpu_id v0) (\<not> events_open (venv v')) handled rs f'"
      using quiet(3) p' by (auto simp: quiet_def intro: protocol.stopped protocol.closed)
    moreover have "events (venv v0) @ new @ more = handled @ events (venv v')" using p(3) quiet(1) by (metis append.assoc)
    ultimately show ?thesis unfolding kept_def using quiet(2) p(2) i' by metis
  next
    case event
    have "protocol (vcpu_id v0) (\<not> events_open (venv v')) (handled @ [ev]) (rs @ r) f'"
      unfolding event(5) by (rule protocol.event [OF p' event(3)]) (use event(4) i in simp)
    moreover have "events (venv v0) @ new @ more = (handled @ [ev]) @ events (venv v')" using p(3) event(1) by (metis append.assoc append_Cons append_Nil)
    moreover have "responses (venv v') = responses (venv v0) @ rs @ r" using event(2) p(2) by simp
    ultimately show ?thesis unfolding kept_def using i' by blast
  qed
qed

lemma kept_start: "kept v PausedFn v"
  unfolding kept_def by (intro conjI exI [of _ "[]"]) (auto intro: protocol.start)

lemma steps_kept: "vcpu_steps os ops v0 sf v \<Longrightarrow> kvm_ok os \<Longrightarrow> kept v0 (sm_function sf) v"
proof (induction rule: vcpu_steps.induct)
  case start
  then show ?case using kept_start by (simp add: StateMachine_new_def)
next
  case (tick sf v sf' v')
  then show ?case using kept_tick [OF tick.IH [OF tick.prems]] handler_tick [OF tick.prems tick.hyps(3)] by simp
qed

section \<open>Termination\<close>

lemma sm_loop_step: "\<not> end_state sf \<Longrightarrow> h (sm_function sf) v = Some (Some (sf', v')) \<Longrightarrow> sm_loop h sf v = sm_loop h sf' v'"
  by (subst sm_loop.simps) simp

definition before_exit :: "VcpuEvent list \<Rightarrow> nat" where
  "before_exit es = length (takeWhile (\<lambda>ev. ev \<noteq> Exit) es)"

lemma before_exit_append: "Exit \<in> set es \<Longrightarrow> before_exit (es @ new) = before_exit es"
  by (induction es) (auto simp: before_exit_def)

lemma before_exit_Cons [simp]: "before_exit (ev # es) = (if ev = Exit then 0 else Suc (before_exit es))"
  by (simp add: before_exit_def)

lemma running_event_total:
  assumes "responses_open (venv v)"
  shows "\<exists>sf v'. running_event os v = Some (sf, v')"
  using assms by (cases v rule: try_recv_cases; cases "hd (events (venv v))")
    (auto simp: running_event_def send_response_def revalidate_cache_def io_load_def)

lemma handler_total:
  assumes os: "kvm_ok os" and e: "events (venv v) \<noteq> []" "responses_open (venv v)" "io_inv (shared_io (venv v))" and imm: "\<not> support_immediate_exit v"
  shows "\<exists>sf v'. vcpu_handler os ops f v = Some (Some (sf, v'))"
proof (cases f)
  case RunningFn
  obtain g u where g: "emulation_loop os ops v = Some (Some (g, u))" using emulation_loop_once [OF os e(3) imm] by blast
  have "responses_open (venv u)" using emulation_loop_result [OF g] os e(2) by (auto simp: evolves_def)
  from running_event_total [OF this] g RunningFn show ?thesis by (cases g) (auto simp: vcpu_handler_def running_def)
next
  case PausedFn
  then show ?thesis using e by (cases v rule: try_recv_cases; cases "hd (events (venv v))")
    (auto simp: vcpu_handler_def paused_def recv_def send_response_def revalidate_cache_def io_load_def)
next
  case WaitingExitFn
  obtain ev evs where ev: "events (venv v) = ev # evs" using e(1) by (cases "events (venv v)") auto
  show ?thesis
    by (cases ev; cases "exit_evt_write os (env_world (venv v))"; cases "fst (exit_evt_write os (env_world (venv v)))")
      (use WaitingExitFn ev in \<open>auto simp: vcpu_handler_def waiting_exit_def recv_def try_recv_def Let_def\<close>)
qed (simp add: vcpu_handler_def exited_def)

lemma exited_ends: "sm_loop (vcpu_handler os ops) (sm_next ExitedFn) v = Some (Some v)"
proof -
  have "sm_loop (vcpu_handler os ops) (sm_next ExitedFn) v = sm_loop (vcpu_handler os ops) (sm_finish ExitedFn) v"
    by (rule sm_loop_step) (simp_all add: sm_next_def StateMachine_new_def vcpu_handler_def exited_def)
  also have "\<dots> = Some (Some v)" by (subst sm_loop.simps) (simp add: sm_finish_def StateMachine_new_def)
  finally show ?thesis .
qed

lemma exit_ends:
  assumes os: "kvm_ok os"
  shows "Exit \<in> set (events (venv v)) \<Longrightarrow> responses_open (venv v) \<Longrightarrow> io_inv (shared_io (venv v)) \<Longrightarrow> \<not> support_immediate_exit v \<Longrightarrow>
    \<exists>v'. sm_loop (vcpu_handler os ops) (sm_next f) v = Some (Some v')"
proof (induction "2 * before_exit (events (venv v)) + (if f = RunningFn then 1 else 0)" arbitrary: v f rule: less_induct)
  case less
  show ?case
  proof (cases "f = ExitedFn")
    case True
    then show ?thesis using exited_ends by blast
  next
    case False
    obtain sf v' where h: "vcpu_handler os ops f v = Some (Some (sf, v'))" using handler_total [OF os _ less.prems(2-4)] less.prems(1) by force
    have t: "tick_of f v (sm_function sf) v'" "\<not> end_state sf" using handler_tick [OF os h] False by auto
    have sf: "sf = sm_next (sm_function sf)" using t(2) by (cases sf) (simp add: sm_next_def StateMachine_new_def)
    have step: "sm_loop (vcpu_handler os ops) (sm_next f) v = sm_loop (vcpu_handler os ops) (sm_next (sm_function sf)) v'"
      unfolding sf [symmetric] by (rule sm_loop_step) (use h in \<open>simp_all add: sm_next_def StateMachine_new_def\<close>)
    have keep: "responses_open (venv v')" "io_inv (shared_io (venv v'))" "\<not> support_immediate_exit v'"
      using t(1) less.prems by (simp_all add: tick_of_def same_vcpu_def)
    from t(1) consider (quiet) more where "events (venv v') = events (venv v) @ more" "quiet f (sm_function sf) (venv v')"
      | (event) more ev where "events (venv v) @ more = ev # events (venv v')" "sm_function sf = next_state f ev"
      unfolding tick_of_def by metis
    then show ?thesis
    proof cases
      case quiet
      then have "f = RunningFn" "sm_function sf = WaitingExitFn" using less.prems(1) False by (auto simp: quiet_def)
      then show ?thesis
        unfolding step using less.hyps [OF _ _ keep, of "sm_function sf"] quiet(1) less.prems(1) by (simp add: before_exit_append)
    next
      case event
      have b: "before_exit (events (venv v)) = before_exit (ev # events (venv v'))" using before_exit_append [OF less.prems(1), of more] event(1) by simp
      show ?thesis
      proof (cases "ev = Exit")
        case True
        then show ?thesis unfolding step event(2) by (simp add: exited_ends)
      next
        case ev: False
        have "Exit \<in> set (ev # events (venv v'))" unfolding event(1) [symmetric] using less.prems(1) by simp
        then have "Exit \<in> set (events (venv v'))" using ev by simp
        then show ?thesis unfolding step using less.hyps [OF _ _ keep, of "sm_function sf"] b ev by simp
      qed
    qed
  qed
qed

section \<open>Kicks\<close>

text \<open>KVM returns at once when the flag is set, and otherwise runs a guest that keeps producing exits.\<close>

definition honours_kick :: "('d, 'w) kvm_os \<Rightarrow> bool" where
  "honours_kick os \<longleftrightarrow> (\<forall>e. immediate_exit e \<longrightarrow> fst (kvm_run os e) = Inl EINTR)"

definition busy_guest :: "('d, 'w) kvm_os \<Rightarrow> bool" where
  "busy_guest os \<longleftrightarrow> (\<forall>e. \<not> immediate_exit e \<longrightarrow> exit_result (fst (kvm_run os e)) = Ok Handled \<and> \<not> immediate_exit (snd (kvm_run os e)))"

lemma interrupted_loop:
  assumes os: "kvm_ok os" "honours_kick os" and v: "immediate_exit (venv v)" "io_inv (shared_io (venv v))"
  obtains u where "emulation_loop os ops v = Some (Some (None, u))" "same_vcpu v u" "evolves (venv v) (venv u)" "\<not> immediate_exit (venv u)"
proof -
  obtain r u where r: "run_emulation os ops v = Some (r, u)" using run_emulation_total [OF os(1) v(2)] by blast
  have k: "fst (kvm_run os (venv v)) = Inl EINTR" using os(2) v(1) by (simp add: honours_kick_def)
  then have "r = Ok Interrupted" "\<not> immediate_exit (venv u)" using run_emulation_result [OF r] by auto
  moreover have "emulation_loop os ops v = Some (Some (None, u))" by (subst emulation_loop.simps) (use r calculation in simp)
  ultimately show ?thesis using that run_emulation_evolves [OF os(1) r] by blast
qed

lemma busy_loop_never_ends:
  "emulation_loop os ops v = Some y \<Longrightarrow> kvm_ok os \<longrightarrow> busy_guest os \<longrightarrow> support_immediate_exit v \<longrightarrow> io_inv (shared_io (venv v)) \<longrightarrow> immediate_exit (venv v)"
proof (induction rule: emulation_loop.raw_induct [rotated, consumes 1])
  case (1 emu os ops v y)
  show ?case
  proof (intro impI, rule ccontr)
    assume a: "kvm_ok os" "busy_guest os" "support_immediate_exit v" "io_inv (shared_io (venv v))" "\<not> immediate_exit (venv v)"
    obtain r u where r: "run_emulation os ops v = Some (r, u)" using run_emulation_total [OF a(1,4)] by blast
    have u: "r = Ok Handled" "\<not> immediate_exit (venv u)" "support_immediate_exit u" "io_inv (shared_io (venv u))"
      using run_emulation_result [OF r] run_emulation_evolves [OF a(1) r] a by (auto simp: busy_guest_def same_vcpu_def evolves_def)
    then have "emu os ops u = Some y" using 1(2) r by simp
    from 1(1) [OF this] a u show False by simp
  qed
qed

lemma busy_thread_never_ends:
  assumes "kvm_ok os" "busy_guest os" "support_immediate_exit v" "io_inv (shared_io (venv v))" "\<not> immediate_exit (venv v)"
  shows "sm_loop (vcpu_handler os ops) (sm_next RunningFn) v = None"
proof -
  have "emulation_loop os ops v = None"
  proof (cases "emulation_loop os ops v")
    case (Some y)
    from busy_loop_never_ends [OF this] assms show ?thesis by simp
  qed
  then show ?thesis by (subst sm_loop.simps) (simp add: sm_next_def StateMachine_new_def vcpu_handler_def running_def)
qed

lemma kicked_exit:
  assumes os: "kvm_ok os" "honours_kick os" and v: "immediate_exit (venv v)" "io_inv (shared_io (venv v))" "events (venv v) = Exit # evs"
  shows "\<exists>v'. sm_loop (vcpu_handler os ops) (sm_next f) v = Some (Some v')"
proof -
  have "\<exists>v'. vcpu_handler os ops f v = Some (Some (sm_next ExitedFn, v'))" if "f \<noteq> ExitedFn"
  proof (cases f)
    case RunningFn
    obtain u where u: "emulation_loop os ops v = Some (Some (None, u))" "evolves (venv v) (venv u)" by (rule interrupted_loop [OF os v(1,2)])
    then obtain es where "events (venv u) = Exit # es" using v(3) by (auto simp: evolves_def)
    then show ?thesis using u RunningFn by (simp add: vcpu_handler_def running_def running_event_def try_recv_def)
  next
    case WaitingExitFn
    then show ?thesis using v(3)
      by (cases "exit_evt_write os (env_world (venv v))"; cases "fst (exit_evt_write os (env_world (venv v)))")
        (auto simp: vcpu_handler_def waiting_exit_def recv_def try_recv_def Let_def)
  qed (use v(3) that in \<open>auto simp: vcpu_handler_def paused_def recv_def try_recv_def\<close>)
  moreover have "\<not> end_state (sm_next f)" "sm_function (sm_next f) = f" by (simp_all add: sm_next_def StateMachine_new_def)
  ultimately show ?thesis using exited_ends [of os ops] sm_loop_step [of "sm_next f" "vcpu_handler os ops" v] by metis
qed

lemma send_event_effect:
  assumes "send_event os ev e = Some (Inr (), e')"
  shows "events e' = events e @ [ev] \<and> responses_open e' = responses_open e \<and> shared_io e' = shared_io e \<and> tls_vcpu e' = tls_vcpu e \<and>
    immediate_exit e' = (tls_vcpu e \<noteq> None \<or> immediate_exit e)"
  using assms by (auto simp: send_event_def handle_signal_def run_on_thread_local_def Let_def split: if_splits prod.splits sum.splits option.splits)

section \<open>Properties\<close>

text \<open>C8: However the guest behaves and whenever events arrive, a vCPU thread handles its events in the order they were sent, moves only along the edges
  of its state machine, and sends exactly one response for every event but Exit while it is paused or running, and none once the guest has stopped.\<close>

theorem vcpu_keeps_protocol:
  assumes "kvm_ok os" "vcpu_steps os ops v0 sf v"
  shows "\<exists>handled rs new. protocol (vcpu_id v0) (\<not> events_open (venv v)) handled rs (sm_function sf) \<and>
    responses (venv v) = responses (venv v0) @ rs \<and> events (venv v0) @ new = handled @ events (venv v)"
  using steps_kept [OF assms(2,1)] by (auto simp: kept_def)

definition demo_kvm :: "(nat, nat list) kvm_os" where
  "demo_kvm = \<lparr>kvm_run = \<lambda>e. (if immediate_exit e then Inl EINTR else Inr (MmioWrite 0x1004 [7]), e), park = \<lambda>e. None,
     exit_evt_write = \<lambda>w. (Inr (), w), gettid = \<lambda>w. 42, apply_filter = \<lambda>w. (Inr (), w), thread_kill = \<lambda>w. (Inr (), w)\<rparr>"

definition demo_env :: "(nat, nat list) vcpu_env" where
  "demo_env = \<lparr>events = [], events_open = True, responses = [], responses_open = True, thread_alive = True, immediate_exit = False,
     tls_vcpu = Some 0, metric_ids = {0}, shared_io = demo_io, run_data = [], env_world = []\<rparr>"

definition demo_vcpu :: "bool \<Rightarrow> VcpuEvent list \<Rightarrow> (nat, nat list) Vcpu" where
  "demo_vcpu imm evs = \<lparr>vcpu_id = 0, io_mgr = IoManager_new, support_immediate_exit = imm,
     metrics = \<lparr>exit_io_in = 0, exit_io_out = 0, exit_mmio_read = 0, exit_mmio_write = 0, failures = 0\<rparr>,
     venv = demo_env\<lparr>events := evs\<rparr>\<rparr>"

lemma demo_kvm_ok: "kvm_ok demo_kvm" "honours_kick demo_kvm" "busy_guest demo_kvm"
  by (simp_all add: kvm_ok_def honours_kick_def busy_guest_def demo_kvm_def)

theorem vcpu_keeps_protocol_witness:
  "\<exists>v handled rs. vcpu_steps demo_kvm demo_ops (demo_vcpu False [Gettid, Resume]) (sm_next PausedFn) v \<and>
     protocol 0 False handled rs PausedFn \<and> rs = [Tid 0 42] \<and> hd handled = Gettid"
proof -
  let ?start = "demo_vcpu False [Gettid, Resume]"
  let ?v = "?start\<lparr>venv := demo_env\<lparr>events := [Resume], responses := [Tid 0 42]\<rparr>\<rparr>"
  have s: "vcpu_steps demo_kvm demo_ops ?start (sm_next PausedFn) ?v"
    by (rule vcpu_steps.tick [OF vcpu_steps.start], simp add: StateMachine_new_def)
      (simp add: StateMachine_new_def vcpu_handler_def paused_def recv_def try_recv_def send_response_def demo_vcpu_def demo_env_def demo_kvm_def)
  from vcpu_keeps_protocol [OF demo_kvm_ok(1) s] obtain handled rs new where p: "protocol 0 False handled rs PausedFn" "rs = [Tid 0 42]"
      "[Gettid, Resume] @ new = handled @ [Resume]"
    by (auto simp: demo_vcpu_def demo_env_def sm_next_def StateMachine_new_def)
  from p(3) have "hd handled = Gettid" by (cases handled) auto
  with s p show ?thesis by blast
qed


lemma demo_io_sorted: "io_inv demo_io"
  by (simp add: io_inv_iff demo_io_def)


text \<open>C35: Two events sent in a row can leave a vCPU running for ever: both kicks are absorbed by one interrupted run, which clears the flag and handles one
  event; the thread returns to a busy guest with Exit still in its channel, so the controller that joins it waits for ever.\<close>

theorem second_event_waits:
  assumes "kvm_ok os" "honours_kick os" "busy_guest os" "support_immediate_exit v" "io_inv (shared_io (venv v))" "responses_open (venv v)"
    and "tls_vcpu (venv v) \<noteq> None" "events (venv v) = []" "ev \<in> {Resume, Gettid, RevalidateCache}"
    and "send_event os ev (venv v) = Some (Inr (), e)" "send_event os Exit e = Some (Inr (), e')"
  shows "sm_loop (vcpu_handler os ops) (sm_next RunningFn) (v\<lparr>venv := e'\<rparr>) = None"
proof -
  let ?v = "v\<lparr>venv := e'\<rparr>"
  have e: "events e' = [ev, Exit]" "immediate_exit e'" "io_inv (shared_io e')" "responses_open e'"
    using send_event_effect [OF assms(10)] send_event_effect [OF assms(11)] assms(5-8) by auto
  obtain u where u: "emulation_loop os ops ?v = Some (Some (None, u))" "same_vcpu ?v u" "evolves (venv ?v) (venv u)" "\<not> immediate_exit (venv u)"
    by (rule interrupted_loop [OF assms(1,2), of ?v ops]) (use e in auto)
  obtain es where es: "events (venv u) = ev # es" using u(3) e(1) by (auto simp: evolves_def)
  have o: "responses_open (venv u)" "io_inv (shared_io (venv u))" "support_immediate_exit u" using u(2,3) e assms(4) by (auto simp: evolves_def same_vcpu_def)
  obtain v' where v': "running_event os u = Some (sm_next RunningFn, v')" "\<not> immediate_exit (venv v')" "support_immediate_exit v'" "io_inv (shared_io (venv v'))"
    using assms(9) es o u(4) by (auto simp: running_event_def try_recv_def send_response_def revalidate_cache_def io_load_def)
  have "sm_loop (vcpu_handler os ops) (sm_next RunningFn) ?v = sm_loop (vcpu_handler os ops) (sm_next RunningFn) v'"
    by (rule sm_loop_step) (use u(1) v'(1) in \<open>simp_all add: sm_next_def StateMachine_new_def vcpu_handler_def running_def\<close>)
  also have "\<dots> = None" by (rule busy_thread_never_ends [OF assms(1,3) v'(3,4,2)])
  finally show ?thesis .
qed

theorem second_event_waits_witness:
  "\<exists>e e'. send_event demo_kvm RevalidateCache (venv (demo_vcpu True [])) = Some (Inr (), e) \<and> send_event demo_kvm Exit e = Some (Inr (), e') \<and>
     sm_loop (vcpu_handler demo_kvm demo_ops) (sm_next RunningFn) (demo_vcpu True []\<lparr>venv := e'\<rparr>) = None"
proof -
  let ?e = "demo_env\<lparr>events := [RevalidateCache], immediate_exit := True\<rparr>"
  let ?e' = "demo_env\<lparr>events := [RevalidateCache, Exit], immediate_exit := True\<rparr>"
  have s: "send_event demo_kvm RevalidateCache (venv (demo_vcpu True [])) = Some (Inr (), ?e)" "send_event demo_kvm Exit ?e = Some (Inr (), ?e')"
    by (simp_all add: send_event_def demo_kvm_def demo_vcpu_def demo_env_def handle_signal_def run_on_thread_local_def)
  have "sm_loop (vcpu_handler demo_kvm demo_ops) (sm_next RunningFn) (demo_vcpu True []\<lparr>venv := ?e'\<rparr>) = None"
    by (rule second_event_waits [OF demo_kvm_ok _ _ _ _ _ _ s]) (simp_all add: demo_vcpu_def demo_env_def demo_io_sorted)
  with s show ?thesis by blast
qed

end
