(* ===== verification/VmClaims.thy ===== *)
theory VmClaims
  imports DeviceClaims VcpuClaims
begin

text \<open>
  The virtual machine: virtio MMIO devices that are plugged and unplugged while several vCPUs
  access them.  A vCPU exit goes through the emulation loop body, the cached I/O manager and the
  device's registers; all devices share one interrupt manager.
\<close>

section \<open>The machine\<close>

record ('q, 'w) vm =
  vm_ctx :: "('q, 'w) DeviceOpContext"
  vm_cpus :: "(nat, ('q, 'w) DeviceOpContext may_panic) Vcpu list"

datatype ('q, 'w) vm_op =
    PlugDevice "('q, 'w) VirtioDevice" "32 word option" bool
  | UnplugDevice nat
  | VmExit nat VcpuExit

text \<open>A KVM that reports the exit \<open>x\<close>; the vCPU shares the published I/O manager and the devices.\<close>

definition kvm_exit :: "VcpuExit \<Rightarrow> ('d, 'x) kvm_os" where
  "kvm_exit x = \<lparr>kvm_run = \<lambda>e. (Inr x, e), park = \<lambda>e. None, exit_evt_write = \<lambda>w. (Inr (), w), gettid = \<lambda>w. 0,
     apply_filter = \<lambda>w. (Inr (), w), thread_kill = \<lambda>w. (Inr (), w)\<rparr>"

definition attach :: "('q, 'w) DeviceOpContext \<Rightarrow> (nat, ('q, 'w) DeviceOpContext may_panic) Vcpu \<Rightarrow> (nat, ('q, 'w) DeviceOpContext may_panic) Vcpu" where
  "attach c v = upd_env (\<lambda>e. e\<lparr>shared_io := ctx_io c, env_world := Some c\<rparr>) v"

fun vm_step :: "nat \<Rightarrow> 'w mmio_os \<Rightarrow> ('q, 'w) QueueT \<Rightarrow> ('q, 'w) vm_op \<Rightarrow> ('q, 'w) vm \<Rightarrow> ('q, 'w) vm may_panic" where
  "vm_step mem_end os qt (PlugDevice vd features shared) s =
     map_option (\<lambda>r. s\<lparr>vm_ctx := snd r\<rparr>) (create_mmio_virtio_device_with_features mem_end os qt vd features shared True (vm_ctx s))"
| "vm_step mem_end os qt (UnplugDevice d) s = map_option (\<lambda>r. s\<lparr>vm_ctx := snd r\<rparr>) (destroy_virtio_device mem_end d (vm_ctx s))"
| "vm_step mem_end os qt (VmExit i x) s = do {
     v \<leftarrow> vec_at (vm_cpus s) i;
     r \<leftarrow> run_emulation (kvm_exit x) (virtio_bus os qt (vm_ctx s)) (attach (vm_ctx s) v);
     c \<leftarrow> env_world (venv (snd r));
     ret (s\<lparr>vm_ctx := c, vm_cpus := (vm_cpus s)[i := snd r]\<rparr>) }"

section \<open>The invariant\<close>

definition dev_state :: "('q, 'w) device_obj \<Rightarrow> ('q, 'w) DeviceOpContext \<Rightarrow> ('q, 'w) mmio_sys" where
  "dev_state ob c = \<lparr>mdev = obj_dev ob, mirqs = ctx_irqs c\<rparr>"

definition devices_ok :: "('q, 'w) QueueT \<Rightarrow> ('q, 'w) DeviceOpContext \<Rightarrow> bool" where
  "devices_ok qt c \<longleftrightarrow> (\<forall>r d. (r, d) \<in> set (mmio_bus (ctx_io c)) \<longrightarrow>
     (\<exists>ob. ctx_devs c d = Some ob \<and> backend_ok (obj_backend ob) \<and> mmio_inv (dev_state ob c) qt (dev_state ob c)))"

definition machine_ok :: "nat \<Rightarrow> ('q, 'w) QueueT \<Rightarrow> ('q, 'w) DeviceOpContext \<Rightarrow> bool" where
  "machine_ok mem_end qt c \<longleftrightarrow> ctx_inv mem_end c \<and> devices_ok qt c"

lemma mmio_inv_rebase: "mmio_inv z qt s \<Longrightarrow> mmio_inv s qt s"
  by (simp add: mmio_inv_def x_ok_def)

lemma mmio_inv_descends: "mmio_inv z qt s \<Longrightarrow> descends z s \<and> irq_ok (mirqs s)"
  by (simp add: mmio_inv_def x_ok_def d_ok_def)

text \<open>Another user of the interrupt manager leaves a device's invariant alone.\<close>

lemma mmio_inv_frame:
  assumes "mmio_inv s qt s" "stable (mirqs s) t" "irq_ok t"
  shows "mmio_inv (s\<lparr>mirqs := t\<rparr>) qt (s\<lparr>mirqs := t\<rparr>)"
  using assms dim_ok_stable [OF _ assms(2), of "intr_mgr (dstate (mdev s))"]
  by (auto simp: mmio_inv_def x_ok_def d_ok_def all_idle_def all_active_def)

lemma devices_ok_frame:
  assumes "devices_ok qt c" "created (ctx_irqs c) (ctx_irqs c')" "\<And>r d. (r, d) \<in> set (mmio_bus (ctx_io c')) \<Longrightarrow> (r, d) \<in> set (mmio_bus (ctx_io c)) \<and> ctx_devs c' d = ctx_devs c d"
  shows "devices_ok qt c'"
  unfolding devices_ok_def
proof (intro allI impI)
  fix r d assume "(r, d) \<in> set (mmio_bus (ctx_io c'))"
  then obtain ob where ob: "ctx_devs c' d = Some ob" "backend_ok (obj_backend ob)" "mmio_inv (dev_state ob c) qt (dev_state ob c)"
    using assms(1,3) unfolding devices_ok_def by metis
  have "mmio_inv ((dev_state ob c)\<lparr>mirqs := ctx_irqs c'\<rparr>) qt ((dev_state ob c)\<lparr>mirqs := ctx_irqs c'\<rparr>)"
    by (rule mmio_inv_frame [OF ob(3)]) (use assms(2) in \<open>simp_all add: created_def dev_state_def\<close>)
  then show "\<exists>ob. ctx_devs c' d = Some ob \<and> backend_ok (obj_backend ob) \<and> mmio_inv (dev_state ob c') qt (dev_state ob c')"
    using ob by (auto simp: dev_state_def)
qed

lemma access_inv:
  assumes ok: "machine_ok mem_end qt c" and m: "(r, d) \<in> set (mmio_bus (ctx_io c))"
    and w: "\<And>ob. ctx_devs c d = Some ob \<Longrightarrow> backend_ok (obj_backend ob) \<Longrightarrow> mmio_inv (dev_state ob c) qt (dev_state ob c) \<Longrightarrow>
      wp (f (obj_backend ob)) (\<lambda>_. mmio_access (dev_state ob c) qt (dev_state ob c)) (\<lambda>_ _. False) (dev_state ob c)"
  shows "\<exists>x c'. device_access f d c = Some (x, c') \<and> machine_ok mem_end qt c' \<and> ctx_io c' = ctx_io c"
proof -
  obtain ob where ob: "ctx_devs c d = Some ob" "backend_ok (obj_backend ob)" "mmio_inv (dev_state ob c) qt (dev_state ob c)"
    using ok m by (auto simp: machine_ok_def devices_ok_def)
  obtain x s' where a: "f (obj_backend ob) (dev_state ob c) = Some (Inr x, s')" "mmio_access (dev_state ob c) qt (dev_state ob c) s'"
    using w [OF ob] by (rule wp_resultE) auto
  let ?c = "c\<lparr>ctx_irqs := mirqs s', ctx_devs := (ctx_devs c)(d \<mapsto> ob\<lparr>obj_dev := mdev s'\<rparr>)\<rparr>"
  have inv: "mmio_inv (dev_state ob c) qt s'" using a(2) by (simp add: mmio_access_def)
  note d = mmio_inv_descends [OF inv]
  have st: "created (ctx_irqs c) (mirqs s')" using d by (simp add: created_def descends_def dev_state_def)
  have "devices_ok qt ?c"
    unfolding devices_ok_def
  proof (intro allI impI)
    fix r' d' assume m': "(r', d') \<in> set (mmio_bus (ctx_io ?c))"
    show "\<exists>ob. ctx_devs ?c d' = Some ob \<and> backend_ok (obj_backend ob) \<and> mmio_inv (dev_state ob ?c) qt (dev_state ob ?c)"
    proof (cases "d' = d")
      case True
      then show ?thesis using ob(2) mmio_inv_rebase [OF inv] by (cases s') (simp add: dev_state_def)
    next
      case False
      then obtain ob' where o: "ctx_devs c d' = Some ob'" "backend_ok (obj_backend ob')" "mmio_inv (dev_state ob' c) qt (dev_state ob' c)"
        using ok m' by (auto simp: machine_ok_def devices_ok_def)
      have "mmio_inv ((dev_state ob' c)\<lparr>mirqs := mirqs s'\<rparr>) qt ((dev_state ob' c)\<lparr>mirqs := mirqs s'\<rparr>)"
        by (rule mmio_inv_frame [OF o(3)]) (use st in \<open>simp_all add: created_def dev_state_def\<close>)
      then show ?thesis using False o by (simp add: dev_state_def)
    qed
  qed
  moreover have "ctx_inv mem_end ?c"
  proof -
    obtain H where H: "held mem_end H c" using ok by (auto simp: machine_ok_def ctx_inv_def)
    have "held mem_end H ?c" using H d ob(1) unfolding held_def by (simp add: descends_def dev_state_def)
    then show ?thesis using ok d created_msi [OF st] by (auto simp: machine_ok_def ctx_inv_def)
  qed
  moreover have "device_access f d c = Some (x, ?c)" using a(1) ob(1) by (simp add: device_access_def dev_state_def)
  ultimately show ?thesis by (simp add: machine_ok_def)
qed

lemma bus_access:
  assumes os: "mmio_os_ok os" "queue_laws qt" and ok: "machine_ok mem_end qt c" and m: "(r, d) \<in> set (mmio_bus (ctx_io c))"
  shows "\<exists>c'. snd (dev_read (virtio_bus os qt c0) d base off bs (Some c)) = Some c' \<and> machine_ok mem_end qt c' \<and> ctx_io c' = ctx_io c"
    "\<exists>c'. dev_write (virtio_bus os qt c0) d base off bs (Some c) = Some c' \<and> machine_ok mem_end qt c' \<and> ctx_io c' = ctx_io c"
proof -
  obtain x c' where "device_access (\<lambda>vd. mmio_dev_read qt vd off bs) d c = Some (x, c')" "machine_ok mem_end qt c'" "ctx_io c' = ctx_io c"
    using access_inv [OF ok m, of "\<lambda>vd. mmio_dev_read qt vd off bs"] read_wp by blast
  then show "\<exists>c'. snd (dev_read (virtio_bus os qt c0) d base off bs (Some c)) = Some c' \<and> machine_ok mem_end qt c' \<and> ctx_io c' = ctx_io c"
    by (simp add: virtio_bus_def)
  obtain x c' where "device_access (\<lambda>vd. mmio_dev_write os qt vd off bs) d c = Some (x, c')" "machine_ok mem_end qt c'" "ctx_io c' = ctx_io c"
    using access_inv [OF ok m, of "\<lambda>vd. mmio_dev_write os qt vd off bs"] write_wp [OF os(1) _ os(2)] by blast
  then show "\<exists>c'. dev_write (virtio_bus os qt c0) d base off bs (Some c) = Some c' \<and> machine_ok mem_end qt c' \<and> ctx_io c' = ctx_io c"
    by (simp add: virtio_bus_def)
qed

section \<open>Steps\<close>

lemma kvm_exit_ok: "kvm_ok (kvm_exit x)"
  by (simp add: kvm_ok_def kvm_exit_def)

definition world_ok :: "nat \<Rightarrow> ('q, 'w) QueueT \<Rightarrow> (nat, ('q, 'w) DeviceOpContext may_panic) Vcpu \<Rightarrow> bool" where
  "world_ok mem_end qt v \<longleftrightarrow> (\<exists>c. env_world (venv v) = Some c \<and> machine_ok mem_end qt c)"

lemma mmio_dispatch:
  assumes os: "mmio_os_ok os" "queue_laws qt" and ok: "machine_ok mem_end qt c"
  shows "\<exists>res bs' c'. mmio_read (virtio_bus os qt c0) (ctx_io c) addr bs (Some c) = Some (res, bs', Some c') \<and> machine_ok mem_end qt c'"
    "\<exists>res c'. mmio_write (virtio_bus os qt c0) (ctx_io c) addr bs (Some c) = Some (res, Some c') \<and> machine_ok mem_end qt c'"
proof -
  have wf: "bus_wf (mmio_bus (ctx_io c))" using ctx_bus_wf ok by (auto simp: machine_ok_def)
  have s: "bt_sorted iobase (mmio_bus (ctx_io c))" using wf by (simp add: bus_wf_def)
  consider "get_mmio_device (ctx_io c) addr = Some None"
    | r d where "get_mmio_device (ctx_io c) addr = Some (Some (d, iobase r))" "(r, d) \<in> set (mmio_bus (ctx_io c))" "checked_sub addr (iobase r) = Some (addr - iobase r)"
    using bt_floor_Some(1) [OF s] floor_checked_sub [OF s] unfolding get_mmio_device_eq [OF wf] by (cases "bt_floor iobase (mmio_bus (ctx_io c)) addr") fastforce+
  then have "(\<exists>res bs' c'. mmio_read (virtio_bus os qt c0) (ctx_io c) addr bs (Some c) = Some (res, bs', Some c') \<and> machine_ok mem_end qt c') \<and>
    (\<exists>res c'. mmio_write (virtio_bus os qt c0) (ctx_io c) addr bs (Some c) = Some (res, Some c') \<and> machine_ok mem_end qt c')"
  proof cases
    case 1
    then show ?thesis using ok by (simp add: mmio_read_def mmio_write_def)
  next
    case (2 r d)
    from bus_access [OF os ok 2(2), of c0 "iobase r" "addr - iobase r" bs] 2(1,3) show ?thesis
      by (cases "dev_read (virtio_bus os qt c0) d (iobase r) (addr - iobase r) bs (Some c)") (auto simp: mmio_read_def mmio_write_def)
  qed
  then show "\<exists>res bs' c'. mmio_read (virtio_bus os qt c0) (ctx_io c) addr bs (Some c) = Some (res, bs', Some c') \<and> machine_ok mem_end qt c'"
    "\<exists>res c'. mmio_write (virtio_bus os qt c0) (ctx_io c) addr bs (Some c) = Some (res, Some c') \<and> machine_ok mem_end qt c'"
    by blast+
qed

lemma cached_world:
  assumes os: "mmio_os_ok os" "queue_laws qt" and ok: "machine_ok mem_end qt c" and v: "shared_io (venv v) = ctx_io c" "env_world (venv v) = Some c"
  shows "cached_mmio_read (virtio_bus os qt c0) addr bs v = Some v' \<Longrightarrow> world_ok mem_end qt v'"
    "cached_mmio_write (virtio_bus os qt c0) addr bs v = Some v' \<Longrightarrow> world_ok mem_end qt v'"
    "cached_pio_read (virtio_bus os qt c0) addr bs v = Some v' \<Longrightarrow> world_ok mem_end qt v'"
    "cached_pio_write (virtio_bus os qt c0) addr bs v = Some v' \<Longrightarrow> world_ok mem_end qt v'"
proof -
  show "cached_mmio_read (virtio_bus os qt c0) addr bs v = Some v' \<Longrightarrow> world_ok mem_end qt v'"
    using mmio_dispatch(1) [OF os ok, of c0 addr bs] v by (auto simp: cached_mmio_read_def io_load_def world_ok_def)
  show "cached_mmio_write (virtio_bus os qt c0) addr bs v = Some v' \<Longrightarrow> world_ok mem_end qt v'"
    using mmio_dispatch(2) [OF os ok, of c0 addr bs] v by (auto simp: cached_mmio_write_def io_load_def world_ok_def)
  show "cached_pio_read (virtio_bus os qt c0) addr bs v = Some v' \<Longrightarrow> world_ok mem_end qt v'"
    using v ok by (auto simp: cached_pio_read_def io_load_def pio_read_def Let_def world_ok_def virtio_bus_def split: bind_splits option.splits prod.splits)
  show "cached_pio_write (virtio_bus os qt c0) addr bs v = Some v' \<Longrightarrow> world_ok mem_end qt v'"
    using v ok by (auto simp: cached_pio_write_def io_load_def pio_write_def Let_def world_ok_def virtio_bus_def split: bind_splits option.splits prod.splits)
qed

lemma exit_step:
  assumes os: "mmio_os_ok os" "queue_laws qt" and ok: "machine_ok mem_end qt (vm_ctx s)" and i: "i < length (vm_cpus s)"
  shows "\<exists>s'. vm_step mem_end os qt (VmExit i x) s = Some s' \<and> machine_ok mem_end qt (vm_ctx s')"
proof -
  let ?v = "attach (vm_ctx s) (vm_cpus s ! i)" and ?ops = "virtio_bus os qt (vm_ctx s)"
  have v: "shared_io (venv ?v) = ctx_io (vm_ctx s)" "env_world (venv ?v) = Some (vm_ctx s)" by (simp_all add: attach_def)
  have io: "io_inv (shared_io (venv ?v))" using ok v(1) by (simp add: machine_ok_def ctx_inv_def)
  obtain r v' where r: "run_emulation (kvm_exit x) ?ops ?v = Some (r, v')" using run_emulation_total [OF kvm_exit_ok io] by blast
  note w = cached_world [OF os ok, of ?v "vm_ctx s", OF v]
  have same: "world_ok mem_end qt u" if "venv u = venv ?v" for u using that v(2) ok by (simp add: world_ok_def)
  have keep: "world_ok mem_end qt (u\<lparr>metrics := k\<rparr>) = world_ok mem_end qt u" for u k by (simp add: world_ok_def)
  have "world_ok mem_end qt v'"
    using r w same [of ?v] same by (cases x) (auto simp: run_emulation_def kvm_exit_def Let_def keep fail_metric_def split: bind_splits if_splits)
  then show ?thesis using r i by (auto simp: world_ok_def vec_at_def)
qed

lemma created_bus:
  assumes c: "ctx_inv mem_end c" and a: "created_as mem_end qt vd shared generic c d c'" and m: "(r', d') \<in> set (mmio_bus (ctx_io c'))"
  shows "d' = d \<or> (r', d') \<in> set (mmio_bus (ctx_io c)) \<and> d' \<noteq> d"
proof -
  obtain base where reg: "reg_state (ctx_io c) d [MmioAddressRange base 0x2000] (ctx_io c')" and d: "d = ctx_next c" using a unfolding created_as_def by force
  obtain H where H: "held mem_end H c" and io: "io_inv (ctx_io c)" using c by (auto simp: ctx_inv_def)
  have f: "io_find (ctx_io c') (Mmio, iobase r') = Some (r', d')" using m reg bus_find [of "ctx_io c'" r' d'] by (simp add: reg_state_def)
  show ?thesis
  proof (cases "iobase r' = base")
    case True
    then show ?thesis using f reg by (simp add: reg_state_def)
  next
    case False
    then have "(r', d') \<in> set (mmio_bus (ctx_io c))" using f reg unfolding bus_find [OF io] by (simp add: reg_state_def res_slot_def del: io_find_simps)
    then show ?thesis by blast
  qed
qed

definition plug_served :: "'w mmio_os \<Rightarrow> ('q, 'w) QueueT \<Rightarrow> ('q, 'w) VirtioDevice \<Rightarrow> bool" where
  "plug_served os qt vd \<longleftrightarrow> plug_ok os qt vd True \<and> backend_ok vd \<and> (\<exists>n. CGenericIrq n \<in> set (mmio_requests vd True))"

lemma created_machine:
  assumes ok: "machine_ok mem_end qt c" and p: "plug_served os qt vd" and a: "created_as mem_end qt vd shared True c d c'"
  shows "machine_ok mem_end qt c'"
proof -
  have c: "ctx_inv mem_end c" using ok by (simp add: machine_ok_def)
  obtain dev rs hs where x: "served shared (mmio_requests vd True) rs hs" "fresh_dev qt rs \<lparr>mdev = dev, mirqs = ctx_irqs c'\<rparr>" "created (ctx_irqs c) (ctx_irqs c')"
      "ctx_devs c' = (ctx_devs c)(d \<mapsto> \<lparr>obj_dev = dev, obj_backend = vd\<rparr>)"
    using a unfolding created_as_def by force
  have "get_legacy_irq rs \<noteq> None" "get_generic_msi_irqs rs \<noteq> None"
    using served_legacy [OF x(1)] served_generic [OF x(1)] p by (auto simp: plug_served_def plug_ok_def)
  then have new: "mmio_inv \<lparr>mdev = dev, mirqs = ctx_irqs c'\<rparr> qt \<lparr>mdev = dev, mirqs = ctx_irqs c'\<rparr>" by (intro fresh_inv [OF x(2)]) (simp add: offered_def)
  have "devices_ok qt c'"
    unfolding devices_ok_def
  proof (intro allI impI)
    fix r' d' assume m: "(r', d') \<in> set (mmio_bus (ctx_io c'))"
    show "\<exists>ob. ctx_devs c' d' = Some ob \<and> backend_ok (obj_backend ob) \<and> mmio_inv (dev_state ob c') qt (dev_state ob c')"
    proof (cases "d' = d")
      case True
      then show ?thesis using new p x(4) by (simp add: dev_state_def plug_served_def)
    next
      case False
      then have old: "(r', d') \<in> set (mmio_bus (ctx_io c))" using created_bus [OF c a m] by blast
      then obtain ob where ob: "ctx_devs c d' = Some ob" "backend_ok (obj_backend ob)" "mmio_inv (dev_state ob c) qt (dev_state ob c)"
        using ok by (auto simp: machine_ok_def devices_ok_def)
      have "mmio_inv ((dev_state ob c)\<lparr>mirqs := ctx_irqs c'\<rparr>) qt ((dev_state ob c)\<lparr>mirqs := ctx_irqs c'\<rparr>)"
        by (rule mmio_inv_frame [OF ob(3)]) (use x(3) in \<open>simp_all add: created_def dev_state_def\<close>)
      then show ?thesis using False ob x(4) by (simp add: dev_state_def)
    qed
  qed
  then show ?thesis using created_inv [OF c _ a] p by (auto simp: machine_ok_def plug_served_def)
qed

lemma plug_step:
  assumes ok: "machine_ok mem_end qt (vm_ctx s)" and p: "plug_served os qt vd"
  shows "\<exists>s'. vm_step mem_end os qt (PlugDevice vd features shared) s = Some s' \<and> machine_ok mem_end qt (vm_ctx s')"
proof -
  have c: "ctx_inv mem_end (vm_ctx s)" and q: "plug_ok os qt vd True" using ok p by (simp_all add: machine_ok_def plug_served_def)
  have refused: "machine_ok mem_end qt c'" if no: "refused_as mem_end (vm_ctx s) e c'" for e c'
  proof -
    obtain hs rm t where r: "tracked mem_end (ctx_res (vm_ctx s)) hs rm" "created (ctx_irqs (vm_ctx s)) t" "c' = (vm_ctx s)\<lparr>ctx_res := rm, ctx_irqs := t\<rparr>"
      using no unfolding refused_as_def by blast
    have "devices_ok qt c'" by (rule devices_ok_frame [of qt "vm_ctx s"]) (use ok r in \<open>auto simp: machine_ok_def\<close>)
    then show ?thesis using inv_grow [OF c r(1,2)] r(3) by (simp add: machine_ok_def)
  qed
  have "wp (create_mmio_virtio_device_with_features mem_end os qt vd features shared True) (\<lambda>_. machine_ok mem_end qt) (\<lambda>_. machine_ok mem_end qt) (vm_ctx s)"
    by (rule wp_mono [OF create_wp [OF q c]]) (use created_machine [OF ok p] refused in blast)+
  then show ?thesis by (rule wp_resultE) auto
qed

lemma unplug_step:
  assumes ok: "machine_ok mem_end qt (vm_ctx s)" and d: "d \<in> snd ` set (mmio_bus (ctx_io (vm_ctx s)))"
  shows "\<exists>s'. vm_step mem_end os qt (UnplugDevice d) s = Some s' \<and> machine_ok mem_end qt (vm_ctx s')"
proof -
  have c: "ctx_inv mem_end (vm_ctx s)" using ok by (simp add: machine_ok_def)
  obtain r where r: "(r, d) \<in> set (mmio_bus (ctx_io (vm_ctx s)))" using d by auto
  then obtain ob where ob: "ctx_devs (vm_ctx s) d = Some ob" using ok by (auto simp: machine_ok_def devices_ok_def)
  obtain hs c' where u: "destroy_virtio_device mem_end d (vm_ctx s) = Some (Ok (), c')" "ctx_inv mem_end c'" "unplugged mem_end (vm_ctx s) r hs c'"
    using destroy_inv [OF c r ob] by blast
  have io: "io_inv (ctx_io (vm_ctx s))" "io_inv (ctx_io c')" using c u(2) by (auto simp: ctx_inv_def)
  have bus: "(r', d') \<in> set (mmio_bus (ctx_io c')) \<Longrightarrow> (r', d') \<in> set (mmio_bus (ctx_io (vm_ctx s)))" for r' d'
    using u(3) unfolding bus_find [OF io(1)] bus_find [OF io(2)] by (auto simp: unplugged_def simp del: io_find_simps split: if_splits)
  have "created (ctx_irqs (vm_ctx s)) (ctx_irqs c')" using u(2,3) c by (auto simp: unplugged_def world_irq_def created_def ctx_inv_def)
  then have "devices_ok qt c'" by (rule devices_ok_frame [of qt "vm_ctx s", rotated]) (use ok u(3) bus in \<open>auto simp: machine_ok_def unplugged_def\<close>)
  then show ?thesis using u by (simp add: machine_ok_def)
qed

section \<open>Runs\<close>

text \<open>What may happen next: devices that keep their contract and have message-signalled interrupts are plugged, plugged devices are unplugged, and any vCPU exits for any reason.\<close>

fun vm_may :: "'w mmio_os \<Rightarrow> ('q, 'w) QueueT \<Rightarrow> ('q, 'w) vm_op \<Rightarrow> ('q, 'w) vm \<Rightarrow> bool" where
  "vm_may os qt (PlugDevice vd features shared) s = plug_served os qt vd"
| "vm_may os qt (UnplugDevice d) s = (d \<in> snd ` set (mmio_bus (ctx_io (vm_ctx s))))"
| "vm_may os qt (VmExit i x) s = (i < length (vm_cpus s))"

abbreviation vm_reach :: "nat \<Rightarrow> 'w mmio_os \<Rightarrow> ('q, 'w) QueueT \<Rightarrow> ('q, 'w) vm \<Rightarrow> ('q, 'w) vm \<Rightarrow> bool" where
  "vm_reach mem_end os qt \<equiv> reachable (vm_may os qt) (vm_step mem_end os qt)"

definition booted :: "nat \<Rightarrow> ('q, 'w) vm \<Rightarrow> bool" where
  "booted mem_end s \<longleftrightarrow> rm_inv mem_end (ctx_res (vm_ctx s)) \<and> irq_ok (ctx_irqs (vm_ctx s)) \<and> msi_limit_ok (ctx_irqs (vm_ctx s)) \<and> ctx_io (vm_ctx s) = IoManager_new"

lemma booted_ok: "booted mem_end s \<Longrightarrow> machine_ok mem_end qt (vm_ctx s)"
  using boot_inv by (auto simp: booted_def machine_ok_def devices_ok_def IoManager_new_def)

lemma vm_step_ok:
  assumes "mmio_os_ok os" "queue_laws qt" "machine_ok mem_end qt (vm_ctx s)" "vm_may os qt a s"
  shows "\<exists>s'. vm_step mem_end os qt a s = Some s' \<and> machine_ok mem_end qt (vm_ctx s')"
proof (cases a)
  case (PlugDevice vd features shared)
  then show ?thesis using plug_step [OF assms(3)] assms(4) by (simp del: vm_step.simps)
next
  case (UnplugDevice d)
  then show ?thesis using unplug_step [OF assms(3)] assms(4) by (simp del: vm_step.simps)
next
  case (VmExit i x)
  then show ?thesis using exit_step [OF assms(1-3)] assms(4) by (simp del: vm_step.simps)
qed

interpretation machine: guarded_system "vm_may os qt" "vm_step mem_end os qt"
  "\<lambda>s. mmio_os_ok os \<and> queue_laws qt \<and> machine_ok mem_end qt (vm_ctx s)" for mem_end os qt
  by unfold_locales (use vm_step_ok in blast)

lemma vm_reach_ok: "vm_reach mem_end os qt s0 s \<Longrightarrow> mmio_os_ok os \<Longrightarrow> queue_laws qt \<Longrightarrow> booted mem_end s0 \<Longrightarrow> machine_ok mem_end qt (vm_ctx s)"
  using machine.reachable_inv booted_ok by blast

section \<open>Example\<close>

definition demo_vm :: "(nat \<times> bool, unit) vm" where
  "demo_vm = \<lparr>vm_ctx = demo_ctx, vm_cpus = [\<lparr>vcpu_id = 0, io_mgr = IoManager_new, support_immediate_exit = True,
     metrics = \<lparr>exit_io_in = 0, exit_io_out = 0, exit_mmio_read = 0, exit_mmio_write = 0, failures = 0\<rparr>,
     venv = \<lparr>events = [], events_open = True, responses = [], responses_open = True, thread_alive = True, immediate_exit = False,
       tls_vcpu = Some 0, metric_ids = {0}, shared_io = IoManager_new, run_data = [], env_world = None\<rparr>\<rparr>]\<rparr>"

lemma demo_booted: "booted 0x7fffffffff demo_vm"
  by (simp add: booted_def demo_vm_def demo_ctx_def demo_plug_rm_inv manager_new_ok)

lemma demo_plug_served: "plug_served demo_mmio_os demo_qt demo_plug_vd"
  using demo_plug_ok demo_ok(4) by (auto simp: plug_served_def backend_ok_def demo_plug_vd_def mmio_requests_def)

lemma demo_plugged:
  "\<exists>s. vm_reach 0x7fffffffff demo_mmio_os demo_qt demo_vm s \<and> (\<exists>r d. (r, d) \<in> set (mmio_bus (ctx_io (vm_ctx s))) \<and> iosize r = 0x2000) \<and> length (vm_cpus s) = 1"
proof -
  obtain d c where c: "create_mmio_virtio_device_with_features 0x7fffffffff demo_mmio_os demo_qt demo_plug_vd (Some 4) False True demo_ctx = Some (Inr d, c)"
    using demo_created by blast
  let ?s = "demo_vm\<lparr>vm_ctx := c\<rparr>"
  have "vm_step 0x7fffffffff demo_mmio_os demo_qt (PlugDevice demo_plug_vd (Some 4) False) demo_vm = Some ?s" using c by (simp add: demo_vm_def)
  then have r: "vm_reach 0x7fffffffff demo_mmio_os demo_qt demo_vm ?s"
    by (intro reachable.step [OF reachable.start, where a = "PlugDevice demo_plug_vd (Some 4) False"]) (simp_all add: demo_plug_served del: vm_step.simps)
  have "created_as 0x7fffffffff demo_qt demo_plug_vd False True demo_ctx d c" by (rule wp_result(1) [OF create_wp [OF demo_plug_ok demo_ctx_inv] c])
  then obtain base where reg: "reg_state (ctx_io demo_ctx) d [MmioAddressRange base 0x2000] (ctx_io c)" unfolding created_as_def by force
  have "(\<lparr>iobase = base, iosize = 0x2000\<rparr>, d) \<in> set (mmio_bus (ctx_io c))"
    using reg bus_find [of "ctx_io c" "\<lparr>iobase = base, iosize = 0x2000\<rparr>" d] by (simp add: reg_state_def)
  then show ?thesis using r by (intro exI [of _ ?s]) (auto simp: demo_vm_def intro!: exI)
qed

section \<open>Properties\<close>



text \<open>C7: In every state of the machine, a write of a vCPU to an address in the window of a plugged device is exactly a register write of that device at the
  offset into its window; no other device takes part.\<close>

theorem access_reaches_its_device:
  assumes "mmio_os_ok os" "queue_laws qt" "booted mem_end s0" "vm_reach mem_end os qt s0 s" "i < length (vm_cpus s)"
    and "(r, d) \<in> set (mmio_bus (ctx_io (vm_ctx s)))" "iobase r \<le> addr" "addr < iobase r + iosize r"
  shows "\<exists>s' x. vm_step mem_end os qt (VmExit i (MmioWrite addr bs)) s = Some s' \<and>
    device_access (\<lambda>vd. mmio_dev_write os qt vd (addr - iobase r) bs) d (vm_ctx s) = Some (x, vm_ctx s') \<and>
    (\<forall>d'. d' \<noteq> d \<longrightarrow> ctx_devs (vm_ctx s') d' = ctx_devs (vm_ctx s) d') \<and> ctx_io (vm_ctx s') = ctx_io (vm_ctx s)"
proof -
  have ok: "machine_ok mem_end qt (vm_ctx s)" by (rule vm_reach_ok [OF assms(4,1-3)])
  have wf: "bus_wf (mmio_bus (ctx_io (vm_ctx s)))" using ctx_bus_wf ok by (auto simp: machine_ok_def)
  have "owner (mmio_bus (ctx_io (vm_ctx s))) addr (r, d)" using assms(6-8) by (auto simp: owner_def io_pts_def)
  then have g: "get_mmio_device (ctx_io (vm_ctx s)) addr = Some (Some (d, iobase r))" by (simp add: get_mmio_device_eq [OF wf] owner_iff [OF wf])
  obtain x c' where a: "device_access (\<lambda>vd. mmio_dev_write os qt vd (addr - iobase r) bs) d (vm_ctx s) = Some (x, c')" "ctx_io c' = ctx_io (vm_ctx s)"
    using access_inv [OF ok assms(6), of "\<lambda>vd. mmio_dev_write os qt vd (addr - iobase r) bs"] write_wp [OF assms(1) _ assms(2)] by blast
  have others: "ctx_devs c' d' = ctx_devs (vm_ctx s) d'" if "d' \<noteq> d" for d'
    using a(1) that by (auto simp: device_access_def split: option.splits sum.splits)
  obtain s' where "vm_step mem_end os qt (VmExit i (MmioWrite addr bs)) s = Some s'" "vm_ctx s' = c'"
    using assms(5,7) g a(1)
    by (simp add: vec_at_def run_emulation_def kvm_exit_def Let_def cached_mmio_write_def io_load_def attach_def mmio_write_def checked_sub_def virtio_bus_def)
  then show ?thesis using a others by blast
qed

theorem access_reaches_its_device_witness:
  "\<exists>s s' (r :: IoRange) d x. vm_reach 0x7fffffffff demo_mmio_os demo_qt demo_vm s \<and>
     vm_step 0x7fffffffff demo_mmio_os demo_qt (VmExit 0 (MmioWrite (iobase r + 0x70) [1, 0, 0, 0])) s = Some s' \<and>
     device_access (\<lambda>vd. mmio_dev_write demo_mmio_os demo_qt vd 0x70 [1, 0, 0, 0]) d (vm_ctx s) = Some (x, vm_ctx s')"
proof -
  obtain s r d where s: "vm_reach 0x7fffffffff demo_mmio_os demo_qt demo_vm s" "(r, d) \<in> set (mmio_bus (ctx_io (vm_ctx s)))" "iosize r = 0x2000" "0 < length (vm_cpus s)"
    using demo_plugged by force
  have "iobase r \<le> iobase r + 0x70" "iobase r + 0x70 < iobase r + iosize r" using s(3) by simp_all
  from access_reaches_its_device [OF demo_ok(1,5) demo_booted s(1,4,2) this, of "[1, 0, 0, 0]"] s(1) show ?thesis unfolding add_diff_cancel_left' by blast
qed

end
