(* ===== verification/Spec2Isabelle.thy ===== *)
theory Spec2Isabelle
  imports AllocatorClaims ResourceClaims IoClaims AddressClaims RateClaims VsockClaims MuxClaims VmClaims
begin

text \<open>
  Verification of the core of Dragonball, the built-in virtual machine monitor of Kata Containers
  (\<open>src/src/dragonball\<close>).  The paths below are relative to that directory.

  \<^bold>\<open>The program.\<close>  A monitor runs a guest on several vCPU threads.  A guest access to a port or to device
  memory leaves the guest; the thread looks up the device in its cached copy of the I/O manager and calls it.
  The devices treated here are virtio devices behind the MMIO transport.  The device manager creates one by
  taking address ranges, interrupts and memory slots from the resource manager, whose pools are interval trees,
  by building the transport with its interrupt groups, and by publishing the device on the I/O manager.  Guest memory
  is laid out around the MMIO hole by the address space manager, from the same pools.  One backend, the vsock device, is
  treated in depth: a muxer turns the packets of one virtio device into many stream connections with
  processes on the host.  A rate limiter throttles the queues of block and network devices.

  \<^bold>\<open>Conventions\<close> (\<open>Prelude\<close>, \<open>Effects\<close>, \<open>EffLogic\<close>, \<open>Bytes\<close>, \<open>OrderedMap\<close>, \<open>Systems\<close>).
  \<^item> Unsigned integers are natural numbers with checked operations; where the code asks for wrap-around, and for registers
    and flags, they are machine words.
  \<^item> \<open>None\<close> of type \<open>may_panic\<close> is a panic: an explicit one, a failing \<open>unwrap\<close>, an index out of range or an arithmetic overflow
    (as in a build with overflow checks).  A \<open>Result\<close> is a sum with \<open>Inl\<close> the error.
  \<^item> \<open>eff\<close> is stateful code that may fail or panic; \<open>wp\<close> is its weakest precondition, total in that it excludes panics.
  \<^item> A loop that may run for ever is a \<open>partial_function\<close>, in which not returning is \<open>None\<close>; that it returns is then a theorem.
    All other loops are total functions; no fuel is used.
  \<^item> KVM, system calls, clocks, third-party crates and device backends are records of functions over a world of any type.
    What is required of them is a named predicate among the hypotheses (\<open>mmio_os_ok\<close>, \<open>backend_ok\<close>, \<open>queue_laws\<close>, \<open>kvm_ok\<close>, \<open>os_ok\<close>, ...), satisfied by
    the example instances in the witnesses.  In general they may fail at any call, but they return.
  \<^item> A method that holds the lock of its object throughout is one state transition.  Log statements are left out.

  \<^bold>\<open>Interval tree allocator\<close> (\<open>dbs_allocator/src/lib.rs\<close>, \<open>interval_tree.rs\<close>).  \<open>AllocRange\<close> and \<open>IntervalTree\<close> hold the definitions, with the AVL
  rotations as written.  \<open>ItreeBalance\<close> proves the representation invariant of every node operation, \<open>ItreePool\<close>, \<open>ItreeAlloc\<close> and \<open>ItreeFree\<close> the view of a tree as a pool
  of numbers.  \<open>AllocatorClaims\<close>: insertion, deletion, lookups, allocation and release do exactly what they should on that view; allocation fails only if no
  window fits; the height is logarithmic.  \<open>PoolInterface\<close> is the contract \<open>range_pool\<close> of a pool; \<open>ItreeFree\<close> interprets it on the tree.

  \<^bold>\<open>Resource manager\<close> (\<open>dbs_device/src/resources.rs\<close>, \<open>src/resource_manager.rs\<close>, constants of \<open>dbs_boot/src/x86_64/layout.rs\<close>).  \<open>Resources\<close> and \<open>ResourceManager\<close> hold the definitions for x86_64;
  the end of guest memory is a parameter, since it depends on the host.  \<open>ResourceRollback\<close> works through \<open>range_pool\<close> only.  \<open>ResourceClaims\<close>: the manager starts with the intended
  pools; allocation for a device is all or nothing, in order, disjoint and total under stated conditions; release undoes it; ranges at the top of the spaces are never released.

  \<^bold>\<open>I/O manager\<close> (\<open>dbs_device/src/lib.rs\<close>, \<open>device_manager.rs\<close>).  \<open>IoManager\<close> holds the definitions over a model of \<open>BTreeMap\<close>; a device is its identity, its methods a record.  \<open>IoClaims\<close>: when
  registration succeeds and what it changes, its inverse, exact dispatch, and the refused registration that takes over a range.  \<open>BusInterface\<close> is the contract \<open>device_bus\<close>, interpreted in \<open>IoClaims\<close>
  and used by the device manager.

  \<^bold>\<open>Guest address space\<close> (\<open>dbs_address_space/src\<close>, \<open>src/address_space_manager.rs\<close>).  \<open>AddressRegion\<close>, \<open>AddressSpace\<close> and \<open>AddressSpaceMgr\<close> hold the definitions.  \<open>AddressClaims\<close>: which
  lists of regions make an address space, insertion, queries, that the created address space is the reference plan around the hole, and that the threads that touch pages in advance cover each page once.

  \<^bold>\<open>Rate limiter\<close> (\<open>dbs_utils/src/rate_limiter.rs\<close>).  \<open>RateLimiter\<close> takes clock readings as arguments and rounds floating point to 53 bits.  \<open>RateClaims\<close>: well-formedness, the refill formula, the bound on
  the tokens granted over any run, recovery from blocking, and how requests beyond the size of the bucket double the rate.

  \<^bold>\<open>Vsock\<close> (\<open>dbs_virtio_devices/src/vsock\<close>).
  \<^item> \<open>TxBuf\<close> (\<open>csm/txbuf.rs\<close>) with its refinement to a bounded queue; \<open>VsockPacket\<close> (\<open>packet.rs\<close>); \<open>VsockConn\<close> (\<open>csm/connection.rs\<close>) with counters at 32 bits.  \<open>VsockClaims\<close>: bytes reach the
    stream in order and once, states follow the protocol, credit is respected on both sides, packets stay in bounds.
  \<^item> \<open>VsockQueues\<close> (\<open>muxer_rxq.rs\<close>, \<open>muxer_killq.rs\<close>), \<open>PortRequest\<close> (host commands) and \<open>VsockMuxer\<close> (\<open>muxer_impl.rs\<close>, \<open>backend/hybrid_stream.rs\<close>).  \<open>VsockTotal\<close>, \<open>MuxLogic\<close>, \<open>MuxOps\<close>,
    \<open>MuxSweep\<close>, \<open>MuxPorts\<close>, \<open>MuxTotal\<close> and \<open>MuxRecv\<close> prove that every operation returns and keeps the invariant.  \<open>MuxClaims\<close>: in every run the muxer does not panic or diverge and stays
    within its limits, nothing pending is lost, packets do not disturb other connections, host commands are read exactly.

  \<^bold>\<open>Interrupts\<close> (\<open>dbs_interrupt/src\<close>).  \<open>IrqManager\<close> models the routing table, legacy and MSI groups over KVM, the manager of the interrupts of a device, status register and notifiers.  Groups are shared, so they live in a store.
  \<open>IrqLogic\<close>: every operation returns, and the one case in which enabling interrupts panics.

  \<^bold>\<open>MMIO transport\<close> (\<open>dbs_virtio_devices/src/mmio\<close>, with types of \<open>device.rs\<close>, \<open>lib.rs\<close> and \<open>notifier.rs\<close>).  \<open>VirtioMmio\<close> has all registers, the driver status machine, activation, reset and I/O events.
  \<open>MmioLogic\<close> proves the invariant of an access.  \<open>MmioClaims\<close>: under any sequence of guest accesses the device does not panic and device, interrupts and I/O events are active or at rest together;
  the status follows the protocol; without an MSI group a guest can crash the monitor.

  \<^bold>\<open>Device manager\<close> (\<open>src/device_manager/mod.rs\<close>).  \<open>DeviceManager\<close> creates, publishes, withdraws and destroys virtio MMIO devices and connects their registers to the I/O manager.  \<open>DeviceLogic\<close>: what is on the bus is
  held in the pools.  \<open>DeviceClaims\<close>: unplugging restores bus and pools; a refused device leaks its resources.

  \<^bold>\<open>vCPU threads\<close> (\<open>src/vcpu/vcpu_impl.rs\<close>, \<open>vcpu/sm.rs\<close>, \<open>src/io_manager.rs\<close>).  \<open>Vcpu\<close> models the thread, its state machine and the cached I/O manager; other threads act while the guest runs and while the thread waits.
  \<open>VcpuLogic\<close> describes one step, \<open>VcpuClaims\<close>: events are handled in order with the responses of the protocol; a thread told to exit ends; two events at once can leave the second unseen.

  \<^bold>\<open>The machine\<close> (\<open>VmClaims\<close>) composes device manager, resource manager, I/O manager, interrupts, transport and vCPUs: devices are plugged and unplugged while vCPUs exit for any reason.  No operation panics in any reachable
  state, and an access reaches exactly the device that owns the address.  \<open>Systems\<close> is the contract \<open>guarded_system\<close> of a component that never gets stuck, interpreted on the transport and on the machine.  The operations
  of the machine are atomic: an access of a vCPU and a change of the set of devices do not overlap, as the reload of the published I/O manager and the locks of devices and managers make it.

  \<^bold>\<open>Not modelled.\<close>
  \<^item> aarch64 and TDX variants, and features the x86_64 build does not enable.
  \<^item> In dragonball: the vCPU manager (creation, register set-up and hot-plug of vCPUs), the virtual machine and its start-up, API server and configuration managers, the managers of the individual device kinds, virtio PCI and VFIO devices, console and legacy
    devices: bookkeeping around KVM, files and event loops.  The device manager is modelled for virtio MMIO devices only; the handles of guest memory and address space it passes on are opaque.
  \<^item> Other crates: \<open>dbs_acpi\<close>, \<open>dbs_arch\<close>, \<open>dbs_boot\<close> (constants apart), \<open>dbs_legacy_devices\<close>, \<open>dbs_pci\<close>, \<open>dbs_tdx\<close>, \<open>dbs_upcall\<close>, the rest of \<open>dbs_utils\<close>, and the virtio backends other than vsock; the device and epoll handler of vsock
    around the muxer.  A backend is a parameter of the transport.
  \<^item> Weak memory, the interleaving of several threads inside one locked operation, and lock poisoning.
  \<^item> The rest of the repository: agent, rustjail, shared libraries, both runtimes, policy, tools and tests, which are services over system calls and RPC.
\<close>

end
